(* ===== verification/Atlas_Prelude.thy ===== *)
theory Atlas_Prelude
  imports Complex_Main "HOL-Library.AList" "HOL-Library.Sublist" "HOL-Library.Multiset"
begin

text \<open>
  Shared vocabulary of the development: results with errors as values, Python's
  insertion-ordered dictionaries as association lists, first-seen de-duplication, and the
  collections of facts the component theories extend.
\<close>

named_theorems res_simps \<open>equations for results with errors as values\<close>

named_theorems dict_simps \<open>laws of insertion-ordered dictionaries\<close>

section \<open>Results\<close>

text \<open>
  A Python function that may raise is modelled with the sum type: \<open>Inl\<close> carries the
  exception and \<open>Inr\<close> the returned value.
\<close>

type_synonym ('e, 'a) result = "'e + 'a"

definition res_bind :: "('e, 'a) result \<Rightarrow> ('a \<Rightarrow> ('e, 'b) result) \<Rightarrow> ('e, 'b) result" where
  "res_bind r f = (case r of Inl e \<Rightarrow> Inl e | Inr a \<Rightarrow> f a)"

lemma res_bind_simps [simp, res_simps]:
  "res_bind (Inl e) f = Inl e"
  "res_bind (Inr a) f = f a"
  by (simp_all add: res_bind_def)

lemma res_bind_Inr_iff: "res_bind r f = Inr b \<longleftrightarrow> (\<exists>a. r = Inr a \<and> f a = Inr b)"
  by (cases r) simp_all

lemma res_bind_Inl_iff:
  "res_bind r f = Inl e \<longleftrightarrow> r = Inl e \<or> (\<exists>a. r = Inr a \<and> f a = Inl e)"
  by (cases r) simp_all

definition guard :: "bool \<Rightarrow> 'e \<Rightarrow> ('e, unit) result" where
  "guard b e = (if b then Inr () else Inl e)"

lemma guard_simps [simp, res_simps]:
  "guard True e = Inr ()"
  "guard False e = Inl e"
  "guard b e = Inr u \<longleftrightarrow> b"
  "guard b e = Inl e' \<longleftrightarrow> \<not> b \<and> e' = e"
  by (auto simp: guard_def)

definition is_ok :: "('e, 'a) result \<Rightarrow> bool" where
  "is_ok r = (case r of Inl _ \<Rightarrow> False | Inr _ \<Rightarrow> True)"

lemma is_ok_simps [simp, res_simps]:
  "is_ok (Inl e) = False"
  "is_ok (Inr a) = True"
  by (simp_all add: is_ok_def)

lemma is_ok_bind [simp, res_simps]:
  "is_ok (res_bind r f) \<longleftrightarrow> (\<exists>a. r = Inr a \<and> is_ok (f a))"
  by (cases r) simp_all

lemma is_ok_guard [simp, res_simps]: "is_ok (guard b e) = b"
  by (simp add: guard_def)

text \<open>A list comprehension whose body may raise stops at the first error.\<close>

fun res_map :: "('a \<Rightarrow> ('e, 'b) result) \<Rightarrow> 'a list \<Rightarrow> ('e, 'b list) result" where
  "res_map f [] = Inr []"
| "res_map f (x # xs) =
     (case f x of Inl e \<Rightarrow> Inl e
      | Inr y \<Rightarrow> (case res_map f xs of Inl e \<Rightarrow> Inl e | Inr ys \<Rightarrow> Inr (y # ys)))"

lemma res_map_Inr_iff:
  "res_map f xs = Inr ys \<longleftrightarrow> list_all2 (\<lambda>x y. f x = Inr y) xs ys"
proof (induction xs arbitrary: ys)
  case Nil
  show ?case by auto
next
  case (Cons x xs)
  show ?case
    by (cases ys; cases "f x"; cases "res_map f xs") (auto simp: Cons.IH [symmetric])
qed

lemma res_map_length: "res_map f xs = Inr ys \<Longrightarrow> length ys = length xs"
  by (auto simp: res_map_Inr_iff dest: list_all2_lengthD)

lemma res_map_ok_iff: "is_ok (res_map f xs) \<longleftrightarrow> (\<forall>x\<in>set xs. is_ok (f x))"
  by (induction xs) (auto split: sum.splits simp: is_ok_def)

section \<open>Dictionaries\<close>

text \<open>
  A Python dictionary keeps its insertion order: assigning to a present key replaces the
  value in place, assigning to a new key appends. This is \<open>AList.update\<close> on an association
  list whose keys are distinct.
\<close>

type_synonym ('k, 'v) dict = "('k \<times> 'v) list"

abbreviation dict_get :: "('k, 'v) dict \<Rightarrow> 'k \<Rightarrow> 'v option" where
  "dict_get d k \<equiv> map_of d k"

abbreviation dict_set :: "'k \<Rightarrow> 'v \<Rightarrow> ('k, 'v) dict \<Rightarrow> ('k, 'v) dict" where
  "dict_set k v d \<equiv> AList.update k v d"

definition dict_wf :: "('k, 'v) dict \<Rightarrow> bool" where
  "dict_wf d = distinct (map fst d)"

locale py_dict =
  fixes emp :: "'d"
    and get :: "'d \<Rightarrow> 'k \<Rightarrow> 'v option"
    and put :: "'k \<Rightarrow> 'v \<Rightarrow> 'd \<Rightarrow> 'd"
    and inv :: "'d \<Rightarrow> bool"
    and keys :: "'d \<Rightarrow> 'k list"
  assumes get_emp: "get emp k = None"
    and get_put: "get (put k v d) k' = (if k = k' then Some v else get d k')"
    and inv_emp: "inv emp"
    and inv_put: "inv d \<Longrightarrow> inv (put k v d)"
    and keys_put: "inv d \<Longrightarrow>
      keys (put k v d) = (if get d k = None then keys d @ [k] else keys d)"
    and keys_get: "k \<in> set (keys d) \<longleftrightarrow> get d k \<noteq> None"
    and keys_distinct: "inv d \<Longrightarrow> distinct (keys d)"
begin

text \<open>Filling a dictionary from a list of pairs: the last binding of a key wins.\<close>

definition fill :: "('k \<times> 'v) list \<Rightarrow> 'd \<Rightarrow> 'd" where
  "fill kvs d = fold (\<lambda>(k, v). put k v) kvs d"

lemma inv_fill: "inv d \<Longrightarrow> inv (fill kvs d)"
  unfolding fill_def by (induction kvs arbitrary: d) (auto simp: inv_put)

lemma get_fill:
  "get (fill kvs d) k = (case map_of (rev kvs) k of Some v \<Rightarrow> Some v | None \<Rightarrow> get d k)"
  unfolding fill_def
  by (induction kvs arbitrary: d) (auto simp: get_put map_add_def split: option.splits)

lemma get_fill_mem: "(k, v) \<in> set kvs \<Longrightarrow> get (fill kvs d) k \<noteq> None"
  by (auto simp: get_fill map_of_eq_None_iff rev_image_eqI split: option.splits)

end

lemma map_of_dict_set [simp, dict_simps]:
  "dict_get (dict_set k v d) k' = (if k = k' then Some v else dict_get d k')"
  by (simp add: update_conv')

lemma dict_keys_update:
  "map fst (dict_set k v d) = (if k \<in> set (map fst d) then map fst d else map fst d @ [k])"
  by (induction d) auto

interpretation pd: py_dict "[]" map_of AList.update dict_wf "map fst"
proof
  fix d :: "('a \<times> 'b) list" and k :: 'a and v :: 'b
  assume "dict_wf d"
  then show "dict_wf (dict_set k v d)"
    by (simp add: dict_wf_def distinct_update)
  show "map fst (dict_set k v d) = (if dict_get d k = None then map fst d @ [k] else map fst d)"
    by (simp add: dict_keys_update map_of_eq_None_iff)
qed (auto simp: dict_wf_def map_of_eq_None_iff dest: map_of_SomeD)

section \<open>First-seen de-duplication\<close>

text \<open>\<open>list(dict.fromkeys(xs))\<close>: the distinct elements in first-seen order.\<close>

fun nub_from :: "'a list \<Rightarrow> 'a list \<Rightarrow> 'a list" where
  "nub_from seen [] = []"
| "nub_from seen (x # xs) =
     (if x \<in> set seen then nub_from seen xs else x # nub_from (x # seen) xs)"

abbreviation nub :: "'a list \<Rightarrow> 'a list" where
  "nub xs \<equiv> nub_from [] xs"

lemma set_nub_from: "set (nub_from seen xs) = set xs - set seen"
  by (induction xs arbitrary: seen) auto

lemma distinct_nub_from: "distinct (nub_from seen xs)"
  by (induction xs arbitrary: seen) (auto simp: set_nub_from)

lemma set_nub [simp]: "set (nub xs) = set xs"
  by (simp add: set_nub_from)

lemma distinct_nub [simp]: "distinct (nub xs)"
  by (rule distinct_nub_from)

lemma nub_eq_Nil [simp]: "nub xs = [] \<longleftrightarrow> xs = []"
  by (cases xs) simp_all

section \<open>Counting\<close>

definition count_if :: "('a \<Rightarrow> bool) \<Rightarrow> 'a list \<Rightarrow> nat" where
  "count_if p xs = length (filter p xs)"

lemma count_if_le: "count_if p xs \<le> length xs"
  by (simp add: count_if_def)

lemma count_if_all: "count_if p xs = length xs \<longleftrightarrow> (\<forall>x\<in>set xs. p x)"
proof
  assume "count_if p xs = length xs"
  then have "filter p xs = xs"
    by (metis count_if_def filter_id_conv length_filter_less nat_neq_iff)
  then show "\<forall>x\<in>set xs. p x"
    by (metis filter_id_conv)
qed (simp add: count_if_def)

lemma count_if_0: "count_if p xs = 0 \<longleftrightarrow> (\<forall>x\<in>set xs. \<not> p x)"
  by (simp add: count_if_def filter_empty_conv)

end
