(* ===== verification/Py_Float.thy ===== *)
theory Py_Float
  imports Atlas_Prelude
begin

text \<open>
  Python's \<open>float\<close>: IEEE-754 binary64 with round-half-to-even. A finite value is the
  rational it denotes; every arithmetic operation computes the exact result and rounds it to
  53 significant bits (fewer below the normal range), overflowing to an infinity. The sign of
  zero is not represented: nothing the modelled code computes or compares depends on it.
  The facts the component theories use are monotonicity and symmetry of the rounding, its
  exactness on representable values, and how comparisons treat NaN.
\<close>

section \<open>Rounding an exact rational\<close>

text \<open>Nearest integer, ties to even: Python's \<open>round(x)\<close> on an exact value.\<close>

definition rnd_even :: "rat \<Rightarrow> int" where
  "rnd_even x =
     (let f = \<lfloor>x\<rfloor>; r = x - of_int f
      in if r < 1 / 2 then f
         else if r > 1 / 2 then f + 1
         else if even f then f else f + 1)"

lemma rnd_even_of_int [simp]: "rnd_even (of_int n) = n"
  by (simp add: rnd_even_def)

lemma rnd_even_bounds: "of_int (rnd_even x) \<le> x + 1 / 2 \<and> x - 1 / 2 \<le> of_int (rnd_even x)"
  unfolding rnd_even_def Let_def by (auto, linarith+)

lemma rnd_even_mono: "x \<le> y \<Longrightarrow> rnd_even x \<le> rnd_even y"
proof (rule ccontr)
  assume le: "x \<le> y" and "\<not> rnd_even x \<le> rnd_even y"
  then have gt: "rnd_even y + 1 \<le> rnd_even x" by simp
  have "of_int (rnd_even y) + (1::rat) \<le> of_int (rnd_even x)"
    using gt by (metis of_int_1 of_int_add of_int_le_iff)
  with rnd_even_bounds [of x] rnd_even_bounds [of y] le
  have xy: "x = y" by linarith
  with gt show False by simp
qed

lemma rnd_even_uminus: "rnd_even (- x) = - rnd_even x"
proof (cases "x = of_int \<lfloor>x\<rfloor>")
  case True
  then show ?thesis by (metis of_int_minus rnd_even_of_int)
next
  case False
  then have fl: "\<lfloor>- x\<rfloor> = - \<lfloor>x\<rfloor> - 1"
    by (metis ceiling_altdef ceiling_def minus_add_distrib minus_minus uminus_add_conv_diff diff_minus_eq_add)
  show ?thesis
    unfolding rnd_even_def Let_def fl by (auto; linarith)
qed

section \<open>Binary exponent\<close>

function ilog2 :: "int \<Rightarrow> int" where
  "ilog2 n = (if n < 2 then 0 else 1 + ilog2 (n div 2))"
  by pat_completeness auto
termination
  by (relation "measure nat") auto

declare ilog2.simps [simp del]

lemma ilog2_nonneg: "0 \<le> ilog2 n"
  by (induction n rule: ilog2.induct) (subst ilog2.simps, simp)

lemma ilog2_bounds: "0 < n \<Longrightarrow> 2 ^ nat (ilog2 n) \<le> n \<and> n < 2 ^ nat (ilog2 n + 1)"
proof (induction n rule: ilog2.induct)
  case (1 n)
  show ?case
  proof (cases "n < 2")
    case True
    with "1.prems" show ?thesis by (simp add: ilog2.simps)
  next
    case False
    define k where "k = nat (ilog2 (n div 2))"
    have eq: "nat (ilog2 n) = Suc k" "nat (ilog2 n + 1) = Suc (Suc k)"
      using False ilog2_nonneg [of "n div 2"] unfolding k_def
      by (simp_all add: ilog2.simps [of n])
    have "2 ^ k \<le> n div 2 \<and> n div 2 < 2 ^ Suc k"
      using "1.IH" False ilog2_nonneg [of "n div 2"]
      by (simp add: k_def Suc_nat_eq_nat_zadd1 add.commute)
    then show ?thesis unfolding eq by auto
  qed
qed

text \<open>\<open>expo x\<close> is the floor of the base-2 logarithm of a positive \<open>x\<close>.\<close>

definition expo :: "rat \<Rightarrow> int" where
  "expo x =
     (if 1 \<le> x then ilog2 \<lfloor>x\<rfloor> else - ilog2 (\<lceil>1 / x\<rceil> - 1) - 1)"

lemma ilog2_rat_bounds:
  assumes "0 < n"
  shows "(2::rat) powi ilog2 n \<le> of_int n \<and> of_int n + 1 \<le> (2::rat) powi (ilog2 n + 1)"
proof -
  have b: "2 ^ nat (ilog2 n) \<le> n" "n + 1 \<le> 2 ^ nat (ilog2 n + 1)"
    using ilog2_bounds [OF assms] by simp_all
  have "(of_int (2 ^ nat (ilog2 n)) :: rat) \<le> of_int n"
    "(of_int (n + 1) :: rat) \<le> of_int (2 ^ nat (ilog2 n + 1))"
    using b by (simp_all only: of_int_le_iff)
  then show ?thesis
    using ilog2_nonneg [of n] by (simp add: power_int_def)
qed

lemma expo_bounds:
  assumes "0 < x"
  shows "2 powi expo x \<le> x \<and> x < 2 powi (expo x + 1)"
proof (cases "1 \<le> x")
  case True
  then have "0 < \<lfloor>x\<rfloor>" by (simp add: le_floor_iff less_le_trans zero_less_one)
  from ilog2_rat_bounds [OF this] show ?thesis
    using True floor_correct [of x] by (simp add: expo_def) linarith
next
  case False
  have inv: "1 < 1 / x" using False assms by simp
  define n where "n = \<lceil>1 / x\<rceil> - 1"
  have "1 < \<lceil>1 / x\<rceil>" using inv by (simp only: less_ceiling_iff of_int_1)
  then have n: "0 < n" by (simp add: n_def)
  have cl: "of_int n < 1 / x" "1 / x \<le> of_int n + 1"
    using ceiling_correct [of "1 / x"] unfolding n_def by auto
  have l1: "2 powi ilog2 n < 1 / x" and l2: "1 / x \<le> 2 powi (ilog2 n + 1)"
    using ilog2_rat_bounds [OF n] cl by linarith+
  have e: "expo x = - (ilog2 n + 1)" "expo x + 1 = - ilog2 n"
    using False by (simp_all add: expo_def n_def)
  have "1 / 2 powi (ilog2 n + 1) \<le> x"
    using l2 assms by (simp add: field_simps)
  moreover have "x < 1 / 2 powi ilog2 n"
    using l1 assms by (simp add: field_simps)
  moreover have "(2::rat) powi expo x = 1 / 2 powi (ilog2 n + 1)"
    unfolding e(1) power_int_minus inverse_eq_divide ..
  moreover have "(2::rat) powi (expo x + 1) = 1 / 2 powi ilog2 n"
    unfolding e(2) power_int_minus inverse_eq_divide ..
  ultimately show ?thesis by simp
qed

lemma pow2_less_iff: "(2::rat) powi m < 2 powi n \<longleftrightarrow> m < n"
proof
  assume "(2::rat) powi m < 2 powi n"
  then show "m < n"
    by (meson linorder_not_less one_le_numeral power_int_increasing)
qed (simp add: power_int_strict_increasing)

lemma pow2_le_iff: "(2::rat) powi m \<le> 2 powi n \<longleftrightarrow> m \<le> n"
  by (metis linorder_not_less pow2_less_iff)

lemma expo_unique:
  assumes "2 powi e \<le> x" "x < 2 powi (e + 1)"
  shows "expo x = e"
proof -
  have pos: "0 < x" using assms(1) zero_less_power_int [of "2::rat" e] by linarith
  have "2 powi expo x < (2::rat) powi (e + 1)" "(2::rat) powi e < 2 powi (expo x + 1)"
    using expo_bounds [OF pos] assms by linarith+
  then have "expo x < e + 1" "e < expo x + 1"
    by (simp_all add: pow2_less_iff)
  then show ?thesis by simp
qed

lemma expo_mono: "0 < x \<Longrightarrow> x \<le> y \<Longrightarrow> expo x \<le> expo y"
proof -
  assume "0 < x" "x \<le> y"
  then have "2 powi expo x < (2::rat) powi (expo y + 1)"
    using expo_bounds [of x] expo_bounds [of y] by linarith
  then show ?thesis by (simp add: pow2_less_iff)
qed

section \<open>Rounding to 53 bits\<close>

text \<open>
  The exponent of the last representable bit of a value of exponent \<open>e\<close>: 52 places below the
  leading bit, but never below the least subnormal.
\<close>

definition ulp_exp :: "rat \<Rightarrow> int" where
  "ulp_exp x = max (expo \<bar>x\<bar> - 52) (- 1074)"

definition round64 :: "rat \<Rightarrow> rat" where
  "round64 x =
     (if x = 0 then 0
      else let q = ulp_exp x in of_int (rnd_even (x / 2 powi q)) * 2 powi q)"

lemma round64_0 [simp]: "round64 0 = 0"
  by (simp add: round64_def)

lemma round64_uminus: "round64 (- x) = - round64 x"
  by (simp add: round64_def ulp_exp_def Let_def rnd_even_uminus)

lemma round64_at:
  "x \<noteq> 0 \<Longrightarrow> round64 x = of_int (rnd_even (x / 2 powi ulp_exp x)) * 2 powi ulp_exp x"
  by (simp add: round64_def Let_def)

text \<open>A value that is an integer multiple of its last place is left unchanged.\<close>

lemma round64_exact:
  assumes "ulp_exp x \<le> q" "x = of_int m * 2 powi q"
  shows "round64 x = x"
proof (cases "x = 0")
  case False
  define p where "p = ulp_exp x"
  have "x / 2 powi p = of_int m * 2 powi (q - p)"
    using assms(2) by (simp add: power_int_diff)
  also have "\<dots> = of_int (m * 2 ^ nat (q - p))"
    using assms(1) by (simp add: p_def power_int_def)
  finally have "rnd_even (x / 2 powi p) = m * 2 ^ nat (q - p)"
    and "x / 2 powi p = of_int (m * 2 ^ nat (q - p))"
    by (simp_all only: rnd_even_of_int)
  then have "of_int (rnd_even (x / 2 powi p)) = x / 2 powi p"
    by simp
  with False show ?thesis
    by (simp add: round64_at p_def)
qed simp

lemma pow2_div:
  assumes "p \<le> e"
  shows "(2::rat) powi e / 2 powi p = of_int (2 ^ nat (e - p))"
proof -
  have "(2::rat) powi e / 2 powi p = 2 powi (e - p)"
    by (simp add: power_int_diff)
  also have "\<dots> = of_int (2 ^ nat (e - p))"
    using assms by (simp add: power_int_def)
  finally show ?thesis .
qed

text \<open>Powers of two at or above the last place of \<open>x\<close> bound the rounding from either side.\<close>

lemma round64_le_pow2:
  assumes "x \<noteq> 0" "x \<le> 2 powi e" "ulp_exp x \<le> e"
  shows "round64 x \<le> 2 powi e"
proof -
  define p where "p = ulp_exp x"
  have eq: "(2::rat) powi e / 2 powi p = of_int (2 ^ nat (e - p))"
    using assms(3) unfolding p_def by (rule pow2_div)
  have "x / 2 powi p \<le> 2 powi e / 2 powi p"
    using assms(2) by (simp add: divide_right_mono)
  then have "rnd_even (x / 2 powi p) \<le> rnd_even (2 powi e / 2 powi p)"
    by (rule rnd_even_mono)
  then have "of_int (rnd_even (x / 2 powi p)) \<le> (2::rat) powi e / 2 powi p"
    unfolding eq by (simp only: rnd_even_of_int of_int_le_iff)
  then show ?thesis
    using assms(1) by (simp add: round64_at p_def [symmetric] pos_le_divide_eq)
qed

lemma pow2_le_round64:
  assumes "x \<noteq> 0" "2 powi e \<le> x" "ulp_exp x \<le> e"
  shows "2 powi e \<le> round64 x"
proof -
  define p where "p = ulp_exp x"
  have eq: "(2::rat) powi e / 2 powi p = of_int (2 ^ nat (e - p))"
    using assms(3) unfolding p_def by (rule pow2_div)
  have "2 powi e / 2 powi p \<le> x / 2 powi p"
    using assms(2) by (simp add: divide_right_mono)
  then have "rnd_even (2 powi e / 2 powi p) \<le> rnd_even (x / 2 powi p)"
    by (rule rnd_even_mono)
  then have "(2::rat) powi e / 2 powi p \<le> of_int (rnd_even (x / 2 powi p))"
    unfolding eq by (simp only: rnd_even_of_int of_int_le_iff)
  then show ?thesis
    using assms(1) by (simp add: round64_at p_def [symmetric] pos_divide_le_eq)
qed

lemma round64_nonneg: "0 \<le> x \<Longrightarrow> 0 \<le> round64 x"
proof -
  assume "0 \<le> x"
  then have "rnd_even 0 \<le> rnd_even (x / 2 powi ulp_exp x)"
    by (intro rnd_even_mono) simp
  then have "0 \<le> rnd_even (x / 2 powi ulp_exp x)"
    using rnd_even_of_int [of 0] by simp
  then show ?thesis by (simp add: round64_def Let_def)
qed

lemma round64_mono_pos:
  assumes "0 < x" "x \<le> y"
  shows "round64 x \<le> round64 y"
proof (cases "ulp_exp x = ulp_exp y")
  case True
  have "x / 2 powi ulp_exp x \<le> y / 2 powi ulp_exp x"
    using assms(2) by (simp add: divide_right_mono)
  then have "rnd_even (x / 2 powi ulp_exp x) \<le> rnd_even (y / 2 powi ulp_exp x)"
    by (rule rnd_even_mono)
  with True assms show ?thesis
    by (simp add: round64_at)
next
  case False
  have em: "expo x \<le> expo y" using expo_mono assms by blast
  have lt: "ulp_exp x < ulp_exp y" "expo x < expo y" "ulp_exp y = expo y - 52"
    using False em assms by (auto simp: ulp_exp_def)
  have b: "x < 2 powi (expo x + 1)" "2 powi expo y \<le> y"
    using expo_bounds [of x] expo_bounds [of y] assms by auto
  have "(2::rat) powi (expo x + 1) \<le> 2 powi expo y"
    unfolding pow2_le_iff using lt(2) by linarith
  then have "round64 x \<le> 2 powi expo y"
    using b lt assms by (intro round64_le_pow2) auto
  also have "\<dots> \<le> round64 y"
    using b lt assms by (intro pow2_le_round64) auto
  finally show ?thesis .
qed

theorem round64_mono: "x \<le> y \<Longrightarrow> round64 x \<le> round64 y"
proof -
  assume le: "x \<le> y"
  consider "0 < x" | "x \<le> 0" "0 \<le> y" | "y < 0" by linarith
  then show ?thesis
  proof cases
    case 1
    with le show ?thesis by (simp add: round64_mono_pos)
  next
    case 2
    then have "0 \<le> - round64 x" "0 \<le> round64 y"
      using round64_nonneg [of "- x"] round64_nonneg [of y] by (simp_all add: round64_uminus)
    then show ?thesis by linarith
  next
    case 3
    then have "round64 (- y) \<le> round64 (- x)"
      using le by (intro round64_mono_pos) auto
    then show ?thesis by (simp add: round64_uminus)
  qed
qed

lemma ulp_exp_le_of_int:
  assumes "m \<noteq> 0" "\<bar>m\<bar> < 2 ^ 53" "- 1074 \<le> q"
  shows "ulp_exp (of_int m * 2 powi q) \<le> q"
proof -
  define x where "x = (of_int m * 2 powi q :: rat)"
  have ax: "\<bar>x\<bar> = of_int \<bar>m\<bar> * 2 powi q"
    by (simp add: x_def abs_mult)
  have pos: "0 < \<bar>x\<bar>" using assms(1) by (simp add: x_def)
  have "(of_int \<bar>m\<bar> :: rat) < 2 ^ 53"
    using assms(2) by (metis of_int_less_iff of_int_numeral of_int_power)
  then have "\<bar>x\<bar> < 2 ^ 53 * 2 powi q"
    unfolding ax by (simp add: mult_strict_right_mono)
  also have "(2::rat) ^ 53 * 2 powi q = 2 powi (q + 53)"
    by (simp add: power_int_add)
  finally have "2 powi expo \<bar>x\<bar> < (2::rat) powi (q + 53)"
    using expo_bounds [OF pos] by linarith
  then have "expo \<bar>x\<bar> < q + 53" by (simp only: pow2_less_iff)
  with assms(3) show ?thesis by (simp add: ulp_exp_def x_def)
qed

lemma round64_dyadic:
  assumes "\<bar>m\<bar> < 2 ^ 53" "- 1074 \<le> q"
  shows "round64 (of_int m * 2 powi q) = of_int m * 2 powi q"
proof (cases "m = 0")
  case False
  show ?thesis
    by (rule round64_exact [OF ulp_exp_le_of_int [OF False assms] refl])
qed simp

corollary round64_of_int: "\<bar>m\<bar> < 2 ^ 53 \<Longrightarrow> round64 (of_int m) = of_int m"
  using round64_dyadic [of m 0] by simp

lemma round64_1 [simp]: "round64 1 = 1"
  using round64_of_int [of 1] by simp

lemma round64_significand_bound: "\<bar>rnd_even (x / 2 powi ulp_exp x)\<bar> \<le> 2 ^ 53"
proof (cases "x = 0")
  case False
  define p where "p = ulp_exp x"
  have "\<bar>x\<bar> < 2 powi (expo \<bar>x\<bar> + 1)"
    using expo_bounds [of "\<bar>x\<bar>"] False by simp
  moreover have "(2::rat) powi (expo \<bar>x\<bar> + 1) \<le> 2 powi (p + 53)"
    unfolding pow2_le_iff p_def ulp_exp_def by simp
  ultimately have "\<bar>x\<bar> / 2 powi p \<le> 2 powi (p + 53) / 2 powi p"
    by (intro divide_right_mono) simp_all
  also have "(2::rat) powi (p + 53) / 2 powi p = of_int (2 ^ 53)"
    using pow2_div [of p "p + 53"] by simp
  finally have b: "\<bar>x / 2 powi p\<bar> \<le> of_int (2 ^ 53)"
    by simp
  have "x / 2 powi p \<le> of_int (2 ^ 53)" "of_int (- (2 ^ 53)) \<le> x / 2 powi p"
    using abs_le_D1 [OF b] abs_le_D2 [OF b] by (simp_all del: of_int_numeral of_int_power)
  then have "rnd_even (x / 2 powi p) \<le> rnd_even (of_int (2 ^ 53))"
    and "rnd_even (of_int (- (2 ^ 53))) \<le> rnd_even (x / 2 powi p)"
    using rnd_even_mono by blast+
  then show ?thesis
    unfolding p_def [symmetric] rnd_even_of_int by (simp only: abs_le_iff) simp
qed (simp add: rnd_even_def)

theorem round64_idem [simp]: "round64 (round64 x) = round64 x"
proof (cases "x = 0")
  case False
  define p m where "p = ulp_exp x" and "m = rnd_even (x / 2 powi ulp_exp x)"
  have r: "round64 x = of_int m * 2 powi p"
    using False by (simp add: round64_at p_def m_def)
  have p: "- 1074 \<le> p" by (simp add: p_def ulp_exp_def)
  have "\<bar>m\<bar> < 2 ^ 53 \<or> m = 2 ^ 53 \<or> m = - (2 ^ 53)"
    using round64_significand_bound [of x] unfolding m_def [symmetric] by linarith
  then show ?thesis
  proof (elim disjE)
    assume "\<bar>m\<bar> < 2 ^ 53"
    then show ?thesis unfolding r using p by (rule round64_dyadic)
  next
    assume "m = 2 ^ 53"
    then have "round64 x = of_int (2 ^ 52) * 2 powi (p + 1)"
      unfolding r by (simp add: power_int_add)
    then show ?thesis using round64_dyadic [of "2 ^ 52" "p + 1"] p by simp
  next
    assume "m = - (2 ^ 53)"
    then have "round64 x = of_int (- (2 ^ 52)) * 2 powi (p + 1)"
      unfolding r by (simp add: power_int_add)
    then show ?thesis using round64_dyadic [of "- (2 ^ 52)" "p + 1"] p by simp
  qed
qed simp

section \<open>The type of floats\<close>

datatype pyfloat = Fin rat | PInf | NInf | NaN

definition fl :: "rat \<Rightarrow> pyfloat" where
  "fl x =
     (let r = round64 x
      in if 2 ^ 1024 \<le> r then PInf else if r \<le> - (2 ^ 1024) then NInf else Fin r)"

text \<open>A value a binary64 can hold.\<close>

fun is_f64 :: "pyfloat \<Rightarrow> bool" where
  "is_f64 (Fin r) \<longleftrightarrow> round64 r = r \<and> \<bar>r\<bar> < 2 ^ 1024"
| "is_f64 _ \<longleftrightarrow> True"

definition is_nan :: "pyfloat \<Rightarrow> bool" where
  "is_nan x \<longleftrightarrow> x = NaN"

lemma is_nan_simps [simp]:
  "\<not> is_nan (Fin r)" "\<not> is_nan PInf" "\<not> is_nan NInf" "is_nan NaN"
  by (simp_all add: is_nan_def)

lemma is_f64_fl [simp]: "is_f64 (fl x)"
  by (auto simp: fl_def Let_def abs_less_iff not_le)

lemma fl_Fin: "is_f64 (Fin r) \<Longrightarrow> fl r = Fin r"
  by (auto simp: fl_def Let_def)

lemma fl_not_nan [simp]: "fl x \<noteq> NaN"
  by (simp add: fl_def Let_def)

text \<open>
  Evaluation: the overflow test needs the exponent only, and a value whose exponent is known
  rounds by one integer rounding.
\<close>

lemma expo_less_iff: "0 < x \<Longrightarrow> expo x < e \<longleftrightarrow> x < 2 powi e"
proof
  assume "0 < x" and "expo x < e"
  then have "(2::rat) powi (expo x + 1) \<le> 2 powi e"
    unfolding pow2_le_iff by linarith
  with expo_bounds [OF \<open>0 < x\<close>] show "x < 2 powi e" by linarith
next
  assume "0 < x" and "x < 2 powi e"
  with expo_bounds [OF \<open>0 < x\<close>] have "(2::rat) powi expo x < 2 powi e" by linarith
  then show "expo x < e" by (simp only: pow2_less_iff)
qed

lemma fl_code [code]:
  "fl x =
     (let r = round64 x
      in if r = 0 \<or> expo \<bar>r\<bar> < 1024 then Fin r else if 0 < r then PInf else NInf)"
proof (cases "round64 x = 0")
  case False
  then have "expo \<bar>round64 x\<bar> < 1024 \<longleftrightarrow> \<bar>round64 x\<bar> < 2 ^ 1024"
    using expo_less_iff [of "\<bar>round64 x\<bar>" 1024] by simp
  with False show ?thesis by (auto simp: fl_def Let_def abs_less_iff not_less)
qed (simp add: fl_def)

lemma fl_at:
  assumes "2 powi e \<le> x" "x < 2 powi (e + 1)" "- 1022 \<le> e" "e \<le> 1022"
  shows "fl x = Fin (of_int (rnd_even (x / 2 powi (e - 52))) * 2 powi (e - 52))"
proof -
  have pos: "0 < x" using assms(1) zero_less_power_int [of "2::rat" e] by linarith
  have ex: "expo x = e" using assms(1,2) by (rule expo_unique)
  have u: "ulp_exp x = e - 52" using pos ex assms(3) by (simp add: ulp_exp_def)
  have r: "round64 x = of_int (rnd_even (x / 2 powi (e - 52))) * 2 powi (e - 52)"
    using pos u by (simp add: round64_at)
  have "round64 x \<le> 2 powi (e + 1)"
    using assms pos u by (intro round64_le_pow2) auto
  also have "\<dots> < 2 powi 1024"
    unfolding pow2_less_iff using assms(4) by simp
  finally have "round64 x < 2 ^ 1024" by simp
  moreover have "0 \<le> round64 x" using pos by (simp add: round64_nonneg)
  ultimately show ?thesis unfolding r [symmetric] by (simp add: fl_def Let_def)
qed

lemma fl_small_int: "\<bar>m\<bar> < 2 ^ 53 \<Longrightarrow> fl (of_int m) = Fin (of_int m)"
proof -
  assume m: "\<bar>m\<bar> < 2 ^ 53"
  have "\<bar>of_int m :: rat\<bar> < of_int (2 ^ 53)"
    using m by (metis of_int_abs of_int_less_iff)
  also have "\<dots> \<le> (2::rat) ^ 1024"
    using power_increasing [of 53 1024 "2::rat"] by simp
  finally show ?thesis using m by (intro fl_Fin) (simp add: round64_of_int)
qed

lemma fl_0 [simp]: "fl 0 = Fin 0" and fl_1 [simp]: "fl 1 = Fin 1"
  using fl_small_int [of 0] fl_small_int [of 1] by simp_all

lemma fl_numeral [simp]: "numeral w < (2 ^ 53 :: int) \<Longrightarrow> fl (numeral w) = Fin (numeral w)"
  using fl_small_int [of "numeral w"] by simp

section \<open>Comparison\<close>

fun f_le :: "pyfloat \<Rightarrow> pyfloat \<Rightarrow> bool" where
  "f_le NaN _ = False"
| "f_le _ NaN = False"
| "f_le NInf _ = True"
| "f_le _ PInf = True"
| "f_le (Fin a) (Fin b) = (a \<le> b)"
| "f_le _ _ = False"

definition f_lt :: "pyfloat \<Rightarrow> pyfloat \<Rightarrow> bool" where
  "f_lt x y \<longleftrightarrow> f_le x y \<and> \<not> f_le y x"

definition f_eq :: "pyfloat \<Rightarrow> pyfloat \<Rightarrow> bool" where
  "f_eq x y \<longleftrightarrow> x = y \<and> x \<noteq> NaN"

lemma f_le_refl [simp]: "f_le x x \<longleftrightarrow> x \<noteq> NaN"
  by (cases x) simp_all

lemma f_le_NaN [simp]: "f_le x NaN = False" "f_lt x NaN = False" "f_lt NaN x = False"
  by (cases x; simp add: f_lt_def)+

lemma f_lt_Fin [simp]: "f_lt (Fin a) (Fin b) \<longleftrightarrow> a < b"
  by (auto simp: f_lt_def)

lemma f_le_trans [trans]: "f_le x y \<Longrightarrow> f_le y z \<Longrightarrow> f_le x z"
  by (cases x; cases y; cases z) auto

lemma f_le_total: "x \<noteq> NaN \<Longrightarrow> y \<noteq> NaN \<Longrightarrow> f_le x y \<or> f_le y x"
  by (cases x; cases y) auto

lemma not_f_lt: "x \<noteq> NaN \<Longrightarrow> y \<noteq> NaN \<Longrightarrow> \<not> f_lt x y \<longleftrightarrow> f_le y x"
  using f_le_total by (auto simp: f_lt_def)

lemma f_lt_imp_le: "f_lt x y \<Longrightarrow> f_le x y"
  by (simp add: f_lt_def)

lemma f_lt_irrefl [simp]: "\<not> f_lt x x"
  by (simp add: f_lt_def)

lemma f_lt_le_trans: "f_lt x y \<Longrightarrow> f_le y z \<Longrightarrow> f_lt x z"
  by (auto simp: f_lt_def intro: f_le_trans)

lemma f_le_lt_trans: "f_le x y \<Longrightarrow> f_lt y z \<Longrightarrow> f_lt x z"
  by (auto simp: f_lt_def intro: f_le_trans)

lemma f_le_antisym: "f_le x y \<Longrightarrow> f_le y x \<Longrightarrow> x = y"
  by (cases x; cases y) auto

lemma f_le_not_nan: "f_le x y \<Longrightarrow> x \<noteq> NaN \<and> y \<noteq> NaN"
  by auto

theorem fl_mono: "x \<le> y \<Longrightarrow> f_le (fl x) (fl y)"
  using round64_mono [of x y] by (auto simp: fl_def Let_def)

section \<open>Arithmetic\<close>

fun f_neg :: "pyfloat \<Rightarrow> pyfloat" where
  "f_neg (Fin a) = Fin (- a)"
| "f_neg PInf = NInf"
| "f_neg NInf = PInf"
| "f_neg NaN = NaN"

fun f_add :: "pyfloat \<Rightarrow> pyfloat \<Rightarrow> pyfloat" where
  "f_add (Fin a) (Fin b) = fl (a + b)"
| "f_add NaN _ = NaN"
| "f_add _ NaN = NaN"
| "f_add PInf NInf = NaN"
| "f_add NInf PInf = NaN"
| "f_add PInf _ = PInf"
| "f_add _ PInf = PInf"
| "f_add NInf _ = NInf"
| "f_add _ NInf = NInf"

definition f_sub :: "pyfloat \<Rightarrow> pyfloat \<Rightarrow> pyfloat" where
  "f_sub x y = f_add x (f_neg y)"

definition f_sign :: "pyfloat \<Rightarrow> rat" where
  "f_sign x = (case x of Fin a \<Rightarrow> sgn a | PInf \<Rightarrow> 1 | NInf \<Rightarrow> - 1 | NaN \<Rightarrow> 0)"

definition f_mul :: "pyfloat \<Rightarrow> pyfloat \<Rightarrow> pyfloat" where
  "f_mul x y =
     (case (x, y) of
        (Fin a, Fin b) \<Rightarrow> fl (a * b)
      | (NaN, _) \<Rightarrow> NaN
      | (_, NaN) \<Rightarrow> NaN
      | _ \<Rightarrow> (let s = f_sign x * f_sign y
              in if s > 0 then PInf else if s < 0 then NInf else NaN))"

text \<open>True division; a zero divisor raises, which is \<open>None\<close>.\<close>

definition f_div :: "pyfloat \<Rightarrow> pyfloat \<Rightarrow> pyfloat option" where
  "f_div x y =
     (case (x, y) of
        (_, Fin b) \<Rightarrow>
          (if b = 0 then None
           else Some (case x of Fin a \<Rightarrow> fl (a / b) | NaN \<Rightarrow> NaN
                      | _ \<Rightarrow> if f_sign x * sgn b > 0 then PInf else NInf))
      | (NaN, _) \<Rightarrow> Some NaN
      | (_, NaN) \<Rightarrow> Some NaN
      | (Fin a, _) \<Rightarrow> Some (Fin 0)
      | _ \<Rightarrow> Some NaN)"

definition f_abs :: "pyfloat \<Rightarrow> pyfloat" where
  "f_abs x = (case x of Fin a \<Rightarrow> Fin \<bar>a\<bar> | NInf \<Rightarrow> PInf | _ \<Rightarrow> x)"

definition f_of_int :: "int \<Rightarrow> pyfloat" where
  "f_of_int n = fl (of_int n)"

text \<open>\<open>a / b\<close> on integers with a non-zero \<open>b\<close> is the correctly rounded quotient.\<close>

definition int_div :: "int \<Rightarrow> int \<Rightarrow> pyfloat" where
  "int_div a b = fl (of_int a / of_int b)"

text \<open>\<open>round(x, n)\<close>: the exact value is rounded to \<open>n\<close> decimals, ties to even, then to a float.\<close>

definition f_round :: "pyfloat \<Rightarrow> nat \<Rightarrow> pyfloat" where
  "f_round x n =
     (case x of Fin a \<Rightarrow> fl (of_int (rnd_even (a * 10 ^ n)) / 10 ^ n) | _ \<Rightarrow> x)"

text \<open>\<open>max(xs)\<close> keeps the first greatest element under \<open>>\<close>; it is defined on a non-empty list.\<close>

definition f_max :: "pyfloat \<Rightarrow> pyfloat list \<Rightarrow> pyfloat" where
  "f_max x xs = fold (\<lambda>y m. if f_lt m y then y else m) xs x"

lemma is_f64_ops [simp]:
  "is_f64 (f_add x y)" if "is_f64 x" "is_f64 y"
  using that by (cases x; cases y) auto

lemma f_add_mono:
  "f_le x y \<Longrightarrow> f_add x z \<noteq> NaN \<Longrightarrow> f_add y z \<noteq> NaN \<Longrightarrow> f_le (f_add x z) (f_add y z)"
proof (cases x; cases y; cases z)
  fix a b c
  assume "f_le x y" and eq: "x = Fin a" "y = Fin b" "z = Fin c"
  then have "a + c \<le> b + c" by simp
  then show ?thesis unfolding eq f_add.simps by (rule fl_mono)
qed (auto simp: fl_def Let_def)

lemma f_add_ge:
  assumes "is_f64 (Fin a)" "0 \<le> e"
  shows "f_le (Fin a) (f_add (Fin a) (Fin e))"
proof -
  have "f_le (fl a) (fl (a + e))"
    using assms(2) by (intro fl_mono) simp
  then show ?thesis using assms(1) by (simp add: fl_Fin)
qed

lemma f_max_ge: "x \<noteq> NaN \<Longrightarrow> NaN \<notin> set xs \<Longrightarrow> y \<in> set (x # xs) \<Longrightarrow> f_le y (f_max x xs)"
proof (induction xs arbitrary: x y)
  case Nil
  then show ?case by (simp add: f_max_def)
next
  case (Cons z zs)
  define m where "m = (if f_lt x z then z else x)"
  have step: "f_max x (z # zs) = f_max m zs" by (simp add: f_max_def m_def)
  have m: "m \<noteq> NaN" "f_le x m" "f_le z m"
    using Cons.prems by (auto simp: m_def not_f_lt f_lt_imp_le)
  have mm: "f_le m (f_max m zs)"
    using Cons.IH [of m m] Cons.prems m by simp
  consider "y = x" | "y = z" | "y \<in> set zs" using Cons.prems by auto
  then show ?case
  proof cases
    case 3
    then show ?thesis using Cons.IH [of m y] Cons.prems m step by simp
  qed (use m mm step in \<open>auto intro: f_le_trans\<close>)
qed

lemma f_max_mem: "f_max x xs \<in> set (x # xs)"
  unfolding f_max_def by (induction xs arbitrary: x) auto

end
