(* ===== verification/Py_Text.thy ===== *)
theory Py_Text
  imports Py_Float "HOL-Library.Char_ord"
begin

text \<open>
  Python strings and regular expressions. A string is a list of code points up to 255
  (Latin-1); a program string with a larger code point is outside the model. The character
  classes are Python's Unicode classes restricted to that range.

  A regular expression is matched by ordered backtracking, as the \<open>re\<close> module does: the
  matcher returns the positions at which a match can end, in the order in which the engine
  tries them, and the first one is the match. A position is the character before it and the
  rest of the string, which is what a word-boundary assertion looks at. The central fact is
  that the positions found are exactly those the declarative language of the expression
  allows.
\<close>

section \<open>Characters and strings\<close>

definition ord :: "char \<Rightarrow> nat" where
  "ord c = of_char c"

definition is_space :: "char \<Rightarrow> bool" where
  "is_space c = (let n = ord c in (9 \<le> n \<and> n \<le> 13) \<or> (28 \<le> n \<and> n \<le> 32) \<or> n = 133 \<or> n = 160)"

definition is_digit :: "char \<Rightarrow> bool" where
  "is_digit c = (let n = ord c in 48 \<le> n \<and> n \<le> 57)"

definition is_ascii_alnum :: "char \<Rightarrow> bool" where
  "is_ascii_alnum c =
     (let n = ord c in (48 \<le> n \<and> n \<le> 57) \<or> (65 \<le> n \<and> n \<le> 90) \<or> (97 \<le> n \<and> n \<le> 122))"

definition is_word :: "char \<Rightarrow> bool" where
  "is_word c =
     (let n = ord c
      in is_ascii_alnum c \<or> n = 95 \<or> n \<in> {170, 178, 179, 181, 185, 186, 188, 189, 190}
         \<or> (192 \<le> n \<and> n \<noteq> 215 \<and> n \<noteq> 247))"

definition lower_char :: "char \<Rightarrow> char" where
  "lower_char c =
     (let n = ord c
      in if (65 \<le> n \<and> n \<le> 90) \<or> (192 \<le> n \<and> n \<le> 222 \<and> n \<noteq> 215)
         then char_of (n + 32) else c)"

definition str_lower :: "string \<Rightarrow> string" where
  "str_lower s = map lower_char s"

definition rstrip_chars :: "(char \<Rightarrow> bool) \<Rightarrow> string \<Rightarrow> string" where
  "rstrip_chars p s = rev (dropWhile p (rev s))"

definition str_strip :: "string \<Rightarrow> string" where
  "str_strip s = rstrip_chars is_space (dropWhile is_space s)"

text \<open>\<open>s.split()\<close>: the maximal runs of non-space characters.\<close>

function split_ws :: "string \<Rightarrow> string list" where
  "split_ws s =
     (let t = dropWhile is_space s
      in if t = [] then []
         else takeWhile (\<lambda>c. \<not> is_space c) t # split_ws (dropWhile (\<lambda>c. \<not> is_space c) t))"
  by pat_completeness auto
termination
proof (relation "measure length", simp)
  fix s x
  assume x: "x = dropWhile is_space s" and ne: "x \<noteq> []"
  have "\<not> is_space (hd x)" using ne unfolding x by (rule hd_dropWhile)
  then have "length (dropWhile (\<lambda>c. \<not> is_space c) x) < length x"
    using ne by (cases x) (auto simp: le_imp_less_Suc length_dropWhile_le)
  also have "\<dots> \<le> length s" unfolding x by (rule length_dropWhile_le)
  finally show "(dropWhile (\<lambda>c. \<not> is_space c) x, s) \<in> measure length" by simp
qed

declare split_ws.simps [simp del]

text \<open>\<open>needle in hay\<close> and \<open>s.startswith(p)\<close>.\<close>

abbreviation str_in :: "string \<Rightarrow> string \<Rightarrow> bool" where
  "str_in needle hay \<equiv> sublist needle hay"

abbreviation startswith :: "string \<Rightarrow> string \<Rightarrow> bool" where
  "startswith s p \<equiv> prefix p s"

text \<open>\<open>s.partition(c)\<close> for a one-character separator: the parts before and after its first
  occurrence.\<close>

definition partition_at :: "char \<Rightarrow> string \<Rightarrow> string \<times> string" where
  "partition_at c s = (takeWhile (\<lambda>x. x \<noteq> c) s, drop 1 (dropWhile (\<lambda>x. x \<noteq> c) s))"

text \<open>\<open>s.split(c)\<close> for a one-character separator.\<close>

fun split_on :: "char \<Rightarrow> string \<Rightarrow> string list" where
  "split_on c [] = [[]]"
| "split_on c (x # xs) =
     (if x = c then [] # split_on c xs
      else (case split_on c xs of [] \<Rightarrow> [[x]] | w # ws \<Rightarrow> (x # w) # ws))"

lemma split_on_not_Nil [simp]: "split_on c s \<noteq> []"
  by (induction s) (auto split: list.splits)

text \<open>\<open>sep.join(xs)\<close>.\<close>

fun str_join :: "string \<Rightarrow> string list \<Rightarrow> string" where
  "str_join sep [] = []"
| "str_join sep [x] = x"
| "str_join sep (x # y # xs) = x @ sep @ str_join sep (y # xs)"

lemma set_str_join_subset: "x \<in> set xs \<Longrightarrow> set x \<subseteq> set (str_join sep xs)"
  by (induction sep xs rule: str_join.induct) auto

lemma set_str_join: "set (str_join sep xs) \<subseteq> \<Union> (set ` set xs) \<union> set sep"
  by (induction sep xs rule: str_join.induct) auto

text \<open>\<open>s.splitlines()\<close>: a carriage return followed by a line feed is one break.\<close>

definition is_line_break :: "char \<Rightarrow> bool" where
  "is_line_break c = (let n = ord c in (10 \<le> n \<and> n \<le> 13) \<or> (28 \<le> n \<and> n \<le> 30) \<or> n = 133)"

fun splitlines_acc :: "string \<Rightarrow> string \<Rightarrow> string list" where
  "splitlines_acc acc [] = (if acc = [] then [] else [rev acc])"
| "splitlines_acc acc (c # cs) =
     (if is_line_break c
      then rev acc #
        splitlines_acc [] (if ord c = 13 \<and> (case cs of d # _ \<Rightarrow> ord d = 10 | [] \<Rightarrow> False)
                           then tl cs else cs)
      else splitlines_acc (c # acc) cs)"

definition splitlines :: "string \<Rightarrow> string list" where
  "splitlines s = splitlines_acc [] s"

lemma dropWhile_idem_strip: "str_strip (str_strip s) = str_strip s"
proof -
  define t where "t = dropWhile is_space s"
  define u where "u = rstrip_chars is_space t"
  have "u = [] \<or> \<not> is_space (hd u)"
  proof (cases "u = []")
    case False
    have "t = u @ rev (takeWhile is_space (rev t))"
      unfolding u_def rstrip_chars_def by (metis rev_append rev_rev_ident takeWhile_dropWhile_id)
    with False have "hd t = hd u" "t \<noteq> []" by (metis hd_append2, auto)
    moreover have "\<not> is_space (hd t)"
      using \<open>t \<noteq> []\<close> unfolding t_def by (rule hd_dropWhile)
    ultimately show ?thesis by simp
  qed simp
  then have "dropWhile is_space u = u" by (cases u) auto
  then show ?thesis
    unfolding str_strip_def t_def [symmetric] u_def [symmetric]
    by (simp add: u_def rstrip_chars_def)
qed

section \<open>Regular expressions\<close>

datatype rx =
    Eps
  | Ch "char \<Rightarrow> bool"
  | Seq rx rx
  | Alt rx rx
  | Star rx
  | WordB

type_synonym pos = "char option \<times> string"

definition at_word_boundary :: "pos \<Rightarrow> bool" where
  "at_word_boundary p =
     (let prev = (case fst p of None \<Rightarrow> False | Some c \<Rightarrow> is_word c);
          nxt = (case snd p of [] \<Rightarrow> False | c # _ \<Rightarrow> is_word c)
      in prev \<noteq> nxt)"

function rmatch :: "rx \<Rightarrow> pos \<Rightarrow> pos list" where
  "rmatch Eps p = [p]"
| "rmatch (Ch f) p = (case snd p of [] \<Rightarrow> [] | c # s \<Rightarrow> if f c then [(Some c, s)] else [])"
| "rmatch (Seq r1 r2) p = concat (map (rmatch r2) (rmatch r1 p))"
| "rmatch (Alt r1 r2) p = rmatch r1 p @ rmatch r2 p"
| "rmatch (Star r) p =
     concat (map (\<lambda>q. if length (snd q) < length (snd p) then rmatch (Star r) q else [])
       (rmatch r p)) @ [p]"
| "rmatch WordB p = (if at_word_boundary p then [p] else [])"
  by pat_completeness auto
termination
  by (relation "measures [\<lambda>(r, p). size r, \<lambda>(r, p). length (snd p)]") auto

declare rmatch.simps(5) [simp del]

definition opt :: "rx \<Rightarrow> rx" where
  "opt r = Alt r Eps"

definition plus :: "rx \<Rightarrow> rx" where
  "plus r = Seq r (Star r)"

fun upto_times :: "nat \<Rightarrow> rx \<Rightarrow> rx" where
  "upto_times 0 r = Eps"
| "upto_times (Suc n) r = Alt (Seq r (upto_times n r)) Eps"

fun lit :: "string \<Rightarrow> rx" where
  "lit [] = Eps"
| "lit (c # s) = Seq (Ch (\<lambda>x. x = c)) (lit s)"

text \<open>A literal under \<open>re.I\<close>; the pattern is written in lower case.\<close>

fun lit_ci :: "string \<Rightarrow> rx" where
  "lit_ci [] = Eps"
| "lit_ci (c # s) = Seq (Ch (\<lambda>x. lower_char x = c)) (lit_ci s)"

subsection \<open>Declarative language\<close>

fun lang :: "rx \<Rightarrow> string set" where
  "lang Eps = {[]}"
| "lang (Ch f) = {[c] |c. f c}"
| "lang (Seq r1 r2) = {v @ w |v w. v \<in> lang r1 \<and> w \<in> lang r2}"
| "lang (Alt r1 r2) = lang r1 \<union> lang r2"
| "lang (Star r) = {concat ws |ws. set ws \<subseteq> lang r}"
| "lang WordB = {[]}"

lemma lang_SeqD: "w \<in> lang (Seq r1 r2) \<Longrightarrow> \<exists>u v. w = u @ v \<and> u \<in> lang r1 \<and> v \<in> lang r2"
  by auto

lemma lang_Seq_Ch: "lang (Seq (Ch f) r) = {c # w |c w. f c \<and> w \<in> lang r}"
proof (intro set_eqI iffI)
  fix s
  assume "s \<in> {c # w |c w. f c \<and> w \<in> lang r}"
  then obtain c w where "s = [c] @ w" "f c" "w \<in> lang r" by auto
  then show "s \<in> lang (Seq (Ch f) r)" unfolding lang.simps by blast
qed auto

lemma lang_Star_induct [consumes 1, case_names Nil step]:
  assumes "w \<in> lang (Star r)" "P []" "\<And>v w. v \<in> lang r \<Longrightarrow> P w \<Longrightarrow> P (v @ w)"
  shows "P w"
proof -
  obtain ws where "w = concat ws" "set ws \<subseteq> lang r" using assms(1) by auto
  then show ?thesis
    by (induction ws arbitrary: w) (auto intro: assms(2,3))
qed

lemma lang_Star_Ch: "lang (Star (Ch f)) = {w. list_all f w}"
proof (intro set_eqI iffI)
  fix w
  assume "w \<in> lang (Star (Ch f))"
  then show "w \<in> {w. list_all f w}"
    by (induction rule: lang_Star_induct) auto
next
  fix w
  assume "w \<in> {w. list_all f w}"
  then have "w = concat (map (\<lambda>c. [c]) w)" "set (map (\<lambda>c. [c]) w) \<subseteq> lang (Ch f)"
    by (auto simp: list_all_iff)
  then show "w \<in> lang (Star (Ch f))" unfolding lang.simps(5) by blast
qed

lemma lang_plus_Ch: "lang (plus (Ch f)) = {w. w \<noteq> [] \<and> list_all f w}"
proof (intro set_eqI)
  fix w
  show "w \<in> lang (plus (Ch f)) \<longleftrightarrow> w \<in> {w. w \<noteq> [] \<and> list_all f w}"
    unfolding plus_def lang_Seq_Ch lang_Star_Ch by (cases w) auto
qed

fun assertion_free :: "rx \<Rightarrow> bool" where
  "assertion_free (Seq r1 r2) = (assertion_free r1 \<and> assertion_free r2)"
| "assertion_free (Alt r1 r2) = (assertion_free r1 \<and> assertion_free r2)"
| "assertion_free (Star r) = assertion_free r"
| "assertion_free WordB = False"
| "assertion_free _ = True"

definition advance :: "pos \<Rightarrow> string \<Rightarrow> pos \<Rightarrow> bool" where
  "advance p w q \<longleftrightarrow> snd p = w @ snd q \<and> fst q = (if w = [] then fst p else Some (last w))"

lemma advance_Nil [simp]: "advance p [] q \<longleftrightarrow> q = p"
  by (cases p; cases q) (auto simp: advance_def)

lemma advance_append: "advance p (v @ w) q \<longleftrightarrow> (\<exists>m. advance p v m \<and> advance m w q)"
proof
  assume a: "advance p (v @ w) q"
  define m where "m = (if v = [] then fst p else Some (last v), w @ snd q)"
  have "advance p v m" "advance m w q"
    using a by (auto simp: advance_def m_def)
  then show "\<exists>m. advance p v m \<and> advance m w q" by blast
qed (auto simp: advance_def)

lemma advance_shorter: "advance p w q \<Longrightarrow> length (snd p) = length w + length (snd q)"
  by (simp add: advance_def)

lemma concat_filter_nonempty: "concat (filter (\<lambda>w. w \<noteq> []) ws) = concat ws"
  by (induction ws) auto

lemma concat_nonempty: "\<exists>ws'. concat ws' = concat ws \<and> set ws' \<subseteq> set ws \<and> [] \<notin> set ws'"
  by (rule exI [of _ "filter (\<lambda>w. w \<noteq> []) ws"]) (simp add: concat_filter_nonempty)

lemma advance_single: "advance p [c] q \<longleftrightarrow> q = (Some c, snd q) \<and> snd p = c # snd q"
  by (cases q) (auto simp: advance_def)

lemma rmatch_Star_mem:
  "q \<in> set (rmatch (Star r) p) \<longleftrightarrow>
     q = p \<or> (\<exists>x\<in>set (rmatch r p). length (snd x) < length (snd p) \<and> q \<in> set (rmatch (Star r) x))"
  by (subst rmatch.simps(5)) (auto split: if_splits)

theorem rmatch_lang:
  assumes "assertion_free r"
  shows "q \<in> set (rmatch r p) \<longleftrightarrow> (\<exists>w\<in>lang r. advance p w q)"
  using assms
proof (induction r p arbitrary: q rule: rmatch.induct)
  case (2 f p)
  show ?case
  proof (cases "snd p")
    case (Cons c s)
    then show ?thesis by (cases q) (auto simp: advance_single)
  qed (auto simp: advance_single)
next
  case (3 r1 r2 p)
  have IH1: "x \<in> set (rmatch r1 p) \<longleftrightarrow> (\<exists>v\<in>lang r1. advance p v x)" for x
    using 3 by simp
  have IH2: "q \<in> set (rmatch r2 x) \<longleftrightarrow> (\<exists>w\<in>lang r2. advance x w q)"
    if "x \<in> set (rmatch r1 p)" for x
    using 3 that by simp
  have "q \<in> set (rmatch (Seq r1 r2) p) \<longleftrightarrow>
      (\<exists>x\<in>set (rmatch r1 p). q \<in> set (rmatch r2 x))"
    by simp
  also have "\<dots> \<longleftrightarrow> (\<exists>x. (\<exists>v\<in>lang r1. advance p v x) \<and> (\<exists>w\<in>lang r2. advance x w q))"
    using IH1 IH2 by metis
  also have "\<dots> \<longleftrightarrow> (\<exists>v\<in>lang r1. \<exists>w\<in>lang r2. advance p (v @ w) q)"
    unfolding advance_append by blast
  also have "\<dots> \<longleftrightarrow> (\<exists>u\<in>lang (Seq r1 r2). advance p u q)"
    by auto
  finally show ?case .
next
  case (5 r p)
  have IH1: "x \<in> set (rmatch r p) \<longleftrightarrow> (\<exists>w\<in>lang r. advance p w x)" for x
    using 5 by simp
  have IH2: "q \<in> set (rmatch (Star r) x) \<longleftrightarrow> (\<exists>w\<in>lang (Star r). advance x w q)"
    if "x \<in> set (rmatch r p)" "length (snd x) < length (snd p)" for x q
    using 5 that by (simp del: lang.simps)
  show ?case
  proof
    assume "q \<in> set (rmatch (Star r) p)"
    then consider "q = p"
      | x where "x \<in> set (rmatch r p)" "length (snd x) < length (snd p)" "q \<in> set (rmatch (Star r) x)"
      unfolding rmatch_Star_mem [of q r p] by blast
    then show "\<exists>w\<in>lang (Star r). advance p w q"
    proof cases
      case 1
      have "[] \<in> lang (Star r)" by (auto intro: exI [of _ "[]"])
      with 1 show ?thesis by (intro bexI [of _ "[]"]) auto
    next
      case 2
      then obtain v ws where "v \<in> lang r" "advance p v x" "set ws \<subseteq> lang r" "advance x (concat ws) q"
        using IH1 IH2 by auto
      then have "v @ concat ws \<in> lang (Star r)"
        by (auto intro!: exI [of _ "v # ws"])
      moreover have "advance p (v @ concat ws) q"
        unfolding advance_append using \<open>advance p v x\<close> \<open>advance x (concat ws) q\<close> by blast
      ultimately show ?thesis by blast
    qed
  next
    assume "\<exists>w\<in>lang (Star r). advance p w q"
    then obtain ws where ws: "set ws \<subseteq> lang r" "[] \<notin> set ws" "advance p (concat ws) q"
      using concat_nonempty by (auto, metis subset_trans)
    show "q \<in> set (rmatch (Star r) p)"
    proof (cases ws)
      case Nil
      with ws have "q = p" by simp
      then show ?thesis unfolding rmatch_Star_mem [of q r p] ..
    next
      case (Cons v vs)
      then obtain m where m: "advance p v m" "advance m (concat vs) q"
        using ws(3) by (auto simp: advance_append)
      have "m \<in> set (rmatch r p)" using IH1 m ws Cons by auto
      moreover have "length (snd m) < length (snd p)"
        using advance_shorter [OF m(1)] ws Cons by auto
      moreover have "q \<in> set (rmatch (Star r) m)"
        using IH2 [OF calculation] m(2) ws(1) Cons by auto
      ultimately show ?thesis unfolding rmatch_Star_mem [of q r p] by blast
    qed
  qed
qed auto

subsection \<open>Searching\<close>

text \<open>\<open>re.fullmatch\<close>: some way to match ends at the end of the string.\<close>

definition fullmatch :: "rx \<Rightarrow> string \<Rightarrow> bool" where
  "fullmatch r s = list_ex (\<lambda>q. snd q = []) (rmatch r (None, s))"

lemma fullmatch_lang: "assertion_free r \<Longrightarrow> fullmatch r s \<longleftrightarrow> s \<in> lang r"
proof -
  assume af: "assertion_free r"
  have "fullmatch r s \<longleftrightarrow> (\<exists>q. snd q = [] \<and> (\<exists>w\<in>lang r. advance (None, s) w q))"
    unfolding fullmatch_def list_ex_iff rmatch_lang [OF af, symmetric] by blast
  also have "\<dots> \<longleftrightarrow> s \<in> lang r"
    by (force simp: advance_def)
  finally show ?thesis .
qed

text \<open>\<open>re.search\<close> as a test: a match starts at some position.\<close>

fun search_from :: "rx \<Rightarrow> char option \<Rightarrow> string \<Rightarrow> bool" where
  "search_from r c [] = (rmatch r (c, []) \<noteq> [])"
| "search_from r c (x # xs) = (rmatch r (c, x # xs) \<noteq> [] \<or> search_from r (Some x) xs)"

abbreviation search :: "rx \<Rightarrow> string \<Rightarrow> bool" where
  "search r s \<equiv> search_from r None s"

lemma ex_advance: "(\<exists>q. advance p w q) \<longleftrightarrow> prefix w (snd p)"
proof
  assume "prefix w (snd p)"
  then obtain s where "snd p = w @ s" by (auto simp: prefix_def)
  then have "advance p w (if w = [] then fst p else Some (last w), s)"
    by (simp add: advance_def)
  then show "\<exists>q. advance p w q" by blast
qed (auto simp: advance_def)

lemma rmatch_nonempty:
  "assertion_free r \<Longrightarrow> rmatch r p \<noteq> [] \<longleftrightarrow> (\<exists>w\<in>lang r. prefix w (snd p))"
proof -
  assume af: "assertion_free r"
  have "rmatch r p \<noteq> [] \<longleftrightarrow> (\<exists>q. q \<in> set (rmatch r p))"
    by (metis ex_in_conv set_empty)
  then show ?thesis
    unfolding rmatch_lang [OF af] ex_advance [symmetric] by blast
qed

lemma search_from_lang:
  "assertion_free r \<Longrightarrow> search_from r c s \<longleftrightarrow> (\<exists>w\<in>lang r. sublist w s)"
  by (induction s arbitrary: c) (auto simp: rmatch_nonempty sublist_Cons_right)

text \<open>
  A pattern with one capturing group is a prefix, the group and a suffix. A match is the
  position before the group, the one after it and the one after the suffix; \<open>gmatch\<close> lists the
  matches at one position in the engine's order.
\<close>

type_synonym gpat = "rx \<times> rx \<times> rx"

fun gmatch :: "gpat \<Rightarrow> pos \<Rightarrow> (pos \<times> pos \<times> pos) list" where
  "gmatch (pre, grp, suf) p =
     [(a, b, c). a \<leftarrow> rmatch pre p, b \<leftarrow> rmatch grp a, c \<leftarrow> rmatch suf b]"

definition text_between :: "pos \<Rightarrow> pos \<Rightarrow> string" where
  "text_between a b = take (length (snd a) - length (snd b)) (snd a)"

text \<open>
  \<open>re.findall\<close> and \<open>re.sub\<close> scan from the left and continue after each match. The patterns of
  the program never match the empty string; an empty match is skipped over.
\<close>

function findall_from :: "gpat \<Rightarrow> pos \<Rightarrow> string list" where
  "findall_from g p =
     (case gmatch g p of
        (a, b, q) # _ \<Rightarrow>
          (if length (snd q) < length (snd p) then text_between a b # findall_from g q
           else (case snd p of [] \<Rightarrow> [] | c # s \<Rightarrow> findall_from g (Some c, s)))
      | [] \<Rightarrow> (case snd p of [] \<Rightarrow> [] | c # s \<Rightarrow> findall_from g (Some c, s)))"
  by pat_completeness auto
termination
  by (relation "measure (\<lambda>(g, p). length (snd p))") auto

declare findall_from.simps [simp del]

definition findall :: "gpat \<Rightarrow> string \<Rightarrow> string list" where
  "findall g s = findall_from g (None, s)"

text \<open>\<open>re.sub(pattern, "", s)\<close>.\<close>

function erase_from :: "gpat \<Rightarrow> pos \<Rightarrow> string" where
  "erase_from g p =
     (case gmatch g p of
        (a, b, q) # _ \<Rightarrow>
          (if length (snd q) < length (snd p) then erase_from g q
           else (case snd p of [] \<Rightarrow> [] | c # s \<Rightarrow> c # erase_from g (Some c, s)))
      | [] \<Rightarrow> (case snd p of [] \<Rightarrow> [] | c # s \<Rightarrow> c # erase_from g (Some c, s)))"
  by pat_completeness auto
termination
  by (relation "measure (\<lambda>(g, p). length (snd p))") auto

declare erase_from.simps [simp del]

definition erase :: "gpat \<Rightarrow> string \<Rightarrow> string" where
  "erase g s = erase_from g (None, s)"

fun gpat_assertion_free :: "gpat \<Rightarrow> bool" where
  "gpat_assertion_free (a, b, c) \<longleftrightarrow> assertion_free a \<and> assertion_free b \<and> assertion_free c"

lemma advance_text_between: "advance a w b \<Longrightarrow> text_between a b = w"
  by (auto simp: advance_def text_between_def)

lemma gmatch_lang:
  assumes "gpat_assertion_free (pre, grp, suf)"
    and "(a, b, q) \<in> set (gmatch (pre, grp, suf) p)"
  shows "text_between a b \<in> lang grp"
    and "\<exists>u\<in>lang pre. \<exists>v\<in>lang suf. snd p = u @ text_between a b @ v @ snd q"
proof -
  obtain u w v where "u \<in> lang pre" "advance p u a" "w \<in> lang grp" "advance a w b"
      "v \<in> lang suf" "advance b v q"
    using assms by (auto simp: rmatch_lang)
  then show "text_between a b \<in> lang grp"
    and "\<exists>u\<in>lang pre. \<exists>v\<in>lang suf. snd p = u @ text_between a b @ v @ snd q"
    by (auto simp: advance_text_between advance_def)
qed

text \<open>Every text \<open>findall\<close> returns is in the language of the group, and occurs in the string
  between a prefix and a suffix of the pattern.\<close>

lemma findall_from_sound:
  assumes "gpat_assertion_free (pre, grp, suf)" "t \<in> set (findall_from (pre, grp, suf) p)"
  shows "t \<in> lang grp \<and> (\<exists>u\<in>lang pre. \<exists>v\<in>lang suf. sublist (u @ t @ v) (snd p))"
  using assms
proof (induction "(pre, grp, suf)" p rule: findall_from.induct)
  case (1 p)
  define g where "g = (pre, grp, suf)"
  have skip: ?case if "t \<in> set (case snd p of [] \<Rightarrow> [] | c # s \<Rightarrow> findall_from g (Some c, s))"
    "gmatch g p = [] \<or> (\<exists>a b q r. gmatch g p = (a, b, q) # r \<and> \<not> length (snd q) < length (snd p))"
  proof (cases "snd p")
    case (Cons c s)
    then have "t \<in> lang grp \<and> (\<exists>u\<in>lang pre. \<exists>v\<in>lang suf. sublist (u @ t @ v) s)"
      using 1 that unfolding g_def by auto
    then show ?thesis using Cons by (auto simp: sublist_Cons_right)
  qed (use that in simp)
  show ?case
  proof (cases "gmatch g p")
    case Nil
    have "t \<in> set (findall_from g p)" using "1.prems" by (simp add: g_def)
    then show ?thesis using Nil skip by (simp add: findall_from.simps [of g p])
  next
    case (Cons m ms)
    obtain a b q where m: "m = (a, b, q)" by (cases m)
    have tin: "t \<in> set (findall_from g p)" using "1.prems" by (simp add: g_def)
    show ?thesis
    proof (cases "length (snd q) < length (snd p)")
      case False
      then show ?thesis using tin Cons m skip by (simp add: findall_from.simps [of g p])
    next
      case True
      have "(a, b, q) \<in> set (gmatch (pre, grp, suf) p)"
        using Cons m by (simp add: g_def)
      note gl = gmatch_lang [OF "1.prems"(1) this]
      from tin True Cons m consider "t = text_between a b" | "t \<in> set (findall_from g q)"
        by (auto simp: findall_from.simps [of g p])
      then show ?thesis
      proof cases
        case 1
        with gl show ?thesis
          by (metis append.assoc sublist_appendI append_Nil)
      next
        case 2
        then have "t \<in> lang grp \<and> (\<exists>u\<in>lang pre. \<exists>v\<in>lang suf. sublist (u @ t @ v) (snd q))"
          using "1.hyps" "1.prems"(1) Cons m True unfolding g_def by auto
        moreover have "sublist (snd q) (snd p)"
          using gl(2) by (metis append.assoc suffix_imp_sublist suffixI)
        ultimately show ?thesis by (meson sublist_order.order.trans)
      qed
    qed
  qed
qed

lemma findall_sound:
  "gpat_assertion_free (pre, grp, suf) \<Longrightarrow> t \<in> set (findall (pre, grp, suf) s) \<Longrightarrow>
     t \<in> lang grp \<and> (\<exists>u\<in>lang pre. \<exists>v\<in>lang suf. sublist (u @ t @ v) s)"
  using findall_from_sound [of pre grp suf t "(None, s)"] by (simp add: findall_def)

end
