(* ===== verification/Py_Int.thy ===== *)
theory Py_Int
  imports Py_Text
begin

text \<open>
  Decimal numerals: \<open>str(n)\<close> of an integer, \<open>int(s)\<close> of a string (surrounding white space, a
  sign, and single underscores between digits are accepted; anything else is the
  \<open>ValueError\<close>, here \<open>None\<close>), and the round trip between them.
\<close>

definition digit_value :: "char \<Rightarrow> int" where
  "digit_value c = int (ord c) - 48"

definition digits_value :: "string \<Rightarrow> int" where
  "digits_value s = foldl (\<lambda>n c. 10 * n + digit_value c) 0 s"

text \<open>Digits are produced least significant first.\<close>

function rev_digits :: "int \<Rightarrow> string" where
  "rev_digits n =
     (if n < 10 then [char_of (48 + nat n)]
      else char_of (48 + nat (n mod 10)) # rev_digits (n div 10))"
  by pat_completeness auto
termination by (relation "measure nat") auto

declare rev_digits.simps [simp del]

definition str_int :: "int \<Rightarrow> string" where
  "str_int n = (if n < 0 then CHR ''-'' # rev (rev_digits (- n)) else rev (rev_digits n))"

definition py_int :: "string \<Rightarrow> int option" where
  "py_int s =
     (let t = str_strip s;
          (neg, u) = (case t of
             c # r \<Rightarrow> (if c = CHR ''-'' then (True, r) else if c = CHR ''+'' then (False, r) else (False, t))
           | [] \<Rightarrow> (False, []));
          parts = split_on (CHR ''_'') u
      in if list_all (\<lambda>p. p \<noteq> [] \<and> list_all is_digit p) parts
         then Some ((if neg then -1 else 1) * digits_value (concat parts)) else None)"

lemma digits_value_nonneg: "list_all is_digit s \<Longrightarrow> 0 \<le> digits_value s"
proof -
  have "list_all is_digit s \<Longrightarrow> 0 \<le> n \<Longrightarrow> 0 \<le> foldl (\<lambda>n c. 10 * n + digit_value c) n s" for n
    by (induction s arbitrary: n) (auto simp: is_digit_def digit_value_def Let_def)
  then show "list_all is_digit s \<Longrightarrow> 0 \<le> digits_value s"
    by (simp add: digits_value_def)
qed

lemma ord_digit: "(n :: nat) < 10 \<Longrightarrow> ord (char_of (48 + n)) = 48 + n"
  by (simp add: ord_def)

lemma is_digit_char: "(n :: nat) < 10 \<Longrightarrow> is_digit (char_of (48 + n))"
  using ord_digit [of n] by (simp add: is_digit_def Let_def)

lemma rev_digits_nonempty: "rev_digits n \<noteq> []"
  by (subst rev_digits.simps) simp

lemma rev_digits_digits: "0 \<le> n \<Longrightarrow> list_all is_digit (rev_digits n)"
proof (induction n rule: rev_digits.induct)
  case (1 n)
  have "nat (n mod 10) < 10" "n < 10 \<Longrightarrow> nat n < 10" using 1(2) by (simp_all add: nat_less_iff)
  then show ?case
    using 1 by (subst rev_digits.simps) (auto simp: is_digit_char)
qed

lemma digits_value_snoc: "digits_value (s @ [c]) = 10 * digits_value s + digit_value c"
  by (simp add: digits_value_def)

lemma digits_value_rev_digits: "0 \<le> n \<Longrightarrow> digits_value (rev (rev_digits n)) = n"
proof (induction n rule: rev_digits.induct)
  case (1 n)
  show ?case
  proof (cases "n < 10")
    case True
    then have "nat n < 10" using 1(2) by simp
    then show ?thesis
      using True 1(2) ord_digit [of "nat n"]
      by (subst rev_digits.simps) (simp add: digits_value_def digit_value_def)
  next
    case False
    then have IH: "digits_value (rev (rev_digits (n div 10))) = n div 10" using 1 by simp
    have "nat (n mod 10) < 10" by (simp add: nat_less_iff)
    from ord_digit [OF this] have "digit_value (char_of (48 + nat (n mod 10))) = n mod 10"
      by (simp add: digit_value_def)
    with False IH show ?thesis
      by (subst rev_digits.simps) (simp add: digits_value_snoc)
  qed
qed

lemma split_on_absent: "c \<notin> set s \<Longrightarrow> split_on c s = [s]"
  by (induction s) auto

lemma strip_no_space: "\<forall>c\<in>set s. \<not> is_space c \<Longrightarrow> str_strip s = s"
  unfolding str_strip_def rstrip_chars_def
  by (metis dropWhile_eq_self_iff hd_in_set rev_rev_ident set_rev)

lemma digit_not_special_char:
  "is_digit c \<Longrightarrow> \<not> is_space c \<and> c \<noteq> CHR ''_'' \<and> c \<noteq> CHR ''-'' \<and> c \<noteq> CHR ''+''"
  by (auto simp: is_digit_def is_space_def ord_def Let_def)

theorem py_int_str_int: "py_int (str_int n) = Some n"
proof -
  define m where "m = (if n < 0 then - n else n)"
  define d where "d = rev (rev_digits m)"
  have m: "0 \<le> m" by (simp add: m_def)
  have digits: "list_all is_digit d"
    using rev_digits_digits [OF m] by (simp add: d_def list_all_iff)
  have ne: "d \<noteq> []" by (simp add: d_def rev_digits_nonempty)
  have split: "split_on (CHR ''_'') d = [d]"
    using digits by (intro split_on_absent) (auto simp: list_all_iff dest: digit_not_special_char)
  have val: "digits_value d = m"
    unfolding d_def by (rule digits_value_rev_digits [OF m])
  have s: "str_int n = (if n < 0 then CHR ''-'' # d else d)"
    by (simp add: str_int_def d_def m_def)
  have "\<not> is_space (CHR ''-'')" by code_simp
  then have strip: "str_strip (str_int n) = str_int n"
    using digits unfolding s
    by (intro strip_no_space) (auto simp: list_all_iff dest: digit_not_special_char)
  obtain c r where d': "d = c # r" "is_digit c" using ne digits by (cases d) auto
  show ?thesis
  proof (cases "n < 0")
    case True
    then show ?thesis
      using strip split digits ne val by (simp add: py_int_def s m_def)
  next
    case False
    then show ?thesis
      using strip split digits ne val digit_not_special_char [OF d'(2)]
      by (simp add: py_int_def s m_def d'(1))
  qed
qed

end
