(* ===== verification/Py_Json.thy ===== *)
theory Py_Json
  imports Py_Int
begin

text \<open>
  JSON values as Python holds them after \<open>json.loads\<close>: objects are insertion-ordered
  dictionaries with string keys, numbers are unbounded integers or binary64 floats
  (\<open>json.loads\<close> accepts NaN and the infinities), and Booleans are a type of their own.
\<close>

datatype json =
    JNull
  | JBool bool
  | JInt int
  | JFloat pyfloat
  | JStr string
  | JList "json list"
  | JObj "(string \<times> json) list"

text \<open>\<open>isinstance(v, (int, float)) and not isinstance(v, bool)\<close>, and \<open>float(v)\<close> on such a value.\<close>

fun json_number :: "json \<Rightarrow> pyfloat option" where
  "json_number (JInt n) = Some (f_of_int n)"
| "json_number (JFloat x) = Some x"
| "json_number _ = None"

text \<open>\<open>float(v)\<close>; the parsing of numerals in strings is the argument \<open>parse\<close>, \<open>None\<close> is an error.\<close>

fun json_float :: "(string \<Rightarrow> pyfloat option) \<Rightarrow> json \<Rightarrow> pyfloat option" where
  "json_float parse (JInt n) = Some (f_of_int n)"
| "json_float parse (JFloat x) = Some x"
| "json_float parse (JBool b) = Some (Fin (if b then 1 else 0))"
| "json_float parse (JStr s) = parse s"
| "json_float parse _ = None"

text \<open>Truthiness: \<open>bool(v)\<close>.\<close>

fun json_truthy :: "json \<Rightarrow> bool" where
  "json_truthy JNull = False"
| "json_truthy (JBool b) = b"
| "json_truthy (JInt n) = (n \<noteq> 0)"
| "json_truthy (JFloat x) = (x \<noteq> Fin 0)"
| "json_truthy (JStr s) = (s \<noteq> [])"
| "json_truthy (JList xs) = (xs \<noteq> [])"
| "json_truthy (JObj kvs) = (kvs \<noteq> [])"

definition is_obj :: "json \<Rightarrow> bool" where
  "is_obj v = (case v of JObj _ \<Rightarrow> True | _ \<Rightarrow> False)"

text \<open>\<open>d.get(k)\<close> on an object: an absent key reads as \<open>None\<close>, which is \<open>JNull\<close>.\<close>

definition obj_get :: "(string \<times> json) list \<Rightarrow> string \<Rightarrow> json" where
  "obj_get d k = (case map_of d k of None \<Rightarrow> JNull | Some v \<Rightarrow> v)"

lemma is_obj_iff: "is_obj v \<longleftrightarrow> (\<exists>d. v = JObj d)"
  by (cases v) (simp_all add: is_obj_def)

lemma json_number_Some_truthy: "json_number v \<noteq> None \<Longrightarrow> v \<noteq> JNull \<and> (\<forall>b. v \<noteq> JBool b)"
  by (cases v) simp_all

end
