(* ===== verification/Agent_Text.thy ===== *)
theory Agent_Text
  imports Py_Json
begin

text \<open>
  The agent's text handling: currency-amount extraction (\<open>agents/app/amounts.py\<close>), the
  request-id allow-list (\<open>agents/app/logging_config.py\<close>), reading the subject of a bearer
  token (\<open>agents/app/jwt_utils.py\<close>) and the Authorization header (\<open>agents/app/api.py\<close>).
\<close>

section \<open>Amounts\<close>

abbreviation digit :: rx where
  "digit \<equiv> Ch is_digit"

definition opt_fraction :: rx where
  "opt_fraction = opt (Seq (Ch (\<lambda>c. c = CHR ''.'')) (plus digit))"

definition thousands :: rx where
  "thousands =
     Seq (Seq digit (upto_times 2 digit))
       (plus (Seq (Ch (\<lambda>c. c = CHR '','')) (Seq digit (Seq digit digit))))"

definition CURRENCY :: gpat where
  "CURRENCY =
     (Seq (Ch (\<lambda>c. c = CHR ''$'')) (opt (Ch is_space)),
      Alt (Seq thousands opt_fraction) (Seq (plus digit) opt_fraction),
      Eps)"

text \<open>\<open>float(s)\<close> on a string of digits with an optional fraction, as an exact value before rounding.\<close>

definition decimal_value :: "string \<Rightarrow> rat" where
  "decimal_value s =
     (let (i, f) = partition_at (CHR ''.'') s
      in of_int (digits_value (i @ f)) / 10 ^ length f)"

definition is_decimal :: "string \<Rightarrow> bool" where
  "is_decimal s =
     (let (i, f) = partition_at (CHR ''.'') s
      in i \<noteq> [] \<and> list_all is_digit i \<and> list_all is_digit f \<and> (CHR ''.'' \<in> set s \<longrightarrow> f \<noteq> []))"

definition remove_commas :: "string \<Rightarrow> string" where
  "remove_commas s = filter (\<lambda>c. c \<noteq> CHR '','') s"

definition extract_amounts :: "string option \<Rightarrow> pyfloat list" where
  "extract_amounts text =
     (case text of
        None \<Rightarrow> []
      | Some s \<Rightarrow>
          (if s = [] then []
           else map (\<lambda>m. fl (decimal_value (remove_commas m))) (findall CURRENCY s)))"

lemma extract_amounts_None [simp]: "extract_amounts None = []"
  by (simp add: extract_amounts_def)

lemma lang_opt_fraction:
  "w \<in> lang opt_fraction \<Longrightarrow> w = [] \<or> (\<exists>f. w = CHR ''.'' # f \<and> f \<noteq> [] \<and> list_all is_digit f)"
  unfolding opt_fraction_def opt_def lang.simps(1,4) lang_Seq_Ch lang_plus_Ch by auto

lemma list_all_upto_digit: "w \<in> lang (upto_times n digit) \<Longrightarrow> list_all is_digit w"
proof (induction n arbitrary: w)
  case (Suc n)
  then show ?case unfolding upto_times.simps lang.simps(1,4) lang_Seq_Ch by auto
qed simp

lemma digit_not_special: "is_digit c \<Longrightarrow> c \<noteq> CHR '','' \<and> c \<noteq> CHR ''.''"
  by (auto simp: is_digit_def ord_def Let_def)

lemma remove_commas_append [simp]: "remove_commas (v @ w) = remove_commas v @ remove_commas w"
  by (simp add: remove_commas_def)

lemma remove_commas_digits [simp]: "list_all is_digit w \<Longrightarrow> remove_commas w = w"
  by (auto simp: remove_commas_def list_all_iff filter_id_conv dest: digit_not_special)

lemma remove_commas_Cons [simp]:
  "remove_commas (c # s) = (if c = CHR '','' then remove_commas s else c # remove_commas s)"
  by (simp add: remove_commas_def)

lemma remove_commas_Nil [simp]: "remove_commas [] = []"
  by (simp add: remove_commas_def)

lemma thousands_digits:
  assumes "w \<in> lang thousands"
  shows "remove_commas w \<noteq> [] \<and> list_all is_digit (remove_commas w)"
proof -
  define group where "group = Seq (Ch (\<lambda>c. c = CHR '','')) (Seq digit (Seq digit digit))"
  have group: "list_all is_digit (remove_commas t)" if "t \<in> lang group" for t
    using that digit_not_special unfolding group_def lang_Seq_Ch by auto
  have star: "list_all is_digit (remove_commas t)" if "t \<in> lang (Star group)" for t
    using that by (induction rule: lang_Star_induct) (auto simp: group)
  obtain a b where ab: "w = a @ b" "a \<in> lang (Seq digit (upto_times 2 digit))" "b \<in> lang (plus group)"
    using lang_SeqD [OF assms [unfolded thousands_def group_def [symmetric]]] by blast
  obtain c u where a: "a = c # u" "is_digit c" "u \<in> lang (upto_times 2 digit)"
    using ab(2) unfolding lang_Seq_Ch by blast
  obtain t v where b: "b = t @ v" "t \<in> lang group" "v \<in> lang (Star group)"
    using lang_SeqD [OF ab(3) [unfolded plus_def]] by blast
  show ?thesis
    using group [OF b(2)] star [OF b(3)] list_all_upto_digit [OF a(3)] digit_not_special [OF a(2)] a(2)
    unfolding ab(1) a(1) b(1) by simp
qed

lemma partition_decimal:
  assumes "list_all is_digit i" "w = [] \<or> (\<exists>f. w = CHR ''.'' # f \<and> list_all is_digit f)"
  shows "partition_at (CHR ''.'') (i @ w) = (i, drop 1 w)"
proof -
  have i: "c \<in> set i \<Longrightarrow> c \<noteq> CHR ''.''" for c
    using assms(1) by (auto simp: list_all_iff dest: digit_not_special)
  have t: "takeWhile (\<lambda>x. x \<noteq> CHR ''.'') (i @ u) = i @ takeWhile (\<lambda>x. x \<noteq> CHR ''.'') u" for u
    by (rule takeWhile_append2) (rule i)
  have d: "dropWhile (\<lambda>x. x \<noteq> CHR ''.'') (i @ u) = dropWhile (\<lambda>x. x \<noteq> CHR ''.'') u" for u
    by (rule dropWhile_append2) (rule i)
  from assms(2) show ?thesis
    unfolding partition_at_def t d by (elim disjE exE conjE) simp_all
qed

text \<open>Every captured text is a decimal numeral once its commas are gone, so \<open>float\<close> accepts it.\<close>

lemma currency_group_decimal:
  assumes "m \<in> lang (fst (snd CURRENCY))"
  shows "is_decimal (remove_commas m)"
proof -
  obtain v w where m: "m = v @ w" and w: "w \<in> lang opt_fraction"
    and v: "v \<in> lang thousands \<or> v \<in> lang (plus digit)"
    using assms by (auto simp: CURRENCY_def)
  define i where "i = remove_commas v"
  have i: "i \<noteq> []" "list_all is_digit i"
    using v thousands_digits unfolding i_def lang_plus_Ch by auto
  from lang_opt_fraction [OF w]
  have w': "remove_commas w = w" "w = [] \<or> (\<exists>f. w = CHR ''.'' # f \<and> f \<noteq> [] \<and> list_all is_digit f)"
    by auto
  have "partition_at (CHR ''.'') (i @ w) = (i, drop 1 w)"
    using i w' by (intro partition_decimal) auto
  moreover have "CHR ''.'' \<notin> set i"
    using i by (auto simp: list_all_iff dest: digit_not_special)
  ultimately show ?thesis
    using i w' unfolding is_decimal_def m remove_commas_append i_def [symmetric] by auto
qed

lemma CURRENCY_assertion_free: "gpat_assertion_free CURRENCY"
  by (simp add: CURRENCY_def thousands_def opt_fraction_def opt_def plus_def numeral_2_eq_2)

lemma findall_CURRENCY:
  assumes "m \<in> set (findall CURRENCY s)"
  shows "is_decimal (remove_commas m) \<and> (\<exists>u. sublist (CHR ''$'' # u @ m) s \<and> list_all is_space u)"
proof -
  obtain pre grp suf where C: "CURRENCY = (pre, grp, suf)" by (cases CURRENCY)
  have "m \<in> lang grp \<and> (\<exists>u\<in>lang pre. \<exists>v\<in>lang suf. sublist (u @ m @ v) s)"
    using assms CURRENCY_assertion_free unfolding C by (intro findall_sound)
  moreover have pre: "u \<in> lang pre \<Longrightarrow> \<exists>t. u = CHR ''$'' # t \<and> list_all is_space t" for u
    using C by (auto simp: CURRENCY_def opt_def)
  moreover have "lang suf = {[]}" using C by (auto simp: CURRENCY_def)
  ultimately obtain u where "m \<in> lang grp" "u \<in> lang pre" "sublist (u @ m) s" by auto
  moreover from pre [OF this(2)] obtain t where "u = CHR ''$'' # t" "list_all is_space t" by blast
  ultimately show ?thesis
    using currency_group_decimal [of m] unfolding C by auto
qed

lemma no_dollar_no_amounts:
  assumes "CHR ''$'' \<notin> set s"
  shows "extract_amounts (Some s) = []"
proof -
  have "findall CURRENCY s = []"
  proof (rule ccontr)
    assume "findall CURRENCY s \<noteq> []"
    then obtain m where "m \<in> set (findall CURRENCY s)" by (meson ex_in_conv set_empty)
    then obtain u where "sublist (CHR ''$'' # u @ m) s" using findall_CURRENCY by blast
    then have "set (CHR ''$'' # u @ m) \<subseteq> set s" by (rule set_mono_sublist)
    with assms show False by simp
  qed
  then show ?thesis by (simp add: extract_amounts_def)
qed

lemma decimal_value_nonneg: "is_decimal s \<Longrightarrow> 0 \<le> decimal_value s"
  by (auto simp: is_decimal_def decimal_value_def Let_def split: prod.splits
      intro!: divide_nonneg_nonneg digits_value_nonneg)

lemma extract_amounts_nonneg: "x \<in> set (extract_amounts t) \<Longrightarrow> f_le (Fin 0) x"
proof -
  assume "x \<in> set (extract_amounts t)"
  then obtain s m where "x = fl (decimal_value (remove_commas m))" "m \<in> set (findall CURRENCY s)"
    by (auto simp: extract_amounts_def split: option.splits if_splits)
  then show ?thesis
    using fl_mono [OF decimal_value_nonneg] findall_CURRENCY by fastforce
qed

lemma extract_amounts_not_nan: "NaN \<notin> set (extract_amounts t)"
  using extract_amounts_nonneg [of NaN t] by auto

section \<open>Formatting amounts\<close>

text \<open>
  \<open>f"{x:,.2f}"\<close>: the exact binary value rounded half-even to cents, with thousands
  separators.
\<close>

fun group3 :: "string \<Rightarrow> string" where
  "group3 (a # b # c # d # r) = a # b # c # CHR '','' # group3 (d # r)"
| "group3 r = r"

definition fmt_money :: "pyfloat \<Rightarrow> string" where
  "fmt_money x =
     (case x of
        Fin q \<Rightarrow>
          (let cents = rnd_even (\<bar>q\<bar> * 100);
               frac = rev (rev_digits (cents mod 100))
           in (if q < 0 then ''-'' else [])
              @ rev (group3 (rev_digits (cents div 100)))
              @ ''.'' @ (if length frac = 1 then CHR ''0'' # frac else frac))
      | PInf \<Rightarrow> ''inf''
      | NInf \<Rightarrow> ''-inf''
      | NaN \<Rightarrow> ''nan'')"

lemma remove_commas_group3: "CHR '','' \<notin> set s \<Longrightarrow> remove_commas (group3 s) = s"
  by (induction s rule: group3.induct) (auto simp: remove_commas_def)

section \<open>Request ids\<close>

definition safe_id_char :: "char \<Rightarrow> bool" where
  "safe_id_char c \<longleftrightarrow> is_ascii_alnum c \<or> c \<in> {CHR ''.'', CHR ''_'', CHR ''-''}"

definition SAFE_ID :: rx where
  "SAFE_ID = Seq (Ch safe_id_char) (upto_times 63 (Ch safe_id_char))"

definition new_request_id :: "string \<Rightarrow> string option \<Rightarrow> string" where
  "new_request_id fresh inbound =
     (case inbound of
        Some s \<Rightarrow> (if s \<noteq> [] \<and> fullmatch SAFE_ID s then s else fresh)
      | None \<Rightarrow> fresh)"

lemma lang_upto_times_Ch: "lang (upto_times n (Ch f)) = {w. length w \<le> n \<and> list_all f w}"
proof (induction n)
  case (Suc n)
  have "lang (upto_times (Suc n) (Ch f)) =
      {c # w |c w. f c \<and> length w \<le> n \<and> list_all f w} \<union> {[]}"
    unfolding upto_times.simps lang.simps(4) lang_Seq_Ch Suc by auto
  also have "\<dots> = {w. length w \<le> Suc n \<and> list_all f w}"
  proof (intro set_eqI)
    fix v
    show "v \<in> {c # w |c w. f c \<and> length w \<le> n \<and> list_all f w} \<union> {[]} \<longleftrightarrow>
        v \<in> {w. length w \<le> Suc n \<and> list_all f w}"
      by (cases v) auto
  qed
  finally show ?case .
qed auto

lemma assertion_free_upto: "assertion_free r \<Longrightarrow> assertion_free (upto_times n r)"
  by (induction n) simp_all

lemma SAFE_ID_lang: "fullmatch SAFE_ID s \<longleftrightarrow> 1 \<le> length s \<and> length s \<le> 64 \<and> list_all safe_id_char s"
proof -
  have "fullmatch SAFE_ID s \<longleftrightarrow> s \<in> lang SAFE_ID"
    by (intro fullmatch_lang) (simp add: SAFE_ID_def assertion_free_upto del: upto_times.simps)
  also have "\<dots> \<longleftrightarrow> (\<exists>c w. s = c # w \<and> safe_id_char c \<and> length w \<le> 63 \<and> list_all safe_id_char w)"
    unfolding SAFE_ID_def lang_Seq_Ch lang_upto_times_Ch by auto
  also have "\<dots> \<longleftrightarrow> 1 \<le> length s \<and> length s \<le> 64 \<and> list_all safe_id_char s"
    by (cases s) auto
  finally show ?thesis .
qed

section \<open>Bearer tokens\<close>

datatype jwt_error = UnreadableSubject | NoSubject

text \<open>
  \<open>jwt_sub\<close>: the second dot-separated part of the token is decoded (base64 and JSON, the
  parameter \<open>payload\<close>; \<open>None\<close> is a decoding error) and its \<open>sub\<close> claim read. A payload that is not
  an object has no \<open>get\<close>: that attribute error is outside the caught exceptions.
\<close>

datatype jwt_exc = JwtValueError jwt_error | JwtAttributeError

definition jwt_sub :: "(string \<Rightarrow> json option) \<Rightarrow> string \<Rightarrow> (jwt_exc, json) result" where
  "jwt_sub payload token =
     (case split_on (CHR ''.'') token of
        _ # part # _ \<Rightarrow>
          (case payload part of
             None \<Rightarrow> Inl (JwtValueError UnreadableSubject)
           | Some (JObj claims) \<Rightarrow>
               (let sub = obj_get claims ''sub''
                in if json_truthy sub then Inr sub else Inl (JwtValueError NoSubject))
           | Some _ \<Rightarrow> Inl JwtAttributeError)
      | _ \<Rightarrow> Inl (JwtValueError UnreadableSubject))"

lemma jwt_sub_truthy: "jwt_sub payload token = Inr v \<Longrightarrow> json_truthy v"
  by (auto simp: jwt_sub_def Let_def split: list.splits option.splits json.splits if_splits)

text \<open>\<open>_bearer\<close>: \<open>None\<close> is the 401 response.\<close>

definition bearer_of :: "string option \<Rightarrow> string option" where
  "bearer_of authorization =
     (case authorization of
        None \<Rightarrow> None
      | Some h \<Rightarrow>
          (if h = [] \<or> \<not> startswith h ''Bearer '' then None
           else Some (drop (length ''Bearer '') h)))"

lemma bearer_of_iff: "bearer_of (Some h) = Some t \<longleftrightarrow> h = ''Bearer '' @ t"
  by (auto simp: bearer_of_def prefix_def)

end
