(* ===== verification/Agent_Mcp.thy ===== *)
theory Agent_Mcp
  imports Agent_Text
begin

text \<open>
  The agent's HTTP clients: the MCP client of the governed write
  (\<open>agents/app/mcp_client.py\<close>) and the token mint of the Gateway client
  (\<open>agents/app/gateway_client.py\<close>). What the network answers to each request is an argument
  (\<open>http_outcome\<close>); the JSON decoder \<open>loads\<close> is a parameter (\<open>None\<close> is a decoding error). Each
  client call returns the requests it issued, in order and with their outcomes, beside its
  result: this log is what the safety properties of the agent speak about.
\<close>

section \<open>HTTP exchanges\<close>

datatype http_outcome =
    ConnectErr string
  | TransportErr string
  | Resp nat "string option" string

text \<open>
  \<open>ConnectErr\<close> is \<open>httpx.ConnectError\<close>: the connection was never established, so the server has
  not seen the request. \<open>TransportErr\<close> is every other transport failure (a timeout or a reset,
  after which the server may have acted). \<open>Resp\<close> carries the status code, the
  \<open>Mcp-Session-Id\<close> header and the body.
\<close>

fun never_reached :: "http_outcome \<Rightarrow> bool" where
  "never_reached (ConnectErr _) = True"
| "never_reached _ = False"

datatype call_exc =
    ConnectError string
  | TransportError string
  | StatusError nat
  | McpNoSession
  | McpErrorMessage json
  | McpToolError json
  | NotJson
  | BadShape

text \<open>
  \<open>BadShape\<close> stands for the \<open>AttributeError\<close>, \<open>TypeError\<close> or \<open>KeyError\<close> that Python raises when
  a decoded value lacks the shape the code reads.
\<close>

fun is_connect_error :: "call_exc \<Rightarrow> bool" where
  "is_connect_error (ConnectError _) = True"
| "is_connect_error _ = False"

text \<open>\<open>client.post(...)\<close> followed by \<open>resp.raise_for_status()\<close>.\<close>

fun post_ok :: "http_outcome \<Rightarrow> (call_exc, string option \<times> string) result" where
  "post_ok (ConnectErr m) = Inl (ConnectError m)"
| "post_ok (TransportErr m) = Inl (TransportError m)"
| "post_ok (Resp status session body) =
     (if 200 \<le> status \<and> status \<le> 299 then Inr (session, body) else Inl (StatusError status))"

record sar_call =
  sc_bearer :: string
  sc_run_id :: string
  sc_account :: string
  sc_period :: string
  sc_rationale :: string
  sc_citations :: "int list"

record mcp_request =
  rq_headers :: "(string \<times> string) list"
  rq_body :: json

datatype wire =
    TokenPost json http_outcome
  | InitPost mcp_request http_outcome
  | CallPost sar_call mcp_request http_outcome

section \<open>The MCP client\<close>

definition PROTOCOL_VERSION :: string where
  "PROTOCOL_VERSION = ''2025-11-25''"

definition mcp_headers :: "string \<Rightarrow> string option \<Rightarrow> (string \<times> string) list" where
  "mcp_headers bearer session_id =
     [(''Content-Type'', ''application/json''),
      (''Accept'', ''application/json, text/event-stream''),
      (''Authorization'', ''Bearer '' @ bearer)]
     @ (case session_id of
          Some s \<Rightarrow> (if s = [] then [] else [(''Mcp-Session-Id'', s)])
        | None \<Rightarrow> [])"

definition envelope :: "string \<Rightarrow> json \<Rightarrow> json" where
  "envelope rpc_method params =
     JObj [(''jsonrpc'', JStr ''2.0''), (''id'', JInt 1), (''method'', JStr rpc_method),
           (''params'', params)]"

definition parse_jsonrpc :: "(string \<Rightarrow> json option) \<Rightarrow> string \<Rightarrow> (call_exc, json) result" where
  "parse_jsonrpc loads body =
     (let frames =
            map (\<lambda>line. str_strip (drop (length ''data:'') line))
              (filter (\<lambda>line. startswith line ''data:'') (splitlines body));
          text =
            (if str_in ''data:'' body then (if frames = [] then body else last frames) else body)
      in case loads text of None \<Rightarrow> Inl NotJson | Some v \<Rightarrow> Inr v)"

text \<open>\<open>_first_text\<close> over \<open>result.get("content", []) or []\<close>.\<close>

fun first_text_of :: "json list \<Rightarrow> (call_exc, json) result" where
  "first_text_of [] = Inr JNull"
| "first_text_of (JObj d # items) =
     (if obj_get d ''type'' = JStr ''text'' then Inr (obj_get d ''text'') else first_text_of items)"
| "first_text_of (_ # items) = Inl BadShape"

definition first_text :: "(string \<times> json) list \<Rightarrow> (call_exc, json) result" where
  "first_text result =
     (let content = obj_get result ''content''
      in if \<not> json_truthy content then Inr JNull
         else (case content of JList items \<Rightarrow> first_text_of items | _ \<Rightarrow> Inl BadShape))"

text \<open>\<open>_initialize\<close>: the request and the session id the server issued.\<close>

definition init_request :: "string \<Rightarrow> mcp_request" where
  "init_request bearer =
     \<lparr>rq_headers = mcp_headers bearer None,
      rq_body = envelope ''initialize''
        (JObj [(''protocolVersion'', JStr PROTOCOL_VERSION), (''capabilities'', JObj []),
               (''clientInfo'', JObj [(''name'', JStr ''atlas-agents''), (''version'', JStr ''0.1.0'')])])\<rparr>"

definition initialize :: "http_outcome \<Rightarrow> (call_exc, string) result" where
  "initialize out =
     (case post_ok out of
        Inl e \<Rightarrow> Inl e
      | Inr (None, _) \<Rightarrow> Inl McpNoSession
      | Inr (Some s, _) \<Rightarrow> (if s = [] then Inl McpNoSession else Inr s))"

definition call_request :: "string \<Rightarrow> sar_call \<Rightarrow> mcp_request" where
  "call_request session_id c =
     \<lparr>rq_headers = mcp_headers (sc_bearer c) (Some session_id),
      rq_body = envelope ''tools/call''
        (JObj [(''name'', JStr ''open_draft_sar''),
               (''arguments'',
                JObj [(''account'', JStr (sc_account c)), (''period'', JStr (sc_period c)),
                      (''rationale'', JStr (sc_rationale c)),
                      (''citations'', JList (map JInt (sc_citations c))),
                      (''runId'', JStr (sc_run_id c))])])\<rparr>"

text \<open>\<open>_rpc\<close>: the decoded \<open>result\<close> of the response, an empty object when it is absent.\<close>

definition rpc :: "(string \<Rightarrow> json option) \<Rightarrow> http_outcome \<Rightarrow> (call_exc, json) result" where
  "rpc loads out =
     res_bind (post_ok out) (\<lambda>(_, body).
     res_bind (parse_jsonrpc loads body) (\<lambda>message.
       case message of
         JObj d \<Rightarrow>
           (case map_of d ''error'' of
              Some e \<Rightarrow> Inl (McpErrorMessage e)
            | None \<Rightarrow> (case map_of d ''result'' of None \<Rightarrow> Inr (JObj []) | Some r \<Rightarrow> Inr r))
       | _ \<Rightarrow> Inl BadShape))"

text \<open>The reading of a tool result by \<open>open_draft_sar\<close>.\<close>

definition tool_output :: "(string \<Rightarrow> json option) \<Rightarrow> json \<Rightarrow> (call_exc, json) result" where
  "tool_output loads result =
     (case result of
        JObj d \<Rightarrow>
          (if json_truthy (obj_get d ''isError'')
           then res_bind (first_text d) (\<lambda>t. Inl (McpToolError
                  (if json_truthy t then t else JStr ''open_draft_sar returned an error'')))
           else if json_truthy (obj_get d ''structuredContent'')
           then Inr (obj_get d ''structuredContent'')
           else res_bind (first_text d) (\<lambda>t.
                  if \<not> json_truthy t then Inr (JObj [])
                  else (case t of
                          JStr s \<Rightarrow> (case loads s of None \<Rightarrow> Inl NotJson | Some v \<Rightarrow> Inr v)
                        | _ \<Rightarrow> Inl BadShape)))
      | _ \<Rightarrow> Inl BadShape)"

text \<open>
  \<open>open_draft_sar\<close>: the handshake, then the tool call, whose request is sent only with the
  session id the handshake returned.
\<close>

definition open_draft_sar ::
  "(string \<Rightarrow> json option) \<Rightarrow> http_outcome \<Rightarrow> http_outcome \<Rightarrow> sar_call \<Rightarrow>
   wire list \<times> (call_exc, json) result" where
  "open_draft_sar loads init_out call_out c =
     (let init = InitPost (init_request (sc_bearer c)) init_out
      in case initialize init_out of
           Inl e \<Rightarrow> ([init], Inl e)
         | Inr session \<Rightarrow>
             ([init, CallPost c (call_request session c) call_out],
              res_bind (rpc loads call_out) (tool_output loads)))"

section \<open>The Gateway's resource token\<close>

definition token_request :: "json \<Rightarrow> json" where
  "token_request user = JObj [(''user'', user)]"

definition resource_token ::
  "(string \<Rightarrow> json option) \<Rightarrow> http_outcome \<Rightarrow> json \<Rightarrow> wire list \<times> (call_exc, string) result" where
  "resource_token loads out user =
     ([TokenPost (token_request user) out],
      res_bind (post_ok out) (\<lambda>(_, body).
        case loads body of
          None \<Rightarrow> Inl NotJson
        | Some (JObj d) \<Rightarrow>
            (case map_of d ''token'' of Some (JStr t) \<Rightarrow> Inr t | _ \<Rightarrow> Inl BadShape)
        | Some _ \<Rightarrow> Inl BadShape))"

section \<open>What the clients guarantee\<close>

lemma post_ok_ConnectError: "post_ok out = Inl e \<Longrightarrow> is_connect_error e \<longleftrightarrow> never_reached out"
  by (cases out) (auto split: if_splits)

lemma post_ok_Inr_reached: "post_ok out = Inr v \<Longrightarrow> \<not> never_reached out"
  by (cases out) auto

fun is_call :: "wire \<Rightarrow> bool" where
  "is_call (CallPost _ _ _) = True"
| "is_call _ = False"

text \<open>A write the server may have processed: a tool call whose connection was established.\<close>

fun reached_call :: "wire \<Rightarrow> bool" where
  "reached_call (CallPost _ _ out) = (\<not> never_reached out)"
| "reached_call _ = False"

lemma first_text_of_no_connect: "first_text_of xs = Inl e \<Longrightarrow> \<not> is_connect_error e"
  by (induction xs rule: first_text_of.induct) (auto split: if_splits)

lemma first_text_no_connect: "first_text d = Inl e \<Longrightarrow> \<not> is_connect_error e"
  unfolding first_text_def Let_def
  by (cases "obj_get d ''content''") (auto split: if_splits dest: first_text_of_no_connect)

lemma tool_output_no_connect:
  assumes "tool_output loads r = Inl e"
  shows "\<not> is_connect_error e"
proof (cases r)
  case (JObj d)
  show ?thesis
  proof (cases "first_text d")
    case (Inl e')
    with assms first_text_no_connect [OF Inl] show ?thesis
      unfolding tool_output_def JObj by (auto split: if_splits)
  next
    case (Inr t)
    with assms show ?thesis
      unfolding tool_output_def JObj by (cases t) (auto split: if_splits option.splits)
  qed
qed (use assms in \<open>auto simp: tool_output_def\<close>)

lemma parse_jsonrpc_error: "parse_jsonrpc loads body = Inl e \<Longrightarrow> e = NotJson"
  unfolding parse_jsonrpc_def Let_def by (simp split: option.splits)

lemma rpc_connect_error:
  assumes "rpc loads out = Inl e"
  shows "is_connect_error e \<longleftrightarrow> never_reached out"
proof (cases "post_ok out")
  case (Inl e')
  with assms post_ok_ConnectError [OF Inl] show ?thesis by (simp add: rpc_def)
next
  case (Inr v)
  obtain h body where v: "v = (h, body)" by (cases v)
  have "\<not> is_connect_error e"
  proof (cases "parse_jsonrpc loads body")
    case (Inl e')
    with assms Inr v parse_jsonrpc_error [OF Inl] show ?thesis by (simp add: rpc_def)
  next
    case (Inr m)
    with assms \<open>post_ok out = Inr v\<close> v show ?thesis
      by (cases m) (auto simp: rpc_def split: option.splits)
  qed
  with post_ok_Inr_reached [OF Inr] show ?thesis by simp
qed

lemma rpc_Inr_reached: "rpc loads out = Inr v \<Longrightarrow> \<not> never_reached out"
  by (cases out) (auto simp: rpc_def)

end
