(* ===== verification/Agent_Graph.thy ===== *)
theory Agent_Graph
  imports Agent_Mcp
begin

text \<open>
  The planner-executor graph (\<open>agents/app/graph.py\<close>, \<open>agents/app/nodes\<close>,
  \<open>agents/app/state.py\<close>): the typed state, one function per node, the conditional branches and
  the fixed topology. A node returns the state after its update, or pauses at a human gate, or
  raises. The requests a node sends to the MCP server and the token endpoint are returned beside
  its result.
\<close>

section \<open>State\<close>

record citation =
  cit_n :: "int option"
  cit_documentId :: "string option"
  cit_clearance :: "string option"
  cit_snippet :: "string option"

record sar_args =
  arg_account :: string
  arg_period :: string
  arg_rationale :: string
  arg_citations :: "int list"

record proposed_action =
  pa_tool :: string
  pa_args :: sar_args

text \<open>The human decision carried by a resume request.\<close>

record decision =
  d_approved :: "bool option"
  d_note :: "string option"
  d_breach :: "bool option"

record sar_action =
  sa_tool :: string
  sa_draftRef :: json
  sa_status :: json
  sa_auditRef :: json

datatype run_result = ErrorResult call_exc | ActionResult sar_action | NoteResult string

datatype status =
  COMPLETED | REJECTED | FAILED | AWAITING_APPROVAL | AWAITING_CLARIFICATION | RUNNING

datatype trace_entry =
    TPlanner "string list"
  | TRetrieve nat
  | TAssess bool bool
  | TApprove bool
  | TClarify bool
  | TAct
  | TActError call_exc
  | TRejected
  | TFinalize

text \<open>
  The keys of the state are optional in the code and every read supplies a default; a field here
  holds the default until the key is written (\<open>[]\<close> for the lists, \<open>False\<close> and \<open>None\<close> otherwise).
\<close>

record agent_state =
  s_query :: string
  s_account :: string
  s_period :: string
  s_bearer :: string
  s_run_id :: string
  s_caller :: json
  s_created_at :: pyfloat
  s_plan :: "string list"
  s_answer :: "string option"
  s_contexts :: "citation list"
  s_amounts :: "pyfloat list"
  s_breach :: bool
  s_breach_amount :: "pyfloat option"
  s_breach_detail :: "string option"
  s_ambiguous :: bool
  s_proposed_action :: "proposed_action option"
  s_approval :: "decision option"
  s_status :: "status option"
  s_result :: "run_result option"
  s_trace :: "trace_entry list"
  s_step_count :: nat

text \<open>The body of a Gateway query response: \<open>answer\<close> and \<open>citations\<close>, null or absent as \<open>None\<close>.\<close>

record gw_response =
  gw_answer :: "string option"
  gw_citations :: "citation list option"

datatype gw_exc = GatewayError string

text \<open>
  The environment a run executes in: the Gateway's answer to a query, the outcomes of the three
  exchanges of the \<open>i\<close>-th attempt of the governed call, the JSON decoder, and the settings.
\<close>

record agent_env =
  e_gateway :: "string \<Rightarrow> int \<Rightarrow> string \<Rightarrow> (gw_exc, gw_response) result"
  e_top_k :: int
  e_threshold :: pyfloat
  e_retries :: int
  e_loads :: "string \<Rightarrow> json option"
  e_token_out :: "nat \<Rightarrow> http_outcome"
  e_init_out :: "nat \<Rightarrow> http_outcome"
  e_call_out :: "nat \<Rightarrow> http_outcome"

section \<open>Nodes\<close>

datatype agent_node = Planner | Retrieve | Assess | Approve | Clarify | ActSar | Rejected | Finalize

definition PLAN :: "string list" where
  "PLAN = [''retrieve'', ''assess'', ''conditional-sar'']"

definition step_with :: "trace_entry \<Rightarrow> agent_state \<Rightarrow> agent_state" where
  "step_with e s = s\<lparr>s_trace := s_trace s @ [e], s_step_count := s_step_count s + 1\<rparr>"

definition planner_node :: "agent_state \<Rightarrow> agent_state" where
  "planner_node s = (step_with (TPlanner PLAN) s)\<lparr>s_plan := PLAN\<rparr>"

definition retrieve_node :: "agent_env \<Rightarrow> agent_state \<Rightarrow> (gw_exc, agent_state) result" where
  "retrieve_node env s =
     (case e_gateway env (s_query s) (e_top_k env) (s_bearer s) of
        Inl e \<Rightarrow> Inl e
      | Inr resp \<Rightarrow>
          (let answer = (case gw_answer resp of Some a \<Rightarrow> a | None \<Rightarrow> []);
               contexts = (case gw_citations resp of Some cs \<Rightarrow> cs | None \<Rightarrow> []);
               amounts = extract_amounts (Some answer)
                 @ concat (map (\<lambda>c. extract_amounts (cit_snippet c)) contexts)
           in Inr ((step_with (TRetrieve (length contexts)) s)
                \<lparr>s_answer := Some answer, s_contexts := contexts, s_amounts := amounts\<rparr>)))"

text \<open>\<open>sorted({...})\<close> on integers.\<close>

definition sorted_set :: "int list \<Rightarrow> int list" where
  "sorted_set xs = sort (remdups xs)"

definition context_numbers :: "citation list \<Rightarrow> int list" where
  "context_numbers contexts = sorted_set (List.map_filter cit_n contexts)"

definition per_citation :: "citation list \<Rightarrow> (int option \<times> pyfloat) list" where
  "per_citation contexts =
     concat (map (\<lambda>c. map (Pair (cit_n c)) (extract_amounts (cit_snippet c))) contexts)"

definition breaching_numbers :: "pyfloat \<Rightarrow> citation list \<Rightarrow> int list" where
  "breaching_numbers threshold contexts =
     sorted_set (List.map_filter (\<lambda>(n, amt). if f_le threshold amt then n else None)
       (per_citation contexts))"

definition max_amount :: "pyfloat list \<Rightarrow> pyfloat option" where
  "max_amount amounts = (case amounts of [] \<Rightarrow> None | x # xs \<Rightarrow> Some (f_max x xs))"

definition assess_detail :: "pyfloat \<Rightarrow> pyfloat \<Rightarrow> string" where
  "assess_detail amount threshold =
     ''$'' @ fmt_money amount @ '' exceeds the $'' @ fmt_money threshold @ '' reporting threshold''"

definition assess_node :: "agent_env \<Rightarrow> agent_state \<Rightarrow> agent_state" where
  "assess_node env s =
     (let threshold = e_threshold env;
          contexts = s_contexts s;
          amounts = s_amounts s;
          breach_amount = max_amount amounts;
          breach = (case breach_amount of None \<Rightarrow> False | Some a \<Rightarrow> f_le threshold a);
          text = (case s_answer s of Some a \<Rightarrow> a | None \<Rightarrow> [])
            @ str_join '' '' (map (\<lambda>c. case cit_snippet c of Some t \<Rightarrow> t | None \<Rightarrow> []) contexts);
          ambiguous = (\<not> breach \<and> amounts = [] \<and> CHR ''$'' \<in> set text);
          own = breaching_numbers threshold contexts;
          breaching = (if breach \<and> own = [] then context_numbers contexts else own);
          detail = (case breach_amount of
                      Some a \<Rightarrow> (if breach then Some (assess_detail a threshold) else None)
                    | None \<Rightarrow> None);
          proposed = (case detail of
                        Some d \<Rightarrow> Some \<lparr>pa_tool = ''open_draft_sar'',
                            pa_args = \<lparr>arg_account = s_account s, arg_period = s_period s,
                              arg_rationale = d, arg_citations = breaching\<rparr>\<rparr>
                      | None \<Rightarrow> None)
      in (step_with (TAssess breach ambiguous) s)
           \<lparr>s_breach := breach, s_breach_amount := breach_amount, s_breach_detail := detail,
            s_ambiguous := ambiguous, s_proposed_action := proposed\<rparr>)"

definition approve_node :: "decision \<Rightarrow> agent_state \<Rightarrow> agent_state" where
  "approve_node d s = (step_with (TApprove (d_approved d = Some True)) s)\<lparr>s_approval := Some d\<rparr>"

definition human_detail :: string where
  "human_detail = ''Human-confirmed breach (amount not machine-readable in the source)''"

definition clarify_node :: "decision \<Rightarrow> agent_state \<Rightarrow> agent_state" where
  "clarify_node d s =
     (let breach = (d_breach d = Some True);
          s' = (step_with (TClarify breach) s)
      in if \<not> breach then s'\<lparr>s_breach := False\<rparr>
         else s'\<lparr>s_breach := True, s_breach_detail := Some human_detail,
                s_proposed_action := Some \<lparr>pa_tool = ''open_draft_sar'',
                  pa_args = \<lparr>arg_account = s_account s, arg_period = s_period s,
                    arg_rationale = human_detail,
                    arg_citations = context_numbers (s_contexts s)\<rparr>\<rparr>\<rparr>)"

text \<open>
  The governed write. An attempt mints a token, opens a session and calls the tool; only a
  connection error is retried, at most \<open>max(1, retries + 1)\<close> attempts in all.
\<close>

definition sar_call_of :: "string \<Rightarrow> agent_state \<Rightarrow> sar_args \<Rightarrow> sar_call" where
  "sar_call_of token s a =
     \<lparr>sc_bearer = token, sc_run_id = s_run_id s, sc_account = arg_account a,
      sc_period = arg_period a, sc_rationale = arg_rationale a, sc_citations = arg_citations a\<rparr>"

text \<open>The reading of the tool's output: \<open>result.get\<close> on anything but an object raises.\<close>

definition sar_action_of :: "json \<Rightarrow> (call_exc, sar_action) result" where
  "sar_action_of v =
     (case v of
        JObj d \<Rightarrow> Inr \<lparr>sa_tool = ''open_draft_sar'', sa_draftRef = obj_get d ''draftRef'',
          sa_status = (case map_of d ''status'' of None \<Rightarrow> JStr ''DRAFT'' | Some x \<Rightarrow> x),
          sa_auditRef = obj_get d ''auditRef''\<rparr>
      | _ \<Rightarrow> Inl BadShape)"

definition act_attempt ::
  "agent_env \<Rightarrow> nat \<Rightarrow> agent_state \<Rightarrow> sar_args \<Rightarrow> wire list \<times> (call_exc, sar_action) result" where
  "act_attempt env i s a =
     (let (ws, token) = resource_token (e_loads env) (e_token_out env i) (s_caller s)
      in case token of
           Inl e \<Rightarrow> (ws, Inl e)
         | Inr t \<Rightarrow>
             (let (ws', out) = open_draft_sar (e_loads env) (e_init_out env i) (e_call_out env i)
                    (sar_call_of t s a)
              in (ws @ ws',
                  res_bind out sar_action_of)))"

fun act_loop ::
  "agent_env \<Rightarrow> nat \<Rightarrow> nat \<Rightarrow> agent_state \<Rightarrow> sar_args \<Rightarrow> call_exc \<Rightarrow>
   wire list \<times> (call_exc, sar_action) result" where
  "act_loop env 0 i s a last_error = ([], Inl last_error)"
| "act_loop env (Suc k) i s a last_error =
     (let (ws, out) = act_attempt env i s a
      in case out of
           Inr r \<Rightarrow> (ws, Inr r)
         | Inl e \<Rightarrow>
             (if is_connect_error e
              then (let (ws', out') = act_loop env k (Suc i) s a e in (ws @ ws', out'))
              else (ws, Inl e)))"

definition attempts_of :: "int \<Rightarrow> nat" where
  "attempts_of retries = nat (max 1 (retries + 1))"

definition act_sar_node :: "agent_env \<Rightarrow> agent_state \<Rightarrow> sar_args \<Rightarrow> wire list \<times> agent_state" where
  "act_sar_node env s a =
     (let (ws, out) = act_loop env (attempts_of (e_retries env)) 0 s a (ConnectError [])
      in (ws,
          case out of
            Inr r \<Rightarrow> (step_with TAct s)\<lparr>s_status := Some COMPLETED, s_result := Some (ActionResult r)\<rparr>
          | Inl e \<Rightarrow> s\<lparr>s_trace := s_trace s @ [TAct, TActError e],
                       s_step_count := s_step_count s + 1,
                       s_status := Some FAILED, s_result := Some (ErrorResult e)\<rparr>))"

definition rejected_node :: "agent_state \<Rightarrow> agent_state" where
  "rejected_node s =
     (step_with TRejected s)
       \<lparr>s_status := Some REJECTED,
        s_result := (case s_approval s of
                       Some d \<Rightarrow> (case d_note d of
                                    Some t \<Rightarrow> (if t = [] then None else Some (NoteResult t))
                                  | None \<Rightarrow> None)
                     | None \<Rightarrow> None)\<rparr>"

definition finalize_node :: "agent_state \<Rightarrow> agent_state" where
  "finalize_node s = (step_with TFinalize s)\<lparr>s_status := Some COMPLETED\<rparr>"

section \<open>Branches and topology\<close>

definition breach_branch :: "agent_state \<Rightarrow> agent_node" where
  "breach_branch s = (if s_breach s then Approve else if s_ambiguous s then Clarify else Finalize)"

definition clarify_branch :: "agent_state \<Rightarrow> agent_node" where
  "clarify_branch s = (if s_proposed_action s \<noteq> None then Approve else Finalize)"

definition approval_branch :: "agent_state \<Rightarrow> agent_node" where
  "approval_branch s =
     (case s_approval s of
        Some d \<Rightarrow> (if d_approved d = Some True then ActSar else Rejected)
      | None \<Rightarrow> Rejected)"

text \<open>The edges \<open>build_graph\<close> declares; \<open>None\<close> is \<open>END\<close>.\<close>

fun next_node :: "agent_node \<Rightarrow> agent_state \<Rightarrow> agent_node option" where
  "next_node Planner s = Some Retrieve"
| "next_node Retrieve s = Some Assess"
| "next_node Assess s = Some (breach_branch s)"
| "next_node Clarify s = Some (clarify_branch s)"
| "next_node Approve s = Some (approval_branch s)"
| "next_node ActSar s = None"
| "next_node Rejected s = None"
| "next_node Finalize s = None"

inductive edge :: "agent_node \<Rightarrow> agent_node \<Rightarrow> bool" where
  planner: "edge Planner Retrieve"
| retrieve: "edge Retrieve Assess"
| assess_approve: "edge Assess Approve"
| assess_clarify: "edge Assess Clarify"
| assess_finalize: "edge Assess Finalize"
| clarify_approve: "edge Clarify Approve"
| clarify_finalize: "edge Clarify Finalize"
| approve_act: "edge Approve ActSar"
| approve_rejected: "edge Approve Rejected"

inductive_cases edge_to_act: "edge n ActSar"
inductive_cases edge_to_approve: "edge n Approve"

lemma next_node_edge: "next_node n s = Some m \<Longrightarrow> edge n m"
  by (cases n)
    (auto simp: breach_branch_def clarify_branch_def approval_branch_def
      split: if_splits option.splits intro: edge.intros)

section \<open>Execution\<close>

datatype run_exc = RetrieveError gw_exc | MissingProposal | StepLimit

datatype node_out = Ran "wire list" agent_state | Interrupted | Raised run_exc

fun run_node :: "agent_env \<Rightarrow> decision option \<Rightarrow> agent_node \<Rightarrow> agent_state \<Rightarrow> node_out" where
  "run_node env d Planner s = Ran [] (planner_node s)"
| "run_node env d Retrieve s =
     (case retrieve_node env s of Inl e \<Rightarrow> Raised (RetrieveError e) | Inr s' \<Rightarrow> Ran [] s')"
| "run_node env d Assess s = Ran [] (assess_node env s)"
| "run_node env d Approve s =
     (case d of None \<Rightarrow> Interrupted | Some v \<Rightarrow> Ran [] (approve_node v s))"
| "run_node env d Clarify s =
     (case d of None \<Rightarrow> Interrupted | Some v \<Rightarrow> Ran [] (clarify_node v s))"
| "run_node env d ActSar s =
     (case s_proposed_action s of
        None \<Rightarrow> Raised MissingProposal
      | Some p \<Rightarrow> (let (ws, s') = act_sar_node env s (pa_args p) in Ran ws s'))"
| "run_node env d Rejected s = Ran [] (rejected_node s)"
| "run_node env d Finalize s = Ran [] (finalize_node s)"

text \<open>
  One invocation of the compiled graph. The runtime executes the pending node, saves the state
  it returns with the next node, and goes on; it stops at the end of the graph, at a human gate
  (the saved state still names the gate), at an exception (the failing node stays pending) and
  at the step limit. A resume value is consumed by the gate that was pending: a later gate of
  the same invocation pauses again.
\<close>

record drive_out =
  o_state :: agent_state
  o_next :: "agent_node option"
  o_wires :: "wire list"
  o_exc :: "run_exc option"

fun drive :: "nat \<Rightarrow> agent_env \<Rightarrow> decision option \<Rightarrow> agent_node \<Rightarrow> agent_state \<Rightarrow> drive_out" where
  "drive 0 env d n s = \<lparr>o_state = s, o_next = Some n, o_wires = [], o_exc = Some StepLimit\<rparr>"
| "drive (Suc k) env d n s =
     (case run_node env d n s of
        Interrupted \<Rightarrow> \<lparr>o_state = s, o_next = Some n, o_wires = [], o_exc = None\<rparr>
      | Raised e \<Rightarrow> \<lparr>o_state = s, o_next = Some n, o_wires = [], o_exc = Some e\<rparr>
      | Ran ws s' \<Rightarrow>
          (case next_node n s' of
             None \<Rightarrow> \<lparr>o_state = s', o_next = None, o_wires = ws, o_exc = None\<rparr>
           | Some m \<Rightarrow> (let r = drive k env None m s' in r\<lparr>o_wires := ws @ o_wires r\<rparr>)))"

section \<open>Facts about the nodes\<close>

lemma step_with_fields [simp]:
  "s_trace (step_with e s) = s_trace s @ [e]"
  "s_step_count (step_with e s) = Suc (s_step_count s)"
  "s_account (step_with e s) = s_account s" "s_period (step_with e s) = s_period s"
  "s_run_id (step_with e s) = s_run_id s" "s_caller (step_with e s) = s_caller s"
  "s_query (step_with e s) = s_query s" "s_bearer (step_with e s) = s_bearer s"
  "s_proposed_action (step_with e s) = s_proposed_action s"
  "s_approval (step_with e s) = s_approval s" "s_status (step_with e s) = s_status s"
  "s_result (step_with e s) = s_result s" "s_contexts (step_with e s) = s_contexts s"
  "s_breach (step_with e s) = s_breach s" "s_ambiguous (step_with e s) = s_ambiguous s"
  "s_created_at (step_with e s) = s_created_at s" "s_amounts (step_with e s) = s_amounts s"
  "s_answer (step_with e s) = s_answer s" "s_breach_detail (step_with e s) = s_breach_detail s"
  by (simp_all add: step_with_def)

lemma set_sorted_set [simp]: "set (sorted_set xs) = set xs"
  by (simp add: sorted_set_def)

lemma sorted_sorted_set [simp]: "sorted (sorted_set xs)" "distinct (sorted_set xs)"
  by (simp_all add: sorted_set_def)

lemma sorted_set_Nil [simp]: "sorted_set xs = [] \<longleftrightarrow> xs = []"
  by (metis set_empty set_sorted_set)

lemma set_map_filter: "set (List.map_filter f xs) = {y. \<exists>x\<in>set xs. f x = Some y}"
  by (induction xs) (auto simp: List.map_filter_simps split: option.splits)

lemma max_amount_breach:
  assumes "NaN \<notin> set amounts"
  shows "(case max_amount amounts of None \<Rightarrow> False | Some a \<Rightarrow> f_le t a) \<longleftrightarrow> (\<exists>a\<in>set amounts. f_le t a)"
proof (cases amounts)
  case (Cons x xs)
  have "f_le t (f_max x xs) \<longleftrightarrow> (\<exists>a\<in>set (x # xs). f_le t a)"
  proof
    assume "f_le t (f_max x xs)"
    then show "\<exists>a\<in>set (x # xs). f_le t a" using f_max_mem by blast
  next
    assume "\<exists>a\<in>set (x # xs). f_le t a"
    then obtain a where a: "a \<in> set (x # xs)" "f_le t a" by blast
    have "f_le a (f_max x xs)" using assms a(1) Cons by (intro f_max_ge) auto
    then show "f_le t (f_max x xs)" using a(2) f_le_trans by blast
  qed
  then show ?thesis by (simp add: Cons max_amount_def)
qed (simp add: max_amount_def)

lemma assess_fields:
  "s_run_id (assess_node env s) = s_run_id s" "s_account (assess_node env s) = s_account s"
  "s_period (assess_node env s) = s_period s" "s_caller (assess_node env s) = s_caller s"
  "s_contexts (assess_node env s) = s_contexts s" "s_status (assess_node env s) = s_status s"
  "s_approval (assess_node env s) = s_approval s" "s_result (assess_node env s) = s_result s"
  "s_created_at (assess_node env s) = s_created_at s" "s_answer (assess_node env s) = s_answer s"
  "s_amounts (assess_node env s) = s_amounts s"
  by (simp_all add: assess_node_def Let_def)

lemma assess_breach:
  "s_breach (assess_node env s) \<longleftrightarrow>
     (case max_amount (s_amounts s) of None \<Rightarrow> False | Some a \<Rightarrow> f_le (e_threshold env) a)"
  by (simp add: assess_node_def Let_def)

lemma assess_ambiguous:
  "s_ambiguous (assess_node env s) \<longleftrightarrow> s_amounts s = [] \<and>
     CHR ''$'' \<in> set ((case s_answer s of Some a \<Rightarrow> a | None \<Rightarrow> [])
            @ str_join '' '' (map (\<lambda>c. case cit_snippet c of Some t \<Rightarrow> t | None \<Rightarrow> []) (s_contexts s)))"
  by (auto simp: assess_node_def Let_def max_amount_def)

lemma assess_proposed:
  "s_proposed_action (assess_node env s) =
     (case max_amount (s_amounts s) of
        None \<Rightarrow> None
      | Some a \<Rightarrow>
          (if f_le (e_threshold env) a
           then Some \<lparr>pa_tool = ''open_draft_sar'',
                  pa_args = \<lparr>arg_account = s_account s, arg_period = s_period s,
                    arg_rationale = assess_detail a (e_threshold env),
                    arg_citations =
                      (if breaching_numbers (e_threshold env) (s_contexts s) = []
                       then context_numbers (s_contexts s)
                       else breaching_numbers (e_threshold env) (s_contexts s))\<rparr>\<rparr>
           else None))"
  by (auto simp: assess_node_def Let_def split: option.splits)

lemma assess_proposed_iff: "s_proposed_action (assess_node env s) \<noteq> None \<longleftrightarrow> s_breach (assess_node env s)"
  by (auto simp: assess_proposed assess_breach split: option.splits if_splits)

lemma planner_fields [simp]:
  "s_run_id (planner_node s) = s_run_id s" "s_status (planner_node s) = s_status s"
  "s_approval (planner_node s) = s_approval s" "s_account (planner_node s) = s_account s"
  "s_period (planner_node s) = s_period s" "s_query (planner_node s) = s_query s"
  "s_bearer (planner_node s) = s_bearer s" "s_caller (planner_node s) = s_caller s"
  "s_proposed_action (planner_node s) = s_proposed_action s" "s_result (planner_node s) = s_result s"
  "s_created_at (planner_node s) = s_created_at s"
  by (simp_all add: planner_node_def)

lemma retrieve_node_Inr:
  assumes "retrieve_node env s = Inr s'"
  obtains resp where "e_gateway env (s_query s) (e_top_k env) (s_bearer s) = Inr resp"
    "s_run_id s' = s_run_id s" "s_status s' = s_status s" "s_approval s' = s_approval s"
    "s_account s' = s_account s" "s_period s' = s_period s" "s_caller s' = s_caller s"
    "s_proposed_action s' = s_proposed_action s" "s_result s' = s_result s"
    "s_created_at s' = s_created_at s"
    "s_answer s' = Some (case gw_answer resp of Some a \<Rightarrow> a | None \<Rightarrow> [])"
    "s_contexts s' = (case gw_citations resp of Some cs \<Rightarrow> cs | None \<Rightarrow> [])"
    "s_amounts s' = extract_amounts (s_answer s') @
       concat (map (\<lambda>c. extract_amounts (cit_snippet c)) (s_contexts s'))"
proof (cases "e_gateway env (s_query s) (e_top_k env) (s_bearer s)")
  case (Inr resp)
  show thesis
    using assms that [OF Inr] by (auto simp: retrieve_node_def Let_def Inr)
qed (use assms in \<open>simp add: retrieve_node_def\<close>)

lemma retrieve_amounts_not_nan:
  "retrieve_node env s = Inr s' \<Longrightarrow> NaN \<notin> set (s_amounts s')"
  by (erule retrieve_node_Inr) (auto simp: extract_amounts_not_nan)

section \<open>Facts about the governed write\<close>

lemma sar_action_no_connect: "sar_action_of v = Inl e \<Longrightarrow> \<not> is_connect_error e"
  by (cases v) (auto simp: sar_action_of_def)

lemma act_attempt_calls:
  assumes "act_attempt env i s a = (ws, out)"
  shows "CallPost c rq h \<in> set ws \<Longrightarrow> \<exists>t. c = sar_call_of t s a \<and> h = e_call_out env i"
    and "length (filter is_call ws) \<le> 1"
    and "length (filter reached_call ws) \<le> 1"
    and "out = Inl e \<Longrightarrow> is_connect_error e \<Longrightarrow> filter reached_call ws = []"
proof -
  define tok where "tok = snd (resource_token (e_loads env) (e_token_out env i) (s_caller s))"
  have tok: "resource_token (e_loads env) (e_token_out env i) (s_caller s) =
      ([TokenPost (token_request (s_caller s)) (e_token_out env i)], tok)"
    by (simp add: tok_def resource_token_def)
  have "(\<forall>c rq h. CallPost c rq h \<in> set ws \<longrightarrow> (\<exists>t. c = sar_call_of t s a \<and> h = e_call_out env i)) \<and>
      length (filter is_call ws) \<le> 1 \<and> length (filter reached_call ws) \<le> 1 \<and>
      (\<forall>e. out = Inl e \<longrightarrow> is_connect_error e \<longrightarrow> filter reached_call ws = [])"
  proof (cases tok)
    case (Inr t)
    show ?thesis
    proof (cases "initialize (e_init_out env i)")
      case (Inr session)
      with assms tok \<open>tok = Inr t\<close> show ?thesis
        by (auto simp: act_attempt_def open_draft_sar_def Let_def res_bind_Inl_iff
            dest: rpc_connect_error rpc_Inr_reached tool_output_no_connect sar_action_no_connect)
    qed (use assms tok Inr in \<open>auto simp: act_attempt_def open_draft_sar_def Let_def\<close>)
  qed (use assms tok in \<open>auto simp: act_attempt_def\<close>)
  then show "CallPost c rq h \<in> set ws \<Longrightarrow> \<exists>t. c = sar_call_of t s a \<and> h = e_call_out env i"
    and "length (filter is_call ws) \<le> 1" and "length (filter reached_call ws) \<le> 1"
    and "out = Inl e \<Longrightarrow> is_connect_error e \<Longrightarrow> filter reached_call ws = []"
    by blast+
qed

lemma act_loop_calls:
  assumes "act_loop env k i s a e0 = (ws, out)"
  shows "(\<forall>c rq h. CallPost c rq h \<in> set ws \<longrightarrow> (\<exists>t. c = sar_call_of t s a)) \<and>
    length (filter is_call ws) \<le> k \<and> length (filter reached_call ws) \<le> 1"
  using assms
proof (induction env k i s a e0 arbitrary: ws out rule: act_loop.induct)
  case (2 env k i s a e0)
  obtain w o1 where att: "act_attempt env i s a = (w, o1)" by fastforce
  note A = act_attempt_calls [OF att]
  show ?case
  proof (cases "\<exists>e. o1 = Inl e \<and> is_connect_error e")
    case True
    then obtain e where e: "o1 = Inl e" "is_connect_error e" by blast
    obtain w' o2 where rest: "act_loop env k (Suc i) s a e = (w', o2)" by fastforce
    from 2(2) att e rest have ws: "ws = w @ w'" by simp
    from "2.IH" [OF att [symmetric] refl e(1) e(2) rest] A(1,2) A(4) [OF e]
    show ?thesis unfolding ws by auto
  next
    case False
    with 2(2) att have ws: "ws = w" by (auto split: sum.splits)
    from A(1) A(2) A(3) show ?thesis unfolding ws by auto
  qed
qed simp

end
