(* ===== verification/Agent_Run.thy ===== *)
theory Agent_Run
  imports Agent_Graph
begin

text \<open>
  The run API over the graph: \<open>GraphRunner\<close> of \<open>agents/app/runner.py\<close>, the counters of
  \<open>agents/app/metrics.py\<close> and the responses of \<open>agents/app/models.py\<close>. The world holds the saved
  state of every run (its values and the pending node), the metrics, and the log of the requests
  sent on behalf of all runs, which is there for the safety properties to speak about.
\<close>

section \<open>World\<close>

record metrics =
  m_started :: nat
  m_total :: "status \<Rightarrow> nat"
  m_awaiting :: nat
  m_tool_ok :: nat
  m_tool_error :: nat
  m_failures :: nat
  m_latency :: "pyfloat list"

definition no_metrics :: metrics where
  "no_metrics = \<lparr>m_started = 0, m_total = (\<lambda>_. 0), m_awaiting = 0, m_tool_ok = 0,
     m_tool_error = 0, m_failures = 0, m_latency = []\<rparr>"

type_synonym snapshot = "agent_state \<times> agent_node option"

record world =
  w_threads :: "string \<Rightarrow> snapshot option"
  w_metrics :: metrics
  w_log :: "wire list"

definition empty_world :: world where
  "empty_world = \<lparr>w_threads = (\<lambda>_. None), w_metrics = no_metrics, w_log = []\<rparr>"

section \<open>Responses\<close>

record run_response =
  r_run_id :: string
  r_status :: status
  r_answer :: "string option"
  r_citations :: "citation list"
  r_proposed :: "proposed_action option"
  r_action :: "sar_action option"
  r_audit :: "string option"
  r_trace :: "trace_entry list"

text \<open>
  \<open>to_response\<close>. The response model types \<open>auditRef\<close> as an optional string, so any other JSON
  value there is a validation error (\<open>None\<close>).
\<close>

definition to_response :: "string \<Rightarrow> agent_state \<Rightarrow> status \<Rightarrow> run_response option" where
  "to_response run_id s st =
     (let action = (case s_result s of Some (ActionResult a) \<Rightarrow> Some a | _ \<Rightarrow> None);
          audit = (case action of
                     None \<Rightarrow> Some None
                   | Some a \<Rightarrow> (case sa_auditRef a of
                                  JNull \<Rightarrow> Some None | JStr x \<Rightarrow> Some (Some x) | _ \<Rightarrow> None))
      in case audit of
           None \<Rightarrow> None
         | Some x \<Rightarrow>
             Some \<lparr>r_run_id = run_id, r_status = st, r_answer = s_answer s,
               r_citations = filter (\<lambda>c. cit_n c \<noteq> None) (s_contexts s),
               r_proposed = s_proposed_action s, r_action = action, r_audit = x,
               r_trace = s_trace s\<rparr>)"

definition snapshot_status :: "snapshot \<Rightarrow> status" where
  "snapshot_status snap =
     (case snd snap of
        Some Clarify \<Rightarrow> AWAITING_CLARIFICATION
      | Some Approve \<Rightarrow> AWAITING_APPROVAL
      | Some _ \<Rightarrow> RUNNING
      | None \<Rightarrow> (case s_status (fst snap) of Some st \<Rightarrow> st | None \<Rightarrow> COMPLETED))"

definition render :: "string \<Rightarrow> snapshot \<Rightarrow> run_response option" where
  "render run_id snap = to_response run_id (fst snap) (snapshot_status snap)"

definition is_terminal :: "status \<Rightarrow> bool" where
  "is_terminal st \<longleftrightarrow> st = COMPLETED \<or> st = REJECTED \<or> st = FAILED"

definition record_terminal :: "run_response \<Rightarrow> metrics \<Rightarrow> metrics" where
  "record_terminal resp m =
     (if \<not> is_terminal (r_status resp) then m
      else (let m1 = m\<lparr>m_total := (m_total m)(r_status resp := m_total m (r_status resp) + 1)\<rparr>;
                m2 = (if r_status resp = COMPLETED \<and> r_action resp \<noteq> None
                      then m1\<lparr>m_tool_ok := m_tool_ok m1 + 1\<rparr> else m1)
            in if r_status resp = FAILED
               then m2\<lparr>m_tool_error := m_tool_error m2 + 1, m_failures := m_failures m2 + 1\<rparr>
               else m2))"

section \<open>Operations\<close>

datatype runner_exc = BadSubject jwt_exc | GraphExc run_exc | BadResponse

definition recursion_limit :: "int \<Rightarrow> nat" where
  "recursion_limit max_steps = nat (max max_steps 8)"

definition initial_state ::
  "string \<Rightarrow> pyfloat \<Rightarrow> string \<Rightarrow> string \<Rightarrow> string \<Rightarrow> string \<Rightarrow> json \<Rightarrow> agent_state" where
  "initial_state run_id now query account period bearer caller =
     \<lparr>s_query = query, s_account = account, s_period = period, s_bearer = bearer,
      s_run_id = run_id, s_caller = caller, s_created_at = now, s_plan = [], s_answer = None,
      s_contexts = [], s_amounts = [], s_breach = False, s_breach_amount = None,
      s_breach_detail = None, s_ambiguous = False, s_proposed_action = None, s_approval = None,
      s_status = None, s_result = None, s_trace = [], s_step_count = 0\<rparr>"

text \<open>Saving what an invocation of the graph leaves behind.\<close>

definition save_run :: "string \<Rightarrow> drive_out \<Rightarrow> world \<Rightarrow> world" where
  "save_run run_id r w =
     w\<lparr>w_threads := (w_threads w)(run_id \<mapsto> (o_state r, o_next r)), w_log := w_log w @ o_wires r\<rparr>"

definition start ::
  "agent_env \<Rightarrow> (string \<Rightarrow> json option) \<Rightarrow> int \<Rightarrow> string \<Rightarrow> pyfloat \<Rightarrow>
   string \<Rightarrow> string \<Rightarrow> string \<Rightarrow> string \<Rightarrow> world \<Rightarrow> world \<times> (runner_exc, run_response) result" where
  "start env payload max_steps run_id now query account period bearer w =
     (case jwt_sub payload bearer of
        Inl e \<Rightarrow> (w, Inl (BadSubject e))
      | Inr caller \<Rightarrow>
          (let w1 = w\<lparr>w_metrics := (w_metrics w)\<lparr>m_started := m_started (w_metrics w) + 1\<rparr>\<rparr>;
               r = drive (recursion_limit max_steps) env None Planner
                     (initial_state run_id now query account period bearer caller);
               w2 = save_run run_id r w1
           in case o_exc r of
                Some e \<Rightarrow> (w2, Inl (GraphExc e))
              | None \<Rightarrow>
                  (case render run_id (o_state r, o_next r) of
                     None \<Rightarrow> (w2, Inl BadResponse)
                   | Some resp \<Rightarrow>
                       (if is_terminal (r_status resp)
                        then w2\<lparr>w_metrics := record_terminal resp (w_metrics w2)\<rparr>
                        else if r_status resp = AWAITING_APPROVAL
                        then w2\<lparr>w_metrics := (w_metrics w2)\<lparr>m_awaiting := m_awaiting (w_metrics w2) + 1\<rparr>\<rparr>
                        else w2,
                        Inr resp))))"

text \<open>
  \<open>resume\<close> in two steps, because two requests may run side by side: the read of the saved state
  with the test that a gate is pending, and the invocation of the graph from the state read.
\<close>

definition at_gate :: "agent_node option \<Rightarrow> bool" where
  "at_gate nx \<longleftrightarrow> nx = Some Approve \<or> nx = Some Clarify"

datatype resume_check = UnknownRun | AlreadyResolved snapshot | AtGate agent_state agent_node

definition resume_begin :: "string \<Rightarrow> world \<Rightarrow> resume_check" where
  "resume_begin run_id w =
     (case w_threads w run_id of
        None \<Rightarrow> UnknownRun
      | Some (s, nx) \<Rightarrow>
          (case nx of
             Some n \<Rightarrow> (if at_gate nx then AtGate s n else AlreadyResolved (s, nx))
           | None \<Rightarrow> AlreadyResolved (s, nx)))"

definition resume_finish ::
  "agent_env \<Rightarrow> int \<Rightarrow> string \<Rightarrow> pyfloat \<Rightarrow> decision \<Rightarrow> agent_state \<Rightarrow> agent_node \<Rightarrow> world \<Rightarrow>
   world \<times> (runner_exc, run_response) result" where
  "resume_finish env max_steps run_id now d s n w =
     (let r = drive (recursion_limit max_steps) env (Some d) n s;
          w1 = save_run run_id r w
      in case o_exc r of
           Some e \<Rightarrow> (w1, Inl (GraphExc e))
         | None \<Rightarrow>
             (case render run_id (o_state r, o_next r) of
                None \<Rightarrow> (w1, Inl BadResponse)
              | Some resp \<Rightarrow>
                  (if is_terminal (r_status resp)
                   then w1\<lparr>w_metrics := record_terminal resp
                          ((w_metrics w1)\<lparr>m_latency := m_latency (w_metrics w1)
                             @ [f_max (Fin 0) [f_sub now (s_created_at s)]]\<rparr>)\<rparr>
                   else w1,
                   Inr resp)))"

text \<open>The result \<open>None\<close> is the 404 of an unknown run.\<close>

definition resume ::
  "agent_env \<Rightarrow> int \<Rightarrow> string \<Rightarrow> pyfloat \<Rightarrow> decision \<Rightarrow> world \<Rightarrow>
   world \<times> (runner_exc, run_response) result option" where
  "resume env max_steps run_id now d w =
     (case resume_begin run_id w of
        UnknownRun \<Rightarrow> (w, None)
      | AlreadyResolved snap \<Rightarrow>
          (w, Some (case render run_id snap of None \<Rightarrow> Inl BadResponse | Some resp \<Rightarrow> Inr resp))
      | AtGate s n \<Rightarrow>
          (let (w', out) = resume_finish env max_steps run_id now d s n w in (w', Some out)))"

definition get_run :: "string \<Rightarrow> world \<Rightarrow> (runner_exc, run_response) result option" where
  "get_run run_id w =
     (case w_threads w run_id of
        None \<Rightarrow> None
      | Some snap \<Rightarrow> Some (case render run_id snap of None \<Rightarrow> Inl BadResponse | Some resp \<Rightarrow> Inr resp))"

section \<open>The worlds requests can reach\<close>

text \<open>
  One request at a time, each in an environment of its own. A run id is a fresh random
  identifier, so \<open>start\<close> never meets one that is in use.
\<close>

inductive reach :: "world \<Rightarrow> bool" where
  empty: "reach empty_world"
| start: "reach w \<Longrightarrow> w_threads w run_id = None \<Longrightarrow>
    reach (fst (start env payload max_steps run_id now query account period bearer w))"
| resume: "reach w \<Longrightarrow> reach (fst (resume env max_steps run_id now d w))"

end
