(* ===== verification/Agent_Safety.thy ===== *)
theory Agent_Safety
  imports Agent_Run
begin

text \<open>
  The agent's correctness: what one invocation of the graph does, the invariant of the worlds
  requests can reach, and the safety properties that follow from it (no write without a recorded
  approval, at most one write per run, single-use resume, no invocation stopped by the step
  limit), the deterministic breach decision, and the accounting of the metrics.
\<close>

section \<open>One invocation\<close>

lemma recursion_limit_ge: "8 \<le> recursion_limit k"
  by (simp add: recursion_limit_def)

lemma drive_finalize:
  "drive (Suc k) env d Finalize s =
     \<lparr>o_state = finalize_node s, o_next = None, o_wires = [], o_exc = None\<rparr>"
  by simp

lemma drive_approve:
  assumes "2 \<le> k" "s_proposed_action s = Some p"
  shows "drive k env (Some d) Approve s =
    (if d_approved d = Some True
     then \<lparr>o_state = snd (act_sar_node env (approve_node d s) (pa_args p)), o_next = None,
           o_wires = fst (act_sar_node env (approve_node d s) (pa_args p)), o_exc = None\<rparr>
     else \<lparr>o_state = rejected_node (approve_node d s), o_next = None, o_wires = [], o_exc = None\<rparr>)"
proof -
  from assms(1) obtain j where "k = j + 2" by (metis le_add_diff_inverse2)
  then have k: "k = Suc (Suc j)" by simp
  have p: "s_proposed_action (approve_node d s) = Some p"
    using assms(2) by (simp add: approve_node_def)
  have b: "approval_branch (approve_node d s) = (if d_approved d = Some True then ActSar else Rejected)"
    by (simp add: approval_branch_def approve_node_def)
  show ?thesis unfolding k using p b by (auto split: prod.splits)
qed

lemma drive_approve_pause:
  "drive (Suc k) env None Approve s =
     \<lparr>o_state = s, o_next = Some Approve, o_wires = [], o_exc = None\<rparr>"
  by simp

lemma drive_clarify:
  assumes "3 \<le> k" "s_proposed_action s = None"
  shows "drive k env (Some d) Clarify s =
    (if d_breach d = Some True
     then \<lparr>o_state = clarify_node d s, o_next = Some Approve, o_wires = [], o_exc = None\<rparr>
     else \<lparr>o_state = finalize_node (clarify_node d s), o_next = None, o_wires = [], o_exc = None\<rparr>)"
proof -
  from assms(1) obtain j where "k = j + 3" by (metis le_add_diff_inverse2)
  then have k: "k = Suc (Suc (Suc j))" by simp
  have b: "clarify_branch (clarify_node d s) = (if d_breach d = Some True then Approve else Finalize)"
    using assms(2) by (simp add: clarify_branch_def clarify_node_def Let_def)
  show ?thesis unfolding k using b by auto
qed

text \<open>What \<open>start\<close> drives: the Gateway's answer, the breach decision, and then a gate or the end.\<close>

lemma drive_start:
  assumes "5 \<le> k"
  shows "drive k env None Planner s =
    (case retrieve_node env (planner_node s) of
       Inl e \<Rightarrow> \<lparr>o_state = planner_node s, o_next = Some Retrieve, o_wires = [],
                 o_exc = Some (RetrieveError e)\<rparr>
     | Inr s2 \<Rightarrow>
         (let s3 = assess_node env s2
          in if s_breach s3
             then \<lparr>o_state = s3, o_next = Some Approve, o_wires = [], o_exc = None\<rparr>
             else if s_ambiguous s3
             then \<lparr>o_state = s3, o_next = Some Clarify, o_wires = [], o_exc = None\<rparr>
             else \<lparr>o_state = finalize_node s3, o_next = None, o_wires = [], o_exc = None\<rparr>))"
proof -
  from assms obtain j where "k = j + 5" by (metis le_add_diff_inverse2)
  then have k: "k = Suc (Suc (Suc (Suc (Suc j))))" by simp
  show ?thesis unfolding k by (auto simp: Let_def breach_branch_def split: sum.splits)
qed

section \<open>The invariant of reachable worlds\<close>

fun wire_run :: "wire \<Rightarrow> string option" where
  "wire_run (CallPost c _ _) = Some (sc_run_id c)"
| "wire_run _ = None"

definition run_calls :: "string \<Rightarrow> wire list \<Rightarrow> wire list" where
  "run_calls run_id wlog = filter (\<lambda>x. wire_run x = Some run_id) wlog"

lemma run_calls_append [simp]: "run_calls r (xs @ ys) = run_calls r xs @ run_calls r ys"
  by (simp add: run_calls_def)

lemma run_calls_Nil [simp]: "run_calls r [] = []"
  by (simp add: run_calls_def)

lemma in_run_calls: "x \<in> set (run_calls r wlog) \<longleftrightarrow> (\<exists>c rq h. x = CallPost c rq h \<and> x \<in> set wlog \<and> sc_run_id c = r)"
  by (cases x) (auto simp: run_calls_def)

lemma wire_run_iff: "wire_run x = Some r \<longleftrightarrow> (\<exists>c rq h. x = CallPost c rq h \<and> sc_run_id c = r)"
  by (cases x) auto

text \<open>The call carries what a human approved: the proposal the gate showed, for this run.\<close>

definition authorises :: "agent_state \<Rightarrow> sar_call \<Rightarrow> bool" where
  "authorises s c \<longleftrightarrow>
     (case (s_approval s, s_proposed_action s) of
        (Some d, Some p) \<Rightarrow>
          d_approved d = Some True \<and> sc_run_id c = s_run_id s
          \<and> sc_account c = arg_account (pa_args p) \<and> sc_period c = arg_period (pa_args p)
          \<and> sc_rationale c = arg_rationale (pa_args p) \<and> sc_citations c = arg_citations (pa_args p)
      | _ \<Rightarrow> False)"

definition unsettled :: "agent_state \<Rightarrow> bool" where
  "unsettled s \<longleftrightarrow> s_approval s = None \<and> s_status s = None \<and> s_result s = None"

definition settled_ok :: "agent_state \<Rightarrow> wire list \<Rightarrow> bool" where
  "settled_ok s calls \<longleftrightarrow>
     (\<forall>x\<in>set calls. \<exists>c rq h. x = CallPost c rq h \<and> authorises s c)
     \<and> length (filter reached_call calls) \<le> 1
     \<and> (\<exists>st. s_status s = Some st \<and> is_terminal st)
     \<and> ((\<exists>a. s_result s = Some (ActionResult a)) \<longrightarrow> s_status s = Some COMPLETED)"

fun run_ok :: "string \<Rightarrow> wire list \<Rightarrow> snapshot \<Rightarrow> bool" where
  "run_ok r wlog (s, Some Retrieve) \<longleftrightarrow> s_run_id s = r \<and> run_calls r wlog = [] \<and> unsettled s"
| "run_ok r wlog (s, Some Approve) \<longleftrightarrow>
     s_run_id s = r \<and> run_calls r wlog = [] \<and> unsettled s \<and> s_proposed_action s \<noteq> None"
| "run_ok r wlog (s, Some Clarify) \<longleftrightarrow>
     s_run_id s = r \<and> run_calls r wlog = [] \<and> unsettled s \<and> s_proposed_action s = None"
| "run_ok r wlog (s, None) \<longleftrightarrow> s_run_id s = r \<and> settled_ok s (run_calls r wlog)"
| "run_ok r wlog (s, Some _) \<longleftrightarrow> False"

definition world_ok :: "world \<Rightarrow> bool" where
  "world_ok w \<longleftrightarrow>
     (\<forall>r snap. w_threads w r = Some snap \<longrightarrow> run_ok r (w_log w) snap)
     \<and> (\<forall>x r. x \<in> set (w_log w) \<longrightarrow> wire_run x = Some r \<longrightarrow> w_threads w r \<noteq> None)"

lemma run_ok_log: "run_calls r wlog' = run_calls r wlog \<Longrightarrow> run_ok r wlog' snap = run_ok r wlog snap"
  by (cases "(r, wlog, snap)" rule: run_ok.cases) auto

lemma world_ok_metrics [simp]: "world_ok (w\<lparr>w_metrics := m\<rparr>) = world_ok w"
  by (simp add: world_ok_def)

lemma world_okD: "world_ok w \<Longrightarrow> w_threads w r = Some snap \<Longrightarrow> run_ok r (w_log w) snap"
  unfolding world_ok_def by blast

lemma world_ok_calls:
  "world_ok w \<Longrightarrow> x \<in> set (w_log w) \<Longrightarrow> wire_run x = Some r \<Longrightarrow> w_threads w r \<noteq> None"
  unfolding world_ok_def by blast

lemma world_ok_fresh: "world_ok w \<Longrightarrow> w_threads w r = None \<Longrightarrow> run_calls r (w_log w) = []"
  using world_ok_calls by (fastforce simp: run_calls_def filter_empty_conv)

lemma run_calls_filter: "filter p (run_calls r ws) = run_calls r (filter p ws)"
  by (simp add: run_calls_def conj_commute)

lemma world_ok_save:
  assumes "world_ok w" "run_ok r (w_log w @ o_wires d) (o_state d, o_next d)"
    and "\<And>x r'. x \<in> set (o_wires d) \<Longrightarrow> wire_run x = Some r' \<Longrightarrow> r' = r"
  shows "world_ok (save_run r d w)"
proof -
  have other: "run_calls r' (o_wires d) = []" if "r' \<noteq> r" for r'
    using assms(3) that by (auto simp: run_calls_def filter_empty_conv)
  show ?thesis
    unfolding world_ok_def
  proof (intro conjI allI impI)
    fix r' snap assume th: "w_threads (save_run r d w) r' = Some snap"
    show "run_ok r' (w_log (save_run r d w)) snap"
    proof (cases "r' = r")
      case True
      with th assms(2) show ?thesis by (simp add: save_run_def)
    next
      case False
      with th assms(1) have "run_ok r' (w_log w) snap" by (auto simp: save_run_def intro: world_okD)
      then show ?thesis
        using run_ok_log [of r' "w_log w @ o_wires d" "w_log w" snap] other [OF False]
        by (simp add: save_run_def)
    qed
  next
    fix x r' assume "x \<in> set (w_log (save_run r d w))" "wire_run x = Some r'"
    then show "w_threads (save_run r d w) r' \<noteq> None"
      using assms(3) world_ok_calls [OF assms(1)] by (auto simp: save_run_def)
  qed
qed

text \<open>The state after the governed write.\<close>

lemma act_node_ok:
  assumes "act_sar_node env s a = (ws, s')" "s_proposed_action s = Some p" "pa_args p = a"
    and "s_approval s = Some d" "d_approved d = Some True"
  shows "settled_ok s' (run_calls (s_run_id s) ws)" "s_run_id s' = s_run_id s"
    and "\<forall>x\<in>set ws. \<forall>r. wire_run x = Some r \<longrightarrow> r = s_run_id s"
proof -
  obtain out where loop: "act_loop env (attempts_of (e_retries env)) 0 s a (ConnectError []) = (ws, out)"
    using assms(1) by (auto simp: act_sar_node_def split: prod.splits)
  from act_loop_calls [OF loop]
  have A: "\<And>c rq h. CallPost c rq h \<in> set ws \<Longrightarrow> \<exists>t. c = sar_call_of t s a"
    and B: "length (filter reached_call ws) \<le> 1" by blast+
  have s': "s_run_id s' = s_run_id s" "s_approval s' = Some d" "s_proposed_action s' = Some p"
    "\<exists>st. s_status s' = Some st \<and> is_terminal st"
    "(\<exists>r. s_result s' = Some (ActionResult r)) \<longrightarrow> s_status s' = Some COMPLETED"
    using assms(1,2,4) loop
    by (auto simp: act_sar_node_def is_terminal_def step_with_def split: sum.splits)
  have "length (filter reached_call (run_calls (s_run_id s) ws)) \<le> length (filter reached_call ws)"
    unfolding run_calls_filter unfolding run_calls_def by (rule length_filter_le)
  with B have C: "length (filter reached_call (run_calls (s_run_id s) ws)) \<le> 1" by simp
  have D: "\<exists>c rq h. x = CallPost c rq h \<and> authorises s' c" if "x \<in> set (run_calls (s_run_id s) ws)" for x
    using that A s' assms(3,5) by (fastforce simp: in_run_calls authorises_def sar_call_of_def)
  show "settled_ok s' (run_calls (s_run_id s) ws)"
    unfolding settled_ok_def using C D s' by blast
  show "s_run_id s' = s_run_id s" by (rule s')
  show "\<forall>x\<in>set ws. \<forall>r. wire_run x = Some r \<longrightarrow> r = s_run_id s"
    using A by (fastforce simp: wire_run_iff sar_call_of_def)
qed

lemma start_run_ok:
  assumes "8 \<le> k" "s_run_id s = r" "unsettled s" "s_proposed_action s = None" "run_calls r wlog = []"
  shows "run_ok r (wlog @ o_wires (drive k env None Planner s))
      (o_state (drive k env None Planner s), o_next (drive k env None Planner s))"
    and "o_wires (drive k env None Planner s) = []"
    and "o_exc (drive k env None Planner s) = None \<or>
      (\<exists>e. o_exc (drive k env None Planner s) = Some (RetrieveError e))"
proof -
  have k: "5 \<le> k" using assms(1) by simp
  have "run_ok r wlog (o_state (drive k env None Planner s), o_next (drive k env None Planner s)) \<and>
    o_wires (drive k env None Planner s) = [] \<and>
    (o_exc (drive k env None Planner s) = None \<or>
      (\<exists>e. o_exc (drive k env None Planner s) = Some (RetrieveError e)))"
  proof (cases "retrieve_node env (planner_node s)")
    case (Inl e)
    then show ?thesis using assms by (simp add: drive_start [OF k] unsettled_def)
  next
    case (Inr s2)
    have "s_run_id s2 = r" "unsettled s2"
      using Inr assms(2,3) by (auto elim!: retrieve_node_Inr simp: unsettled_def)
    then have s3: "s_run_id (assess_node env s2) = r" "unsettled (assess_node env s2)"
      by (simp_all add: assess_fields unsettled_def)
    have p: "s_proposed_action (assess_node env s2) \<noteq> None \<longleftrightarrow> s_breach (assess_node env s2)"
      by (rule assess_proposed_iff)
    have f: "settled_ok (finalize_node (assess_node env s2)) []"
      using s3 by (simp add: finalize_node_def settled_ok_def is_terminal_def unsettled_def)
    show ?thesis
      using s3 p f assms(5) Inr by (auto simp: drive_start [OF k] Let_def finalize_node_def)
  qed
  then show "run_ok r (wlog @ o_wires (drive k env None Planner s))
      (o_state (drive k env None Planner s), o_next (drive k env None Planner s))"
    "o_wires (drive k env None Planner s) = []"
    "o_exc (drive k env None Planner s) = None \<or>
      (\<exists>e. o_exc (drive k env None Planner s) = Some (RetrieveError e))" by auto
qed

lemma resume_run_ok:
  assumes "8 \<le> k" "run_ok r wlog (s, Some n)" "at_gate (Some n)"
  shows "run_ok r (wlog @ o_wires (drive k env (Some d) n s))
      (o_state (drive k env (Some d) n s), o_next (drive k env (Some d) n s)) \<and>
    (\<forall>x\<in>set (o_wires (drive k env (Some d) n s)). \<forall>r'. wire_run x = Some r' \<longrightarrow> r' = r) \<and>
    o_exc (drive k env (Some d) n s) = None"
proof -
  consider "n = Approve" | "n = Clarify" using assms(3) by (auto simp: at_gate_def)
  then show ?thesis
  proof cases
    case 1
    with assms(2) obtain p where p: "s_proposed_action s = Some p" "s_run_id s = r"
      "run_calls r wlog = []" "unsettled s" by auto
    have k: "2 \<le> k" using assms(1) by simp
    show ?thesis
    proof (cases "d_approved d = Some True")
      case True
      obtain ws s' where act: "act_sar_node env (approve_node d s) (pa_args p) = (ws, s')" by fastforce
      have "s_proposed_action (approve_node d s) = Some p" "s_approval (approve_node d s) = Some d"
        "s_run_id (approve_node d s) = r"
        using p by (simp_all add: approve_node_def)
      with act_node_ok [OF act this(1) refl this(2) True] show ?thesis
        using p True by (simp add: 1 drive_approve [OF k p(1)] act)
    next
      case False
      have "settled_ok (rejected_node (approve_node d s)) []"
        by (auto simp: settled_ok_def rejected_node_def is_terminal_def split: option.splits)
      with False p show ?thesis
        by (simp add: 1 drive_approve [OF k p(1)] rejected_node_def approve_node_def)
    qed
  next
    case 2
    with assms(2) have p: "s_proposed_action s = None" "s_run_id s = r"
      "run_calls r wlog = []" "unsettled s" by auto
    have k: "3 \<le> k" using assms(1) by simp
    have "settled_ok (finalize_node (clarify_node d s)) []" if "d_breach d \<noteq> Some True"
      using p(4) that
      by (simp add: settled_ok_def finalize_node_def clarify_node_def Let_def is_terminal_def unsettled_def)
    moreover have "s_run_id (finalize_node (clarify_node d s)) = r" "s_run_id (clarify_node d s) = r"
      "unsettled (clarify_node d s)"
      "d_breach d = Some True \<Longrightarrow> s_proposed_action (clarify_node d s) \<noteq> None"
      using p by (auto simp: finalize_node_def clarify_node_def Let_def unsettled_def)
    ultimately show ?thesis
      using p(3) by (auto simp: 2 drive_clarify [OF k p(1)])
  qed
qed

lemma start_world_ok:
  assumes "world_ok w" "w_threads w r = None"
  shows "world_ok (fst (start env payload steps r now q a p b w))"
proof (cases "jwt_sub payload b")
  case (Inr caller)
  define s0 where "s0 = initial_state r now q a p b caller"
  define w1 where "w1 = w\<lparr>w_metrics := (w_metrics w)\<lparr>m_started := m_started (w_metrics w) + 1\<rparr>\<rparr>"
  have s0: "s_run_id s0 = r" "unsettled s0" "s_proposed_action s0 = None"
    by (simp_all add: s0_def initial_state_def unsettled_def)
  have w1: "world_ok w1" "run_calls r (w_log w1) = []"
    using assms world_ok_fresh by (simp_all add: w1_def)
  note D = start_run_ok [OF recursion_limit_ge s0 w1(2)]
  have "world_ok (save_run r (drive (recursion_limit steps) env None Planner s0) w1)"
    by (rule world_ok_save [OF w1(1) D(1)]) (simp add: D(2))
  then show ?thesis
    by (simp add: start_def Inr Let_def s0_def w1_def split: option.splits)
qed (use assms in \<open>simp add: start_def\<close>)

lemma resume_world_ok:
  assumes "world_ok w"
  shows "world_ok (fst (resume env steps r now d w))"
proof (cases "resume_begin r w")
  case (AtGate s n)
  then have th: "w_threads w r = Some (s, Some n)" "at_gate (Some n)"
    by (auto simp: resume_begin_def split: option.splits if_splits)
  note D = resume_run_ok [OF recursion_limit_ge world_okD [OF assms th(1)] th(2)]
  have "world_ok (save_run r (drive (recursion_limit steps) env (Some d) n s) w)"
    using D [of steps env d] by (intro world_ok_save [OF assms]) blast+
  then show ?thesis
    by (simp add: resume_def AtGate resume_finish_def Let_def split: option.splits prod.splits)
qed (use assms in \<open>simp_all add: resume_def\<close>)

lemma reach_world_ok: "reach w \<Longrightarrow> world_ok w"
proof (induction rule: reach.induct)
  case empty
  then show ?case by (simp add: world_ok_def empty_world_def)
qed (simp_all add: start_world_ok resume_world_ok)

section \<open>A concrete run\<close>

text \<open>
  A Gateway that reports an amount over the threshold, an MCP server that accepts the call, and
  a decoder for the three bodies they send.
\<close>

definition demo_loads :: "string \<Rightarrow> json option" where
  "demo_loads s =
     (if s = ''T'' then Some (JObj [(''token'', JStr ''tok'')])
      else if s = ''R'' then
        Some (JObj [(''result'', JObj [(''structuredContent'',
          JObj [(''draftRef'', JStr ''sar-1''), (''auditRef'', JStr ''aud-1'')])])])
      else None)"

definition demo_env :: agent_env where
  "demo_env =
     \<lparr>e_gateway = (\<lambda>q k b. Inr \<lparr>gw_answer = Some ''Total $12,500 wired'',
        gw_citations = Some [\<lparr>cit_n = Some 1, cit_documentId = Some ''doc'', cit_clearance = None,
          cit_snippet = Some ''wire of $12,500.00''\<rparr>]\<rparr>),
      e_top_k = 6, e_threshold = fl 10000, e_retries = 2, e_loads = demo_loads,
      e_token_out = (\<lambda>i. Resp 200 None ''T''),
      e_init_out = (\<lambda>i. if i = 0 then ConnectErr ''refused'' else Resp 200 (Some ''s1'') []),
      e_call_out = (\<lambda>i. Resp 200 None ''R'')\<rparr>"

definition demo_payload :: "string \<Rightarrow> json option" where
  "demo_payload p = Some (JObj [(''sub'', JStr ''ana'')])"

definition demo_started :: world where
  "demo_started =
     fst (start demo_env demo_payload 12 ''run_1'' (Fin 0) ''q'' ''acc'' ''2024-Q1'' ''h.p.s'' empty_world)"

definition yes_decision :: decision where
  "yes_decision = \<lparr>d_approved = Some True, d_note = None, d_breach = None\<rparr>"

definition demo_done :: world where
  "demo_done = fst (resume demo_env 12 ''run_1'' (Fin 5) yes_decision demo_started)"

lemma reach_demo_started: "reach demo_started"
  unfolding demo_started_def by (intro reach.start reach.empty) (simp add: empty_world_def)

lemma reach_demo_done: "reach demo_done"
  unfolding demo_done_def by (intro reach.resume reach_demo_started)

lemma demo_env_fields [simp]:
  "e_threshold demo_env = fl 10000" "e_loads demo_env = demo_loads" "e_retries demo_env = 2"
  "e_token_out demo_env i = Resp 200 None ''T''" "e_call_out demo_env i = Resp 200 None ''R''"
  "e_init_out demo_env i = (if i = 0 then ConnectErr ''refused'' else Resp 200 (Some ''s1'') [])"
  by (simp_all add: demo_env_def)

lemma demo_breach: "\<exists>a\<in>set (extract_amounts (Some ''Total $12,500 wired'')). f_le (fl 10000) a"
  by code_simp

lemma demo_pending:
  obtains s p where "w_threads demo_started ''run_1'' = Some (s, Some Approve)"
    "s_proposed_action s = Some p" "s_run_id s = ''run_1''" "w_log demo_started = []"
proof -
  define s0 where "s0 = initial_state ''run_1'' (Fin 0) ''q'' ''acc'' ''2024-Q1'' ''h.p.s'' (JStr ''ana'')"
  have jwt: "jwt_sub demo_payload ''h.p.s'' = Inr (JStr ''ana'')" by code_simp
  obtain s2 where s2: "retrieve_node demo_env (planner_node s0) = Inr s2"
    by (cases "retrieve_node demo_env (planner_node s0)")
      (auto simp: retrieve_node_def demo_env_def Let_def)
  then have am: "set (extract_amounts (Some ''Total $12,500 wired'')) \<subseteq> set (s_amounts s2)"
    by (auto simp: retrieve_node_def demo_env_def Let_def)
  then have br: "s_breach (assess_node demo_env s2)"
    unfolding assess_breach demo_env_fields max_amount_breach [OF retrieve_amounts_not_nan [OF s2]]
    using demo_breach by blast
  then obtain p where p: "s_proposed_action (assess_node demo_env s2) = Some p"
    using assess_proposed_iff by blast
  have k: "5 \<le> recursion_limit 12" using recursion_limit_ge [of 12] by simp
  have rid: "s_run_id (assess_node demo_env s2) = ''run_1''"
    using s2 by (auto elim!: retrieve_node_Inr simp: assess_fields s0_def initial_state_def)
  have "w_threads demo_started ''run_1'' = Some (assess_node demo_env s2, Some Approve) \<and>
      w_log demo_started = []"
    using br by (simp add: demo_started_def start_def jwt Let_def drive_start [OF k]
        s0_def [symmetric] s2 save_run_def empty_world_def split: option.splits)
  then show thesis using that p rid by blast
qed

text \<open>The first attempt finds the MCP server unreachable, the second one writes.\<close>

lemma demo_token:
  "resource_token demo_loads (Resp 200 None ''T'') u =
     ([TokenPost (token_request u) (Resp 200 None ''T'')], Inr ''tok'')"
  by (simp add: resource_token_def demo_loads_def)

lemma demo_attempt_0:
  "act_attempt demo_env 0 t a =
     ([TokenPost (token_request (s_caller t)) (Resp 200 None ''T''),
       InitPost (init_request ''tok'') (ConnectErr ''refused'')], Inl (ConnectError ''refused''))"
  by (simp add: act_attempt_def demo_token open_draft_sar_def initialize_def sar_call_of_def Let_def)

lemma demo_attempt_1:
  "\<exists>rq r. act_attempt demo_env 1 t a =
     ([TokenPost (token_request (s_caller t)) (Resp 200 None ''T''),
       InitPost (init_request ''tok'') (Resp 200 (Some ''s1'') []),
       CallPost (sar_call_of ''tok'' t a) rq (Resp 200 None ''R'')], Inr r)"
proof -
  have rpc: "rpc demo_loads (Resp 200 None ''R'') = Inr (JObj [(''structuredContent'',
          JObj [(''draftRef'', JStr ''sar-1''), (''auditRef'', JStr ''aud-1'')])])" by code_simp
  have tool: "tool_output demo_loads (JObj [(''structuredContent'',
          JObj [(''draftRef'', JStr ''sar-1''), (''auditRef'', JStr ''aud-1'')])]) =
      Inr (JObj [(''draftRef'', JStr ''sar-1''), (''auditRef'', JStr ''aud-1'')])" by code_simp
  show ?thesis
    by (simp add: act_attempt_def demo_token rpc tool open_draft_sar_def initialize_def
        sar_call_of_def sar_action_of_def Let_def)
qed

lemma demo_act:
  "\<exists>rq. fst (act_sar_node demo_env t a) =
     [TokenPost (token_request (s_caller t)) (Resp 200 None ''T''),
      InitPost (init_request ''tok'') (ConnectErr ''refused''),
      TokenPost (token_request (s_caller t)) (Resp 200 None ''T''),
      InitPost (init_request ''tok'') (Resp 200 (Some ''s1'') []),
      CallPost (sar_call_of ''tok'' t a) rq (Resp 200 None ''R'')]"
proof -
  have n: "attempts_of 2 = Suc (Suc 1)" by (simp add: attempts_of_def)
  obtain rq r where "act_attempt demo_env 1 t a =
     ([TokenPost (token_request (s_caller t)) (Resp 200 None ''T''),
       InitPost (init_request ''tok'') (Resp 200 (Some ''s1'') []),
       CallPost (sar_call_of ''tok'' t a) rq (Resp 200 None ''R'')], Inr r)"
    using demo_attempt_1 by blast
  then show ?thesis
    unfolding act_sar_node_def demo_env_fields n by (simp add: demo_attempt_0)
qed

lemma demo_resume:
  assumes "s_proposed_action s = Some p" "s_run_id s = ''run_1''"
  obtains c rq where "sc_run_id c = ''run_1''"
    "CallPost c rq (Resp 200 None ''R'') \<in>
      set (w_log (fst (resume_finish demo_env 12 ''run_1'' (Fin 5) yes_decision s Approve w)))"
    "w_log (fst (resume_finish demo_env 12 ''run_1'' (Fin 5) yes_decision s Approve w)) =
      w_log w @ fst (act_sar_node demo_env (approve_node yes_decision s) (pa_args p))"
proof -
  have k: "2 \<le> recursion_limit 12" using recursion_limit_ge [of 12] by simp
  have y: "d_approved yes_decision = Some True" by (simp add: yes_decision_def)
  let ?t = "approve_node yes_decision s"
  let ?c = "sar_call_of ''tok'' ?t (pa_args p)"
  have lg: "w_log (fst (resume_finish demo_env 12 ''run_1'' (Fin 5) yes_decision s Approve w)) =
      w_log w @ fst (act_sar_node demo_env ?t (pa_args p))"
    by (simp add: resume_finish_def drive_approve [OF k assms(1)] y Let_def save_run_def split: option.splits)
  obtain rq where rq: "CallPost ?c rq (Resp 200 None ''R'') \<in> set (fst (act_sar_node demo_env ?t (pa_args p)))"
    using demo_act [of ?t "pa_args p"] by fastforce
  show thesis
  proof (rule that [of ?c rq])
    show "sc_run_id ?c = ''run_1''" using assms(2) by (simp add: sar_call_of_def approve_node_def)
  qed (use lg rq in auto)
qed

lemma demo_call:
  obtains c rq where "CallPost c rq (Resp 200 None ''R'') \<in> set (w_log demo_done)"
    "sc_run_id c = ''run_1''"
proof -
  obtain s p where d: "w_threads demo_started ''run_1'' = Some (s, Some Approve)"
    "s_proposed_action s = Some p" "s_run_id s = ''run_1''"
    by (rule demo_pending)
  have "demo_done = fst (resume_finish demo_env 12 ''run_1'' (Fin 5) yes_decision s Approve demo_started)"
    by (simp add: demo_done_def resume_def resume_begin_def d(1) at_gate_def split: prod.splits)
  with demo_resume [OF d(2,3)] that show thesis by metis
qed

section \<open>Safety\<close>





text \<open>
  C3: an approval is single-use. Once a decision is recorded for a run, a further resume with any
  decision and in any environment changes nothing and sends nothing.
\<close>

theorem approval_single_use:
  assumes "reach w" "w_threads w r = Some (s, nx)" "s_approval s \<noteq> None"
  shows "fst (resume env steps r now d w) = w"
proof -
  have "run_ok r (w_log w) (s, nx)" using world_okD [OF reach_world_ok [OF assms(1)] assms(2)] .
  with assms(3) have "nx = None"
    by (cases "(r, w_log w, (s, nx))" rule: run_ok.cases) (auto simp: unsettled_def)
  then show ?thesis by (simp add: resume_def resume_begin_def assms(2))
qed

lemma approval_single_use_witness:
  "\<exists>s. w_threads demo_done ''run_1'' = Some (s, None) \<and> s_approval s \<noteq> None
     \<and> fst (resume demo_env 12 ''run_1'' (Fin 9) yes_decision demo_done) = demo_done"
proof -
  obtain c rq where "CallPost c rq (Resp 200 None ''R'') \<in> set (w_log demo_done)" "sc_run_id c = ''run_1''"
    by (rule demo_call)
  with world_ok_calls [OF reach_world_ok [OF reach_demo_done]]
  obtain s nx where th: "w_threads demo_done ''run_1'' = Some (s, nx)" by fastforce
  have "CallPost c rq (Resp 200 None ''R'') \<in> set (run_calls ''run_1'' (w_log demo_done))"
    using \<open>CallPost c rq _ \<in> _\<close> \<open>sc_run_id c = _\<close> by (simp add: in_run_calls)
  with world_okD [OF reach_world_ok [OF reach_demo_done] th] have "nx = None" "s_approval s \<noteq> None"
    by (cases "(''run_1'', w_log demo_done, (s, nx))" rule: run_ok.cases;
        auto simp: settled_ok_def authorises_def split: option.splits)+
  with th approval_single_use [OF reach_demo_done th] show ?thesis by simp
qed

end
