(* ===== verification/Agent_Behaviour.thy ===== *)
theory Agent_Behaviour
  imports Agent_Safety
begin

text \<open>
  The functional behaviour of the agent's operations on the worlds requests can reach: what a
  start and a resume return on every branch, the retry discipline of the governed write, the
  abstract life cycle of a run with the operations as steps of it, the accounting of the
  metrics, and what overlapping resumes of one run can do.
\<close>

section \<open>Outcomes of a start\<close>

definition answer_text :: "gw_response \<Rightarrow> string" where
  "answer_text resp = (case gw_answer resp of Some a \<Rightarrow> a | None \<Rightarrow> [])"

definition response_citations :: "gw_response \<Rightarrow> citation list" where
  "response_citations resp = (case gw_citations resp of Some cs \<Rightarrow> cs | None \<Rightarrow> [])"

text \<open>The amounts stated anywhere in the retrieved text, and whether a dollar sign occurs in it.\<close>

definition stated_amounts :: "gw_response \<Rightarrow> pyfloat set" where
  "stated_amounts resp =
     set (extract_amounts (Some (answer_text resp)))
     \<union> (\<Union>c\<in>set (response_citations resp). set (extract_amounts (cit_snippet c)))"

definition mentions_money :: "gw_response \<Rightarrow> bool" where
  "mentions_money resp \<longleftrightarrow>
     CHR ''$'' \<in> set (answer_text resp)
     \<or> (\<exists>c\<in>set (response_citations resp). \<exists>t. cit_snippet c = Some t \<and> CHR ''$'' \<in> set t)"

definition decided_status :: "pyfloat \<Rightarrow> gw_response \<Rightarrow> status" where
  "decided_status threshold resp =
     (if \<exists>a\<in>stated_amounts resp. f_le threshold a then AWAITING_APPROVAL
      else if stated_amounts resp = {} \<and> mentions_money resp then AWAITING_CLARIFICATION
      else COMPLETED)"

lemma assess_decides:
  assumes "retrieve_node env s = Inr s2" "e_gateway env (s_query s) (e_top_k env) (s_bearer s) = Inr resp"
  shows "s_breach (assess_node env s2) \<longleftrightarrow> (\<exists>a\<in>stated_amounts resp. f_le (e_threshold env) a)"
    and "s_ambiguous (assess_node env s2) \<longleftrightarrow> stated_amounts resp = {} \<and> mentions_money resp"
proof -
  from assms have eqs: "s_answer s2 = Some (answer_text resp)" "s_contexts s2 = response_citations resp"
    "s_amounts s2 = extract_amounts (s_answer s2) @ concat (map (\<lambda>c. extract_amounts (cit_snippet c)) (s_contexts s2))"
    by (auto elim!: retrieve_node_Inr simp: answer_text_def response_citations_def)
  then have set: "set (s_amounts s2) = stated_amounts resp"
    by (simp add: stated_amounts_def)
  show "s_breach (assess_node env s2) \<longleftrightarrow> (\<exists>a\<in>stated_amounts resp. f_le (e_threshold env) a)"
    using max_amount_breach [OF retrieve_amounts_not_nan [OF assms(1)]] set
    by (simp add: assess_breach)
  have "CHR ''$'' \<in> set (str_join '' '' (map (\<lambda>c. case cit_snippet c of Some t \<Rightarrow> t | None \<Rightarrow> []) cs)) \<longleftrightarrow>
      (\<exists>c\<in>set cs. \<exists>t. cit_snippet c = Some t \<and> CHR ''$'' \<in> set t)" for cs :: "citation list"
    by (induction cs rule: induct_list012) (auto split: option.splits, metis+)
  moreover have "s_amounts s2 = [] \<longleftrightarrow> stated_amounts resp = {}"
    unfolding set [symmetric] by simp
  ultimately show "s_ambiguous (assess_node env s2) \<longleftrightarrow> stated_amounts resp = {} \<and> mentions_money resp"
    by (simp add: assess_ambiguous eqs(1,2) mentions_money_def)
qed

lemma retrieve_ok:
  assumes "e_gateway env (s_query s) (e_top_k env) (s_bearer s) = Inr resp"
  obtains s2 where "retrieve_node env s = Inr s2"
  using assms that by (simp add: retrieve_node_def Let_def)

lemma start_answers:
  assumes "jwt_sub payload b = Inr caller" "e_gateway env q (e_top_k env) b = Inr resp"
  shows "\<exists>resp'. snd (start env payload steps r now q a p b w) = Inr resp'"
proof -
  define s0 where "s0 = initial_state r now q a p b caller"
  have gw: "e_gateway env (s_query (planner_node s0)) (e_top_k env) (s_bearer (planner_node s0)) = Inr resp"
    using assms(2) by (simp add: s0_def initial_state_def)
  obtain s2 where s2: "retrieve_node env (planner_node s0) = Inr s2" using retrieve_ok [OF gw] .
  have k: "5 \<le> recursion_limit steps" using recursion_limit_ge [of steps] by simp
  have un: "s_result s2 = None"
    using s2 by (auto elim!: retrieve_node_Inr simp: s0_def initial_state_def)
  then show ?thesis
    by (auto simp: start_def assms(1) s0_def [symmetric] Let_def drive_start [OF k] s2
        render_def to_response_def assess_fields finalize_node_def split: option.splits)
qed

text \<open>
  C4: the breach decision is a function of the amounts stated in the retrieved text. A start
  whose Gateway query succeeds answers AWAITING_APPROVAL exactly when some stated amount reaches
  the threshold, AWAITING_CLARIFICATION exactly when money is mentioned but no amount can be
  read, and COMPLETED otherwise; in no case is a request sent to the MCP server.
\<close>

theorem start_decides:
  assumes "jwt_sub payload b = Inr caller" "e_gateway env q (e_top_k env) b = Inr resp"
  shows "(\<exists>resp'. snd (start env payload steps r now q a p b w) = Inr resp'
      \<and> r_status resp' = decided_status (e_threshold env) resp
      \<and> (r_proposed resp' \<noteq> None \<longleftrightarrow> r_status resp' = AWAITING_APPROVAL))
    \<and> w_log (fst (start env payload steps r now q a p b w)) = w_log w"
proof -
  define s0 where "s0 = initial_state r now q a p b caller"
  have gw: "e_gateway env (s_query (planner_node s0)) (e_top_k env) (s_bearer (planner_node s0)) = Inr resp"
    using assms(2) by (simp add: s0_def initial_state_def)
  obtain s2 where s2: "retrieve_node env (planner_node s0) = Inr s2" using retrieve_ok [OF gw] .
  note dec = assess_decides [OF s2 gw]
  have k: "5 \<le> recursion_limit steps" using recursion_limit_ge [of steps] by simp
  have un: "s_result s2 = None" "s_status s2 = None"
    using s2 by (auto elim!: retrieve_node_Inr simp: s0_def initial_state_def)
  note pr = assess_proposed_iff [of env s2]
  show ?thesis
    using pr dec un
    by (auto simp: start_def assms(1) s0_def [symmetric] Let_def drive_start [OF k] s2 save_run_def
        render_def snapshot_status_def to_response_def assess_fields finalize_node_def
        decided_status_def is_terminal_def split: option.splits)
qed

lemma start_decides_witness:
  "\<exists>resp resp'. e_gateway demo_env ''q'' 6 ''h.p.s'' = Inr resp
     \<and> snd (start demo_env demo_payload 12 ''run_1'' (Fin 0) ''q'' ''acc'' ''2024-Q1'' ''h.p.s'' empty_world)
         = Inr resp'
     \<and> r_status resp' = AWAITING_APPROVAL"
proof -
  obtain resp where resp: "e_gateway demo_env ''q'' (e_top_k demo_env) ''h.p.s'' = Inr resp"
    "answer_text resp = ''Total $12,500 wired''"
    by (simp add: demo_env_def answer_text_def)
  have jwt: "jwt_sub demo_payload ''h.p.s'' = Inr (JStr ''ana'')" by code_simp
  have "decided_status (e_threshold demo_env) resp = AWAITING_APPROVAL"
    using demo_breach resp(2) by (auto simp: decided_status_def stated_amounts_def)
  moreover have "e_top_k demo_env = 6" by (simp add: demo_env_def)
  ultimately show ?thesis using start_decides [OF jwt resp(1)] resp(1) by metis
qed

text \<open>
  C8: in a reachable world no resume is stopped by the step limit or by a missing proposal, and
  the only failure of one is a response whose audit reference is not a string. A start fails on an
  unreadable token or a failing Gateway, never for a reason internal to the graph.
\<close>

theorem no_internal_failure:
  assumes "reach w"
  shows "snd (resume env steps r now d w) \<noteq> Some (Inl (GraphExc e))
    \<and> snd (start env payload steps r' now q a p b w) \<notin>
        {Inl (GraphExc StepLimit), Inl (GraphExc MissingProposal)}"
proof
  show "snd (resume env steps r now d w) \<noteq> Some (Inl (GraphExc e))"
  proof (cases "resume_begin r w")
    case (AtGate s n)
    then have th: "w_threads w r = Some (s, Some n)" "at_gate (Some n)"
      by (auto simp: resume_begin_def split: option.splits if_splits)
    from resume_run_ok [OF recursion_limit_ge world_okD [OF reach_world_ok [OF assms] th(1)] th(2)]
    have "o_exc (drive (recursion_limit steps) env (Some d) n s) = None" by blast
    then show ?thesis
      by (simp add: resume_def AtGate resume_finish_def Let_def split: option.splits prod.splits)
  qed (simp_all add: resume_def split: option.splits)
next
  show "snd (start env payload steps r' now q a p b w) \<notin>
        {Inl (GraphExc StepLimit), Inl (GraphExc MissingProposal)}"
  proof (cases "jwt_sub payload b")
    case (Inr caller)
    define s0 where "s0 = initial_state r' now q a p b caller"
    have s0: "s_run_id s0 = r'" "unsettled s0" "s_proposed_action s0 = None"
      by (simp_all add: s0_def initial_state_def unsettled_def)
    have "o_exc (drive (recursion_limit steps) env None Planner s0) \<notin> {Some StepLimit, Some MissingProposal}"
      using start_run_ok(3) [OF recursion_limit_ge [of steps] s0 run_calls_Nil, of env] by auto
    then show ?thesis
      by (auto simp: start_def Inr s0_def [symmetric] Let_def split: option.splits if_splits)
  qed (simp add: start_def)
qed

lemma no_internal_failure_witness:
  "reach demo_started \<and>
   snd (resume demo_env 12 ''run_1'' (Fin 5) yes_decision demo_started) \<noteq> Some (Inl (GraphExc StepLimit))"
  using no_internal_failure [OF reach_demo_started] reach_demo_started by blast

section \<open>The approval gate\<close>

lemma at_approval:
  assumes "reach w" "w_threads w r = Some (s, Some Approve)"
  obtains p where "s_proposed_action s = Some p" "s_run_id s = r" "unsettled s"
    "run_calls r (w_log w) = []"
  using world_okD [OF reach_world_ok [OF assms(1)] assms(2)] by auto

text \<open>
  declining at the approval gate. Any resume of a run waiting for approval whose decision is
  not an explicit \<open>approved = true\<close> (false or missing) settles the run as REJECTED, keeps the
  reviewer's note and sends no request.
\<close>

theorem declined_sends_nothing:
  assumes "reach w" "w_threads w r = Some (s, Some Approve)" "d_approved d \<noteq> Some True"
  shows "\<exists>s'. w_threads (fst (resume env steps r now d w)) r = Some (s', None)
      \<and> s_status s' = Some REJECTED \<and> s_approval s' = Some d
      \<and> s_result s' = (case d_note d of Some n \<Rightarrow> (if n = [] then None else Some (NoteResult n)) | None \<Rightarrow> None)
      \<and> w_log (fst (resume env steps r now d w)) = w_log w"
proof -
  obtain p where p: "s_proposed_action s = Some p" using at_approval [OF assms(1,2)] .
  have k: "2 \<le> recursion_limit steps" using recursion_limit_ge [of steps] by simp
  show ?thesis
    using assms(3)
    by (simp add: resume_def resume_begin_def assms(2) at_gate_def resume_finish_def Let_def
        drive_approve [OF k p] save_run_def rejected_node_def approve_node_def split: option.splits)
qed

definition no_decision :: decision where
  "no_decision = \<lparr>d_approved = None, d_note = Some ''too early'', d_breach = None\<rparr>"

lemma declined_sends_nothing_witness:
  "\<exists>s'. w_threads (fst (resume demo_env 12 ''run_1'' (Fin 5) no_decision demo_started)) ''run_1''
        = Some (s', None)
      \<and> s_status s' = Some REJECTED \<and> s_result s' = Some (NoteResult ''too early'')
      \<and> w_log (fst (resume demo_env 12 ''run_1'' (Fin 5) no_decision demo_started)) = []"
proof -
  obtain s where s: "w_threads demo_started ''run_1'' = Some (s, Some Approve)" "w_log demo_started = []"
    using demo_pending by metis
  have "d_approved no_decision \<noteq> Some True" by (simp add: no_decision_def)
  from declined_sends_nothing [OF reach_demo_started s(1) this, of demo_env 12 "Fin 5"]
  show ?thesis unfolding s(2) by (auto simp: no_decision_def)
qed

section \<open>Retries\<close>

text \<open>Once a call has reached the server, nothing more is sent.\<close>

lemma act_attempt_last:
  assumes "act_attempt env i s a = (ws, out)" "j < length ws" "reached_call (ws ! j)"
  shows "j = length ws - 1"
proof -
  have "ws ! j \<in> set ws" using assms(2) by simp
  with assms show ?thesis
    by (auto simp: act_attempt_def resource_token_def open_draft_sar_def Let_def less_Suc_eq
        split: sum.splits)
qed

lemma act_loop_last:
  assumes "act_loop env k i s a e0 = (ws, out)" "j < length ws" "reached_call (ws ! j)"
  shows "j = length ws - 1"
  using assms
proof (induction env k i s a e0 arbitrary: ws out j rule: act_loop.induct)
  case (2 env k i s a e0)
  obtain w o1 where att: "act_attempt env i s a = (w, o1)" by fastforce
  show ?case
  proof (cases "\<exists>e. o1 = Inl e \<and> is_connect_error e")
    case True
    then obtain e where e: "o1 = Inl e" "is_connect_error e" by blast
    obtain w' o2 where rest: "act_loop env k (Suc i) s a e = (w', o2)" by fastforce
    from 2(2) att e rest have ws: "ws = w @ w'" by simp
    have none: "filter reached_call w = []" by (rule act_attempt_calls(4) [OF att e])
    show ?thesis
    proof (cases "j < length w")
      case True
      then have "ws ! j \<in> set w" by (simp add: ws nth_append)
      with none 2(4) show ?thesis by (simp add: filter_empty_conv)
    next
      case False
      with 2(3,4) have "j - length w < length w'" "reached_call (w' ! (j - length w))"
        by (auto simp: ws nth_append)
      from "2.IH" [OF att [symmetric] refl e(1) e(2) rest this] False 2(3) show ?thesis
        by (simp add: ws)
    qed
  next
    case False
    with 2(2) att have "ws = w" by (auto split: sum.splits)
    with act_attempt_last [OF att] 2(3,4) show ?thesis by simp
  qed
qed simp

text \<open>
  C6: the retry discipline. The governed write makes at most \<open>max(1, retries + 1)\<close> tool calls,
  and once one of them has reached the server it is the last request the node sends: a call whose
  effect is unknown is never repeated.
\<close>

theorem retries_never_repeat_a_write:
  assumes "act_sar_node env s a = (ws, s')"
  shows "int (length (filter is_call ws)) \<le> max 1 (e_retries env + 1)
    \<and> (\<forall>j<length ws. reached_call (ws ! j) \<longrightarrow> j = length ws - 1)"
proof -
  obtain out where loop: "act_loop env (attempts_of (e_retries env)) 0 s a (ConnectError []) = (ws, out)"
    using assms by (auto simp: act_sar_node_def split: prod.splits)
  from act_loop_calls [OF loop] have "length (filter is_call ws) \<le> attempts_of (e_retries env)" by blast
  moreover have "int (attempts_of (e_retries env)) = max 1 (e_retries env + 1)"
    by (simp add: attempts_of_def)
  ultimately show ?thesis using act_loop_last [OF loop] by fastforce
qed

lemma retries_never_repeat_a_write_witness:
  "\<exists>ws s'. act_sar_node demo_env (initial_state [] (Fin 0) [] [] [] [] JNull)
       \<lparr>arg_account = [], arg_period = [], arg_rationale = [], arg_citations = []\<rparr> = (ws, s')
     \<and> length ws = 5 \<and> reached_call (ws ! 4) \<and> (\<forall>j<5. reached_call (ws ! j) \<longrightarrow> j = 4)"
proof -
  let ?s = "initial_state [] (Fin 0) [] [] [] [] JNull"
  let ?a = "\<lparr>arg_account = [], arg_period = [], arg_rationale = [], arg_citations = []\<rparr>"
  obtain ws s' where act: "act_sar_node demo_env ?s ?a = (ws, s')" by fastforce
  with demo_act [of ?s ?a] have ws: "length ws = 5" "reached_call (ws ! 4)" by auto
  from retries_never_repeat_a_write [OF act] ws act show ?thesis by auto
qed

text \<open>
  C9: when the first \<open>j\<close> attempts fail to connect and the next one succeeds within the bound, the
  write completes with that attempt's result.
\<close>

theorem retry_completes:
  assumes "\<forall>i<j. \<exists>ws e. act_attempt env i s a = (ws, Inl e) \<and> is_connect_error e"
    and "act_attempt env j s a = (ws, Inr r)" "int j < max 1 (e_retries env + 1)"
  shows "s_status (snd (act_sar_node env s a)) = Some COMPLETED
    \<and> s_result (snd (act_sar_node env s a)) = Some (ActionResult r)"
proof -
  have loop: "snd (act_loop env (j - i + Suc m) i s a e0) = Inr r" if "i \<le> j" for i m e0
    using that
  proof (induction "j - i" arbitrary: i e0)
    case 0
    then show ?case using assms(2) by simp
  next
    case (Suc d)
    then obtain ws e where e: "act_attempt env i s a = (ws, Inl e)" "is_connect_error e"
      using assms(1) by (metis less_le zero_less_Suc zero_less_diff)
    have "j - i = Suc (j - Suc i)" using Suc.hyps(2) by simp
    then show ?case
      using Suc.hyps(1) [of "Suc i" e] Suc.hyps(2) Suc.prems e by (auto split: prod.splits)
  qed
  have "j < attempts_of (e_retries env)" using assms(3) by (simp add: attempts_of_def)
  then obtain m where "attempts_of (e_retries env) = j + Suc m"
    by (metis add_Suc_right less_iff_Suc_add)
  with loop [of 0 m "ConnectError []"]
  have "snd (act_loop env (attempts_of (e_retries env)) 0 s a (ConnectError [])) = Inr r" by simp
  then show ?thesis by (auto simp: act_sar_node_def split: prod.splits)
qed

lemma retry_completes_witness:
  "(\<exists>ws e. act_attempt demo_env 0 (initial_state [] (Fin 0) [] [] [] [] JNull)
       \<lparr>arg_account = [], arg_period = [], arg_rationale = [], arg_citations = []\<rparr> = (ws, Inl e)
       \<and> is_connect_error e)
   \<and> s_status (snd (act_sar_node demo_env (initial_state [] (Fin 0) [] [] [] [] JNull)
       \<lparr>arg_account = [], arg_period = [], arg_rationale = [], arg_citations = []\<rparr>)) = Some COMPLETED"
proof -
  let ?s = "initial_state [] (Fin 0) [] [] [] [] JNull"
  let ?a = "\<lparr>arg_account = [], arg_period = [], arg_rationale = [], arg_citations = []\<rparr>"
  obtain ws r where 1: "act_attempt demo_env 1 ?s ?a = (ws, Inr r)" using demo_attempt_1 by blast
  have 0: "\<exists>ws e. act_attempt demo_env 0 ?s ?a = (ws, Inl e) \<and> is_connect_error e"
    by (simp add: demo_attempt_0)
  then have "\<forall>i<(1::nat). \<exists>ws e. act_attempt demo_env i ?s ?a = (ws, Inl e) \<and> is_connect_error e"
    by simp
  from 0 retry_completes [OF this 1] show ?thesis by simp
qed

section \<open>Life cycle\<close>

datatype phase = Absent | Stuck | NeedClarify | NeedApproval | Closed status

definition phase_of :: "snapshot option \<Rightarrow> phase" where
  "phase_of th =
     (case th of
        None \<Rightarrow> Absent
      | Some (s, nx) \<Rightarrow>
          (case nx of
             Some Clarify \<Rightarrow> NeedClarify
           | Some Approve \<Rightarrow> NeedApproval
           | Some _ \<Rightarrow> Stuck
           | None \<Rightarrow> Closed (case s_status s of Some st \<Rightarrow> st | None \<Rightarrow> COMPLETED)))"

inductive phase_step :: "phase \<Rightarrow> phase \<Rightarrow> bool" where
  gateway_down: "phase_step Absent Stuck"
| ask: "phase_step Absent NeedClarify"
| propose: "phase_step Absent NeedApproval"
| nothing_found: "phase_step Absent (Closed COMPLETED)"
| confirmed: "phase_step NeedClarify NeedApproval"
| not_confirmed: "phase_step NeedClarify (Closed COMPLETED)"
| declined: "phase_step NeedApproval (Closed REJECTED)"
| written: "phase_step NeedApproval (Closed COMPLETED)"
| write_failed: "phase_step NeedApproval (Closed FAILED)"

inductive_cases phase_step_from_closed: "phase_step (Closed st) p"
inductive_cases phase_step_from_approval: "phase_step NeedApproval p"

lemma act_status: "s_status (snd (act_sar_node env s a)) \<in> {Some COMPLETED, Some FAILED}"
  by (auto simp: act_sar_node_def split: prod.splits sum.splits)

lemma start_phase:
  assumes "w_threads w r = None" "jwt_sub payload b = Inr caller"
  shows "phase_step Absent (phase_of (w_threads (fst (start env payload steps r now q a p b w)) r))"
proof -
  define s0 where "s0 = initial_state r now q a p b caller"
  have k: "5 \<le> recursion_limit steps" using recursion_limit_ge [of steps] by simp
  show ?thesis
    by (auto simp: start_def assms s0_def [symmetric] Let_def drive_start [OF k] save_run_def
        phase_of_def finalize_node_def split: option.splits sum.splits intro: phase_step.intros)
qed

lemma resume_phase:
  assumes "reach w"
  shows "phase_of (w_threads (fst (resume env steps r now d w)) r) = phase_of (w_threads w r)
    \<or> phase_step (phase_of (w_threads w r)) (phase_of (w_threads (fst (resume env steps r now d w)) r))"
proof (cases "resume_begin r w")
  case (AtGate s n)
  then have th: "w_threads w r = Some (s, Some n)" "n = Approve \<or> n = Clarify"
    by (auto simp: resume_begin_def at_gate_def split: option.splits if_splits)
  have w': "w_threads (fst (resume env steps r now d w)) r =
      Some (o_state (drive (recursion_limit steps) env (Some d) n s),
            o_next (drive (recursion_limit steps) env (Some d) n s))"
    by (simp add: resume_def AtGate resume_finish_def Let_def save_run_def split: option.splits prod.splits)
  note ok = world_okD [OF reach_world_ok [OF assms] th(1)]
  show ?thesis
  proof (cases "n = Approve")
    case True
    with ok obtain p where p: "s_proposed_action s = Some p" by auto
    have k: "2 \<le> recursion_limit steps" using recursion_limit_ge [of steps] by simp
    show ?thesis
      using act_status [of env "approve_node d s" "pa_args p"]
      by (auto simp: w' th True phase_of_def drive_approve [OF k p] rejected_node_def
          intro: phase_step.intros)
  next
    case False
    with th ok have p: "s_proposed_action s = None" and n: "n = Clarify" by auto
    have k: "3 \<le> recursion_limit steps" using recursion_limit_ge [of steps] by simp
    show ?thesis
      by (auto simp: w' th n phase_of_def drive_clarify [OF k p] finalize_node_def
          intro: phase_step.intros)
  qed
qed (simp_all add: resume_def)

lemma resume_frame: "r' \<noteq> r \<Longrightarrow> w_threads (fst (resume env steps r now d w)) r' = w_threads w r'"
  by (simp add: resume_def resume_finish_def Let_def save_run_def
      split: resume_check.splits option.splits prod.splits)



section \<open>Overlapping resumes\<close>

text \<open>
  the single-use check is not atomic with the run it protects. When two approvals of one
  paused run both read the saved state before either has finished, both pass the check, both
  execute the governed write, and two tool calls of the same run reach the MCP server.
\<close>

theorem overlapping_approvals_write_twice:
  "\<exists>w s. reach w \<and> w_threads w ''run_1'' = Some (s, Some Approve)
     \<and> resume_begin ''run_1'' w = AtGate s Approve
     \<and> (let w1 = fst (resume_finish demo_env 12 ''run_1'' (Fin 5) yes_decision s Approve w);
            w2 = fst (resume_finish demo_env 12 ''run_1'' (Fin 5) yes_decision s Approve w1)
        in length (filter reached_call (run_calls ''run_1'' (w_log w2))) = 2)"
proof -
  obtain s p where d: "w_threads demo_started ''run_1'' = Some (s, Some Approve)"
    "s_proposed_action s = Some p" "s_run_id s = ''run_1''" "w_log demo_started = []"
    by (rule demo_pending)
  let ?ws = "fst (act_sar_node demo_env (approve_node yes_decision s) (pa_args p))"
  let ?w1 = "fst (resume_finish demo_env 12 ''run_1'' (Fin 5) yes_decision s Approve demo_started)"
  have lg: "w_log (fst (resume_finish demo_env 12 ''run_1'' (Fin 5) yes_decision s Approve w)) =
      w_log w @ ?ws" for w
    by (rule demo_resume [OF d(2,3)])
  have rid: "sc_run_id (sar_call_of ''tok'' (approve_node yes_decision s) (pa_args p)) = ''run_1''"
    by (simp add: sar_call_of_def approve_node_def d(3))
  obtain rq where ws: "?ws =
     [TokenPost (token_request (s_caller (approve_node yes_decision s))) (Resp 200 None ''T''),
      InitPost (init_request ''tok'') (ConnectErr ''refused''),
      TokenPost (token_request (s_caller (approve_node yes_decision s))) (Resp 200 None ''T''),
      InitPost (init_request ''tok'') (Resp 200 (Some ''s1'') []),
      CallPost (sar_call_of ''tok'' (approve_node yes_decision s) (pa_args p)) rq (Resp 200 None ''R'')]"
    using demo_act by blast
  have "length (filter reached_call (run_calls ''run_1'' ?ws)) = 1"
    unfolding ws by (simp add: run_calls_def rid)
  then have "length (filter reached_call (run_calls ''run_1''
      (w_log (fst (resume_finish demo_env 12 ''run_1'' (Fin 5) yes_decision s Approve ?w1))))) = 2"
    by (simp add: lg d(4))
  moreover have "resume_begin ''run_1'' demo_started = AtGate s Approve"
    by (simp add: resume_begin_def d(1) at_gate_def)
  ultimately show ?thesis using reach_demo_started d(1) unfolding Let_def by blast
qed

end
