(* ===== verification/Agent_Metrics.thy ===== *)
theory Agent_Metrics
  imports Agent_Behaviour
begin

text \<open>
  The accounting of the run metrics (\<open>agents/app/metrics.py\<close> as \<open>GraphRunner\<close> drives them): in
  every reachable world the counters are the sizes of the corresponding sets of runs.
\<close>

definition closed_with :: "(run_response \<Rightarrow> bool) \<Rightarrow> world \<Rightarrow> string set" where
  "closed_with P w =
     {r. \<exists>s resp. w_threads w r = Some (s, None) \<and> render r (s, None) = Some resp \<and> P resp}"

definition with_action :: "run_response \<Rightarrow> bool" where
  "with_action resp \<longleftrightarrow> r_status resp = COMPLETED \<and> r_action resp \<noteq> None"

definition metrics_ok :: "world \<Rightarrow> bool" where
  "metrics_ok w \<longleftrightarrow>
     finite (dom (w_threads w))
     \<and> m_started (w_metrics w) = card (dom (w_threads w))
     \<and> (\<forall>st. m_total (w_metrics w) st = card (closed_with (\<lambda>resp. r_status resp = st) w))
     \<and> m_tool_ok (w_metrics w) = card (closed_with with_action w)
     \<and> m_tool_error (w_metrics w) = m_total (w_metrics w) FAILED
     \<and> m_failures (w_metrics w) = m_total (w_metrics w) FAILED
     \<and> m_awaiting (w_metrics w) \<le> m_started (w_metrics w)"

lemma render_status: "render r snap = Some resp \<Longrightarrow> r_status resp = snapshot_status snap"
  by (auto simp: render_def to_response_def Let_def split: option.splits)

lemma render_terminal:
  assumes "run_ok r wlog (s, nx)" "render r (s, nx) = Some resp"
  shows "is_terminal (r_status resp) \<longleftrightarrow> nx = None"
  using assms(1) render_status [OF assms(2)]
  by (cases "(r, wlog, (s, nx))" rule: run_ok.cases)
    (auto simp: snapshot_status_def settled_ok_def is_terminal_def)

lemma finite_closed: "finite (dom (w_threads w)) \<Longrightarrow> finite (closed_with P w)"
  by (rule finite_subset [of _ "dom (w_threads w)"]) (auto simp: closed_with_def)

lemma closed_with_metrics [simp]: "closed_with P (w\<lparr>w_metrics := m\<rparr>) = closed_with P w"
  by (simp add: closed_with_def)

lemma closed_save:
  assumes "\<forall>s. w_threads w r \<noteq> Some (s, None)"
  shows "closed_with P (save_run r d w) =
    (if o_next d = None \<and> (\<exists>resp. render r (o_state d, None) = Some resp \<and> P resp)
     then insert r (closed_with P w) else closed_with P w)"
    and "r \<notin> closed_with P w"
  using assms by (auto simp: closed_with_def save_run_def)

lemma card_closed_save:
  assumes "\<forall>s. w_threads w r \<noteq> Some (s, None)" "finite (dom (w_threads w))"
  shows "card (closed_with P (save_run r d w)) =
    (if o_next d = None \<and> (\<exists>resp. render r (o_state d, None) = Some resp \<and> P resp)
     then card (closed_with P w) + 1 else card (closed_with P w))"
  using closed_save [OF assms(1), of P] finite_closed [OF assms(2), of P] by simp

lemma record_terminal_fields:
  "m_started (record_terminal resp m) = m_started m"
  "m_awaiting (record_terminal resp m) = m_awaiting m"
  "m_total (record_terminal resp m) st =
     m_total m st + (if is_terminal (r_status resp) \<and> r_status resp = st then 1 else 0)"
  "m_tool_ok (record_terminal resp m) = m_tool_ok m + (if with_action resp then 1 else 0)"
  "m_tool_error (record_terminal resp m) = m_tool_error m + (if r_status resp = FAILED then 1 else 0)"
  "m_failures (record_terminal resp m) = m_failures m + (if r_status resp = FAILED then 1 else 0)"
  by (auto simp: record_terminal_def Let_def is_terminal_def with_action_def)

text \<open>The effect of one invocation on the counters, whichever operation made it.\<close>

lemma metrics_ok_save:
  assumes ok: "metrics_ok w" and unsettled: "\<forall>s. w_threads w r \<noteq> Some (s, None)"
    and run: "run_ok r wlog (o_state d, o_next d)"
    and dom: "m_started m = card (insert r (dom (w_threads w)))"
    and aw: "m_awaiting m \<le> m_started m"
    and same: "m_total m = m_total (w_metrics w)" "m_tool_ok m = m_tool_ok (w_metrics w)"
      "m_tool_error m = m_tool_error (w_metrics w)" "m_failures m = m_failures (w_metrics w)"
    and m': "m' = (case render r (o_state d, o_next d) of
        None \<Rightarrow> m | Some resp \<Rightarrow> (if is_terminal (r_status resp) then record_terminal resp m else m))"
  shows "metrics_ok ((save_run r d w)\<lparr>w_metrics := m'\<rparr>)"
proof -
  have fin: "finite (dom (w_threads w))" using ok by (simp add: metrics_ok_def)
  note card = card_closed_save [OF unsettled fin]
  have threads: "dom (w_threads (save_run r d w)) = insert r (dom (w_threads w))"
    by (auto simp: save_run_def)
  have eq: "card (closed_with P (save_run r d w)) =
      card (closed_with P w) +
        (case render r (o_state d, o_next d) of None \<Rightarrow> 0
         | Some resp \<Rightarrow> (if is_terminal (r_status resp) \<and> P resp then 1 else 0))" for P
  proof (cases "render r (o_state d, o_next d)")
    case None
    then show ?thesis by (cases "o_next d") (simp_all add: card)
  next
    case (Some resp)
    then show ?thesis using render_terminal [OF run Some] by (cases "o_next d") (simp_all add: card)
  qed
  have m: "m_started m' = m_started m" "m_awaiting m' = m_awaiting m"
    by (simp_all add: m' record_terminal_fields split: option.splits)
  show ?thesis
    using ok dom aw same fin
    unfolding metrics_ok_def
    by (auto simp: threads eq m m' record_terminal_fields with_action_def is_terminal_def
        split: option.splits)
qed

lemma metrics_ok_awaiting:
  "metrics_ok w \<Longrightarrow> a \<le> m_started (w_metrics w) \<Longrightarrow>
   metrics_ok (w\<lparr>w_metrics := (w_metrics w)\<lparr>m_awaiting := a\<rparr>\<rparr>)"
  by (simp add: metrics_ok_def)

lemma start_metrics_ok:
  assumes "reach w" "metrics_ok w" "w_threads w r = None"
  shows "metrics_ok (fst (start env payload steps r now q a p b w))"
proof (cases "jwt_sub payload b")
  case (Inr caller)
  define s0 where "s0 = initial_state r now q a p b caller"
  define m where "m = (w_metrics w)\<lparr>m_started := Suc (m_started (w_metrics w))\<rparr>"
  define d where "d = drive (recursion_limit steps) env None Planner s0"
  define m' where "m' = (case render r (o_state d, o_next d) of
      None \<Rightarrow> m | Some resp \<Rightarrow> (if is_terminal (r_status resp) then record_terminal resp m else m))"
  have s0: "s_run_id s0 = r" "unsettled s0" "s_proposed_action s0 = None"
    by (simp_all add: s0_def initial_state_def unsettled_def)
  note D = start_run_ok [OF recursion_limit_ge [of steps] s0 world_ok_fresh [OF reach_world_ok [OF assms(1)] assms(3)],
      of env, folded d_def]
  have started: "m_started (w_metrics w) = card (dom (w_threads w))" "finite (dom (w_threads w))"
    "m_awaiting (w_metrics w) \<le> m_started (w_metrics w)" "r \<notin> dom (w_threads w)"
    using assms(2,3) by (auto simp: metrics_ok_def)
  have ok: "metrics_ok ((save_run r d w)\<lparr>w_metrics := m'\<rparr>)"
    by (rule metrics_ok_save [OF assms(2) _ D(1) _ _ _ _ _ _ m'_def])
      (use started assms(3) in \<open>simp_all add: m_def\<close>)
  have sv: "save_run r d (w\<lparr>w_metrics := m\<rparr>) = (save_run r d w)\<lparr>w_metrics := m\<rparr>"
    by (simp add: save_run_def)
  have exc: "o_exc d = Some e \<Longrightarrow> m' = m" for e
  proof -
    assume e: "o_exc d = Some e"
    have k: "5 \<le> recursion_limit steps" using recursion_limit_ge [of steps] by simp
    have "o_next d = Some Retrieve"
      using e unfolding d_def drive_start [OF k] by (auto simp: Let_def split: sum.splits if_splits)
    then show "m' = m"
      by (auto simp: m'_def render_def snapshot_status_def to_response_def Let_def is_terminal_def
          split: option.splits)
  qed
  have aw: "metrics_ok ((save_run r d w)\<lparr>w_metrics := m\<lparr>m_awaiting := m_awaiting m + 1\<rparr>\<rparr>)"
    if "m' = m"
    using metrics_ok_awaiting [OF ok, of "m_awaiting m + 1"] that started(3) by (simp add: m_def)
  show ?thesis
    using ok exc aw
    by (auto simp: start_def Inr s0_def [symmetric] Let_def d_def [symmetric] m_def [symmetric] sv
        m'_def split: option.splits)
qed (use assms(2) in \<open>simp add: start_def\<close>)

lemma resume_metrics_ok:
  assumes "reach w" "metrics_ok w"
  shows "metrics_ok (fst (resume env steps r now d w))"
proof (cases "resume_begin r w")
  case (AtGate s n)
  then have th: "w_threads w r = Some (s, Some n)" "at_gate (Some n)"
    by (auto simp: resume_begin_def split: option.splits if_splits)
  define o1 where "o1 = drive (recursion_limit steps) env (Some d) n s"
  note D = resume_run_ok [OF recursion_limit_ge [of steps]
      world_okD [OF reach_world_ok [OF assms(1)] th(1)] th(2), of env d, folded o1_def]
  have ins: "insert r (dom (w_threads w)) = dom (w_threads w)" using th(1) by auto
  have save: "metrics_ok ((save_run r o1 w)\<lparr>w_metrics :=
      (case render r (o_state o1, o_next o1) of None \<Rightarrow> m
       | Some resp \<Rightarrow> (if is_terminal (r_status resp) then record_terminal resp m else m))\<rparr>)"
    if "m = w_metrics w \<or> m = (w_metrics w)\<lparr>m_latency := l\<rparr>" for m l
    by (rule metrics_ok_save [OF assms(2) _ conjunct1 [OF D] _ _ _ _ _ _ refl])
      (use that th(1) assms(2) ins in \<open>auto simp: metrics_ok_def\<close>)
  have sm: "w_metrics (save_run r o1 w) = w_metrics w" by (simp add: save_run_def)
  have none: "(save_run r o1 w)\<lparr>w_metrics := w_metrics w\<rparr> = save_run r o1 w"
    by (simp add: save_run_def)
  have exc: "o_exc o1 = None" using D by blast
  note plain = save [OF disjI1 [OF refl], unfolded none]
  note latency = save [OF disjI2 [OF refl]]
  show ?thesis
  proof (cases "render r (o_state o1, o_next o1)")
    case None
    with plain show ?thesis
      by (simp add: resume_def AtGate resume_finish_def o1_def [symmetric] Let_def exc none)
  next
    case (Some resp)
    show ?thesis
    proof (cases "is_terminal (r_status resp)")
      case True
      with latency Some show ?thesis
        by (simp add: resume_def AtGate resume_finish_def o1_def [symmetric] Let_def exc sm)
    next
      case False
      with plain Some none show ?thesis
        by (simp add: resume_def AtGate resume_finish_def o1_def [symmetric] Let_def exc)
    qed
  qed
qed (use assms(2) in \<open>simp_all add: resume_def\<close>)



end
