(* ===== verification/Agent_Api.thy ===== *)
theory Agent_Api
  imports Agent_Metrics
begin

text \<open>
  The HTTP surface of the agent service (\<open>agents/app/api.py\<close>, \<open>agents/app/models.py\<close>): request
  validation, the Authorization header, the status codes, the request-id middleware; and the
  connection strings of \<open>agents/app/config.py\<close> and \<open>agents/app/checkpointer.py\<close>. FastAPI
  validates the body before the endpoint runs, and an exception that leaves the endpoint is a
  500.
\<close>

section \<open>Requests\<close>

record run_request =
  rr_query :: string
  rr_account :: string
  rr_period :: string

definition quarter_char :: "char \<Rightarrow> bool" where
  "quarter_char c \<longleftrightarrow> c \<in> {CHR ''1'', CHR ''2'', CHR ''3'', CHR ''4''}"

text \<open>The pattern \<open>^[0-9]{4}-Q[1-4]$\<close> of the period, whose \<open>$\<close> is the end of the text.\<close>

definition PERIOD :: rx where
  "PERIOD =
     Seq (Ch is_digit) (Seq (Ch is_digit) (Seq (Ch is_digit) (Seq (Ch is_digit)
       (Seq (Ch (\<lambda>c. c = CHR ''-'')) (Seq (Ch (\<lambda>c. c = CHR ''Q'')) (Ch quarter_char))))))"

definition valid_request :: "run_request \<Rightarrow> bool" where
  "valid_request q \<longleftrightarrow>
     1 \<le> length (rr_query q) \<and> 1 \<le> length (rr_account q) \<and> fullmatch PERIOD (rr_period q)"

lemma PERIOD_lang:
  "fullmatch PERIOD s \<longleftrightarrow>
     (\<exists>a b c d q. s = [a, b, c, d, CHR ''-'', CHR ''Q'', q] \<and> list_all is_digit [a, b, c, d] \<and> quarter_char q)"
proof -
  have "fullmatch PERIOD s \<longleftrightarrow> s \<in> lang PERIOD"
    by (intro fullmatch_lang) (simp add: PERIOD_def)
  also have "\<dots> \<longleftrightarrow> (\<exists>a b c d q. s = [a, b, c, d, CHR ''-'', CHR ''Q'', q]
      \<and> list_all is_digit [a, b, c, d] \<and> quarter_char q)"
    unfolding PERIOD_def lang_Seq_Ch lang.simps(2) by auto
  finally show ?thesis .
qed

section \<open>Endpoints\<close>

datatype http_reply = Http200 run_response | Http401 | Http404 | Http422 | Http500

definition reply_of :: "(runner_exc, run_response) result \<Rightarrow> http_reply" where
  "reply_of out = (case out of Inl _ \<Rightarrow> Http500 | Inr resp \<Rightarrow> Http200 resp)"

definition start_run ::
  "agent_env \<Rightarrow> (string \<Rightarrow> json option) \<Rightarrow> int \<Rightarrow> string \<Rightarrow> pyfloat \<Rightarrow>
   string option \<Rightarrow> run_request \<Rightarrow> world \<Rightarrow> world \<times> http_reply" where
  "start_run env payload steps run_id now authorization q w =
     (if \<not> valid_request q then (w, Http422)
      else (case bearer_of authorization of
              None \<Rightarrow> (w, Http401)
            | Some b \<Rightarrow>
                (let (w', out) = start env payload steps run_id now (rr_query q) (rr_account q) (rr_period q) b w
                 in (w', reply_of out))))"

definition resume_run ::
  "agent_env \<Rightarrow> int \<Rightarrow> string \<Rightarrow> pyfloat \<Rightarrow> decision \<Rightarrow> world \<Rightarrow> world \<times> http_reply" where
  "resume_run env steps run_id now d w =
     (let (w', out) = resume env steps run_id now d w
      in (w', case out of None \<Rightarrow> Http404 | Some r \<Rightarrow> reply_of r))"

definition get_run_reply :: "string \<Rightarrow> world \<Rightarrow> http_reply" where
  "get_run_reply run_id w = (case get_run run_id w of None \<Rightarrow> Http404 | Some r \<Rightarrow> reply_of r)"

text \<open>
  The middleware: the id bound during the request and echoed on the response is the inbound one
  when it is well formed, a fresh one otherwise. It is written to the response headers.
\<close>

definition request_id_middleware :: "string \<Rightarrow> string option \<Rightarrow> (string \<times> string) list \<Rightarrow> (string \<times> string) list" where
  "request_id_middleware fresh inbound headers =
     dict_set ''X-Request-Id'' (new_request_id fresh inbound) headers"

section \<open>Connection strings\<close>

record db_settings =
  agent_db_url :: "string option"
  postgres_host :: string
  postgres_port :: string
  postgres_db :: string
  postgres_user :: string
  postgres_password :: string

definition db_url :: "db_settings \<Rightarrow> string" where
  "db_url st =
     (case agent_db_url st of
        Some u \<Rightarrow>
          (if u \<noteq> [] then u
           else ''postgresql://'' @ postgres_user st @ '':'' @ postgres_password st @ ''@''
                @ postgres_host st @ '':'' @ postgres_port st @ ''/'' @ postgres_db st)
      | None \<Rightarrow> ''postgresql://'' @ postgres_user st @ '':'' @ postgres_password st @ ''@''
                @ postgres_host st @ '':'' @ postgres_port st @ ''/'' @ postgres_db st)"

definition with_search_path :: "string \<Rightarrow> string \<Rightarrow> string" where
  "with_search_path conn_url schema =
     conn_url @ (if CHR ''?'' \<in> set conn_url then ''&'' else ''?'')
       @ ''options=-c%20search_path%3D'' @ schema"

section \<open>Properties\<close>

lemma render_get:
  assumes "w_threads w r = Some snap" "render r snap = Some resp"
  shows "get_run_reply r w = Http200 resp"
  by (simp add: get_run_reply_def get_run_def assms reply_of_def)

lemma start_saved:
  assumes "start env payload steps r now q a p b w = (w', Inr resp)"
  shows "\<exists>snap. w_threads w' r = Some snap \<and> render r snap = Some resp"
  using assms by (auto simp: start_def Let_def save_run_def split: sum.splits option.splits if_splits)

lemma resume_saved:
  assumes "resume env steps r now d w = (w', Some (Inr resp))"
  shows "\<exists>snap. w_threads w' r = Some snap \<and> render r snap = Some resp"
proof (cases "resume_begin r w")
  case (AtGate s n)
  with assms show ?thesis
    by (auto simp: resume_def resume_finish_def Let_def save_run_def
        split: prod.splits option.splits if_splits)
next
  case (AlreadyResolved snap)
  with assms show ?thesis
    by (auto simp: resume_def resume_begin_def split: option.splits if_splits prod.splits)
qed (use assms in \<open>simp add: resume_def\<close>)

text \<open>
  a read after an operation returns what the operation answered. Whenever a start or a resume
  answers 200, a get of that run in the resulting world answers 200 with the same response.
\<close>

theorem get_returns_last_answer:
  assumes "start_run env payload steps r now auth q w = (w', Http200 resp)
    \<or> resume_run env steps r now d w = (w', Http200 resp)"
  shows "get_run_reply r w' = Http200 resp"
  using assms
proof
  assume "start_run env payload steps r now auth q w = (w', Http200 resp)"
  then obtain b where "start env payload steps r now (rr_query q) (rr_account q) (rr_period q) b w = (w', Inr resp)"
    by (auto simp: start_run_def reply_of_def split: if_splits option.splits sum.splits prod.splits)
  from start_saved [OF this] show ?thesis using render_get by blast
next
  assume "resume_run env steps r now d w = (w', Http200 resp)"
  then have "resume env steps r now d w = (w', Some (Inr resp))"
    by (auto simp: resume_run_def reply_of_def split: option.splits sum.splits prod.splits)
  from resume_saved [OF this] show ?thesis using render_get by blast
qed

definition demo_request :: run_request where
  "demo_request = \<lparr>rr_query = ''q'', rr_account = ''acc'', rr_period = ''2024-Q1''\<rparr>"

lemma get_returns_last_answer_witness:
  "\<exists>w' resp. start_run demo_env demo_payload 12 ''run_1'' (Fin 0) (Some ''Bearer h.p.s'') demo_request empty_world
       = (w', Http200 resp) \<and> get_run_reply ''run_1'' w' = Http200 resp"
proof -
  have jwt: "jwt_sub demo_payload ''h.p.s'' = Inr (JStr ''ana'')" by code_simp
  have gw: "\<exists>resp. e_gateway demo_env ''q'' (e_top_k demo_env) ''h.p.s'' = Inr resp" by (simp add: demo_env_def)
  then obtain resp where out:
    "snd (start demo_env demo_payload 12 ''run_1'' (Fin 0) ''q'' ''acc'' ''2024-Q1'' ''h.p.s'' empty_world) = Inr resp"
    using start_answers [OF jwt] by blast
  have v: "valid_request demo_request" by code_simp
  have b: "bearer_of (Some ''Bearer h.p.s'') = Some ''h.p.s''" by code_simp
  obtain w' where st: "start demo_env demo_payload 12 ''run_1'' (Fin 0) ''q'' ''acc'' ''2024-Q1'' ''h.p.s'' empty_world = (w', Inr resp)"
    using out by (metis prod.collapse)
  have "start_run demo_env demo_payload 12 ''run_1'' (Fin 0) (Some ''Bearer h.p.s'') demo_request empty_world = (w', Http200 resp)"
    by (simp add: start_run_def v b) (simp add: demo_request_def st reply_of_def)
  moreover from get_returns_last_answer [OF disjI1 [OF this]] have "get_run_reply ''run_1'' w' = Http200 resp" .
  ultimately show ?thesis by blast
qed

text \<open>
  the start endpoint's guards. A request whose body is invalid answers 422, one without a
  bearer token 401, and neither changes the world or sends anything; a body is valid exactly when
  the query and the account are not empty and the period is four digits, \<open>-Q\<close> and a quarter.
\<close>

theorem start_guards:
  "(valid_request q \<longleftrightarrow> rr_query q \<noteq> [] \<and> rr_account q \<noteq> []
      \<and> (\<exists>a b c d e. rr_period q = [a, b, c, d, CHR ''-'', CHR ''Q'', e]
            \<and> list_all is_digit [a, b, c, d] \<and> quarter_char e))
   \<and> (start_run env payload steps r now auth q w = (w, Http422) \<longleftrightarrow> \<not> valid_request q)
   \<and> (start_run env payload steps r now auth q w = (w, Http401)
       \<longleftrightarrow> valid_request q \<and> (\<nexists>t. auth = Some (''Bearer '' @ t)))"
proof -
  have none: "bearer_of auth = None \<longleftrightarrow> (\<nexists>t. auth = Some (''Bearer '' @ t))"
    by (cases auth) (auto simp: bearer_of_def prefix_def)
  have some: "bearer_of auth = Some b \<Longrightarrow>
      start_run env payload steps r now auth q w \<noteq> (w, Http401)
      \<and> start_run env payload steps r now auth q w \<noteq> (w, Http422) \<or> \<not> valid_request q" for b
    by (auto simp: start_run_def reply_of_def split: prod.splits sum.splits)
  have len: "1 \<le> length xs \<longleftrightarrow> xs \<noteq> []" for xs :: string by (cases xs) auto
  show ?thesis
  proof (intro conjI)
    show "valid_request q \<longleftrightarrow> rr_query q \<noteq> [] \<and> rr_account q \<noteq> []
      \<and> (\<exists>a b c d e. rr_period q = [a, b, c, d, CHR ''-'', CHR ''Q'', e]
            \<and> list_all is_digit [a, b, c, d] \<and> quarter_char e)"
      unfolding valid_request_def PERIOD_lang len by simp
    show "start_run env payload steps r now auth q w = (w, Http422) \<longleftrightarrow> \<not> valid_request q"
      using some by (cases "bearer_of auth") (auto simp: start_run_def)
    show "start_run env payload steps r now auth q w = (w, Http401)
       \<longleftrightarrow> valid_request q \<and> (\<nexists>t. auth = Some (''Bearer '' @ t))"
      using some none by (cases "bearer_of auth") (auto simp: start_run_def)
  qed
qed

end
