(* ===== verification/Agent_Services.thy ===== *)
theory Agent_Services
  imports Agent_Api
begin

text \<open>
  The agent service around the graph: its settings (\<open>agents/app/config.py\<close>), the requests of the Gateway
  client (\<open>agents/app/gateway_client.py\<close>), the production runner and the health check
  (\<open>agents/app/api.py\<close>), log records and correlation ids (\<open>agents/app/logging_config.py\<close>), and tracing
  (\<open>agents/app/tracing.py\<close>). What the network answers, the clock and the exporter are parameters.
\<close>

section \<open>Settings\<close>

record settings = db_settings +
  st_port :: int
  st_gateway_url :: string
  st_mcp_url :: string
  st_model :: string
  st_ollama_url :: string
  st_schema :: string
  st_max_steps :: int
  st_tool_retries :: int
  st_threshold :: pyfloat
  st_export :: bool
  st_otlp_endpoint :: string
  st_auth_header :: string
  st_log_format :: string
  st_log_level :: string

definition DEFAULT_SETTINGS :: settings where
  "DEFAULT_SETTINGS =
     \<lparr>agent_db_url = None, postgres_host = ''localhost'', postgres_port = ''5432'', postgres_db = ''atlas'',
      postgres_user = ''atlas'', postgres_password = ''atlas'',
      st_port = 8083, st_gateway_url = ''http://localhost:8080'', st_mcp_url = ''http://localhost:8082/mcp'',
      st_model = ''qwen2.5:7b-instruct'', st_ollama_url = ''http://localhost:11434'', st_schema = ''agent'',
      st_max_steps = 12, st_tool_retries = 2, st_threshold = fl 10000, st_export = False,
      st_otlp_endpoint = ''http://localhost:3000/api/public/otel/v1/traces'', st_auth_header = [],
      st_log_format = ''plain'', st_log_level = ''INFO''\<rparr>"

section \<open>Requests to the Gateway\<close>

record http_request =
  hr_url :: string
  hr_headers :: "(string \<times> string) list"
  hr_body :: json

definition REQUEST_ID_HEADER :: string where
  "REQUEST_ID_HEADER = ''X-Request-Id''"

text \<open>The argument is the value of the context variable; an empty id is no id.\<close>

definition correlation_headers :: "string option \<Rightarrow> (string \<times> string) list" where
  "correlation_headers rid =
     (case rid of Some i \<Rightarrow> (if i = [] then [] else [(REQUEST_ID_HEADER, i)]) | None \<Rightarrow> [])"

definition gateway_base :: "string \<Rightarrow> string" where
  "gateway_base url = rstrip_chars (\<lambda>c. c = CHR ''/'') url"

definition query_post :: "string \<Rightarrow> string option \<Rightarrow> string \<Rightarrow> int \<Rightarrow> string \<Rightarrow> http_request" where
  "query_post url rid q top_k bearer =
     \<lparr>hr_url = gateway_base url @ ''/v1/query'',
      hr_headers = [(''Content-Type'', ''application/json''), (''Authorization'', ''Bearer '' @ bearer)]
        @ correlation_headers rid,
      hr_body = JObj [(''query'', JStr q), (''topK'', JInt top_k), (''includeContexts'', JBool True)]\<rparr>"

definition token_post :: "string \<Rightarrow> string option \<Rightarrow> json \<Rightarrow> http_request" where
  "token_post url rid user =
     \<lparr>hr_url = gateway_base url @ ''/v1/auth/resource-token'',
      hr_headers = (''Content-Type'', ''application/json'') # correlation_headers rid,
      hr_body = token_request user\<rparr>"

text \<open>The body of an answer; a value of another type than the service documents is outside the model.\<close>

fun opt_text :: "json \<Rightarrow> string option option" where
  "opt_text JNull = Some None"
| "opt_text (JStr s) = Some (Some s)"
| "opt_text _ = None"

fun opt_number :: "json \<Rightarrow> int option option" where
  "opt_number JNull = Some None"
| "opt_number (JInt n) = Some (Some n)"
| "opt_number _ = None"

fun citation_of :: "json \<Rightarrow> citation option" where
  "citation_of (JObj d) =
     (case (opt_number (obj_get d ''n''), opt_text (obj_get d ''documentId''), opt_text (obj_get d ''clearance''),
            opt_text (obj_get d ''snippet'')) of
        (Some n, Some i, Some c, Some t) \<Rightarrow>
          Some \<lparr>cit_n = n, cit_documentId = i, cit_clearance = c, cit_snippet = t\<rparr>
      | _ \<Rightarrow> None)"
| "citation_of _ = None"

fun gw_response_of :: "json \<Rightarrow> gw_response option" where
  "gw_response_of (JObj d) =
     (case (opt_text (obj_get d ''answer''),
            case obj_get d ''citations'' of
              JNull \<Rightarrow> Some None
            | JList xs \<Rightarrow> map_option Some (those (map citation_of xs))
            | _ \<Rightarrow> None) of
        (Some a, Some cs) \<Rightarrow> Some \<lparr>gw_answer = a, gw_citations = cs\<rparr>
      | _ \<Rightarrow> None)"
| "gw_response_of _ = None"

fun error_class :: "call_exc \<Rightarrow> string" where
  "error_class (ConnectError _) = ''ConnectError''"
| "error_class (TransportError _) = ''TransportError''"
| "error_class (StatusError _) = ''HTTPStatusError''"
| "error_class NotJson = ''JSONDecodeError''"
| "error_class _ = ''AttributeError''"

definition read_answer :: "(string \<Rightarrow> json option) \<Rightarrow> http_outcome \<Rightarrow> (gw_exc, gw_response) result" where
  "read_answer loads out =
     (case post_ok out of
        Inl e \<Rightarrow> Inl (GatewayError (error_class e))
      | Inr (_, body) \<Rightarrow>
          (case loads body of
             None \<Rightarrow> Inl (GatewayError (error_class NotJson))
           | Some v \<Rightarrow>
               (case gw_response_of v of None \<Rightarrow> Inl (GatewayError (error_class BadShape)) | Some r \<Rightarrow> Inr r)))"

section \<open>The production runner\<close>

record network =
  nt_query :: "http_request \<Rightarrow> http_outcome"
  nt_token :: "nat \<Rightarrow> http_outcome"
  nt_init :: "nat \<Rightarrow> http_outcome"
  nt_call :: "nat \<Rightarrow> http_outcome"

text \<open>\<open>_default_runner\<close>: both clients and the graph from the settings, \<open>top_k\<close> at its default.\<close>

definition production_env :: "settings \<Rightarrow> (string \<Rightarrow> json option) \<Rightarrow> string option \<Rightarrow> network \<Rightarrow> agent_env" where
  "production_env st loads rid net =
     \<lparr>e_gateway = (\<lambda>q k b. read_answer loads (nt_query net (query_post (st_gateway_url st) rid q k b))),
      e_top_k = 6, e_threshold = st_threshold st, e_retries = st_tool_retries st, e_loads = loads,
      e_token_out = nt_token net, e_init_out = nt_init net, e_call_out = nt_call net\<rparr>"

text \<open>Where the checkpoints are kept.\<close>

definition saver_url :: "settings \<Rightarrow> string" where
  "saver_url st = with_search_path (db_url (db_settings.truncate st)) (st_schema st)"

text \<open>
  \<open>open_checkpointer\<close> and \<open>ping_db\<close> as the steps they take on the database; \<open>works\<close> says which step the
  database lets succeed, and the first that fails is the last.
\<close>

datatype db_step = Connected string | CreatedSchema string | OpenedSaver string | SetUp | Selected

fun run_steps :: "(db_step \<Rightarrow> bool) \<Rightarrow> db_step list \<Rightarrow> db_step list \<times> bool" where
  "run_steps works [] = ([], True)"
| "run_steps works (x # xs) =
     (if works x then (case run_steps works xs of (taken, ok) \<Rightarrow> (x # taken, ok)) else ([], False))"

definition ensure_schema :: "string \<Rightarrow> string \<Rightarrow> db_step list" where
  "ensure_schema conn_url schema = [Connected conn_url, CreatedSchema schema]"

definition open_checkpointer :: "(db_step \<Rightarrow> bool) \<Rightarrow> settings \<Rightarrow> db_step list \<times> bool" where
  "open_checkpointer works st =
     run_steps works (ensure_schema (db_url (db_settings.truncate st)) (st_schema st)
       @ [OpenedSaver (saver_url st), SetUp])"

definition ping_db :: "(db_step \<Rightarrow> bool) \<Rightarrow> settings \<Rightarrow> bool" where
  "ping_db works st = snd (run_steps works [Connected (db_url (db_settings.truncate st)), Selected])"

text \<open>The checkpoint tables are set up only in the schema that was created first.\<close>

lemma saver_after_schema:
  "SetUp \<in> set (fst (open_checkpointer works st)) \<Longrightarrow>
     open_checkpointer works st =
       ([Connected (db_url (db_settings.truncate st)), CreatedSchema (st_schema st), OpenedSaver (saver_url st), SetUp], True)"
  by (auto simp: open_checkpointer_def ensure_schema_def split: if_splits)

lemma ping_implies_connect: "ping_db works st \<longleftrightarrow> works (Connected (db_url (db_settings.truncate st))) \<and> works Selected"
  by (simp add: ping_db_def)

text \<open>\<open>healthz\<close>, with the outcome of the ping.\<close>

definition healthz :: "settings \<Rightarrow> bool \<Rightarrow> (string \<times> json) list" where
  "healthz st db_up =
     [(''status'', JStr ''ok''), (''service'', JStr ''agents''), (''db'', JStr (if db_up then ''up'' else ''down'')),
      (''gatewayBaseUrl'', JStr (st_gateway_url st)), (''mcpBaseUrl'', JStr (st_mcp_url st))]"

section \<open>Correlation ids and logs\<close>

text \<open>
  The middleware around a handler: the context variable holds the id while the handler runs and its old
  value afterwards, also when the handler raises.
\<close>

definition with_request_id ::
  "string \<Rightarrow> string option \<Rightarrow> (string option \<Rightarrow> 'w \<Rightarrow> 'w \<times> ('e, 'r \<times> (string \<times> string) list) result)
     \<Rightarrow> string option \<times> 'w \<Rightarrow> (string option \<times> 'w) \<times> ('e, 'r \<times> (string \<times> string) list) result" where
  "with_request_id fresh inbound handler s =
     (let rid = new_request_id fresh inbound; (w', out) = handler (Some rid) (snd s)
      in ((fst s, w'),
          case out of Inl e \<Rightarrow> Inl e | Inr (r, headers) \<Rightarrow> Inr (r, request_id_middleware fresh inbound headers)))"

record log_record =
  lr_timestamp :: string
  lr_level :: string
  lr_logger :: string
  lr_message :: string
  lr_request_id :: string
  lr_exception :: "string option"

text \<open>\<open>_RequestIdFilter\<close>.\<close>

definition stamp :: "string option \<Rightarrow> log_record \<Rightarrow> log_record" where
  "stamp rid r = r\<lparr>lr_request_id := (case rid of Some i \<Rightarrow> (if i = [] then ''-'' else i) | None \<Rightarrow> ''-'')\<rparr>"

definition json_record :: "log_record \<Rightarrow> (string \<times> json) list" where
  "json_record r =
     [(''@timestamp'', JStr (lr_timestamp r)), (''log.level'', JStr (lr_level r)), (''logger'', JStr (lr_logger r)),
      (''message'', JStr (lr_message r)), (''request_id'', JStr (lr_request_id r))]
     @ (case lr_exception r of Some e \<Rightarrow> [(''error'', JStr e)] | None \<Rightarrow> [])"

text \<open>The plain format, \<open>%-5s\<close> padding the level; an exception follows on lines of its own.\<close>

definition plain_record :: "string \<Rightarrow> log_record \<Rightarrow> string" where
  "plain_record asctime r =
     asctime @ '' '' @ lr_level r @ replicate (5 - length (lr_level r)) (CHR '' '') @ '' '' @ lr_logger r @ '' [''
       @ lr_request_id r @ ''] '' @ lr_message r
       @ (case lr_exception r of Some e \<Rightarrow> CHR 0x0A # e | None \<Rightarrow> [])"

datatype formatter = JsonLines | PlainLines

record root_logger =
  rl_handlers :: "formatter list"
  rl_level :: string
  rl_httpx_level :: string

definition upper_char :: "char \<Rightarrow> char" where
  "upper_char c = (if CHR ''a'' \<le> c \<and> c \<le> CHR ''z'' then char_of (of_char c - (32 :: nat)) else c)"

definition configure_logging :: "string \<Rightarrow> string \<Rightarrow> root_logger \<Rightarrow> root_logger" where
  "configure_logging fmt level rl =
     \<lparr>rl_handlers = [if str_lower fmt \<in> {''json'', ''ecs''} then JsonLines else PlainLines],
      rl_level = map upper_char level, rl_httpx_level = ''WARNING''\<rparr>"

section \<open>Tracing\<close>

record tracing =
  tc_configured :: bool
  tc_exporters :: "(string \<times> (string \<times> string) list) list"

text \<open>\<open>setup_tracing\<close>; \<open>built\<close> is whether the exporter could be built and installed.\<close>

definition setup_tracing :: "settings \<Rightarrow> bool \<Rightarrow> tracing \<Rightarrow> tracing" where
  "setup_tracing st built t =
     (if tc_configured t \<or> \<not> st_export st \<or> \<not> built then t
      else \<lparr>tc_configured = True,
        tc_exporters = tc_exporters t @ [(st_otlp_endpoint st,
          if st_auth_header st = [] then [] else [(''Authorization'', st_auth_header st)])]\<rparr>)"

text \<open>The attributes of \<open>run_span\<close>: those that are not null, under their prefix.\<close>

definition run_attributes :: "string \<Rightarrow> (string \<times> json) list \<Rightarrow> (string \<times> json) list" where
  "run_attributes run_id attrs =
     (''atlas.run_id'', JStr run_id)
       # map (\<lambda>(k, v). (''atlas.'' @ k, v)) (filter (\<lambda>(k, v). v \<noteq> JNull) attrs)"

definition resume_attributes :: "string \<Rightarrow> string \<Rightarrow> bool option \<Rightarrow> (string \<times> json) list" where
  "resume_attributes run_id account approved =
     run_attributes run_id [(''account'', JStr account),
       (''approved'', case approved of Some b \<Rightarrow> JBool b | None \<Rightarrow> JNull)]"

text \<open>A node under its span: the same result, the span recorded whatever the node does.\<close>

definition instrument_node :: "string \<Rightarrow> ('s \<Rightarrow> ('e, 's) result) \<Rightarrow> 's \<Rightarrow> string list \<Rightarrow> ('e, 's) result \<times> string list" where
  "instrument_node name f s spans = (f s, spans @ [''agent.node.'' @ name])"

section \<open>Whose token reaches the MCP server\<close>

text \<open>
  A token was minted for \<open>caller\<close> if the token endpoint was asked for it and the client read it from the
  answer. \<open>hop_ok\<close> says of one request, sent after the requests \<open>seen\<close> on behalf of a run, that a handshake
  carries only a token minted before for the caller of the run, and a tool call moreover the session
  that a handshake with that token obtained.
\<close>

definition minted :: "(string \<Rightarrow> json option) \<Rightarrow> json \<Rightarrow> wire list \<Rightarrow> string \<Rightarrow> bool" where
  "minted loads caller seen t \<longleftrightarrow>
     (\<exists>out. TokenPost (token_request caller) out \<in> set seen \<and> snd (resource_token loads out caller) = Inr t)"

fun hop_ok :: "(string \<Rightarrow> json option) \<Rightarrow> json \<Rightarrow> string \<Rightarrow> wire list \<Rightarrow> wire \<Rightarrow> bool" where
  "hop_ok loads caller run_id seen (TokenPost j out) \<longleftrightarrow> j = token_request caller"
| "hop_ok loads caller run_id seen (InitPost rq out) \<longleftrightarrow> (\<exists>t. minted loads caller seen t \<and> rq = init_request t)"
| "hop_ok loads caller run_id seen (CallPost c rq out) \<longleftrightarrow>
     sc_run_id c = run_id \<and> minted loads caller seen (sc_bearer c)
     \<and> (\<exists>session o'. InitPost (init_request (sc_bearer c)) o' \<in> set seen \<and> initialize o' = Inr session
          \<and> rq = call_request session c)"

text \<open>Every element of a log satisfies \<open>P\<close>, which sees the elements before it.\<close>

fun each_after :: "('a list \<Rightarrow> 'a \<Rightarrow> bool) \<Rightarrow> 'a list \<Rightarrow> 'a list \<Rightarrow> bool" where
  "each_after P seen [] \<longleftrightarrow> True"
| "each_after P seen (x # xs) \<longleftrightarrow> P seen x \<and> each_after P (seen @ [x]) xs"

lemma each_after_append [simp]:
  "each_after P seen (xs @ ys) \<longleftrightarrow> each_after P seen xs \<and> each_after P (seen @ xs) ys"
  by (induction xs arbitrary: seen) simp_all

lemma each_after_mono:
  assumes "each_after P seen xs" "set seen \<subseteq> set seen'"
    and "\<And>s s' x. set s \<subseteq> set s' \<Longrightarrow> x \<in> set xs \<Longrightarrow> P s x \<Longrightarrow> Q s' x"
  shows "each_after Q seen' xs"
  using assms
proof (induction xs arbitrary: seen seen')
  case (Cons x xs)
  have "each_after Q (seen' @ [x]) xs" by (rule Cons.IH [of "seen @ [x]"]) (use Cons.prems in auto)
  with Cons.prems show ?case by auto
qed simp

lemma minted_mono: "minted loads caller s t \<Longrightarrow> set s \<subseteq> set s' \<Longrightarrow> minted loads caller s' t"
  unfolding minted_def by blast

lemma hop_ok_mono: "hop_ok loads caller r s x \<Longrightarrow> set s \<subseteq> set s' \<Longrightarrow> hop_ok loads caller r s' x"
  by (cases x) (auto intro: minted_mono)

text \<open>One attempt, the retries, one invocation of the graph.\<close>

lemma act_attempt_hops:
  assumes "act_attempt env i s a = (ws, out)"
  shows "each_after (hop_ok (e_loads env) (s_caller s) (s_run_id s)) [] ws"
proof -
  define tok where "tok = snd (resource_token (e_loads env) (e_token_out env i) (s_caller s))"
  have tok: "resource_token (e_loads env) (e_token_out env i) (s_caller s) =
      ([TokenPost (token_request (s_caller s)) (e_token_out env i)], tok)"
    by (simp add: tok_def resource_token_def)
  show ?thesis
  proof (cases tok)
    case (Inl e)
    with assms tok show ?thesis by (auto simp: act_attempt_def)
  next
    case (Inr t)
    have m: "minted (e_loads env) (s_caller s) (TokenPost (token_request (s_caller s)) (e_token_out env i) # ws') t" for ws'
      using Inr by (auto simp: minted_def tok_def)
    show ?thesis
    proof (cases "initialize (e_init_out env i)")
      case (Inl e)
      with assms tok \<open>tok = Inr t\<close> m [of "[]"] show ?thesis
        by (auto simp: act_attempt_def open_draft_sar_def Let_def sar_call_of_def)
    next
      case (Inr session)
      with assms tok \<open>tok = Inr t\<close> m [of "[]"] m [of "[InitPost (init_request t) (e_init_out env i)]"] show ?thesis
        by (auto simp: act_attempt_def open_draft_sar_def Let_def sar_call_of_def)
    qed
  qed
qed

lemma act_loop_hops:
  assumes "act_loop env k i s a e0 = (ws, out)"
  shows "each_after (hop_ok (e_loads env) (s_caller s) (s_run_id s)) [] ws"
  using assms
proof (induction env k i s a e0 arbitrary: ws out rule: act_loop.induct)
  case (2 env k i s a e0)
  obtain w o1 where att: "act_attempt env i s a = (w, o1)" by fastforce
  note first = act_attempt_hops [OF att]
  show ?case
  proof (cases "\<exists>e. o1 = Inl e \<and> is_connect_error e")
    case True
    then obtain e where e: "o1 = Inl e" "is_connect_error e" by blast
    obtain w' o2 where rest: "act_loop env k (Suc i) s a e = (w', o2)" by fastforce
    from 2(2) att e rest have ws: "ws = w @ w'" by simp
    have "each_after (hop_ok (e_loads env) (s_caller s) (s_run_id s)) w w'"
      by (rule each_after_mono [OF "2.IH" [OF att [symmetric] refl e(1) e(2) rest]]) (auto intro: hop_ok_mono)
    with first show ?thesis unfolding ws by simp
  next
    case False
    with 2(2) att have "ws = w" by (auto split: sum.splits)
    with first show ?thesis by simp
  qed
qed simp

lemma run_node_hops:
  assumes "run_node env d n s = Ran ws s'"
  shows "each_after (hop_ok (e_loads env) (s_caller s) (s_run_id s)) [] ws
    \<and> s_caller s' = s_caller s \<and> s_run_id s' = s_run_id s \<and> s_bearer s' = s_bearer s"
proof (cases n)
  case Retrieve
  with assms show ?thesis by (auto simp: retrieve_node_def Let_def split: sum.splits)
next
  case ActSar
  then obtain p out where "s_proposed_action s = Some p" and "act_loop env (attempts_of (e_retries env)) 0 s (pa_args p) (ConnectError []) = (ws, out)"
    and "s' = snd (act_sar_node env s (pa_args p))"
    using assms by (auto simp: act_sar_node_def split: option.splits prod.splits)
  from act_loop_hops [OF this(2)] this(3) show ?thesis
    by (auto simp: act_sar_node_def split: prod.splits sum.splits)
qed (use assms in \<open>auto simp: planner_node_def assess_node_def approve_node_def clarify_node_def rejected_node_def
      finalize_node_def Let_def split: option.splits if_splits\<close>)

lemma drive_hops:
  "each_after (hop_ok (e_loads env) (s_caller s) (s_run_id s)) [] (o_wires (drive k env d n s))
    \<and> s_caller (o_state (drive k env d n s)) = s_caller s
    \<and> s_run_id (o_state (drive k env d n s)) = s_run_id s
    \<and> s_bearer (o_state (drive k env d n s)) = s_bearer s"
proof (induction k env d n s rule: drive.induct)
  case (2 k env d n s)
  show ?case
  proof (cases "run_node env d n s")
    case (Ran ws s')
    note this_node = run_node_hops [OF Ran]
    show ?thesis
    proof (cases "next_node n s'")
      case (Some m)
      note rest = "2.IH" [OF Ran Some]
      have "each_after (hop_ok (e_loads env) (s_caller s) (s_run_id s)) ws (o_wires (drive k env None m s'))"
        by (rule each_after_mono [OF conjunct1 [OF rest]]) (use this_node in \<open>auto intro: hop_ok_mono\<close>)
      with this_node rest show ?thesis by (simp add: Ran Some Let_def)
    qed (use this_node in \<open>simp add: Ran\<close>)
  qed simp_all
qed simp

text \<open>
  The service: requests to start and to resume a run, each in a network and with a correlation id of its
  own, all under the same settings, JSON decoder and token decoding.
\<close>

inductive served :: "settings \<Rightarrow> (string \<Rightarrow> json option) \<Rightarrow> (string \<Rightarrow> json option) \<Rightarrow> world \<Rightarrow> bool"
  for st loads payload where
  idle: "served st loads payload empty_world"
| started: "served st loads payload w \<Longrightarrow> w_threads w r = None \<Longrightarrow>
    served st loads payload
      (fst (start_run (production_env st loads rid net) payload (st_max_steps st) r now auth q w))"
| resumed: "served st loads payload w \<Longrightarrow>
    served st loads payload (fst (resume_run (production_env st loads rid net) (st_max_steps st) r now d w))"

lemma start_run_fst:
  "fst (start_run env payload steps r now auth q w) =
     (if valid_request q
      then case bearer_of auth of
             None \<Rightarrow> w
           | Some b \<Rightarrow> fst (start env payload steps r now (rr_query q) (rr_account q) (rr_period q) b w)
      else w)"
  by (simp add: start_run_def case_prod_beta split: option.splits)

lemma resume_run_fst: "fst (resume_run env steps r now d w) = fst (resume env steps r now d w)"
  by (simp add: resume_run_def split: prod.splits)

lemma served_reach: "served st loads payload w \<Longrightarrow> reach w"
proof (induction rule: served.induct)
  case (started w r rid net now auth q)
  then show ?case by (auto simp: start_run_fst intro: reach.start split: option.splits)
qed (auto simp: resume_run_fst intro: reach.empty reach.resume)

text \<open>Every saved run keeps the subject of its bearer, and every request on the wire belongs to a run.\<close>

definition on_behalf :: "(string \<Rightarrow> json option) \<Rightarrow> world \<Rightarrow> wire list \<Rightarrow> wire \<Rightarrow> bool" where
  "on_behalf loads w seen x \<longleftrightarrow>
     (\<exists>r s nx. w_threads w r = Some (s, nx) \<and> hop_ok loads (s_caller s) r seen x)"

definition callers_ok :: "(string \<Rightarrow> json option) \<Rightarrow> (string \<Rightarrow> json option) \<Rightarrow> world \<Rightarrow> bool" where
  "callers_ok loads payload w \<longleftrightarrow>
     (\<forall>r s nx. w_threads w r = Some (s, nx) \<longrightarrow> jwt_sub payload (s_bearer s) = Inr (s_caller s) \<and> s_run_id s = r)
     \<and> each_after (on_behalf loads w) [] (w_log w)"

lemma callers_ok_metrics [simp]: "callers_ok loads payload (w\<lparr>w_metrics := m\<rparr>) = callers_ok loads payload w"
proof -
  have "on_behalf loads (w\<lparr>w_metrics := m\<rparr>) = on_behalf loads w" by (simp add: on_behalf_def fun_eq_iff)
  then show ?thesis by (simp add: callers_ok_def)
qed

lemma on_behalf_save:
  assumes "on_behalf loads w seen x"
    and "\<And>s nx. w_threads w r = Some (s, nx) \<Longrightarrow> s_caller (o_state out) = s_caller s"
  shows "on_behalf loads (save_run r out w) seen x"
proof -
  obtain r' s nx where x: "w_threads w r' = Some (s, nx)" "hop_ok loads (s_caller s) r' seen x"
    using assms(1) by (auto simp: on_behalf_def)
  show ?thesis
  proof (cases "r' = r")
    case True
    with x assms(2) [of s nx] show ?thesis
      unfolding on_behalf_def by (intro exI [of _ r] exI [of _ "o_state out"] exI [of _ "o_next out"]) (simp add: save_run_def)
  next
    case False
    with x show ?thesis
      unfolding on_behalf_def by (intro exI [of _ r'] exI [of _ s] exI [of _ nx]) (simp add: save_run_def)
  qed
qed

lemma callers_ok_drive:
  assumes ok: "callers_ok loads payload w" and env: "e_loads env = loads"
    and sub: "jwt_sub payload (s_bearer s) = Inr (s_caller s)" "s_run_id s = r"
    and old: "\<And>s' nx. w_threads w r = Some (s', nx) \<Longrightarrow> s_caller s' = s_caller s"
  shows "callers_ok loads payload (save_run r (drive k env d n s) w)"
proof -
  let ?out = "drive k env d n s"
  let ?w = "save_run r ?out w"
  note new = drive_hops [of env s k d n, unfolded env sub(2)]
  have keep: "on_behalf loads w seen x \<Longrightarrow> on_behalf loads ?w seen x" for seen x
    by (rule on_behalf_save) (use old new in auto)
  have "each_after (on_behalf loads ?w) [] (w_log w)"
  proof (rule each_after_mono [of "on_behalf loads w" "[]"])
    fix seen seen' :: "wire list" and x
    assume "set seen \<subseteq> set seen'" "on_behalf loads w seen x"
    then have "on_behalf loads w seen' x" unfolding on_behalf_def using hop_ok_mono by blast
    then show "on_behalf loads ?w seen' x" by (rule keep)
  qed (use ok in \<open>simp_all add: callers_ok_def\<close>)
  moreover have "each_after (on_behalf loads ?w) (w_log w) (o_wires ?out)"
  proof (rule each_after_mono [OF conjunct1 [OF new]])
    fix seen seen' :: "wire list" and x
    assume "set seen \<subseteq> set seen'" "hop_ok loads (s_caller s) r seen x"
    then have "hop_ok loads (s_caller (o_state ?out)) r seen' x" using hop_ok_mono new by metis
    then show "on_behalf loads ?w seen' x"
      unfolding on_behalf_def
      by (intro exI [of _ r] exI [of _ "o_state ?out"] exI [of _ "o_next ?out"]) (simp add: save_run_def)
  qed simp
  ultimately have "each_after (on_behalf loads ?w) [] (w_log ?w)" by (simp add: save_run_def)
  moreover have "\<forall>r' s' nx. w_threads ?w r' = Some (s', nx) \<longrightarrow>
      jwt_sub payload (s_bearer s') = Inr (s_caller s') \<and> s_run_id s' = r'"
    using ok sub new by (auto simp: callers_ok_def save_run_def)
  ultimately show ?thesis by (simp add: callers_ok_def)
qed

lemma start_callers_ok:
  assumes "callers_ok loads payload w" "w_threads w r = None" "e_loads env = loads"
  shows "callers_ok loads payload (fst (start env payload steps r now q a p b w))"
proof (cases "jwt_sub payload b")
  case (Inr caller)
  let ?s = "initial_state r now q a p b caller"
  let ?w1 = "w\<lparr>w_metrics := (w_metrics w)\<lparr>m_started := m_started (w_metrics w) + 1\<rparr>\<rparr>"
  have "callers_ok loads payload (save_run r (drive (recursion_limit steps) env None Planner ?s) ?w1)"
    by (rule callers_ok_drive) (use assms Inr in \<open>simp_all add: initial_state_def\<close>)
  with Inr show ?thesis by (simp add: start_def Let_def split: option.splits)
qed (use assms in \<open>simp add: start_def\<close>)

lemma resume_callers_ok:
  assumes "callers_ok loads payload w" "e_loads env = loads"
  shows "callers_ok loads payload (fst (resume env steps r now d w))"
proof (cases "resume_begin r w")
  case (AtGate s n)
  then have "w_threads w r = Some (s, Some n)"
    by (auto simp: resume_begin_def split: option.splits if_splits)
  then have "callers_ok loads payload (save_run r (drive (recursion_limit steps) env (Some d) n s) w)"
    by (intro callers_ok_drive) (use assms in \<open>auto simp: callers_ok_def\<close>)
  with AtGate show ?thesis
    by (simp add: resume_def resume_finish_def Let_def split: option.splits prod.splits)
qed (use assms in \<open>simp_all add: resume_def\<close>)

lemma production_loads [simp]: "e_loads (production_env st loads rid net) = loads"
  by (simp add: production_env_def)

lemma served_callers_ok: "served st loads payload w \<Longrightarrow> callers_ok loads payload w"
proof (induction rule: served.induct)
  case idle
  show ?case by (simp add: callers_ok_def empty_world_def)
next
  case (started w r rid net now auth q)
  then show ?case by (auto simp: start_run_fst start_callers_ok split: option.splits)
qed (simp add: resume_run_fst resume_callers_ok)

section \<open>The property\<close>

lemma each_after_split: "each_after P seen (us @ x # vs) \<Longrightarrow> P (seen @ us) x"
  by simp

text \<open>C30: The MCP server only ever sees tokens minted for the user who started the run. In every world the
  service can reach, a tool call is preceded in the log by a request for a token of the subject of the
  bearer that started its run, answered with exactly the token the call carries, and by a handshake with
  that token that opened the session of the call; the bearer of the user itself is in no header of a
  call unless the Gateway answered with it.\<close>

theorem writes_use_minted_tokens:
  assumes "served st loads payload w" "w_log w = us @ CallPost c rq h # vs"
  shows "\<exists>s nx session o'. w_threads w (sc_run_id c) = Some (s, nx)
    \<and> jwt_sub payload (s_bearer s) = Inr (s_caller s)
    \<and> minted loads (s_caller s) us (sc_bearer c)
    \<and> InitPost (init_request (sc_bearer c)) o' \<in> set us \<and> initialize o' = Inr session
    \<and> rq = call_request session c \<and> map_of (rq_headers rq) ''Authorization'' = Some (''Bearer '' @ sc_bearer c)"
proof -
  have ok: "callers_ok loads payload w" by (rule served_callers_ok [OF assms(1)])
  then have "on_behalf loads w us (CallPost c rq h)"
    using each_after_split [of "on_behalf loads w" "[]" us] by (simp add: callers_ok_def assms(2))
  then obtain s nx session o' where "w_threads w (sc_run_id c) = Some (s, nx)"
    and "minted loads (s_caller s) us (sc_bearer c)"
    and "InitPost (init_request (sc_bearer c)) o' \<in> set us" "initialize o' = Inr session" "rq = call_request session c"
    by (auto simp: on_behalf_def)
  moreover from this(1) ok have "jwt_sub payload (s_bearer s) = Inr (s_caller s)" by (auto simp: callers_ok_def)
  ultimately show ?thesis by (auto simp: call_request_def mcp_headers_def)
qed

text \<open>A service whose Gateway reports an amount over the threshold.\<close>

definition svc_loads :: "string \<Rightarrow> json option" where
  "svc_loads s =
     (if s = ''Q'' then Some (JObj [(''answer'', JStr ''Total $12,500 wired''), (''citations'', JList [])])
      else demo_loads s)"

definition svc_network :: network where
  "svc_network =
     \<lparr>nt_query = (\<lambda>_. Resp 200 None ''Q''), nt_token = (\<lambda>_. Resp 200 None ''T''),
      nt_init = (\<lambda>_. Resp 200 (Some ''s1'') []), nt_call = (\<lambda>_. Resp 200 None ''R'')\<rparr>"

definition svc_started :: world where
  "svc_started =
     fst (start_run (production_env DEFAULT_SETTINGS svc_loads None svc_network) demo_payload
       (st_max_steps DEFAULT_SETTINGS) ''run_1'' (Fin 0) (Some ''Bearer h.p.s'') demo_request empty_world)"

definition svc_done :: world where
  "svc_done =
     fst (resume_run (production_env DEFAULT_SETTINGS svc_loads (Some ''id-2'') svc_network)
       (st_max_steps DEFAULT_SETTINGS) ''run_1'' (Fin 5) yes_decision svc_started)"

lemma served_svc_done: "served DEFAULT_SETTINGS svc_loads demo_payload svc_done"
  unfolding svc_done_def svc_started_def by (intro served.intros) (simp add: empty_world_def)

lemma svc_fields [simp]:
  "e_gateway (production_env st svc_loads rid svc_network) q k b =
     Inr \<lparr>gw_answer = Some ''Total $12,500 wired'', gw_citations = Some []\<rparr>"
  "e_token_out (production_env st svc_loads rid svc_network) i = Resp 200 None ''T''"
  "e_init_out (production_env st svc_loads rid svc_network) i = Resp 200 (Some ''s1'') []"
  "e_call_out (production_env st svc_loads rid svc_network) i = Resp 200 None ''R''"
  "e_threshold (production_env DEFAULT_SETTINGS loads rid net) = fl 10000"
  by (simp_all add: production_env_def svc_network_def read_answer_def svc_loads_def obj_get_def DEFAULT_SETTINGS_def)

lemma svc_token:
  "resource_token svc_loads (Resp 200 None ''T'') u = ([TokenPost (token_request u) (Resp 200 None ''T'')], Inr ''tok'')"
  by (simp add: resource_token_def svc_loads_def demo_loads_def)

lemma svc_pending:
  obtains s p where "w_threads svc_started ''run_1'' = Some (s, Some Approve)"
    "s_proposed_action s = Some p" "w_log svc_started = []"
proof -
  let ?env = "production_env DEFAULT_SETTINGS svc_loads None svc_network"
  define s0 where "s0 = initial_state ''run_1'' (Fin 0) (rr_query demo_request) (rr_account demo_request)
    (rr_period demo_request) ''h.p.s'' (JStr ''ana'')"
  have jwt: "jwt_sub demo_payload ''h.p.s'' = Inr (JStr ''ana'')" by code_simp
  have v: "valid_request demo_request" "bearer_of (Some ''Bearer h.p.s'') = Some ''h.p.s''" by code_simp+
  obtain s2 where s2: "retrieve_node ?env (planner_node s0) = Inr s2"
    by (simp add: retrieve_node_def Let_def)
  then have am: "set (extract_amounts (Some ''Total $12,500 wired'')) \<subseteq> set (s_amounts s2)"
    by (auto simp: retrieve_node_def Let_def)
  then have br: "s_breach (assess_node ?env s2)"
    unfolding assess_breach svc_fields max_amount_breach [OF retrieve_amounts_not_nan [OF s2]]
    using demo_breach by blast
  then obtain p where p: "s_proposed_action (assess_node ?env s2) = Some p" using assess_proposed_iff by blast
  have "w_threads svc_started ''run_1'' = Some (assess_node ?env s2, Some Approve) \<and> w_log svc_started = []"
    using br by (simp add: svc_started_def start_run_fst v start_def jwt Let_def s0_def [symmetric]
        drive_start [OF order.trans [OF _ recursion_limit_ge]] s2 save_run_def empty_world_def split: option.splits)
  then show thesis using that p by blast
qed

lemma svc_act:
  "\<exists>ws c rq h. fst (act_sar_node (production_env DEFAULT_SETTINGS svc_loads rid svc_network) t a) = ws @ [CallPost c rq h]"
proof -
  let ?env = "production_env DEFAULT_SETTINGS svc_loads rid svc_network"
  have rpc: "rpc svc_loads (Resp 200 None ''R'') = Inr (JObj [(''structuredContent'',
          JObj [(''draftRef'', JStr ''sar-1''), (''auditRef'', JStr ''aud-1'')])])" by code_simp
  have tool: "tool_output svc_loads (JObj [(''structuredContent'',
          JObj [(''draftRef'', JStr ''sar-1''), (''auditRef'', JStr ''aud-1'')])]) =
      Inr (JObj [(''draftRef'', JStr ''sar-1''), (''auditRef'', JStr ''aud-1'')])" by code_simp
  have n: "attempts_of (e_retries ?env) = Suc (Suc (Suc 0))"
    by (simp add: attempts_of_def production_env_def DEFAULT_SETTINGS_def)
  have "\<exists>ws c rq h r. act_attempt ?env 0 t a = (ws @ [CallPost c rq h], Inr r)"
    by (simp add: act_attempt_def svc_token rpc tool open_draft_sar_def initialize_def sar_call_of_def sar_action_of_def Let_def)
  then show ?thesis unfolding act_sar_node_def n act_loop.simps by auto
qed

lemma svc_log: "\<exists>us c rq h. w_log svc_done = us @ CallPost c rq h # []"
proof -
  let ?env = "production_env DEFAULT_SETTINGS svc_loads (Some ''id-2'') svc_network"
  obtain s p where d: "w_threads svc_started ''run_1'' = Some (s, Some Approve)" "s_proposed_action s = Some p" "w_log svc_started = []"
    by (rule svc_pending)
  have y: "d_approved yes_decision = Some True" by (simp add: yes_decision_def)
  have "w_log svc_done = fst (act_sar_node ?env (approve_node yes_decision s) (pa_args p))"
    by (simp add: svc_done_def resume_run_fst resume_def resume_begin_def resume_finish_def d at_gate_def Let_def y
        drive_approve [OF order.trans [OF _ recursion_limit_ge] d(2)] save_run_def case_prod_beta split: option.splits)
  with svc_act show ?thesis by metis
qed

lemma writes_use_minted_tokens_witness:
  "\<exists>us c rq h s nx. w_log svc_done = us @ [CallPost c rq h] \<and> w_threads svc_done (sc_run_id c) = Some (s, nx)
     \<and> minted svc_loads (s_caller s) us (sc_bearer c)"
proof -
  obtain us c rq h where l: "w_log svc_done = us @ CallPost c rq h # []" using svc_log by blast
  from writes_use_minted_tokens [OF served_svc_done l] l show ?thesis by blast
qed

text \<open>The correlation id stops at the MCP hop: no request there has the header.\<close>

lemma mcp_hop_drops_request_id: "map_of (mcp_headers bearer session) REQUEST_ID_HEADER = None"
  by (simp add: mcp_headers_def REQUEST_ID_HEADER_def split: option.splits)

text \<open>
  What the middleware guarantees for any inbound header: the id is one line of 1 to 64 safe characters, the
  Gateway requests made while the handler runs carry it, the reply carries the same, and the context
  variable is restored also after an exception.
\<close>

lemma request_id_round:
  assumes "fullmatch SAFE_ID fresh"
    and rid: "rid = new_request_id fresh inbound"
  shows "fullmatch SAFE_ID rid"
    and "map_of (hr_headers (query_post url (Some rid) q k b)) REQUEST_ID_HEADER = Some rid"
    and "map_of (hr_headers (token_post url (Some rid) u)) REQUEST_ID_HEADER = Some rid"
    and "fst (fst (with_request_id fresh inbound handler (old, w))) = old"
    and "snd (with_request_id fresh inbound handler (old, w)) = Inr (x, headers) \<Longrightarrow>
      dict_get headers REQUEST_ID_HEADER = Some rid"
proof -
  show id: "fullmatch SAFE_ID rid" using assms(1) by (auto simp: rid new_request_id_def split: option.splits)
  then have "rid \<noteq> []" by (auto simp: SAFE_ID_lang)
  then show "map_of (hr_headers (query_post url (Some rid) q k b)) REQUEST_ID_HEADER = Some rid"
    and "map_of (hr_headers (token_post url (Some rid) u)) REQUEST_ID_HEADER = Some rid"
    by (simp_all add: query_post_def token_post_def correlation_headers_def REQUEST_ID_HEADER_def)
  show "fst (fst (with_request_id fresh inbound handler (old, w))) = old"
    by (simp add: with_request_id_def Let_def split: prod.splits)
  show "snd (with_request_id fresh inbound handler (old, w)) = Inr (x, headers) \<Longrightarrow>
      dict_get headers REQUEST_ID_HEADER = Some rid"
    by (auto simp: with_request_id_def Let_def request_id_middleware_def rid REQUEST_ID_HEADER_def
        split: prod.splits sum.splits)
qed

text \<open>Tracing is set up at most once, and only when the export is enabled.\<close>

lemma setup_tracing_twice: "setup_tracing st b2 (setup_tracing st True t) = setup_tracing st True t"
  by (simp add: setup_tracing_def)

end
