(* ===== verification/Gpu_Provision.thy ===== *)
theory Gpu_Provision
  imports Py_Json
begin

text \<open>
  From-scratch provisioning (\<open>infra/gpu/atlas_gpu/provision.py\<close>): the serve targets, the
  configuration read from the environment, the startup script, and the classification of the
  public endpoints by probing. A dash outside the 8-bit range in one comment line of the script
  is a hyphen here.
\<close>

section \<open>Targets and configuration\<close>

definition OLLAMA_PORT :: int where "OLLAMA_PORT = 11434"

definition VLLM_PORT :: int where "VLLM_PORT = 8000"

datatype serve_target = OLLAMA | VLLM | BOTH

definition wants_ollama :: "serve_target \<Rightarrow> bool" where
  "wants_ollama t \<longleftrightarrow> t = OLLAMA \<or> t = BOTH"

definition wants_vllm :: "serve_target \<Rightarrow> bool" where
  "wants_vllm t \<longleftrightarrow> t = VLLM \<or> t = BOTH"

fun target_value :: "serve_target \<Rightarrow> string" where
  "target_value OLLAMA = ''ollama''"
| "target_value VLLM = ''vllm''"
| "target_value BOTH = ''both''"

text \<open>\<open>ServeTarget.parse\<close>; \<open>None\<close> is its \<open>ValueError\<close>.\<close>

definition parse_target :: "string \<Rightarrow> serve_target option" where
  "parse_target raw =
     (let v = str_lower (str_strip raw)
      in if v = ''ollama'' then Some OLLAMA
         else if v = ''vllm'' then Some VLLM
         else if v = ''both'' then Some BOTH else None)"

record provision_config =
  pc_target :: serve_target
  pc_chat_model :: string
  pc_embed_model :: string
  pc_vllm_model :: string
  pc_vllm_max_model_len :: int
  pc_vllm_enable_lora :: bool
  pc_vllm_lora_modules :: string
  pc_vllm_max_loras :: int
  pc_vllm_max_lora_rank :: int
  pc_vllm_runtime_lora :: bool

definition truthy :: "string option \<Rightarrow> bool" where
  "truthy v =
     (case v of
        Some s \<Rightarrow> str_lower (str_strip s) \<in> {''1'', ''true'', ''yes'', ''on''}
      | None \<Rightarrow> False)"

definition env_get :: "(string, string) dict \<Rightarrow> string \<Rightarrow> string \<Rightarrow> string" where
  "env_get env k dflt = (case dict_get env k of Some v \<Rightarrow> v | None \<Rightarrow> dflt)"

text \<open>\<open>int(env.get(k, default))\<close>: \<open>None\<close> is the \<open>ValueError\<close> of a malformed numeral.\<close>

definition env_int :: "(string, string) dict \<Rightarrow> string \<Rightarrow> int \<Rightarrow> int option" where
  "env_int env k dflt = (case dict_get env k of Some v \<Rightarrow> py_int v | None \<Rightarrow> Some dflt)"

definition config_from_env :: "serve_target \<Rightarrow> (string, string) dict \<Rightarrow> provision_config option" where
  "config_from_env target env =
     (case (env_int env ''ATLAS_VLLM_MAX_MODEL_LEN'' 8192, env_int env ''ATLAS_VLLM_MAX_LORAS'' 1,
            env_int env ''ATLAS_VLLM_MAX_LORA_RANK'' 16) of
        (Some len, Some loras, Some rank) \<Rightarrow>
          Some \<lparr>pc_target = target,
            pc_chat_model = env_get env ''OLLAMA_CHAT_MODEL'' ''qwen2.5:3b-instruct'',
            pc_embed_model = env_get env ''OLLAMA_EMBED_MODEL'' ''nomic-embed-text'',
            pc_vllm_model = env_get env ''ATLAS_VLLM_MODEL'' ''Qwen/Qwen2.5-7B-Instruct-AWQ'',
            pc_vllm_max_model_len = len,
            pc_vllm_enable_lora = truthy (dict_get env ''ATLAS_VLLM_ENABLE_LORA''),
            pc_vllm_lora_modules = str_strip (env_get env ''ATLAS_VLLM_LORA_MODULES'' []),
            pc_vllm_max_loras = loras,
            pc_vllm_max_lora_rank = rank,
            pc_vllm_runtime_lora = truthy (dict_get env ''ATLAS_VLLM_RUNTIME_LORA'')\<rparr>
      | _ \<Rightarrow> None)"

definition wanted_ports :: "serve_target \<Rightarrow> int list" where
  "wanted_ports t =
     (if wants_ollama t then [OLLAMA_PORT] else []) @ (if wants_vllm t then [VLLM_PORT] else [])"

definition http_ports :: "provision_config \<Rightarrow> string" where
  "http_ports c = str_join '','' (map str_int (wanted_ports (pc_target c)))"

section \<open>The startup script\<close>

definition unlines :: "string list \<Rightarrow> string" where
  "unlines ls = concat (map (\<lambda>l. l @ [CHR 0x0A]) ls)"

definition ollama_block :: "string \<Rightarrow> string \<Rightarrow> string \<Rightarrow> string" where
  "ollama_block port chat_model embed_model = unlines [
      ''# --- Ollama (OpenAI-compatible on :'' @ port @ '') ---------------------------------'',
      ''export OLLAMA_HOST=0.0.0.0:'' @ port,
      ''# install ollama, retrying until the binary actually appears (early-boot races / PATH)'',
      ''for i in 1 2 3 4 5; do'',
      ''  command -v ollama >/dev/null 2>&1 && break'',
      ''  echo \"[atlas] installing ollama (attempt $i)\"'',
      ''  if command -v curl >/dev/null 2>&1; then'',
      ''    curl -fsSL https://ollama.com/install.sh | sh || true'',
      ''  else'',
      ''    wget -qO- https://ollama.com/install.sh | sh || true'',
      ''  fi'',
      ''  sleep 5'',
      ''done'',
      ''command -v ollama >/dev/null 2>&1 || echo \"[atlas] ERROR: ollama install FAILED\"'',
      ''if ! pgrep -x ollama >/dev/null 2>&1; then'',
      ''  echo \"[atlas] starting ollama serve\"'',
      ''  nohup ollama serve > /var/log/atlas-ollama.log 2>&1 &'',
      ''fi'',
      ''# wait for the daemon, then pull models (idempotent - ollama skips if present)'',
      ''for i in $(seq 1 30); do'',
      ''  curl -sf \"http://127.0.0.1:'' @ port @ ''/api/tags\" >/dev/null 2>&1 && break'',
      ''  sleep 2'',
      ''done'',
      ''ollama pull \"'' @ chat_model @ ''\"'',
      ''ollama pull \"'' @ embed_model @ ''\"'',
      ''echo \"[atlas] ollama ready on :'' @ port @ ''\"'']"

definition vllm_block :: "string \<Rightarrow> string \<Rightarrow> string \<Rightarrow> string \<Rightarrow> string \<Rightarrow> string" where
  "vllm_block port vllm_model max_len lora_args lora_env = unlines [
      ''# --- vLLM (OpenAI-compatible on :'' @ port @ '') -----------------------------------'',
      ''if ! python -c \"import vllm\" >/dev/null 2>&1; then'',
      ''  echo \"[atlas] installing vllm\"'',
      ''  pip install --quiet \"vllm>=0.6\"'',
      ''fi'',
      lora_env @ ''if ! pgrep -f \"vllm.entrypoints.openai.api_server\" >/dev/null 2>&1; then'',
      ''  echo \"[atlas] starting vllm openai server\"'',
      ''  nohup python -m vllm.entrypoints.openai.api_server '' @ [CHR 0x5C],
      ''    --model \"'' @ vllm_model @ ''\" --host 0.0.0.0 --port '' @ port @ '' '' @ [CHR 0x5C],
      ''    --max-model-len '' @ max_len @ '' --served-model-name \"'' @ vllm_model @ ''\"'' @ lora_args @ '' '' @ [CHR 0x5C],
      ''    > /var/log/atlas-vllm.log 2>&1 &'',
      ''fi'',
      ''echo \"[atlas] vllm starting on :'' @ port @ '' (model load can take several minutes)\"'']"

definition vllm_lora_args :: "provision_config \<Rightarrow> string" where
  "vllm_lora_args c =
     (if \<not> wants_vllm (pc_target c) \<or> \<not> pc_vllm_enable_lora c then []
      else str_join '' ''
        ([[CHR 0x20, CHR 0x5C, CHR 0x0A] @ ''    --enable-lora'',
          ''--max-loras '' @ str_int (pc_vllm_max_loras c),
          ''--max-lora-rank '' @ str_int (pc_vllm_max_lora_rank c)]
         @ (if pc_vllm_lora_modules c \<noteq> [] then [''--lora-modules '' @ pc_vllm_lora_modules c] else [])))"

definition vllm_lora_env :: "provision_config \<Rightarrow> string" where
  "vllm_lora_env c =
     (if wants_vllm (pc_target c) \<and> pc_vllm_enable_lora c \<and> pc_vllm_runtime_lora c
      then ''export VLLM_ALLOW_RUNTIME_LORA_UPDATING=1'' @ [CHR 0x0A] else [])"

definition lora_load_payload :: "string \<Rightarrow> string \<Rightarrow> (string \<times> string) list option" where
  "lora_load_payload name path =
     (if name = [] \<or> path = [] then None
      else Some [(''lora_name'', name), (''lora_path'', path)])"

definition build_startup_script :: "provision_config \<Rightarrow> string" where
  "build_startup_script c =
     str_join [CHR 0x0A]
       ([''#!/bin/bash'', ''set -u'',
         ''export PATH=/usr/local/bin:/usr/bin:/bin:/opt/conda/bin:$PATH'',
         ''exec > /var/log/atlas-provision.log 2>&1'', ''set -x'',
         ''echo \"[atlas] provisioning serve target: '' @ target_value (pc_target c) @ ''\"'']
        @ (if wants_ollama (pc_target c)
           then [ollama_block (str_int OLLAMA_PORT) (pc_chat_model c) (pc_embed_model c)] else [])
        @ (if wants_vllm (pc_target c)
           then [vllm_block (str_int VLLM_PORT) (pc_vllm_model c) (str_int (pc_vllm_max_model_len c))
                   (vllm_lora_args c) (vllm_lora_env c)] else [])
        @ [''echo \"[atlas] provisioning script complete\"''])
     @ [CHR 0x0A]"

section \<open>Endpoint classification\<close>

text \<open>
  \<open>http_probe\<close>: the role of the server behind a URL, from which of the two readiness paths
  answers; the answers are the argument \<open>ok\<close>.
\<close>

definition http_probe :: "(string \<Rightarrow> bool) \<Rightarrow> string \<Rightarrow> string option" where
  "http_probe ok url =
     (let base = rstrip_chars (\<lambda>c. c = CHR ''/'') url
      in if ok (base @ ''/api/tags'') then Some ''ollama''
         else if ok (base @ ''/v1/models'') then Some ''vllm'' else None)"

fun classify_from :: "(string \<Rightarrow> string option) \<Rightarrow> string list \<Rightarrow> (string, string) dict \<Rightarrow> (string, string) dict" where
  "classify_from probe [] roles = roles"
| "classify_from probe (url # urls) roles =
     classify_from probe urls
       (case probe url of
          Some role \<Rightarrow>
            (if role \<noteq> [] \<and> dict_get roles role = None then dict_set role url roles else roles)
        | None \<Rightarrow> roles)"

definition classify_endpoints :: "string list \<Rightarrow> (string \<Rightarrow> string option) \<Rightarrow> (string, string) dict" where
  "classify_endpoints endpoints probe = classify_from probe endpoints []"

section \<open>Properties\<close>

lemma classify_from_get:
  assumes "r \<noteq> []"
  shows "dict_get (classify_from probe urls roles) r =
    (case dict_get roles r of Some u \<Rightarrow> Some u | None \<Rightarrow> find (\<lambda>u. probe u = Some r) urls)"
  using assms
  by (induction probe urls roles rule: classify_from.induct) (auto split: option.splits)

lemma classify_from_keys:
  "dict_get (classify_from probe urls roles) [] = dict_get roles []"
  by (induction probe urls roles rule: classify_from.induct) (auto split: option.splits)

text \<open>
  endpoint discovery does not depend on the order of the ports: a role is mapped to the first
  endpoint that answers as that role, a role nobody answers is absent, and with one server per
  role any permutation of the endpoints gives the same mapping.
\<close>

theorem classification_by_probe:
  assumes "mset us = mset vs" "\<forall>u\<in>set us. \<forall>v\<in>set us. probe u = probe v \<and> probe u \<noteq> None \<longrightarrow> u = v"
  shows "dict_get (classify_endpoints us probe) r = dict_get (classify_endpoints vs probe) r
    \<and> (r \<noteq> [] \<longrightarrow> dict_get (classify_endpoints us probe) r = find (\<lambda>u. probe u = Some r) us)"
proof (cases "r = []")
  case True
  then show ?thesis by (simp add: classify_endpoints_def classify_from_keys)
next
  case False
  have get: "dict_get (classify_endpoints ws probe) r = find (\<lambda>u. probe u = Some r) ws" for ws
    by (simp add: classify_endpoints_def classify_from_get [OF False])
  have sets: "set us = set vs" using assms(1) by (metis set_mset_mset)
  have "find (\<lambda>u. probe u = Some r) us = find (\<lambda>u. probe u = Some r) vs"
  proof (cases "find (\<lambda>u. probe u = Some r) us")
    case None
    then have "find (\<lambda>u. probe u = Some r) vs = None" using sets by (simp add: find_None_iff)
    with None show ?thesis by simp
  next
    case (Some u)
    then have u: "u \<in> set us" "probe u = Some r" by (auto simp: find_Some_iff)
    then have "find (\<lambda>u. probe u = Some r) vs \<noteq> None"
      unfolding find_None_iff using sets by blast
    then obtain v where v: "find (\<lambda>u. probe u = Some r) vs = Some v" by blast
    then have "v \<in> set us" "probe v = Some r" unfolding sets by (auto simp: find_Some_iff)
    with assms(2) u have "u = v" by simp
    with Some v show ?thesis by simp
  qed
  with get False show ?thesis by simp
qed

lemma classification_by_probe_witness:
  "dict_get (classify_endpoints [''u1'', ''u2''] (\<lambda>u. if u = ''u1'' then Some ''vllm'' else Some ''ollama'')) ''vllm''
     = Some ''u1''
   \<and> dict_get (classify_endpoints [''u2'', ''u1''] (\<lambda>u. if u = ''u1'' then Some ''vllm'' else Some ''ollama'')) ''vllm''
     = Some ''u1''"
proof -
  let ?p = "\<lambda>u. if u = ''u1'' then Some ''vllm'' else Some ''ollama''"
  have m: "mset [''u1'', ''u2''] = mset [''u2'', ''u1'']" by simp
  have u: "\<forall>u\<in>set [''u1'', ''u2'']. \<forall>v\<in>set [''u1'', ''u2'']. ?p u = ?p v \<and> ?p u \<noteq> None \<longrightarrow> u = v"
    by simp
  have f: "find (\<lambda>u. ?p u = Some ''vllm'') [''u1'', ''u2''] = Some ''u1''" by simp
  show ?thesis
    using classification_by_probe [OF m u, of "''vllm''"] f by (simp only: simp_thms list.distinct) metis
qed

text \<open>
  with LoRA serving disabled the startup script does not depend on any LoRA setting, so the
  plain serve command is byte for byte what it was before the feature.
\<close>

theorem script_without_lora:
  assumes "\<not> pc_vllm_enable_lora c"
  shows "build_startup_script (c\<lparr>pc_vllm_lora_modules := modules, pc_vllm_max_loras := loras,
      pc_vllm_max_lora_rank := rank, pc_vllm_runtime_lora := runtime\<rparr>) = build_startup_script c"
  using assms by (simp add: build_startup_script_def vllm_lora_args_def vllm_lora_env_def)

definition plain_config :: provision_config where
  "plain_config = \<lparr>pc_target = BOTH, pc_chat_model = ''m'', pc_embed_model = ''e'', pc_vllm_model = ''v'',
     pc_vllm_max_model_len = 8192, pc_vllm_enable_lora = False, pc_vllm_lora_modules = [],
     pc_vllm_max_loras = 1, pc_vllm_max_lora_rank = 16, pc_vllm_runtime_lora = False\<rparr>"

lemma script_without_lora_witness:
  "build_startup_script (plain_config\<lparr>pc_vllm_lora_modules := ''a=b'', pc_vllm_max_loras := 4,
      pc_vllm_max_lora_rank := 8, pc_vllm_runtime_lora := True\<rparr>) = build_startup_script plain_config"
  by (rule script_without_lora) (simp add: plain_config_def)

lemma parse_target_value: "parse_target (target_value t) = Some t"
  by (cases t; simp only: target_value.simps; code_simp)

end
