(* ===== verification/Gpu_Lifecycle.thy ===== *)
theory Gpu_Lifecycle
  imports Gpu_Provision
begin

text \<open>
  The GPU session life cycle (\<open>infra/gpu/atlas_gpu/lifecycle.py\<close>) and the provider it drives
  (\<open>infra/gpu/atlas_gpu/providers.py\<close>). The session is written against the provider's
  operations, and the locale \<open>gpu_provider\<close> states the one law it relies on: a pause that
  returns has stopped the instance. The JarvisLabs provider logs every SDK call with its
  outcome; which instances may be billing is read off that log, so the law is proved for it and
  nothing is assumed of the SDK beyond "a successful pause stops that instance".
\<close>

section \<open>Exceptions and health polling\<close>

datatype gpu_exc = ProviderError string | ReadyTimeout | OtherException string | BaseOnly string

text \<open>\<open>BaseOnly\<close> is a \<open>BaseException\<close> that is no \<open>Exception\<close>, such as \<open>KeyboardInterrupt\<close>.\<close>

fun is_exception :: "gpu_exc \<Rightarrow> bool" where
  "is_exception (BaseOnly _) = False"
| "is_exception _ = True"

text \<open>
  What the poll observes: the answer of the \<open>i\<close>-th probe, the \<open>i\<close>-th reading of the clock and the
  exception that may interrupt the \<open>i\<close>-th sleep.
\<close>

record health_env =
  h_check :: "string \<Rightarrow> nat \<Rightarrow> (gpu_exc, bool) result"
  h_now :: "nat \<Rightarrow> pyfloat"
  h_sleep :: "nat \<Rightarrow> gpu_exc option"
  h_timeout :: pyfloat

partial_function (option) poll_from ::
  "health_env \<Rightarrow> string \<Rightarrow> pyfloat \<Rightarrow> nat \<Rightarrow> (gpu_exc, nat) result option" where
  [code]: "poll_from h url deadline i =
     (case h_check h url i of
        Inl e \<Rightarrow> Some (Inl e)
      | Inr ready \<Rightarrow>
          (if ready then Some (Inr (i + 1))
           else if f_le deadline (h_now h (i + 1)) then Some (Inl ReadyTimeout)
           else (case h_sleep h i of
                   Some e \<Rightarrow> Some (Inl e)
                 | None \<Rightarrow> poll_from h url deadline (i + 1))))"

definition poll_until_ready :: "health_env \<Rightarrow> string \<Rightarrow> (gpu_exc, nat) result option" where
  "poll_until_ready h url = poll_from h url (f_add (h_now h 0) (h_timeout h)) 0"

section \<open>Sessions\<close>

record 'p provider_ops =
  op_resume :: "'p \<Rightarrow> 'p \<times> (gpu_exc, unit) result"
  op_pause :: "'p \<Rightarrow> 'p \<times> (gpu_exc, unit) result"
  op_endpoint :: "'p \<Rightarrow> 'p \<times> (gpu_exc, string) result"

text \<open>\<open>GpuSession.pause\<close>: the flag makes a second call a no-op.\<close>

definition session_pause ::
  "'p provider_ops \<Rightarrow> bool \<Rightarrow> 'p \<Rightarrow> 'p \<times> bool \<times> (gpu_exc, unit) result" where
  "session_pause ops paused p =
     (if paused then (p, True, Inr ())
      else (case op_pause ops p of
              (p', Inr u) \<Rightarrow> (p', True, Inr ())
            | (p', Inl e) \<Rightarrow> (p', False, Inl e)))"

text \<open>A failing \<open>__enter__\<close> pauses; an ordinary exception of that pause does not mask the cause.\<close>

definition failed_enter :: "'p provider_ops \<Rightarrow> gpu_exc \<Rightarrow> 'p \<Rightarrow> 'p \<times> bool \<times> (gpu_exc, string) result" where
  "failed_enter ops e p =
     (case session_pause ops False p of
        (p', b, Inr u) \<Rightarrow> (p', b, Inl e)
      | (p', b, Inl e') \<Rightarrow> (p', b, Inl (if is_exception e' then e else e')))"

text \<open>\<open>None\<close> is a poll that never returns.\<close>

definition session_enter ::
  "'p provider_ops \<Rightarrow> health_env \<Rightarrow> bool \<Rightarrow> 'p \<Rightarrow> ('p \<times> bool \<times> (gpu_exc, string) result) option" where
  "session_enter ops h skip_health p =
     (case op_resume ops p of
        (p1, Inl e) \<Rightarrow> Some (failed_enter ops e p1)
      | (p1, Inr u) \<Rightarrow>
          (case op_endpoint ops p1 of
             (p2, Inl e) \<Rightarrow> Some (failed_enter ops e p2)
           | (p2, Inr url) \<Rightarrow>
               (if skip_health then Some (p2, False, Inr url)
                else (case poll_until_ready h url of
                        None \<Rightarrow> None
                      | Some (Inl e) \<Rightarrow> Some (failed_enter ops e p2)
                      | Some (Inr n) \<Rightarrow> Some (p2, False, Inr url)))))"

text \<open>An exception of the pause in \<open>__exit__\<close> replaces the outcome of the body.\<close>

definition run_with_gpu ::
  "'p provider_ops \<Rightarrow> health_env \<Rightarrow> bool \<Rightarrow> (string \<Rightarrow> (gpu_exc, int) result) \<Rightarrow> 'p \<Rightarrow>
   ('p \<times> (gpu_exc, int) result) option" where
  "run_with_gpu ops h skip_health body p =
     (case session_enter ops h skip_health p of
        None \<Rightarrow> None
      | Some (p1, paused, Inl e) \<Rightarrow> Some (p1, Inl e)
      | Some (p1, paused, Inr url) \<Rightarrow>
          (case session_pause ops paused p1 of
             (p2, b, Inl e) \<Rightarrow> Some (p2, Inl e)
           | (p2, b, Inr u) \<Rightarrow> Some (p2, body url)))"

section \<open>Watchdog\<close>

text \<open>
  \<open>Watchdog.run\<close>: tick \<open>i\<close> asks whether the session was cancelled, then compares its clock with
  the deadline. The result says whether this call paused the GPU; \<open>None\<close> means it never returns.
\<close>

record watchdog_env =
  wd_now :: "nat \<Rightarrow> pyfloat"
  wd_cancelled :: "nat \<Rightarrow> bool"

definition expired :: "pyfloat \<Rightarrow> pyfloat \<Rightarrow> bool" where
  "expired deadline t = f_le deadline t"

definition fire :: "'p provider_ops \<Rightarrow> bool \<Rightarrow> 'p \<Rightarrow> 'p \<times> (gpu_exc, bool) result" where
  "fire ops fired p =
     (if fired then (p, Inr False)
      else (case op_pause ops p of (p', Inl e) \<Rightarrow> (p', Inl e) | (p', Inr u) \<Rightarrow> (p', Inr True)))"

partial_function (option) watchdog_run ::
  "'p provider_ops \<Rightarrow> watchdog_env \<Rightarrow> pyfloat \<Rightarrow> nat \<Rightarrow> 'p \<Rightarrow> ('p \<times> (gpu_exc, bool) result) option" where
  [code]: "watchdog_run ops w deadline i p =
     (if wd_cancelled w i then Some (p, Inr False)
      else if expired deadline (wd_now w i) then Some (fire ops False p)
      else watchdog_run ops w deadline (i + 1) p)"

section \<open>What the session guarantees\<close>

locale gpu_provider =
  fixes ops :: "'p provider_ops"
    and active :: "'p \<Rightarrow> bool"
  assumes pause_stops: "op_pause ops p = (p', Inr u) \<Longrightarrow> \<not> active p'"
begin

lemma session_pause_stops: "session_pause ops False p = (p', b, Inr u) \<Longrightarrow> \<not> active p'"
  by (auto simp: session_pause_def split: prod.splits sum.splits dest: pause_stops)

lemma failed_enter_raises: "failed_enter ops e p = (p', b, r) \<Longrightarrow> \<exists>e'. r = Inl e'"
  by (auto simp: failed_enter_def split: prod.splits sum.splits)

lemma enter_unpaused: "session_enter ops h skip p = Some (p', b, Inr url) \<Longrightarrow> \<not> b"
  by (auto simp: session_enter_def failed_enter_def split: prod.splits sum.splits if_splits option.splits)

text \<open>A session that returns a result has stopped the instance; else it raises.\<close>

lemma run_stops_or_raises:
  assumes "run_with_gpu ops h skip body p = Some (p', Inr n)"
  shows "\<not> active p'"
proof -
  obtain p1 b url where enter: "session_enter ops h skip p = Some (p1, b, Inr url)"
    using assms by (auto simp: run_with_gpu_def split: option.splits prod.splits sum.splits)
  with enter_unpaused have b: "\<not> b" by blast
  from assms enter obtain b2 u where "session_pause ops b p1 = (p', b2, Inr u)"
    by (auto simp: run_with_gpu_def split: prod.splits sum.splits)
  with b session_pause_stops show ?thesis by (cases b) auto
qed

text \<open>When no pause fails, every outcome, an interrupt included, leaves the instance stopped.\<close>

lemma failed_enter_stops:
  assumes "\<And>p. \<exists>p'. op_pause ops p = (p', Inr ())" "failed_enter ops e p = (p', b, r)"
  shows "\<not> active p' \<and> r = Inl e"
proof -
  obtain p2 where "op_pause ops p = (p2, Inr ())" using assms(1) by blast
  with assms(2) pause_stops [OF this] show ?thesis
    by (auto simp: failed_enter_def session_pause_def)
qed

lemma run_stops:
  assumes pauses: "\<And>p. \<exists>p'. op_pause ops p = (p', Inr ())"
    and run: "run_with_gpu ops h skip body p = Some (p', out)"
  shows "\<not> active p'"
proof (cases "session_enter ops h skip p")
  case None
  with run show ?thesis by (simp add: run_with_gpu_def)
next
  case (Some r)
  obtain p1 b q where r: "r = (p1, b, q)" by (cases r)
  show ?thesis
  proof (cases q)
    case (Inl e)
    then have p1: "p1 = p'" using run Some r by (simp add: run_with_gpu_def)
    have "\<exists>e p2. failed_enter ops e p2 = (p1, b, q)"
      using Some r Inl by (auto simp: session_enter_def split: prod.splits sum.splits if_splits option.splits)
    then show ?thesis using failed_enter_stops [OF pauses] p1 by blast
  next
    case (Inr url)
    with Some r enter_unpaused have "\<not> b" by blast
    obtain p2 where p2: "op_pause ops p1 = (p2, Inr ())" using pauses by blast
    with run Some r Inr \<open>\<not> b\<close> have "p' = p2"
      by (auto simp: run_with_gpu_def session_pause_def)
    with pause_stops [OF p2] show ?thesis by simp
  qed
qed

end
text \<open>
  A provider with an invariant its operations keep: every session that returns or raises has
  ended with a call of pause, made in a state that satisfies the invariant.
\<close>

locale tracked_gpu_provider = gpu_provider +
  fixes tracked :: "'a \<Rightarrow> bool"
  assumes resume_tracked: "tracked p \<Longrightarrow> tracked (fst (op_resume ops p))"
    and endpoint_tracked: "tracked p \<Longrightarrow> tracked (fst (op_endpoint ops p))"
begin

lemma failed_enter_pauses: "failed_enter ops e p = (p', b, r) \<Longrightarrow> p' = fst (op_pause ops p)"
  by (auto simp: failed_enter_def session_pause_def split: prod.splits sum.splits)

lemma enter_tracked:
  assumes "tracked p" "session_enter ops h skip p = Some (p1, b, r)"
  shows "\<exists>p2. tracked p2 \<and> (p1 = p2 \<and> (\<exists>url. r = Inr url) \<or> p1 = fst (op_pause ops p2) \<and> (\<exists>e. r = Inl e))"
proof -
  obtain q1 r1 where 1: "op_resume ops p = (q1, r1)" by fastforce
  have t1: "tracked q1" using resume_tracked [OF assms(1)] 1 by simp
  obtain q2 r2 where 2: "op_endpoint ops q1 = (q2, r2)" by fastforce
  have t2: "tracked q2" using endpoint_tracked [OF t1] 2 by simp
  show ?thesis
  proof (cases r1)
    case (Inl e)
    with assms(2) 1 have "failed_enter ops e q1 = (p1, b, r)" by (simp add: session_enter_def)
    with t1 failed_enter_pauses failed_enter_raises show ?thesis by blast
  next
    case (Inr u)
    with assms(2) 1 2 have "(\<exists>e. failed_enter ops e q2 = (p1, b, r)) \<or> (p1 = q2 \<and> (\<exists>url. r = Inr url))"
      by (auto simp: session_enter_def split: sum.splits if_splits option.splits)
    with t2 failed_enter_pauses failed_enter_raises show ?thesis by blast
  qed
qed

lemma run_ends_with_pause:
  assumes "tracked p" "run_with_gpu ops h skip body p = Some (p', out)"
  shows "\<exists>p2. tracked p2 \<and> p' = fst (op_pause ops p2)"
proof -
  obtain p1 b r where enter: "session_enter ops h skip p = Some (p1, b, r)"
    using assms(2) by (auto simp: run_with_gpu_def split: option.splits)
  from enter_tracked [OF assms(1) enter] obtain p2 where
    p2: "tracked p2" "p1 = p2 \<and> (\<exists>url. r = Inr url) \<or> p1 = fst (op_pause ops p2) \<and> (\<exists>e. r = Inl e)"
    by blast
  show ?thesis
  proof (cases r)
    case (Inl e)
    with assms(2) enter p2 show ?thesis by (auto simp: run_with_gpu_def)
  next
    case (Inr url)
    with enter enter_unpaused have "\<not> b" by blast
    with assms(2) enter Inr have "p' = fst (op_pause ops p1)"
      by (auto simp: run_with_gpu_def session_pause_def split: prod.splits sum.splits)
    with p2 Inr show ?thesis by auto
  qed
qed

end

section \<open>Polling returns\<close>

lemma poll_from_bound:
  assumes "f_le deadline (h_now h (Suc k))" "i \<le> k"
  shows "\<exists>r. poll_from h url deadline i = Some r"
  using assms(2)
proof (induction "k - i" arbitrary: i)
  case 0
  then have "i = k" by simp
  then show ?case using assms(1) by (subst poll_from.simps) (auto split: sum.splits)
next
  case (Suc d)
  then have "\<exists>r. poll_from h url deadline (i + 1) = Some r" by simp
  then show ?case by (subst poll_from.simps) (auto split: sum.splits option.splits)
qed

lemma poll_from_result:
  assumes "poll_from h url deadline i = Some r"
  shows "r = Inr n \<longrightarrow> 0 < n \<and> h_check h url (n - 1) = Inr True"
  using assms
proof (induction rule: poll_from.raw_induct [rotated, consumes 1, case_names step])
  case (step poll h url deadline i r)
  then show ?case by (auto split: sum.splits if_splits option.splits)
qed

text \<open>
  health polling is bounded and honest. If the clock ever reaches the deadline, the poll
  returns (with an answer, a timeout or the exception of a probe), and it reports readiness only
  when its last probe answered yes.
\<close>

theorem poll_returns:
  assumes "f_le (f_add (h_now h 0) (h_timeout h)) (h_now h (Suc k))"
  shows "\<exists>r. poll_until_ready h url = Some r
    \<and> (case r of Inl e \<Rightarrow> True | Inr n \<Rightarrow> 0 < n \<and> h_check h url (n - 1) = Inr True)"
proof -
  obtain r where r: "poll_until_ready h url = Some r"
    using poll_from_bound [OF assms, of 0 url] by (auto simp: poll_until_ready_def)
  have "\<And>n. r = Inr n \<longrightarrow> 0 < n \<and> h_check h url (n - 1) = Inr True"
    using poll_from_result [of h url _ 0 r] r unfolding poll_until_ready_def by blast
  with r show ?thesis by (cases r) auto
qed

lemma poll_returns_witness:
  "\<exists>r. poll_until_ready \<lparr>h_check = (\<lambda>u i. Inr (i = 3)), h_now = (\<lambda>i. Fin (of_nat i)), h_sleep = (\<lambda>i. None),
      h_timeout = Fin 2\<rparr> ''u'' = Some r"
proof -
  let ?h = "\<lparr>h_check = (\<lambda>u i. Inr (i = 3)), h_now = (\<lambda>i. Fin (of_nat i)), h_sleep = (\<lambda>i. None), h_timeout = Fin 2\<rparr>"
  have "f_le (f_add (h_now ?h 0) (h_timeout ?h)) (h_now ?h (Suc 2))" by simp
  from poll_returns [OF this, of "''u''"] show ?thesis by auto
qed

text \<open>
  A failure while entering a session is reported as itself. When the resume raises, the pause
  that follows cannot mask the cause unless it is itself interrupted, and in no case does the body
  run.
\<close>

theorem enter_failure_not_masked:
  assumes "op_resume ops p = (p1, Inl e)" "op_pause ops p1 = (p2, r)" "r = Inr () \<or> (\<exists>e'. r = Inl e' \<and> is_exception e')"
  shows "run_with_gpu ops h skip body p = Some (p2, Inl e)"
  using assms by (auto simp: run_with_gpu_def session_enter_def failed_enter_def session_pause_def)

lemma enter_failure_not_masked_witness:
  "\<forall>h body. run_with_gpu \<lparr>op_resume = (\<lambda>p. (p + 1, Inl ReadyTimeout)),
      op_pause = (\<lambda>p. (p + 10, Inl (ProviderError ''x''))),
      op_endpoint = (\<lambda>p. (p, Inr ''u''))\<rparr> h False body (0 :: nat) = Some (11, Inl ReadyTimeout)"
proof (intro allI)
  fix h body
  let ?o = "\<lparr>op_resume = (\<lambda>p. (p + 1, Inl ReadyTimeout)), op_pause = (\<lambda>p. (p + 10, Inl (ProviderError ''x''))),
      op_endpoint = (\<lambda>p. (p, Inr ''u''))\<rparr> :: nat provider_ops"
  have "op_resume ?o 0 = (1, Inl ReadyTimeout)" "op_pause ?o 1 = (11, Inl (ProviderError ''x''))" by simp_all
  from enter_failure_not_masked [OF this]
  show "run_with_gpu ?o h False body (0 :: nat) = Some (11, Inl ReadyTimeout)" by simp
qed

end
