(* ===== verification/Gpu_Jarvis.thy ===== *)
theory Gpu_Jarvis
  imports Gpu_Lifecycle
begin

text \<open>
  The JarvisLabs provider (\<open>infra/gpu/atlas_gpu/providers.py\<close>) over the SDK seam
  (\<open>infra/gpu/atlas_gpu/sdk.py\<close>). The SDK is an argument: a record of functions that answer a
  call from the history of the calls before it, so that every behaviour of the service is
  covered. The provider's state carries that history, and \<open>live\<close> reads off it the instances
  that may be billing.
\<close>

section \<open>The SDK seam\<close>

record instance_info =
  i_machine_id :: string
  i_status :: string
  i_endpoints :: "string list"

definition is_running :: "instance_info \<Rightarrow> bool" where
  "is_running i = (str_lower (i_status i) = ''running'')"

text \<open>The calls with their outcomes; \<open>None\<close> and \<open>False\<close> are calls that raised.\<close>

datatype sdk_event =
    EGet string "instance_info option"
  | EResume string "string option"
  | EPause string bool
  | EDestroy string bool
  | EScript string bool
  | ECreate "string option"

record create_spec =
  cs_gpu_type :: string
  cs_num_gpus :: int
  cs_template :: string
  cs_storage_gb :: int
  cs_name :: string
  cs_region :: "string option"

record sdk =
  sdk_get :: "sdk_event list \<Rightarrow> string \<Rightarrow> (gpu_exc, instance_info) result"
  sdk_resume :: "sdk_event list \<Rightarrow> string \<Rightarrow> (gpu_exc, instance_info) result"
  sdk_pause :: "sdk_event list \<Rightarrow> string \<Rightarrow> (gpu_exc, unit) result"
  sdk_destroy :: "sdk_event list \<Rightarrow> string \<Rightarrow> (gpu_exc, unit) result"
  sdk_script :: "sdk_event list \<Rightarrow> string \<Rightarrow> string \<Rightarrow> (gpu_exc, string) result"
  sdk_create :: "sdk_event list \<Rightarrow> create_spec \<Rightarrow> string \<Rightarrow> string \<Rightarrow> (gpu_exc, instance_info) result"
  sdk_probe :: "sdk_event list \<Rightarrow> string \<Rightarrow> string option"

text \<open>
  The instances that may be running after a history: an instance joins when a call shows it
  running, starts it, or fails while starting it (the failed call may have started it), and
  leaves when a pause or a destroy of it succeeds. A failed create may leave an instance whose
  id the program never learns; it is recorded under the empty id.
\<close>

fun live_step :: "sdk_event \<Rightarrow> string set \<Rightarrow> string set" where
  "live_step (EGet i (Some info)) S = (if is_running info then insert i S else S)"
| "live_step (EGet i None) S = S"
| "live_step (EResume i (Some j)) S = insert j (S - {i})"
| "live_step (EResume i None) S = insert i S"
| "live_step (EPause i ok) S = (if ok then S - {i} else S)"
| "live_step (EDestroy i ok) S = (if ok then S - {i} else S)"
| "live_step (EScript n ok) S = S"
| "live_step (ECreate (Some j)) S = insert j S"
| "live_step (ECreate None) S = insert [] S"

definition live :: "sdk_event list \<Rightarrow> string set" where
  "live es = fold live_step es {}"

lemma live_Nil [simp]: "live [] = {}"
  by (simp add: live_def)

lemma live_snoc [simp]: "live (es @ [e]) = live_step e (live es)"
  by (simp add: live_def)

section \<open>The provider\<close>

record jarvis =
  j_instance_id :: string
  j_spec :: create_spec
  j_roles :: "(string, string) dict"
  j_log :: "sdk_event list"

definition note_call :: "sdk_event \<Rightarrow> jarvis \<Rightarrow> jarvis" where
  "note_call e p = p\<lparr>j_log := j_log p @ [e]\<rparr>"

definition get_instance :: "sdk \<Rightarrow> jarvis \<Rightarrow> jarvis \<times> (gpu_exc, instance_info) result" where
  "get_instance c p =
     (case sdk_get c (j_log p) (j_instance_id p) of
        Inl e \<Rightarrow> (note_call (EGet (j_instance_id p) None) p, Inl e)
      | Inr info \<Rightarrow> (note_call (EGet (j_instance_id p) (Some info)) p, Inr info))"

definition jl_resume :: "sdk \<Rightarrow> jarvis \<Rightarrow> jarvis \<times> (gpu_exc, unit) result" where
  "jl_resume c p =
     (if j_instance_id p = [] then (p, Inl (ProviderError ''resume requires GPU_INSTANCE_ID''))
      else (case get_instance c p of
              (p1, Inl e) \<Rightarrow> (p1, Inl e)
            | (p1, Inr info) \<Rightarrow>
                (if is_running info then (p1\<lparr>j_roles := []\<rparr>, Inr ())
                 else (case sdk_resume c (j_log p1) (j_instance_id p1) of
                         Inl e \<Rightarrow> (note_call (EResume (j_instance_id p1) None) p1, Inl e)
                       | Inr i2 \<Rightarrow>
                           ((note_call (EResume (j_instance_id p1) (Some (i_machine_id i2))) p1)
                              \<lparr>j_instance_id := i_machine_id i2, j_roles := []\<rparr>, Inr ())))))"

definition jl_pause :: "sdk \<Rightarrow> jarvis \<Rightarrow> jarvis \<times> (gpu_exc, unit) result" where
  "jl_pause c p =
     (if j_instance_id p = [] then (p, Inl (ProviderError ''pause requires an instance id''))
      else (case sdk_pause c (j_log p) (j_instance_id p) of
              Inl e \<Rightarrow> (note_call (EPause (j_instance_id p) False) p, Inl e)
            | Inr u \<Rightarrow> (note_call (EPause (j_instance_id p) True) p, Inr ())))"

definition jl_destroy :: "sdk \<Rightarrow> jarvis \<Rightarrow> jarvis \<times> (gpu_exc, unit) result" where
  "jl_destroy c p =
     (if j_instance_id p = [] then (p, Inl (ProviderError ''destroy requires an instance id''))
      else (case sdk_destroy c (j_log p) (j_instance_id p) of
              Inl e \<Rightarrow> (note_call (EDestroy (j_instance_id p) False) p, Inl e)
            | Inr u \<Rightarrow> (note_call (EDestroy (j_instance_id p) True) p, Inr ())))"

definition discover_endpoints ::
  "sdk \<Rightarrow> bool \<Rightarrow> jarvis \<Rightarrow> jarvis \<times> (gpu_exc, (string, string) dict) result" where
  "discover_endpoints c refresh p =
     (if j_roles p \<noteq> [] \<and> \<not> refresh then (p, Inr (j_roles p))
      else (case get_instance c p of
              (p1, Inl e) \<Rightarrow> (p1, Inl e)
            | (p1, Inr info) \<Rightarrow>
                (let roles = classify_endpoints (i_endpoints info) (sdk_probe c (j_log p1))
                 in (p1\<lparr>j_roles := roles\<rparr>, Inr roles))))"

definition role_url :: "(string, string) dict \<Rightarrow> string \<Rightarrow> string option" where
  "role_url roles r = (case dict_get roles r of Some u \<Rightarrow> (if u = [] then None else Some u) | None \<Rightarrow> None)"

definition jl_endpoint :: "sdk \<Rightarrow> jarvis \<Rightarrow> jarvis \<times> (gpu_exc, string) result" where
  "jl_endpoint c p =
     (case discover_endpoints c False p of
        (p1, Inl e) \<Rightarrow> (p1, Inl e)
      | (p1, Inr roles) \<Rightarrow>
          (case role_url roles ''ollama'' of
             Some u \<Rightarrow> (p1, Inr u)
           | None \<Rightarrow>
               (case role_url roles ''vllm'' of
                  Some u \<Rightarrow> (p1, Inr u)
                | None \<Rightarrow> (p1, Inl (ProviderError ''exposes no ready endpoint'')))))"

definition jl_create :: "sdk \<Rightarrow> provision_config \<Rightarrow> jarvis \<Rightarrow> jarvis \<times> (gpu_exc, instance_info) result" where
  "jl_create c cfg p =
     (let script = build_startup_script cfg;
          name = ''atlas-provision-'' @ target_value (pc_target cfg)
      in case sdk_script c (j_log p) script name of
           Inl e \<Rightarrow> (note_call (EScript name False) p, Inl e)
         | Inr script_id \<Rightarrow>
             (let p1 = note_call (EScript name True) p
              in case sdk_create c (j_log p1) (j_spec p1) (http_ports cfg) script_id of
                   Inl e \<Rightarrow> (note_call (ECreate None) p1, Inl e)
                 | Inr info \<Rightarrow>
                     ((note_call (ECreate (Some (i_machine_id info))) p1)
                        \<lparr>j_instance_id := i_machine_id info, j_roles := []\<rparr>, Inr info)))"

definition jl_ops :: "sdk \<Rightarrow> jarvis provider_ops" where
  "jl_ops c = \<lparr>op_resume = jl_resume c, op_pause = jl_pause c, op_endpoint = jl_endpoint c\<rparr>"

lemma jl_ops_simps [simp]:
  "op_resume (jl_ops c) = jl_resume c" "op_pause (jl_ops c) = jl_pause c"
  "op_endpoint (jl_ops c) = jl_endpoint c"
  by (simp_all add: jl_ops_def)

text \<open>The dry-run provider of the command line: no call, nothing active.\<close>

definition echo_ops :: "string \<Rightarrow> unit provider_ops" where
  "echo_ops url = \<lparr>op_resume = (\<lambda>p. (p, Inr ())), op_pause = (\<lambda>p. (p, Inr ())), op_endpoint = (\<lambda>p. (p, Inr url))\<rparr>"

text \<open>\<open>make_provider\<close>: an unknown provider name is an error.\<close>

definition create_spec_from_env :: "(string, string) dict \<Rightarrow> create_spec option" where
  "create_spec_from_env env =
     (case (env_int env ''GPU_NUM_GPUS'' 1, env_int env ''GPU_STORAGE_GB'' 100) of
        (Some n, Some gb) \<Rightarrow>
          Some \<lparr>cs_gpu_type = env_get env ''GPU_TYPE'' ''L4'', cs_num_gpus = n,
            cs_template = env_get env ''GPU_TEMPLATE'' ''pytorch'', cs_storage_gb = gb,
            cs_name = env_get env ''GPU_INSTANCE_NAME'' ''atlas-serving'',
            cs_region = (case dict_get env ''GPU_REGION'' of
                           Some r \<Rightarrow> (if r = [] then None else Some r) | None \<Rightarrow> None)\<rparr>
      | _ \<Rightarrow> None)"

definition make_provider :: "string option \<Rightarrow> (string, string) dict \<Rightarrow> (gpu_exc, jarvis) result" where
  "make_provider name env =
     (let given = (case name of Some n \<Rightarrow> n | None \<Rightarrow> []);
          chosen = (if given \<noteq> [] then given
                    else if env_get env ''GPU_PROVIDER'' [] \<noteq> [] then env_get env ''GPU_PROVIDER'' []
                    else ''jarvislabs'')
      in if str_lower (str_strip chosen) \<noteq> ''jarvislabs''
         then Inl (ProviderError ''unsupported GPU_PROVIDER'')
         else (case create_spec_from_env env of
                 None \<Rightarrow> Inl (OtherException ''ValueError'')
               | Some spec \<Rightarrow>
                   Inr \<lparr>j_instance_id = env_get env ''GPU_INSTANCE_ID'' [], j_spec = spec,
                     j_roles = [], j_log = []\<rparr>))"

section \<open>The provider keeps the contract\<close>

definition tracked :: "jarvis \<Rightarrow> bool" where
  "tracked p \<longleftrightarrow> live (j_log p) \<subseteq> {j_instance_id p}"

lemma note_call_fields [simp]:
  "j_instance_id (note_call e p) = j_instance_id p" "j_log (note_call e p) = j_log p @ [e]"
  "j_roles (note_call e p) = j_roles p" "j_spec (note_call e p) = j_spec p"
  by (simp_all add: note_call_def)

lemma get_instance_tracked:
  "get_instance c p = (p', r) \<Longrightarrow>
     j_instance_id p' = j_instance_id p \<and> live (j_log p) \<subseteq> live (j_log p')
     \<and> live (j_log p') \<subseteq> insert (j_instance_id p) (live (j_log p))"
  by (auto simp: get_instance_def split: sum.splits if_splits)

lemma resume_tracked: "tracked p \<Longrightarrow> tracked (fst (jl_resume c p))"
  by (fastforce simp: jl_resume_def tracked_def split: prod.splits sum.splits dest: get_instance_tracked)

lemma discover_tracked: "tracked p \<Longrightarrow> tracked (fst (discover_endpoints c refresh p))"
  by (fastforce simp: discover_endpoints_def tracked_def Let_def split: prod.splits sum.splits
      dest: get_instance_tracked)

lemma endpoint_fst: "fst (jl_endpoint c p) = fst (discover_endpoints c False p)"
  by (auto simp: jl_endpoint_def split: prod.splits sum.splits option.splits)

interpretation jarvis: tracked_gpu_provider "jl_ops c" "\<lambda>p. j_instance_id p \<in> live (j_log p)" tracked
  for c :: sdk
  by unfold_locales
    (auto simp: jl_pause_def resume_tracked discover_tracked endpoint_fst split: sum.splits if_splits)

interpretation echo: gpu_provider "echo_ops url" "\<lambda>_. False" for url
  by unfold_locales simp

lemma pause_clears:
  assumes "tracked p" "p' = fst (jl_pause c p)"
  shows "live (j_log p') = {} \<or> j_instance_id p' = [] \<or> last (j_log p') = EPause (j_instance_id p') False"
  using assms by (auto simp: jl_pause_def tracked_def split: sum.splits)

text \<open>
  C10: a GPU session never leaks an instance silently. However resume, discovery, health polling
  and the body behave (errors and interrupts included), a session over the JarvisLabs provider
  that started with no other instance running ends with no instance running, unless the last
  thing it did was a pause that the service refused or the service never told it the instance's
  id; and when the session returns a result normally, the instance it used is stopped.
\<close>

theorem session_never_leaks:
  assumes "live (j_log p) \<subseteq> {j_instance_id p}"
    and "run_with_gpu (jl_ops c) h skip body p = Some (p', out)"
  shows "(live (j_log p') = {} \<or> j_instance_id p' = []
      \<or> last (j_log p') = EPause (j_instance_id p') False)
    \<and> (\<forall>n. out = Inr n \<longrightarrow> j_instance_id p' \<notin> live (j_log p'))"
proof
  have t: "tracked p" using assms(1) by (simp add: tracked_def)
  obtain p2 where "tracked p2" "p' = fst (jl_pause c p2)"
    using jarvis.run_ends_with_pause [OF t assms(2)] by auto
  then show "live (j_log p') = {} \<or> j_instance_id p' = []
      \<or> last (j_log p') = EPause (j_instance_id p') False" by (rule pause_clears)
  show "\<forall>n. out = Inr n \<longrightarrow> j_instance_id p' \<notin> live (j_log p')"
    using jarvis.run_stops_or_raises assms(2) by blast
qed

text \<open>A service on which everything works: the paused machine 7 comes back as machine 8.\<close>

definition demo_sdk :: sdk where
  "demo_sdk = \<lparr>sdk_get = (\<lambda>es i. Inr \<lparr>i_machine_id = i,
        i_status = (if es = [] then ''Paused'' else ''Running''), i_endpoints = [''u1'']\<rparr>),
      sdk_resume = (\<lambda>es i. Inr \<lparr>i_machine_id = ''8'', i_status = ''Running'', i_endpoints = [''u1'']\<rparr>),
      sdk_pause = (\<lambda>es i. Inr ()), sdk_destroy = (\<lambda>es i. Inr ()),
      sdk_script = (\<lambda>es sc n. Inr ''s''),
      sdk_create = (\<lambda>es cs ports sid. Inr \<lparr>i_machine_id = ''9'', i_status = ''Running'', i_endpoints = [''u1'']\<rparr>),
      sdk_probe = (\<lambda>es u. Some ''ollama'')\<rparr>"

definition demo_jarvis :: jarvis where
  "demo_jarvis = \<lparr>j_instance_id = ''7'',
     j_spec = \<lparr>cs_gpu_type = ''L4'', cs_num_gpus = 1, cs_template = ''pytorch'', cs_storage_gb = 100,
       cs_name = ''atlas-serving'', cs_region = None\<rparr>, j_roles = [], j_log = []\<rparr>"

definition demo_health :: health_env where
  "demo_health = \<lparr>h_check = (\<lambda>u i. Inr (0 < i)), h_now = (\<lambda>i. Fin 0), h_sleep = (\<lambda>i. None), h_timeout = Fin 600\<rparr>"

lemma session_never_leaks_witness:
  "\<exists>p'. run_with_gpu (jl_ops demo_sdk) demo_health True (\<lambda>u. Inl (BaseOnly ''interrupt'')) demo_jarvis
       = Some (p', Inl (BaseOnly ''interrupt''))
     \<and> j_instance_id p' = ''8'' \<and> last (j_log p') = EPause ''8'' True \<and> live (j_log p') = {}"
proof -
  obtain p' where run: "run_with_gpu (jl_ops demo_sdk) demo_health True (\<lambda>u. Inl (BaseOnly ''interrupt'')) demo_jarvis
       = Some (p', Inl (BaseOnly ''interrupt''))" "j_instance_id p' = ''8''" "last (j_log p') = EPause ''8'' True"
    by (simp add: run_with_gpu_def session_enter_def jl_resume_def demo_jarvis_def demo_sdk_def
        get_instance_def is_running_def str_lower_def lower_char_def ord_def Let_def note_call_def
        jl_endpoint_def discover_endpoints_def classify_endpoints_def role_url_def
        session_pause_def jl_pause_def)
  have "live (j_log demo_jarvis) \<subseteq> {j_instance_id demo_jarvis}" by (simp add: demo_jarvis_def)
  from session_never_leaks [OF this run(1)] run show ?thesis by auto
qed

end
