(* ===== verification/Gpu_Cli.thy ===== *)
theory Gpu_Cli
  imports Gpu_Jarvis
begin

text \<open>
  The command line of the GPU helper (\<open>infra/gpu/atlas_gpu/__main__.py\<close>) and the from-scratch
  provisioning (\<open>infra/gpu/atlas_gpu/bootstrap.py\<close>). Each command is a process of its own; what
  they share is the world: the history of SDK calls, the session lock file with its deadline,
  the watchdog process and the env files.
\<close>

section \<open>Env files\<close>

text \<open>\<open>line.startswith(f"{key}=")\<close> and not a comment line.\<close>

definition line_sets :: "string \<Rightarrow> string \<Rightarrow> bool" where
  "line_sets key line \<longleftrightarrow>
     startswith line (key @ ''='') \<and> \<not> startswith (dropWhile is_space line) ''#''"

definition set_line :: "string \<Rightarrow> string \<Rightarrow> string list \<Rightarrow> string list" where
  "set_line key value lines =
     (let out = map (\<lambda>l. if line_sets key l then key @ ''='' @ value else l) lines
      in if list_ex (line_sets key) lines then out else out @ [key @ ''='' @ value])"

definition write_env :: "string option \<Rightarrow> string \<Rightarrow> string \<Rightarrow> string" where
  "write_env content key value =
     str_join [CHR 0x0A]
       (set_line key value (case content of Some t \<Rightarrow> splitlines t | None \<Rightarrow> [])) @ [CHR 0x0A]"

section \<open>Provisioning\<close>

definition desired_roles :: "serve_target \<Rightarrow> string list" where
  "desired_roles t =
     (if wants_ollama t then [''ollama''] else []) @ (if wants_vllm t then [''vllm''] else [])"

text \<open>\<open>wait_for_roles\<close>: \<open>None\<close> is a wait that never returns.\<close>

partial_function (option) wait_from ::
  "sdk \<Rightarrow> (nat \<Rightarrow> pyfloat) \<Rightarrow> string list \<Rightarrow> pyfloat \<Rightarrow> nat \<Rightarrow> jarvis \<Rightarrow>
   (jarvis \<times> (gpu_exc, (string, string) dict) result) option" where
  [code]: "wait_from c now desired deadline i p =
     (case discover_endpoints c True p of
        (p1, Inl e) \<Rightarrow> Some (p1, Inl e)
      | (p1, Inr roles) \<Rightarrow>
          (if list_all (\<lambda>r. dict_get roles r \<noteq> None) desired then Some (p1, Inr roles)
           else if f_le deadline (now (i + 1)) then Some (p1, Inl ReadyTimeout)
           else wait_from c now desired deadline (i + 1) p1))"

definition wait_for_roles ::
  "sdk \<Rightarrow> (nat \<Rightarrow> pyfloat) \<Rightarrow> pyfloat \<Rightarrow> serve_target \<Rightarrow> jarvis \<Rightarrow>
   (jarvis \<times> (gpu_exc, (string, string) dict) result) option" where
  "wait_for_roles c now timeout target p =
     wait_from c now (desired_roles target) (f_add (now 0) timeout) 0 p"

record provision_result =
  pr_machine_id :: string
  pr_ollama :: "string option"
  pr_vllm :: "string option"
  pr_dry_run :: bool
  pr_script :: string

text \<open>The env file is its content, \<open>None\<close> when it does not exist.\<close>

definition provision_from_scratch ::
  "sdk \<Rightarrow> (nat \<Rightarrow> pyfloat) \<Rightarrow> pyfloat \<Rightarrow> bool \<Rightarrow> bool \<Rightarrow> provision_config \<Rightarrow> jarvis \<Rightarrow> string option \<Rightarrow>
   (jarvis \<times> string option \<times> (gpu_exc, provision_result) result) option" where
  "provision_from_scratch c now timeout write dry_run cfg p file =
     (if dry_run
      then Some (p, file, Inr \<lparr>pr_machine_id = ''(dry-run)'', pr_ollama = None, pr_vllm = None,
             pr_dry_run = True, pr_script = build_startup_script cfg\<rparr>)
      else (case jl_create c cfg p of
              (p1, Inl e) \<Rightarrow> Some (p1, file, Inl e)
            | (p1, Inr info) \<Rightarrow>
                (case wait_for_roles c now timeout (pc_target cfg) p1 of
                   None \<Rightarrow> None
                 | Some (p2, Inl e) \<Rightarrow> Some (p2, file, Inl e)
                 | Some (p2, Inr roles) \<Rightarrow>
                     (let set = (\<lambda>r key f. case role_url roles r of
                                   Some u \<Rightarrow> Some (write_env f key u) | None \<Rightarrow> f);
                          file' = (if write
                                   then Some (write_env (set ''vllm'' ''ATLAS_VLLM_BASE_URL''
                                          (set ''ollama'' ''OLLAMA_BASE_URL'' file))
                                          ''GPU_INSTANCE_ID'' (j_instance_id p2))
                                   else file)
                      in if role_url roles ''ollama'' = None \<and> role_url roles ''vllm'' = None
                         then Some (p2, file', Inl (ProviderError ''provisioning produced no usable endpoint''))
                         else Some (p2, file', Inr \<lparr>pr_machine_id = j_instance_id p2,
                                pr_ollama = dict_get roles ''ollama'', pr_vllm = dict_get roles ''vllm'',
                                pr_dry_run = False, pr_script = build_startup_script cfg\<rparr>)))))"

section \<open>Commands\<close>

record gpu_world =
  g_log :: "sdk_event list"
  g_lock :: "pyfloat option"
  g_armed :: bool
  g_file :: "string option"

text \<open>
  What a command reads from its process: the environment variables, the clocks, the parsed idle
  timeout in minutes (\<open>None\<close> is a malformed number) and the service.
\<close>

record process =
  p_env :: "(string, string) dict"
  p_sdk :: sdk
  p_health :: health_env
  p_wall :: pyfloat
  p_idle_min :: "pyfloat option"

definition provider_of :: "process \<Rightarrow> gpu_world \<Rightarrow> (gpu_exc, jarvis) result" where
  "provider_of pr w = res_bind (make_provider None (p_env pr)) (\<lambda>p. Inr (p\<lparr>j_log := g_log w\<rparr>))"

definition arm_watchdog :: "process \<Rightarrow> bool \<Rightarrow> gpu_world \<Rightarrow> gpu_world \<times> (gpu_exc, int) result" where
  "arm_watchdog pr no_watchdog w =
     (case p_idle_min pr of
        None \<Rightarrow> (w, Inl (OtherException ''ValueError''))
      | Some minutes \<Rightarrow>
          (w\<lparr>g_lock := Some (f_add (p_wall pr) (f_mul minutes (Fin 60))),
             g_armed := (if no_watchdog then g_armed w else True)\<rparr>, Inr 0))"

definition cmd_up :: "process \<Rightarrow> bool \<Rightarrow> bool \<Rightarrow> bool \<Rightarrow> gpu_world \<Rightarrow> (gpu_world \<times> (gpu_exc, int) result) option" where
  "cmd_up pr skip_health write no_watchdog w =
     (case provider_of pr w of
        Inl e \<Rightarrow> Some (w, Inl e)
      | Inr p \<Rightarrow>
          (case jl_resume (p_sdk pr) p of
             (p1, Inl e) \<Rightarrow> Some (w\<lparr>g_log := j_log p1\<rparr>, Inl e)
           | (p1, Inr u) \<Rightarrow>
               (case jl_endpoint (p_sdk pr) p1 of
                  (p2, Inl e) \<Rightarrow> Some (w\<lparr>g_log := j_log p2\<rparr>, Inl e)
                | (p2, Inr url) \<Rightarrow>
                    (case (if skip_health then Some (Inr 0) else poll_until_ready (p_health pr) url) of
                       None \<Rightarrow> None
                     | Some (Inl e) \<Rightarrow> Some (w\<lparr>g_log := j_log p2\<rparr>, Inl e)
                     | Some (Inr n) \<Rightarrow>
                         (let file' = (if write
                                then Some (write_env (Some (write_env (g_file w) ''OLLAMA_BASE_URL'' url))
                                       ''GPU_INSTANCE_ID'' (j_instance_id p2))
                                else g_file w)
                          in Some (arm_watchdog pr no_watchdog (w\<lparr>g_log := j_log p2, g_file := file'\<rparr>)))))))"

definition cmd_down :: "process \<Rightarrow> gpu_world \<Rightarrow> gpu_world \<times> (gpu_exc, int) result" where
  "cmd_down pr w =
     (let w1 = w\<lparr>g_lock := None\<rparr>
      in case provider_of pr w1 of
           Inl e \<Rightarrow> (w1, Inl e)
         | Inr p \<Rightarrow>
             (case jl_pause (p_sdk pr) p of
                (p1, Inl e) \<Rightarrow> (w1\<lparr>g_log := j_log p1\<rparr>, Inl e)
              | (p1, Inr u) \<Rightarrow> (w1\<lparr>g_log := j_log p1\<rparr>, Inr 0)))"

fun is_provider_error :: "gpu_exc \<Rightarrow> bool" where
  "is_provider_error (ProviderError _) = True"
| "is_provider_error _ = False"

definition cmd_teardown :: "process \<Rightarrow> bool \<Rightarrow> gpu_world \<Rightarrow> gpu_world \<times> (gpu_exc, int) result" where
  "cmd_teardown pr destroy w =
     (let w1 = w\<lparr>g_lock := None\<rparr>
      in case provider_of pr w1 of
           Inl e \<Rightarrow> (w1, Inl e)
         | Inr p \<Rightarrow>
             (case (if destroy then jl_destroy (p_sdk pr) p else jl_pause (p_sdk pr) p) of
                (p1, Inl e) \<Rightarrow>
                  (w1\<lparr>g_log := j_log p1\<rparr>, if is_provider_error e then Inr 1 else Inl e)
              | (p1, Inr u) \<Rightarrow> (w1\<lparr>g_log := j_log p1\<rparr>, Inr 0)))"

text \<open>The errors \<open>run\<close> and \<open>provision\<close> turn into exit code 1.\<close>

definition exit_code :: "(gpu_exc, int) result \<Rightarrow> (gpu_exc, int) result" where
  "exit_code r =
     (case r of
        Inl e \<Rightarrow> (if is_provider_error e \<or> e = ReadyTimeout then Inr 1 else Inl e)
      | Inr n \<Rightarrow> Inr n)"

definition cmd_run ::
  "process \<Rightarrow> string list \<Rightarrow> bool \<Rightarrow> bool \<Rightarrow> (string \<Rightarrow> (gpu_exc, int) result) \<Rightarrow> gpu_world \<Rightarrow>
   (gpu_world \<times> (gpu_exc, int) result) option" where
  "cmd_run pr command dry_run skip_health exec w =
     (if command = [] then Some (w, Inr 2)
      else if dry_run
      then (case run_with_gpu (echo_ops (env_get (p_env pr) ''OLLAMA_BASE_URL'' ''http://dry-run.local:11434''))
                   (p_health pr) True (\<lambda>url. Inr 0) () of
              None \<Rightarrow> None
            | Some (_, r) \<Rightarrow> Some (w, exit_code r))
      else (case provider_of pr w of
              Inl e \<Rightarrow> Some (w, Inl e)
            | Inr p \<Rightarrow>
                (case run_with_gpu (jl_ops (p_sdk pr)) (p_health pr) skip_health exec p of
                   None \<Rightarrow> None
                 | Some (p', r) \<Rightarrow> Some (w\<lparr>g_log := j_log p'\<rparr>, exit_code r))))"

text \<open>
  The detached watchdog: it reads the deadline from the lock file and runs \<open>Watchdog.run\<close> with
  the watchdog's default clock, whose readings are \<open>wd_now\<close>.
\<close>

definition cmd_watchdog :: "process \<Rightarrow> watchdog_env \<Rightarrow> gpu_world \<Rightarrow> (gpu_world \<times> (gpu_exc, int) result) option" where
  "cmd_watchdog pr wd w =
     (case g_lock w of
        None \<Rightarrow> Some (w, Inr 0)
      | Some deadline \<Rightarrow>
          (case provider_of pr w of
             Inl e \<Rightarrow> Some (w, Inl e)
           | Inr p \<Rightarrow>
               (case watchdog_run (jl_ops (p_sdk pr)) wd deadline 0 p of
                  None \<Rightarrow> None
                | Some (p', Inl e) \<Rightarrow> Some (w\<lparr>g_log := j_log p'\<rparr>, Inl e)
                | Some (p', Inr fired) \<Rightarrow> Some (w\<lparr>g_log := j_log p', g_lock := None\<rparr>, Inr 0))))"

definition cmd_provision ::
  "process \<Rightarrow> string \<Rightarrow> string option \<Rightarrow> int option \<Rightarrow> string option \<Rightarrow> bool \<Rightarrow> bool \<Rightarrow> bool \<Rightarrow> gpu_world \<Rightarrow>
   (gpu_world \<times> (gpu_exc, int) result) option" where
  "cmd_provision pr serve gpu storage name write dry_run no_watchdog w =
     (case parse_target serve of
        None \<Rightarrow> Some (w, Inr 2)
      | Some target \<Rightarrow>
          (case provider_of pr w of
             Inl e \<Rightarrow> Some (w, Inl e)
           | Inr p \<Rightarrow>
               (let spec = j_spec p;
                    spec1 = (case gpu of Some g \<Rightarrow> (if g = [] then spec else spec\<lparr>cs_gpu_type := g\<rparr>) | None \<Rightarrow> spec);
                    spec2 = (case storage of Some n \<Rightarrow> (if n = 0 then spec1 else spec1\<lparr>cs_storage_gb := n\<rparr>) | None \<Rightarrow> spec1);
                    spec3 = (case name of Some n \<Rightarrow> (if n = [] then spec2 else spec2\<lparr>cs_name := n\<rparr>) | None \<Rightarrow> spec2)
                in case config_from_env target (p_env pr) of
                     None \<Rightarrow> Some (w, Inl (OtherException ''ValueError''))
                   | Some cfg \<Rightarrow>
                       (case provision_from_scratch (p_sdk pr) (h_now (p_health pr)) (h_timeout (p_health pr))
                               write dry_run cfg (p\<lparr>j_spec := spec3\<rparr>) (g_file w) of
                          None \<Rightarrow> None
                        | Some (p', file', Inl e) \<Rightarrow>
                            Some (w\<lparr>g_log := j_log p', g_file := file'\<rparr>, exit_code (Inl e))
                        | Some (p', file', Inr res) \<Rightarrow>
                            (let w' = w\<lparr>g_log := j_log p', g_file := file'\<rparr>
                             in if pr_dry_run res then Some (w', Inr 0)
                                else Some (arm_watchdog pr no_watchdog w'))))))"

section \<open>Env files keep their other lines\<close>

lemma splitlines_acc_append:
  "\<forall>c\<in>set l. \<not> is_line_break c \<Longrightarrow> splitlines_acc acc (l @ s) = splitlines_acc (rev l @ acc) s"
  by (induction l arbitrary: acc) auto

lemma newline_break: "is_line_break (CHR 0x0A)" "ord (CHR 0x0A) = 10"
  by (simp_all add: is_line_break_def ord_def)

lemma splitlines_step:
  assumes "\<forall>c\<in>set l. \<not> is_line_break c"
  shows "splitlines_acc [] (l @ CHR 0x0A # s) = l # splitlines_acc [] s"
  using assms by (subst splitlines_acc_append) (auto simp: newline_break)

lemma str_join_newline:
  "ls \<noteq> [] \<Longrightarrow> str_join [CHR 0x0A] ls @ [CHR 0x0A] = concat (map (\<lambda>l. l @ [CHR 0x0A]) ls)"
  by (induction ls rule: induct_list012) simp_all

lemma splitlines_lines:
  assumes "\<forall>l\<in>set ls. \<forall>c\<in>set l. \<not> is_line_break c"
  shows "splitlines (concat (map (\<lambda>l. l @ [CHR 0x0A]) ls)) = ls"
  using assms unfolding splitlines_def
  by (induction ls) (auto simp: splitlines_step)

lemma splitlines_acc_no_break:
  "\<forall>c\<in>set acc. \<not> is_line_break c \<Longrightarrow> l \<in> set (splitlines_acc acc s) \<Longrightarrow> \<forall>c\<in>set l. \<not> is_line_break c"
proof (induction acc s rule: splitlines_acc.induct)
  case (1 acc)
  then show ?case by (cases "acc = []") simp_all
next
  case (2 acc c cs)
  show ?case
  proof (cases "is_line_break c")
    case True
    with 2(4) have "l = rev acc \<or> l \<in> set (splitlines_acc []
        (if ord c = 13 \<and> (case cs of d # _ \<Rightarrow> ord d = 10 | [] \<Rightarrow> False) then tl cs else cs))"
      by (simp only: splitlines_acc.simps if_True list.set insert_iff)
    then show ?thesis
    proof
      assume "l = rev acc"
      with 2(3) show ?thesis by simp
    next
      assume "l \<in> set (splitlines_acc []
        (if ord c = 13 \<and> (case cs of d # _ \<Rightarrow> ord d = 10 | [] \<Rightarrow> False) then tl cs else cs))"
      from 2(1) [OF True _ this] show ?thesis by simp
    qed
  next
    case False
    with 2(4) have "l \<in> set (splitlines_acc (c # acc) cs)" by simp
    then show ?thesis using False 2(3) by (intro 2(2) [OF False]) simp_all
  qed
qed

lemma splitlines_no_break: "l \<in> set (splitlines s) \<Longrightarrow> \<forall>c\<in>set l. \<not> is_line_break c"
  unfolding splitlines_def by (rule splitlines_acc_no_break) simp_all

definition file_lines :: "string option \<Rightarrow> string list" where
  "file_lines content = (case content of Some t \<Rightarrow> splitlines t | None \<Rightarrow> [])"

lemma set_line_not_Nil: "set_line key value ls \<noteq> []"
  by (auto simp: set_line_def Let_def)

lemma set_line_no_break:
  assumes "\<forall>l\<in>set ls. \<forall>c\<in>set l. \<not> is_line_break c" "\<forall>c\<in>set (key @ value). \<not> is_line_break c"
  shows "\<forall>l\<in>set (set_line key value ls). \<forall>c\<in>set l. \<not> is_line_break c"
proof -
  have "\<not> is_line_break (CHR ''='')" by code_simp
  with assms show ?thesis by (auto simp: set_line_def Let_def)
qed

lemma write_env_lines:
  assumes "\<forall>c\<in>set (key @ value). \<not> is_line_break c"
  shows "splitlines (write_env content key value) = set_line key value (file_lines content)"
proof -
  have "\<forall>l\<in>set (set_line key value (file_lines content)). \<forall>c\<in>set l. \<not> is_line_break c"
    using splitlines_no_break assms
    by (intro set_line_no_break) (auto simp: file_lines_def split: option.splits)
  then show ?thesis
    unfolding write_env_def file_lines_def [symmetric] str_join_newline [OF set_line_not_Nil]
    by (rule splitlines_lines)
qed

lemma line_sets_own:
  assumes "key \<noteq> []" "\<not> is_space (hd key)" "hd key \<noteq> CHR ''#''"
  shows "line_sets key (key @ ''='' @ value)"
  using assms by (cases key) (auto simp: line_sets_def)

lemma filter_set_line:
  assumes "line_sets key (key @ ''='' @ value)"
  shows "filter (\<lambda>l. \<not> line_sets key l) (set_line key value ls) = filter (\<lambda>l. \<not> line_sets key l) ls"
proof -
  have "filter (\<lambda>l. \<not> line_sets key l) (map (\<lambda>l. if line_sets key l then key @ ''='' @ value else l) xs)
      = filter (\<lambda>l. \<not> line_sets key l) xs" for xs
    using assms by (induction xs) auto
  then show ?thesis using assms by (simp add: set_line_def Let_def)
qed

lemma set_line_sets:
  assumes "line_sets key (key @ ''='' @ value)"
  shows "filter (line_sets key) (set_line key value ls) \<noteq> []
    \<and> set (filter (line_sets key) (set_line key value ls)) = {key @ ''='' @ value}"
  using assms by (auto simp: set_line_def Let_def list_ex_iff filter_empty_conv split: if_splits)

text \<open>
  writing an env file. After \<open>write_env\<close> of a key and a value without line breaks, every line
  of the file that sets the key is \<open>KEY=value\<close>, at least one does, all other lines are what and
  where they were, and writing the same pair again changes nothing.
\<close>

theorem write_env_correct:
  assumes "key \<noteq> []" "\<not> is_space (hd key)" "hd key \<noteq> CHR ''#''" "\<forall>c\<in>set (key @ value). \<not> is_line_break c"
  shows "set (filter (line_sets key) (file_lines (Some (write_env content key value)))) = {key @ ''='' @ value}
    \<and> filter (\<lambda>l. \<not> line_sets key l) (file_lines (Some (write_env content key value)))
        = filter (\<lambda>l. \<not> line_sets key l) (file_lines content)
    \<and> write_env (Some (write_env content key value)) key value = write_env content key value"
proof -
  note own = line_sets_own [OF assms(1,2,3), of "value"]
  have lines: "file_lines (Some (write_env content key value)) = set_line key value (file_lines content)"
    using write_env_lines [OF assms(4)] by (simp add: file_lines_def)
  have "list_ex (line_sets key) (set_line key value (file_lines content))"
    using set_line_sets [OF own] by (auto simp: list_ex_iff filter_empty_conv)
  moreover have "map (\<lambda>l. if line_sets key l then key @ ''='' @ value else l) (set_line key value (file_lines content))
      = set_line key value (file_lines content)"
    using own by (auto simp: set_line_def Let_def)
  ultimately have "set_line key value (set_line key value (file_lines content)) = set_line key value (file_lines content)"
    unfolding set_line_def [of key "value" "set_line key value (file_lines content)"] Let_def by simp
  then have "write_env (Some (write_env content key value)) key value = write_env content key value"
    unfolding write_env_def [of "Some (write_env content key value)"]
    using write_env_lines [OF assms(4), of content]
    by (simp add: write_env_def file_lines_def)
  then show ?thesis
    unfolding lines using set_line_sets [OF own] filter_set_line [OF own] by blast
qed

lemma write_env_correct_witness:
  "write_env (Some (write_env (Some (''A=1'' @ [CHR 0x0A])) ''K'' ''v'')) ''K'' ''v''
     = write_env (Some (''A=1'' @ [CHR 0x0A])) ''K'' ''v''
   \<and> filter (\<lambda>l. \<not> line_sets ''K'' l) (file_lines (Some (write_env (Some (''A=1'' @ [CHR 0x0A])) ''K'' ''v''))) = [''A=1'']"
proof -
  have h: "\<not> is_space (hd ''K'')" "hd ''K'' \<noteq> CHR ''#''" "\<forall>c\<in>set (''K'' @ ''v''). \<not> is_line_break c"
    by code_simp+
  have l: "filter (\<lambda>l. \<not> line_sets ''K'' l) (file_lines (Some (''A=1'' @ [CHR 0x0A]))) = [''A=1'']"
    by code_simp
  from write_env_correct [OF _ h] l show ?thesis by simp
qed

section \<open>The watchdog's clock\<close>

text \<open>
  A watchdog whose clock reaches the deadline at tick \<open>k\<close>, not cancelled before, pauses the GPU
  exactly once; one whose clock stays below the deadline never does.
\<close>

lemma watchdog_fires:
  assumes "\<forall>i<k. \<not> wd_cancelled w i \<and> \<not> f_le deadline (wd_now w i)"
    and "\<not> wd_cancelled w k" "f_le deadline (wd_now w k)" "j \<le> k"
  shows "watchdog_run ops w deadline j p = Some (fire ops False p)"
  using assms(4)
proof (induction "k - j" arbitrary: j)
  case 0
  then show ?case using assms by (subst watchdog_run.simps) (simp add: expired_def)
next
  case (Suc d)
  then have "watchdog_run ops w deadline (j + 1) p = Some (fire ops False p)" "j < k" by simp_all
  then show ?case using assms(1) by (subst watchdog_run.simps) (simp add: expired_def)
qed

lemma watchdog_idle:
  assumes "watchdog_run ops w deadline i p = Some r"
  shows "(\<forall>j. \<not> f_le deadline (wd_now w j)) \<longrightarrow> r = (p, Inr False)"
  using assms
proof (induction rule: watchdog_run.raw_induct [rotated, consumes 1, case_names step])
  case (step run ops w deadline i p r)
  then show ?case by (auto simp: expired_def split: if_splits)
qed


definition demo_process :: process where
  "demo_process = \<lparr>p_env = [(''GPU_INSTANCE_ID'', ''7'')], p_sdk = demo_sdk, p_health = demo_health,
     p_wall = Fin 1700000000, p_idle_min = Some (Fin 20)\<rparr>"

definition demo_armed :: gpu_world where
  "demo_armed = \<lparr>g_log = [EResume ''7'' (Some ''7'')], g_lock = Some (f_add (Fin 1700000000) (f_mul (Fin 20) (Fin 60))),
     g_armed = True, g_file = None\<rparr>"

text \<open>A machine up for ten days when the watchdog starts, ticking every five seconds for a year.\<close>

definition uptime_clock :: watchdog_env where
  "uptime_clock = \<lparr>wd_now = (\<lambda>i. Fin (if i < 6307200 then 864000 + 5 * of_nat i else 32400000)),
     wd_cancelled = (\<lambda>i. i \<ge> 6307200)\<rparr>"

lemma demo_provider: "\<exists>p. provider_of demo_process w = Inr p \<and> j_log p = g_log w \<and> j_instance_id p = ''7''"
proof -
  have "make_provider None (p_env demo_process) = Inr \<lparr>j_instance_id = ''7'', j_spec = j_spec demo_jarvis,
      j_roles = [], j_log = []\<rparr>"
    by code_simp
  then show ?thesis by (simp add: provider_of_def)
qed

lemma watchdog_cancelled:
  assumes "\<forall>i<k. \<not> wd_cancelled w i \<and> \<not> f_le deadline (wd_now w i)" "wd_cancelled w k" "j \<le> k"
  shows "watchdog_run ops w deadline j p = Some (p, Inr False)"
  using assms(3)
proof (induction "k - j" arbitrary: j)
  case 0
  then show ?case using assms by (subst watchdog_run.simps) simp
next
  case (Suc d)
  then have "watchdog_run ops w deadline (j + 1) p = Some (p, Inr False)" "j < k" by simp_all
  then show ?case using assms(1) by (subst watchdog_run.simps) (simp add: expired_def)
qed


section \<open>What the interactive commands leave behind\<close>

text \<open>A service whose machine 7 resumes as machine 8 but never shows an endpoint.\<close>

definition mute_sdk :: sdk where
  "mute_sdk = demo_sdk\<lparr>sdk_probe := (\<lambda>es u. None)\<rparr>"

text \<open>
  \<open>up\<close> has no guard. When discovery fails after the resume, the command raises with the
  instance running, no deadline in the lock file and no watchdog process.
\<close>

theorem up_can_leave_gpu_running:
  "\<exists>w' e. cmd_up (demo_process\<lparr>p_sdk := mute_sdk\<rparr>) False True False \<lparr>g_log = [], g_lock = None, g_armed = False, g_file = None\<rparr>
      = Some (w', Inl e)
    \<and> live (g_log w') = {''8''} \<and> g_lock w' = None \<and> \<not> g_armed w'"
proof -
  let ?w = "\<lparr>g_log = [], g_lock = None, g_armed = False, g_file = None\<rparr>"
  obtain p where p: "provider_of demo_process ?w = Inr p" "j_log p = []" "j_instance_id p = ''7''"
    using demo_provider [of ?w] by auto
  have pv: "provider_of (demo_process\<lparr>p_sdk := mute_sdk\<rparr>) ?w = Inr p"
    using p(1) by (simp add: provider_of_def)
  obtain p1 where p1: "jl_resume mute_sdk p = (p1, Inr ())" "j_instance_id p1 = ''8''" "j_roles p1 = []"
    "j_log p1 = [EGet ''7'' (Some \<lparr>i_machine_id = ''7'', i_status = ''Paused'', i_endpoints = [''u1'']\<rparr>),
      EResume ''7'' (Some ''8'')]"
    using p by (simp add: jl_resume_def get_instance_def mute_sdk_def demo_sdk_def is_running_def
        str_lower_def lower_char_def ord_def Let_def)
  obtain p2 e where p2: "jl_endpoint mute_sdk p1 = (p2, Inl e)" "live (j_log p2) = {''8''}"
    using p1 by (simp add: jl_endpoint_def discover_endpoints_def get_instance_def mute_sdk_def demo_sdk_def
        is_running_def str_lower_def lower_char_def ord_def Let_def classify_endpoints_def role_url_def live_def)
  show ?thesis
    by (simp add: cmd_up_def pv p1(1) p2)
qed

text \<open>
  \<open>down\<close> addresses the id of its own environment. A machine whose id changed on resume
  survives an \<open>up\<close> followed by a \<open>down\<close> that reports success, when the new id did not reach the
  environment of the second command.
\<close>

theorem down_misses_a_drifted_id:
  "\<exists>w1 w2. cmd_up demo_process True False True \<lparr>g_log = [], g_lock = None, g_armed = False, g_file = None\<rparr>
      = Some (w1, Inr 0)
    \<and> cmd_down demo_process w1 = (w2, Inr 0) \<and> live (g_log w2) = {''8''}"
proof -
  let ?w = "\<lparr>g_log = [], g_lock = None, g_armed = False, g_file = None\<rparr>"
  obtain p where p: "provider_of demo_process ?w = Inr p" "j_log p = []" "j_instance_id p = ''7''"
    using demo_provider [of ?w] by auto
  obtain p1 where p1: "jl_resume demo_sdk p = (p1, Inr ())" "j_instance_id p1 = ''8''" "j_roles p1 = []"
    "j_log p1 = [EGet ''7'' (Some \<lparr>i_machine_id = ''7'', i_status = ''Paused'', i_endpoints = [''u1'']\<rparr>),
      EResume ''7'' (Some ''8'')]"
    using p by (simp add: jl_resume_def get_instance_def demo_sdk_def is_running_def
        str_lower_def lower_char_def ord_def Let_def)
  obtain p2 u where p2: "jl_endpoint demo_sdk p1 = (p2, Inr u)" "live (j_log p2) = {''8''}"
    using p1 by (simp add: jl_endpoint_def discover_endpoints_def get_instance_def demo_sdk_def
        is_running_def str_lower_def lower_char_def ord_def Let_def classify_endpoints_def role_url_def live_def)
  obtain w1 where w1: "cmd_up demo_process True False True ?w = Some (w1, Inr 0)" "live (g_log w1) = {''8''}"
    by (simp add: cmd_up_def p(1) demo_process_def [THEN arg_cong, of p_sdk] p1(1) p2 arm_watchdog_def
        demo_process_def [THEN arg_cong, of p_idle_min])
  obtain q where q: "provider_of demo_process (w1\<lparr>g_lock := None\<rparr>) = Inr q" "j_log q = g_log w1" "j_instance_id q = ''7''"
    using demo_provider [of "w1\<lparr>g_lock := None\<rparr>"] by auto
  have "cmd_down demo_process w1 = (w1\<lparr>g_lock := None, g_log := g_log w1 @ [EPause ''7'' True]\<rparr>, Inr 0)"
    by (simp add: cmd_down_def q jl_pause_def demo_process_def [THEN arg_cong, of p_sdk] demo_sdk_def)
  with w1 show ?thesis by auto
qed

section \<open>The HTTP probe\<close>

text \<open>
  \<open>http_health_check\<close> (\<open>infra/gpu/atlas_gpu/lifecycle.py\<close>): a probe is answered with a status, is lost to an
  error of the connection (a \<open>URLError\<close> or \<open>OSError\<close>), or raises something else, which ends the poll.
\<close>

datatype probe = Answered int | NotReached | ProbeRaised gpu_exc

definition health_url :: "string \<Rightarrow> string" where
  "health_url base_url = rstrip_chars (\<lambda>c. c = CHR ''/'') base_url @ ''/api/tags''"

definition http_health_check :: "(string \<Rightarrow> probe) \<Rightarrow> string \<Rightarrow> (gpu_exc, bool) result" where
  "http_health_check fetch base_url =
     (case fetch (health_url base_url) of
        Answered status \<Rightarrow> Inr (200 \<le> status \<and> status < 300)
      | NotReached \<Rightarrow> Inr False
      | ProbeRaised e \<Rightarrow> Inl e)"

text \<open>The default health check of a session: the \<open>i\<close>-th probe fetches over \<open>web i\<close>.\<close>

definition with_http_probe :: "(nat \<Rightarrow> string \<Rightarrow> probe) \<Rightarrow> health_env \<Rightarrow> health_env" where
  "with_http_probe web h = h\<lparr>h_check := (\<lambda>url i. http_health_check (web i) url)\<rparr>"

text \<open>A poll that succeeds stopped at the first probe that was answered with success.\<close>

lemma poll_from_first:
  assumes "poll_from h url deadline i = Some r"
  shows "r = Inr n \<longrightarrow> i < n \<and> h_check h url (n - 1) = Inr True \<and> (\<forall>k. i \<le> k \<and> k < n - 1 \<longrightarrow> h_check h url k = Inr False)"
  using assms
proof (induction rule: poll_from.raw_induct [rotated, consumes 1, case_names step])
  case (step poll h url deadline i r)
  show ?case
  proof (cases "h_check h url i = Inr False")
    case True
    show ?thesis
    proof
      assume "r = Inr n"
      then have "poll h url deadline (i + 1) = Some r"
        using step(2) True by (auto split: if_splits option.splits)
      from step(1) [OF this] \<open>r = Inr n\<close> have later: "i + 1 < n" "h_check h url (n - 1) = Inr True"
        "\<forall>k. i + 1 \<le> k \<and> k < n - 1 \<longrightarrow> h_check h url k = Inr False" by auto
      have "h_check h url k = Inr False" if "i \<le> k" "k < n - 1" for k
        using that True later(3) by (cases "k = i") auto
      then show "i < n \<and> h_check h url (n - 1) = Inr True \<and> (\<forall>k. i \<le> k \<and> k < n - 1 \<longrightarrow> h_check h url k = Inr False)"
        using later by auto
    qed
  next
    case False
    then show ?thesis using step(2) by (auto split: sum.splits if_splits option.splits)
  qed
qed

lemma ready_means_answered:
  assumes "poll_until_ready (with_http_probe web h) url = Some (Inr n)"
  shows "\<exists>k status. n = k + 1 \<and> web k (health_url url) = Answered status \<and> 200 \<le> status \<and> status < 300
    \<and> (\<forall>i<k. \<forall>s. web i (health_url url) = Answered s \<longrightarrow> s < 200 \<or> 300 \<le> s)"
proof -
  have r: "0 < n" "http_health_check (web (n - 1)) url = Inr True"
    "\<forall>k. k < n - 1 \<longrightarrow> http_health_check (web k) url = Inr False"
    using poll_from_first [of "with_http_probe web h" url _ 0 "Inr n" n] assms
    by (auto simp: poll_until_ready_def with_http_probe_def)
  then have "s < 200 \<or> 300 \<le> s" if "i < n - 1" "web i (health_url url) = Answered s" for i s
    using that by (fastforce simp: http_health_check_def)
  moreover obtain status where "web (n - 1) (health_url url) = Answered status" "200 \<le> status" "status < 300"
    using r(2) by (auto simp: http_health_check_def split: probe.splits)
  ultimately show ?thesis using r(1) by (intro exI [of _ "n - 1"]) auto
qed

end
