(* ===== verification/Py_Num.thy ===== *)
theory Py_Num
  imports Py_Json
begin

text \<open>
  Python numbers read from JSON: an integer and a float compare by their exact values, and
  \<open>float(n)\<close> of an integer beyond the binary64 range is an error. Also keyword construction of a
  dataclass from a JSON object (\<open>C(**block)\<close>).
\<close>

definition is_num :: "json \<Rightarrow> bool" where
  "is_num v = (json_number v \<noteq> None)"

lemma is_num_simps [simp]:
  "is_num (JInt n)" "is_num (JFloat x)" "\<not> is_num JNull" "\<not> is_num (JBool b)" "\<not> is_num (JStr s)"
  "\<not> is_num (JList xs)" "\<not> is_num (JObj d)"
  by (simp_all add: is_num_def)

text \<open>\<open>float(v)\<close> of a number; \<open>None\<close> is the \<open>OverflowError\<close>.\<close>

definition num_float :: "json \<Rightarrow> pyfloat option" where
  "num_float v =
     (case v of
        JInt n \<Rightarrow> (case f_of_int n of Fin q \<Rightarrow> Some (Fin q) | _ \<Rightarrow> None)
      | JFloat x \<Rightarrow> Some x
      | _ \<Rightarrow> None)"

lemma num_float_JFloat [simp]: "num_float (JFloat x) = Some x"
  by (simp add: num_float_def)

text \<open>\<open>float(v)\<close> of any JSON value, \<open>parse\<close> reading numerals in strings.\<close>

definition any_float :: "(string \<Rightarrow> pyfloat option) \<Rightarrow> json \<Rightarrow> pyfloat option" where
  "any_float parse v = (case v of JInt n \<Rightarrow> num_float v | _ \<Rightarrow> json_float parse v)"

text \<open>\<open>v <= x\<close> for a number \<open>v\<close> and a float \<open>x\<close>; every comparison with NaN is false.\<close>

fun num_le :: "json \<Rightarrow> pyfloat \<Rightarrow> bool" where
  "num_le (JInt n) (Fin q) = (of_int n \<le> q)"
| "num_le (JInt n) PInf = True"
| "num_le (JInt n) _ = False"
| "num_le (JFloat y) x = f_le y x"
| "num_le _ _ = False"

lemma num_le_not_NaN [simp]: "\<not> num_le v NaN"
  by (cases v) simp_all

lemma num_le_trans: "num_le v x \<Longrightarrow> f_le x y \<Longrightarrow> num_le v y"
  by (cases v; cases x; cases y) (auto intro: f_le_trans)

lemma num_le_float: "num_float v = Some x \<Longrightarrow> is_num v"
  by (cases v) (simp_all add: num_float_def)

text \<open>\<open>C(**v)\<close>: the value is an object, its keys are fields and no field without default is missing.\<close>

definition kwargs :: "string list \<Rightarrow> string list \<Rightarrow> json \<Rightarrow> (string \<times> json) list option" where
  "kwargs required optional v =
     (case v of
        JObj d \<Rightarrow>
          (if list_all (\<lambda>k. map_of d k \<noteq> None) required
             \<and> list_all (\<lambda>(k, _). k \<in> set required \<union> set optional) d
           then Some d else None)
      | _ \<Rightarrow> None)"

definition obj_get_or :: "(string \<times> json) list \<Rightarrow> string \<Rightarrow> json \<Rightarrow> json" where
  "obj_get_or d k dflt = (case map_of d k of None \<Rightarrow> dflt | Some v \<Rightarrow> v)"

lemma obj_get_or_simps [simp]:
  "map_of d k = None \<Longrightarrow> obj_get_or d k v = v"
  "map_of d k = Some w \<Longrightarrow> obj_get_or d k v = w"
  by (simp_all add: obj_get_or_def)

lemma kwargs_Some: "kwargs required optional v = Some d \<longleftrightarrow>
    v = JObj d \<and> (\<forall>k\<in>set required. map_of d k \<noteq> None) \<and> (\<forall>k\<in>fst ` set d. k \<in> set required \<union> set optional)"
proof -
  have "list_all (\<lambda>(k, _). k \<in> set required \<union> set optional) xs
      \<longleftrightarrow> (\<forall>k\<in>fst ` set xs. k \<in> set required \<union> set optional)" for xs :: "(string \<times> json) list"
    by (induction xs) auto
  then show ?thesis by (cases v) (auto simp: kwargs_def list_all_iff [of _ required])
qed

end
