(* ===== verification/Gpu_Sdk.thy ===== *)
theory Gpu_Sdk
  imports Gpu_Jarvis Py_Num
begin

text \<open>
  The adapter of the JarvisLabs SDK (\<open>infra/gpu/atlas_gpu/sdk.py\<close>): normalisation of instances and of
  errors, numeric identifiers, and the startup scripts, which are kept one per name. The service is a
  record of calls on a state of its own; the model's SDK argument of \<open>Gpu_Jarvis\<close> stands for this adapter.
\<close>

section \<open>Errors\<close>

text \<open>What a call of the package may raise: an \<open>Exception\<close> with its type name, a \<open>JlError\<close>, or an interruption.\<close>

datatype sdk_failure = Failed string | AlreadyJl string | Interrupted string

fun wrap_failure :: "sdk_failure \<Rightarrow> gpu_exc" where
  "wrap_failure (Failed n) = OtherException (''jarvislabs call failed: '' @ n)"
| "wrap_failure (AlreadyJl m) = OtherException m"
| "wrap_failure (Interrupted n) = BaseOnly n"

definition wrap :: "(sdk_failure, 'a) result \<times> 's \<Rightarrow> (gpu_exc, 'a) result \<times> 's" where
  "wrap = (\<lambda>(r, s). (case r of Inl e \<Rightarrow> Inl (wrap_failure e) | Inr x \<Rightarrow> Inr x, s))"

lemma wrap_simps [simp]:
  "wrap (Inl e, s) = (Inl (wrap_failure e), s)"
  "wrap (Inr x, s) = (Inr x, s)"
  by (simp_all add: wrap_def)

section \<open>Instances\<close>

record full_info = instance_info +
  i_url :: "string option"
  i_http_ports :: "string option"
  i_region :: "string option"

text \<open>\<open>str(v)\<close>; the text of a value that is neither a string nor an integer is the argument \<open>show\<close>.\<close>

definition text_with :: "(json \<Rightarrow> string) \<Rightarrow> json \<Rightarrow> string" where
  "text_with show v = (case v of JStr s \<Rightarrow> s | JInt n \<Rightarrow> str_int n | _ \<Rightarrow> show v)"

definition opt_attr :: "(json \<Rightarrow> string) \<Rightarrow> (string \<times> json) list \<Rightarrow> string \<Rightarrow> string option" where
  "opt_attr show d k = (if json_truthy (obj_get d k) then Some (text_with show (obj_get d k)) else None)"

definition endpoints_of :: "(json \<Rightarrow> string) \<Rightarrow> json \<Rightarrow> string list option" where
  "endpoints_of show v =
     (if \<not> json_truthy v then Some []
      else case v of
             JStr s \<Rightarrow> Some [s]
           | JList xs \<Rightarrow> Some (map (text_with show) xs)
           | JObj d \<Rightarrow> Some (map fst d)
           | _ \<Rightarrow> None)"

text \<open>\<open>None\<close> is the \<open>TypeError\<close> of endpoints that cannot be iterated.\<close>

definition to_info :: "(json \<Rightarrow> string) \<Rightarrow> (string \<times> json) list \<Rightarrow> full_info option" where
  "to_info show d =
     map_option (\<lambda>eps. \<lparr>i_machine_id = text_with show (obj_get_or d ''machine_id'' (JStr [])),
         i_status = text_with show (obj_get_or d ''status'' (JStr ''unknown'')), i_endpoints = eps,
         i_url = opt_attr show d ''url'', i_http_ports = opt_attr show d ''http_ports'',
         i_region = opt_attr show d ''region''\<rparr>)
       (endpoints_of show (obj_get d ''endpoints''))"

section \<open>Calls\<close>

record script =
  sp_id :: string
  sp_name :: "string option"

record 's jl_service =
  sv_get :: "int \<Rightarrow> 's \<Rightarrow> (sdk_failure, (string \<times> json) list) result \<times> 's"
  sv_resume :: "int \<Rightarrow> 's \<Rightarrow> (sdk_failure, (string \<times> json) list) result \<times> 's"
  sv_pause :: "int \<Rightarrow> 's \<Rightarrow> (sdk_failure, unit) result \<times> 's"
  sv_destroy :: "int \<Rightarrow> 's \<Rightarrow> (sdk_failure, unit) result \<times> 's"
  sv_list :: "'s \<Rightarrow> (sdk_failure, (string \<times> json) list list) result \<times> 's"
  sv_scripts :: "'s \<Rightarrow> (sdk_failure, script list) result \<times> 's"
  sv_update :: "int \<Rightarrow> string \<Rightarrow> 's \<Rightarrow> (sdk_failure, unit) result \<times> 's"
  sv_add :: "string \<Rightarrow> string \<Rightarrow> 's \<Rightarrow> (sdk_failure, unit) result \<times> 's"

definition info_result :: "(json \<Rightarrow> string) \<Rightarrow> (gpu_exc, (string \<times> json) list) result \<times> 's \<Rightarrow> (gpu_exc, full_info) result \<times> 's" where
  "info_result show = (\<lambda>(r, s).
     (res_bind r (\<lambda>d. case to_info show d of None \<Rightarrow> Inl (OtherException ''TypeError'') | Some i \<Rightarrow> Inr i), s))"

text \<open>The identifier is converted before the call, outside the normalisation of errors.\<close>

definition by_number :: "(int \<Rightarrow> 's \<Rightarrow> (gpu_exc, 'a) result \<times> 's) \<Rightarrow> string \<Rightarrow> 's \<Rightarrow> (gpu_exc, 'a) result \<times> 's" where
  "by_number f machine_id s =
     (case py_int machine_id of None \<Rightarrow> (Inl (OtherException ''ValueError''), s) | Some i \<Rightarrow> f i s)"

definition get_instance_sdk :: "(json \<Rightarrow> string) \<Rightarrow> 's jl_service \<Rightarrow> string \<Rightarrow> 's \<Rightarrow> (gpu_exc, full_info) result \<times> 's" where
  "get_instance_sdk show sv = by_number (\<lambda>i s. info_result show (wrap (sv_get sv i s)))"

definition resume_instance :: "(json \<Rightarrow> string) \<Rightarrow> 's jl_service \<Rightarrow> string \<Rightarrow> 's \<Rightarrow> (gpu_exc, full_info) result \<times> 's" where
  "resume_instance show sv = by_number (\<lambda>i s. info_result show (wrap (sv_resume sv i s)))"

definition pause_instance :: "'s jl_service \<Rightarrow> string \<Rightarrow> 's \<Rightarrow> (gpu_exc, unit) result \<times> 's" where
  "pause_instance sv = by_number (\<lambda>i s. wrap (sv_pause sv i s))"

definition destroy_instance :: "'s jl_service \<Rightarrow> string \<Rightarrow> 's \<Rightarrow> (gpu_exc, unit) result \<times> 's" where
  "destroy_instance sv = by_number (\<lambda>i s. wrap (sv_destroy sv i s))"

definition list_instances :: "(json \<Rightarrow> string) \<Rightarrow> 's jl_service \<Rightarrow> 's \<Rightarrow> (gpu_exc, full_info list) result \<times> 's" where
  "list_instances show sv s =
     (case wrap (sv_list sv s) of
        (r, s') \<Rightarrow>
          (res_bind r (res_map (\<lambda>d. case to_info show d of None \<Rightarrow> Inl (OtherException ''TypeError'') | Some i \<Rightarrow> Inr i)), s'))"

section \<open>Startup scripts\<close>

definition named :: "string \<Rightarrow> script list \<Rightarrow> script option" where
  "named name xs = find (\<lambda>x. sp_name x = Some name) xs"

definition add_script :: "'s jl_service \<Rightarrow> string \<Rightarrow> string \<Rightarrow> 's \<Rightarrow> (gpu_exc, string) result \<times> 's" where
  "add_script sv body name s =
     (case wrap (sv_scripts sv s) of
        (Inl e, s1) \<Rightarrow> (Inl e, s1)
      | (Inr xs, s1) \<Rightarrow>
          (case named name xs of
             Some x \<Rightarrow>
               (case by_number (\<lambda>i s. wrap (sv_update sv i body s)) (sp_id x) s1 of
                  (Inl e, s2) \<Rightarrow> (Inl e, s2)
                | (Inr _, s2) \<Rightarrow> (Inr (sp_id x), s2))
           | None \<Rightarrow>
               (case wrap (sv_add sv body name s1) of
                  (Inl e, s2) \<Rightarrow> (Inl e, s2)
                | (Inr _, s2) \<Rightarrow>
                    (case wrap (sv_scripts sv s2) of
                       (Inl e, s3) \<Rightarrow> (Inl e, s3)
                     | (Inr ys, s3) \<Rightarrow>
                         (case named name ys of
                            Some y \<Rightarrow> (Inr (sp_id y), s3)
                          | None \<Rightarrow> (Inl (OtherException ''could not resolve its id''), s3))))))"

text \<open>The key of the client: an empty one is passed as no key.\<close>

definition api_key_of :: "(string, string) dict \<Rightarrow> string option" where
  "api_key_of env = (case dict_get env ''GPU_API_KEY'' of Some k \<Rightarrow> (if k = [] then None else Some k) | None \<Rightarrow> None)"

section \<open>One script per name\<close>

lemma find_append: "find P (xs @ ys) = (case find P xs of None \<Rightarrow> find P ys | Some x \<Rightarrow> Some x)"
  by (induction xs) auto

text \<open>
  What the adapter relies on: listing gives the stored scripts and changes none, an update replaces the
  body of the script with that number, and adding appends one script under a fresh number. Nothing is
  assumed of calls that fail.
\<close>

type_synonym entry = "script \<times> string"

definition bodies :: "int \<Rightarrow> string \<Rightarrow> entry list \<Rightarrow> entry list" where
  "bodies i body = map (\<lambda>(x, b). (x, if py_int (sp_id x) = Some i then body else b))"

definition documented :: "'s jl_service \<Rightarrow> ('s \<Rightarrow> entry list) \<Rightarrow> bool" where
  "documented sv store \<longleftrightarrow>
     (\<forall>s r s'. sv_scripts sv s = (r, s') \<longrightarrow> store s' = store s \<and> (\<forall>xs. r = Inr xs \<longrightarrow> xs = map fst (store s)))
     \<and> (\<forall>i body s s'. sv_update sv i body s = (Inr (), s') \<longrightarrow> store s' = bodies i body (store s))
     \<and> (\<forall>body name s s'. sv_add sv body name s = (Inr (), s') \<longrightarrow>
          (\<exists>n. store s' = store s @ [(\<lparr>sp_id = str_int n, sp_name = Some name\<rparr>, body)]
             \<and> Some n \<notin> (\<lambda>(x, _). py_int (sp_id x)) ` set (store s)))"

text \<open>Numbers are distinct, and every script has one.\<close>

definition numbered :: "entry list \<Rightarrow> bool" where
  "numbered es \<longleftrightarrow> distinct (map (\<lambda>(x, _). py_int (sp_id x)) es) \<and> (\<forall>(x, _)\<in>set es. py_int (sp_id x) \<noteq> None)"

definition named_entries :: "string \<Rightarrow> entry list \<Rightarrow> entry list" where
  "named_entries name es = filter (\<lambda>(x, _). sp_name x = Some name) es"

definition other_entries :: "string \<Rightarrow> entry list \<Rightarrow> entry list" where
  "other_entries name es = filter (\<lambda>(x, _). sp_name x \<noteq> Some name) es"

lemma bodies_ids [simp]: "map (\<lambda>(x, _). f x) (bodies i body es) = map (\<lambda>(x, _). f x) es"
  by (auto simp: bodies_def)

lemma numbered_bodies [simp]: "numbered (bodies i body es) = numbered es"
  unfolding numbered_def bodies_ids by (auto simp: bodies_def)

lemma named_bodies [simp]: "named_entries name (bodies i body es) = bodies i body (named_entries name es)"
  by (induction es) (auto simp: bodies_def named_entries_def)

lemma other_bodies:
  assumes "numbered es" "(x, b) \<in> set es" "sp_name x = Some name" "py_int (sp_id x) = Some i"
  shows "other_entries name (bodies i body es) = other_entries name es"
proof -
  have one: "y = x" if "(y, c) \<in> set es" "py_int (sp_id y) = Some i" for y c
  proof -
    have inj: "inj_on (\<lambda>(x, _). py_int (sp_id x)) (set es)" using assms(1) by (auto simp: numbered_def distinct_map)
    have "(y, c) = (x, b)" by (rule inj_onD [OF inj]) (use that assms(2,4) in simp_all)
    then show ?thesis by simp
  qed
  have "other_entries name (bodies i body fs) = other_entries name fs" if "set fs \<subseteq> set es" for fs
    using that
  proof (induction fs)
    case (Cons e fs)
    obtain y c where e: "e = (y, c)" by fastforce
    show ?case
    proof (cases "sp_name y = Some name")
      case True
      then show ?thesis using Cons by (simp add: other_entries_def bodies_def e)
    next
      case False
      then have "py_int (sp_id y) \<noteq> Some i" using one [of y c] Cons.prems assms(3) by (auto simp: e)
      then show ?thesis using Cons False by (simp add: other_entries_def bodies_def e)
    qed
  qed (simp add: bodies_def)
  then show ?thesis by simp
qed

lemma named_Some:
  assumes "named name (map fst es) = Some x" "length (named_entries name es) \<le> 1"
  shows "\<exists>b. (x, b) \<in> set es \<and> sp_name x = Some name \<and> named_entries name es = [(x, b)]"
proof -
  have x: "x \<in> set (map fst es)" "sp_name x = Some name"
    using assms(1) unfolding named_def find_Some_iff by (auto simp del: set_map intro: nth_mem)
  then obtain b where b: "(x, b) \<in> set es" "sp_name x = Some name" by auto
  then have "(x, b) \<in> set (named_entries name es)" by (simp add: named_entries_def)
  with assms(2) have "named_entries name es = [(x, b)]" by (cases "named_entries name es") auto
  with b show ?thesis by blast
qed

lemma named_None: "named name (map fst es) = None \<longleftrightarrow> named_entries name es = []"
  by (auto simp: named_def named_entries_def find_None_iff filter_empty_conv)

lemma documentedD:
  assumes "documented sv store"
  shows "sv_scripts sv s = (r, s') \<Longrightarrow> store s' = store s"
    "sv_scripts sv s = (Inr xs, s') \<Longrightarrow> xs = map fst (store s)"
    "sv_update sv i body s = (Inr (), s') \<Longrightarrow> store s' = bodies i body (store s)"
    "sv_add sv body name s = (Inr (), s') \<Longrightarrow>
       \<exists>n. store s' = store s @ [(\<lparr>sp_id = str_int n, sp_name = Some name\<rparr>, body)]
         \<and> Some n \<notin> (\<lambda>(x, _). py_int (sp_id x)) ` set (store s)"
  using assms unfolding documented_def by blast+

lemma add_script_one:
  assumes sv: "documented sv store" and inv: "numbered (store s)" "length (named_entries name (store s)) \<le> 1"
    and run: "add_script sv body name s = (Inr sid, s')"
  shows "numbered (store s') \<and> other_entries name (store s') = other_entries name (store s)
    \<and> named_entries name (store s') = [(\<lparr>sp_id = sid, sp_name = Some name\<rparr>, body)]"
proof -
  obtain r1 s1 where l1: "sv_scripts sv s = (r1, s1)" by fastforce
  obtain xs where r1: "r1 = Inr xs" using run by (cases r1) (simp_all add: add_script_def l1)
  have s1: "store s1 = store s" "xs = map fst (store s)" using documentedD [OF sv] l1 r1 by blast+
  show ?thesis
  proof (cases "named name xs")
    case (Some x)
    obtain b where b: "(x, b) \<in> set (store s)" "sp_name x = Some name" "named_entries name (store s) = [(x, b)]"
      using named_Some Some inv(2) unfolding s1(2) by blast
    obtain i where i: "py_int (sp_id x) = Some i" using inv(1) b(1) by (auto simp: numbered_def)
    obtain r2 s2 where u: "sv_update sv i body s1 = (r2, s2)" by fastforce
    have r2: "r2 = Inr ()" and out: "sid = sp_id x" "s' = s2"
      using run by (cases r2, simp_all add: add_script_def l1 r1 Some by_number_def i u)+
    have st: "store s' = bodies i body (store s)"
      using documentedD(3) [OF sv u [unfolded r2]] by (simp add: out s1(1))
    have "x = \<lparr>sp_id = sid, sp_name = Some name\<rparr>" using out(1) b(2) by (cases x) simp
    then show ?thesis
      unfolding st named_bodies b(3) using inv(1) other_bodies [OF inv(1) b(1,2) i] i
      by simp (simp add: bodies_def)
  next
    case None
    obtain r2 s2 where a: "sv_add sv body name s1 = (r2, s2)" by fastforce
    have r2: "r2 = Inr ()" using run by (cases r2) (simp_all add: add_script_def l1 r1 None a)
    obtain n where st: "store s2 = store s @ [(\<lparr>sp_id = str_int n, sp_name = Some name\<rparr>, body)]"
      and new: "Some n \<notin> (\<lambda>(x, _). py_int (sp_id x)) ` set (store s)"
      using documentedD(4) [OF sv a [unfolded r2]] unfolding s1(1) by blast
    obtain r3 s3 where l3: "sv_scripts sv s2 = (r3, s3)" by fastforce
    obtain ys where r3: "r3 = Inr ys" using run by (cases r3) (simp_all add: add_script_def l1 r1 None a r2 l3)
    have s3: "store s3 = store s2" "ys = map fst (store s2)" using documentedD [OF sv] l3 r3 by blast+
    have none: "named_entries name (store s) = []" using None s1(2) named_None by blast
    have "named name ys = Some \<lparr>sp_id = str_int n, sp_name = Some name\<rparr>"
      using None unfolding s3(2) st s1(2) by (simp add: named_def find_append)
    then have out: "sid = str_int n" "s' = s3" using run by (simp_all add: add_script_def l1 r1 None a r2 l3 r3)
    show ?thesis
      unfolding out s3(1) st using inv(1) none new
      by (auto simp: numbered_def named_entries_def other_entries_def py_int_str_int)
  qed
qed

text \<open>A series of provisions that each upload a script under a name.\<close>

fun upload_all :: "'s jl_service \<Rightarrow> (string \<times> string) list \<Rightarrow> 's \<Rightarrow> (gpu_exc, string list) result \<times> 's" where
  "upload_all sv [] s = (Inr [], s)"
| "upload_all sv ((body, name) # ups) s =
     (case add_script sv body name s of
        (Inl e, s1) \<Rightarrow> (Inl e, s1)
      | (Inr sid, s1) \<Rightarrow>
          (case upload_all sv ups s1 of
             (Inl e, s2) \<Rightarrow> (Inl e, s2)
           | (Inr sids, s2) \<Rightarrow> (Inr (sid # sids), s2)))"

definition one_per_name :: "entry list \<Rightarrow> bool" where
  "one_per_name es \<longleftrightarrow> numbered es \<and> (\<forall>name. length (named_entries name es) \<le> 1)"

lemma named_other: "name' \<noteq> name \<Longrightarrow> named_entries name' (other_entries name es) = named_entries name' es"
  by (induction es) (auto simp: named_entries_def other_entries_def)

lemma add_script_kept:
  assumes "documented sv store" "one_per_name (store s)" "add_script sv body name s = (Inr sid, s')"
  shows "one_per_name (store s')" "named_entries name (store s') = [(\<lparr>sp_id = sid, sp_name = Some name\<rparr>, body)]"
    "name' \<noteq> name \<Longrightarrow> named_entries name' (store s') = named_entries name' (store s)"
proof -
  have one: "numbered (store s')" "other_entries name (store s') = other_entries name (store s)"
    "named_entries name (store s') = [(\<lparr>sp_id = sid, sp_name = Some name\<rparr>, body)]"
    using add_script_one [OF assms(1) _ _ assms(3)] assms(2) by (simp_all add: one_per_name_def)
  show other: "named_entries name' (store s') = named_entries name' (store s)" if "name' \<noteq> name" for name'
    using one(2) named_other [OF that] by metis
  then show "one_per_name (store s')" using assms(2) one by (auto simp: one_per_name_def) (metis le_refl length_Cons list.size(3) One_nat_def)
  show "named_entries name (store s') = [(\<lparr>sp_id = sid, sp_name = Some name\<rparr>, body)]" by (rule one(3))
qed

lemma upload_all_kept:
  assumes "documented sv store" "one_per_name (store s)" "upload_all sv ups s = (Inr sids, s')"
  shows "one_per_name (store s')
    \<and> (\<forall>name. named_entries name (store s') =
         (case find (\<lambda>(u, sid). snd u = name) (rev (zip ups sids)) of
            None \<Rightarrow> named_entries name (store s)
          | Some (u, sid) \<Rightarrow> [(\<lparr>sp_id = sid, sp_name = Some name\<rparr>, fst u)]))"
  using assms(2,3)
proof (induction ups arbitrary: s sids)
  case (Cons up ups)
  obtain body name where up: "up = (body, name)" by fastforce
  obtain r1 s1 where a: "add_script sv body name s = (r1, s1)" by fastforce
  obtain sid where r1: "r1 = Inr sid" using Cons.prems(2) by (cases r1) (simp_all add: up a)
  obtain r2 s2 where u: "upload_all sv ups s1 = (r2, s2)" by fastforce
  obtain sids' where r2: "r2 = Inr sids'" and out: "sids = sid # sids'" "s' = s2"
    using Cons.prems(2) by (cases r2) (simp_all add: up a r1 u)
  note kept = add_script_kept [OF assms(1) Cons.prems(1) a [unfolded r1]]
  have IH: "one_per_name (store s') \<and> (\<forall>name. named_entries name (store s') =
         (case find (\<lambda>(u, sid). snd u = name) (rev (zip ups sids')) of
            None \<Rightarrow> named_entries name (store s1)
          | Some (u, sid) \<Rightarrow> [(\<lparr>sp_id = sid, sp_name = Some name\<rparr>, fst u)]))"
    by (rule Cons.IH [OF kept(1)]) (simp add: u r2 out)
  then show ?case using kept(2,3) by (auto simp: up out find_append split: option.splits)
qed simp


text \<open>A service that numbers its scripts by a counter.\<close>

definition demo_service :: "(int \<times> entry list) jl_service" where
  "demo_service = \<lparr>sv_get = (\<lambda>i s. (Inr [], s)), sv_resume = (\<lambda>i s. (Inr [], s)), sv_pause = (\<lambda>i s. (Inr (), s)),
     sv_destroy = (\<lambda>i s. (Inr (), s)), sv_list = (\<lambda>s. (Inr [], s)), sv_scripts = (\<lambda>(n, es). (Inr (map fst es), n, es)),
     sv_update = (\<lambda>i body (n, es). (Inr (), n, bodies i body es)),
     sv_add = (\<lambda>body name (n, es).
       if Some n \<in> set (map (\<lambda>(x, _). py_int (sp_id x)) es) then (Inl (Failed ''APIError''), n, es)
       else (Inr (), n + 1, es @ [(\<lparr>sp_id = str_int n, sp_name = Some name\<rparr>, body)]))\<rparr>"

lemma demo_service_documented: "documented demo_service snd"
  by (auto simp: documented_def demo_service_def split: if_splits)


section \<open>Errors are normalised\<close>

text \<open>Whatever the package raises, a pause or a destroy either returns or raises an exception whose text is
  the type name only; a machine id that is no number raises before the call.\<close>

lemma pause_errors:
  assumes "pause_instance sv i s = (Inl e, s')"
  shows "(e = OtherException ''ValueError'' \<and> py_int i = None \<and> s' = s) \<or> (\<exists>f. e = wrap_failure f)"
  using assms by (auto simp: pause_instance_def by_number_def wrap_def split: option.splits prod.splits sum.splits)

lemma unnumbered_machine_id:
  "py_int i = None \<Longrightarrow> destroy_instance sv i s = (Inl (OtherException ''ValueError''), s)"
  by (simp add: destroy_instance_def by_number_def)

end
