(* ===== verification/Eval_Datasets.thy ===== *)
theory Eval_Datasets
  imports Py_Num
begin

text \<open>
  The committed evaluation datasets and their loaders (\<open>evals/atlas_evals/datasets\<close>): corpus and
  fixture references, golden tuples, adversarial cases and labelled refusal cases. A loader reads
  JSON lines, so every field is a JSON value until a check forces its type. The three loaders
  share one loop, whose contract is the locale \<open>jsonl_dataset\<close>.
\<close>

section \<open>Values\<close>

text \<open>Equality of hashable Python values: numbers and Booleans compare by value.\<close>

fun as_num :: "json \<Rightarrow> pyfloat option" where
  "as_num (JInt n) = Some (Fin (of_int n))"
| "as_num (JBool b) = Some (Fin (if b then 1 else 0))"
| "as_num (JFloat x) = Some x"
| "as_num _ = None"

definition py_eq :: "json \<Rightarrow> json \<Rightarrow> bool" where
  "py_eq a b =
     (case (as_num a, as_num b) of
        (Some x, Some y) \<Rightarrow> f_eq x y
      | (None, None) \<Rightarrow> a = b
      | _ \<Rightarrow> False)"

definition hashable :: "json \<Rightarrow> bool" where
  "hashable v = (case v of JList _ \<Rightarrow> False | JObj _ \<Rightarrow> False | _ \<Rightarrow> True)"

text \<open>\<open>list(v)\<close>; \<open>None\<close> is the \<open>TypeError\<close> of a value that is not iterable.\<close>

definition py_list :: "json \<Rightarrow> json list option" where
  "py_list v =
     (case v of
        JList xs \<Rightarrow> Some xs
      | JStr s \<Rightarrow> Some (map (\<lambda>c. JStr [c]) s)
      | JObj d \<Rightarrow> Some (map (JStr \<circ> fst) d)
      | _ \<Rightarrow> None)"

lemma py_eq_JStr [simp]: "py_eq (JStr a) (JStr b) \<longleftrightarrow> a = b"
  by (simp add: py_eq_def)

lemma py_eq_sym: "py_eq a b \<longleftrightarrow> py_eq b a"
  by (auto simp: py_eq_def f_eq_def split: option.splits)

datatype dataset_error =
    InvalidJson nat
  | AttributeError
  | TypeError
  | KeyError string
  | MissingId
  | BadField json string
  | NoExpectation json
  | DuplicateId nat json
  | UnsupportedReference string
  | FixtureNotList string
  | CaseNotFound string
  | NoCases

definition CLEARANCES :: "string list" where
  "CLEARANCES = [''public'', ''analyst'', ''compliance'', ''restricted'']"

definition known_clearance :: "json \<Rightarrow> bool" where
  "known_clearance v \<longleftrightarrow> v \<in> JStr ` set CLEARANCES"

definition need_some :: "dataset_error \<Rightarrow> 'a option \<Rightarrow> (dataset_error, 'a) result" where
  "need_some e v = (case v of None \<Rightarrow> Inl e | Some x \<Rightarrow> Inr x)"

lemma need_some_Inr [simp]: "need_some e v = Inr x \<longleftrightarrow> v = Some x"
  by (cases v) (simp_all add: need_some_def)

text \<open>\<open>d[k]\<close> on a parsed value: a \<open>TypeError\<close> unless it is an object.\<close>

definition index_obj :: "json \<Rightarrow> string \<Rightarrow> (dataset_error, json) result" where
  "index_obj v k = (case v of JObj d \<Rightarrow> need_some (KeyError k) (map_of d k) | _ \<Rightarrow> Inl TypeError)"

text \<open>\<open>not v.strip()\<close> as a check: a value without \<open>strip\<close> is an \<open>AttributeError\<close>.\<close>

definition require_text :: "json \<Rightarrow> string \<Rightarrow> json \<Rightarrow> (dataset_error, unit) result" where
  "require_text i name v =
     (case v of JStr s \<Rightarrow> guard (str_strip s \<noteq> []) (BadField i name) | _ \<Rightarrow> Inl AttributeError)"

section \<open>Corpus and fixtures\<close>

definition stem :: "string \<Rightarrow> string" where
  "stem file = (if file = ''.md'' then file else take (length file - 3) file)"

text \<open>The manifest and the directory listing of the second layer are the arguments.\<close>

definition known_doc_ids :: "json \<Rightarrow> string list \<Rightarrow> (dataset_error, json list) result" where
  "known_doc_ids manifest files =
     res_bind (index_obj manifest ''documents'') (\<lambda>docs.
     res_bind (need_some TypeError (py_list docs)) (\<lambda>ds.
     res_bind (res_map (\<lambda>d. index_obj d ''financebench_id'') ds) (\<lambda>ids.
     res_bind (guard (list_all hashable ids) TypeError) (\<lambda>_.
       Inr (ids @ map (JStr \<circ> stem) (filter (\<lambda>f. suffix ''.md'' f) files))))))"

definition negative_access_cases :: "json \<Rightarrow> (dataset_error, (json \<times> json) list) result" where
  "negative_access_cases fixture =
     res_bind (index_obj fixture ''cases'') (\<lambda>cs.
     res_bind (need_some TypeError (py_list cs)) (\<lambda>xs.
       res_map (\<lambda>c. res_bind (index_obj c ''id'') (\<lambda>i.
         res_bind (guard (hashable i) TypeError) (\<lambda>_. Inr (i, c)))) xs))"

definition resolve_fixture_list :: "json \<Rightarrow> json \<Rightarrow> (dataset_error, json list) result" where
  "resolve_fixture_list expectations ref =
     (case ref of
        JStr r \<Rightarrow>
          (let (file_part, key) = partition_at (CHR ''#'') r in
           if file_part = ''poisoned/expectations.json''
           then (case expectations of
                   JObj e \<Rightarrow> (case obj_get e key of JList xs \<Rightarrow> Inr xs | _ \<Rightarrow> Inl (FixtureNotList r))
                 | _ \<Rightarrow> Inl AttributeError)
           else Inl (UnsupportedReference r))
      | _ \<Rightarrow> Inl AttributeError)"

text \<open>The last case with an id wins, as in the dictionary comprehension.\<close>

definition resolve_negative_access :: "json \<Rightarrow> json \<Rightarrow> (dataset_error, json) result" where
  "resolve_negative_access fixture ref =
     (case ref of
        JStr r \<Rightarrow>
          (let (file_part, case_id) = partition_at (CHR ''#'') r in
           if file_part \<noteq> ''negative_access.json'' then Inl (UnsupportedReference r)
           else res_bind (negative_access_cases fixture) (\<lambda>cs.
                  need_some (CaseNotFound case_id) (map_of (rev cs) (JStr case_id))))
      | _ \<Rightarrow> Inl AttributeError)"

section \<open>The JSON lines loop\<close>

fun load_lines ::
  "(string \<Rightarrow> json option) \<Rightarrow> (json \<Rightarrow> (dataset_error, 'c) result) \<Rightarrow> ('c \<Rightarrow> json)
     \<Rightarrow> json list \<Rightarrow> nat \<Rightarrow> string list \<Rightarrow> (dataset_error, 'c list) result" where
  "load_lines loads parse ident seen lineno [] = Inr []"
| "load_lines loads parse ident seen lineno (l # ls) =
     (let line = str_strip l in
      if line = [] then load_lines loads parse ident seen (Suc lineno) ls
      else (case loads line of
              None \<Rightarrow> Inl (InvalidJson lineno)
            | Some v \<Rightarrow>
                res_bind (parse v) (\<lambda>c.
                  if \<not> hashable (ident c) then Inl TypeError
                  else if list_ex (\<lambda>x. py_eq x (ident c)) seen then Inl (DuplicateId lineno (ident c))
                  else res_bind (load_lines loads parse ident (ident c # seen) (Suc lineno) ls)
                         (\<lambda>cs. Inr (c # cs)))))"

definition load_jsonl ::
  "(string \<Rightarrow> json option) \<Rightarrow> (json \<Rightarrow> (dataset_error, 'c) result) \<Rightarrow> ('c \<Rightarrow> json) \<Rightarrow> string
     \<Rightarrow> (dataset_error, 'c list) result" where
  "load_jsonl loads parse ident content = load_lines loads parse ident [] 1 (splitlines content)"

definition entries :: "string list \<Rightarrow> string list" where
  "entries ls = filter (\<lambda>s. s \<noteq> []) (map str_strip ls)"

definition no_duplicates :: "json list \<Rightarrow> bool" where
  "no_duplicates ids \<longleftrightarrow> sorted_wrt (\<lambda>a b. \<not> py_eq a b) ids"

lemma load_lines_iff:
  "load_lines loads parse ident seen n ls = Inr cs \<longleftrightarrow>
     list_all2 (\<lambda>s c. \<exists>v. loads s = Some v \<and> parse v = Inr c) (entries ls) cs
     \<and> list_all (hashable \<circ> ident) cs \<and> no_duplicates (map ident cs)
     \<and> (\<forall>c\<in>set cs. \<forall>x\<in>set seen. \<not> py_eq x (ident c))"
proof (induction ls arbitrary: seen n cs)
  case Nil
  then show ?case by (auto simp: entries_def no_duplicates_def)
next
  case (Cons l ls)
  show ?case
  proof (cases "str_strip l = []")
    case True
    then show ?thesis using Cons.IH by (simp add: entries_def)
  next
    case False
    then have e: "entries (l # ls) = str_strip l # entries ls" by (simp add: entries_def)
    have "load_lines loads parse ident seen n (l # ls) = Inr cs \<longleftrightarrow>
      (\<exists>v c ds. loads (str_strip l) = Some v \<and> parse v = Inr c \<and> hashable (ident c)
         \<and> (\<forall>x\<in>set seen. \<not> py_eq x (ident c)) \<and> cs = c # ds
         \<and> load_lines loads parse ident (ident c # seen) (Suc n) ls = Inr ds)"
      using False by (auto simp: Let_def res_bind_Inr_iff list_ex_iff split: option.splits)
    also have "\<dots> \<longleftrightarrow> list_all2 (\<lambda>s c. \<exists>v. loads s = Some v \<and> parse v = Inr c) (entries (l # ls)) cs
     \<and> list_all (hashable \<circ> ident) cs \<and> no_duplicates (map ident cs)
     \<and> (\<forall>c\<in>set cs. \<forall>x\<in>set seen. \<not> py_eq x (ident c))"
      unfolding e list_all2_Cons1 Cons.IH by (auto simp: no_duplicates_def)
    finally show ?thesis .
  qed
qed

lemma load_jsonl_iff:
  "load_jsonl loads parse ident content = Inr cs \<longleftrightarrow>
     list_all2 (\<lambda>s c. \<exists>v. loads s = Some v \<and> parse v = Inr c) (entries (splitlines content)) cs
     \<and> list_all (hashable \<circ> ident) cs \<and> no_duplicates (map ident cs)"
  by (simp add: load_jsonl_def load_lines_iff)

text \<open>The contract of a loader: what it parses is well-formed, and parsing fixes the identifier.\<close>

locale jsonl_dataset =
  fixes parse :: "json \<Rightarrow> (dataset_error, 'c) result"
    and ident :: "'c \<Rightarrow> json"
    and wf :: "'c \<Rightarrow> bool"
  assumes parse_wf: "parse v = Inr c \<Longrightarrow> wf c"
    and parse_ident: "parse v = Inr c \<Longrightarrow> json_truthy (ident c)"
begin

lemma load_wf:
  assumes "load_jsonl loads parse ident content = Inr cs"
  shows "list_all wf cs \<and> list_all (\<lambda>c. json_truthy (ident c)) cs \<and> no_duplicates (map ident cs)
    \<and> length cs = length (entries (splitlines content))"
proof -
  have a: "list_all2 (\<lambda>s c. \<exists>v. loads s = Some v \<and> parse v = Inr c) (entries (splitlines content)) cs"
    and "no_duplicates (map ident cs)"
    using assms by (simp_all add: load_jsonl_iff)
  moreover have "list_all wf cs \<and> list_all (\<lambda>c. json_truthy (ident c)) cs"
    using a by (induction rule: list_all2_induct) (auto dest: parse_wf parse_ident)
  ultimately show ?thesis by (auto dest: list_all2_lengthD)
qed

lemma load_prefix:
  assumes "load_jsonl loads parse ident content = Inr cs"
    and "entries (splitlines content) = entries (splitlines content') @ rest"
  shows "\<exists>ds. load_jsonl loads parse ident content' = Inr ds \<and> prefix ds cs"
proof -
  from assms obtain ds es where "cs = ds @ es"
    "list_all2 (\<lambda>s c. \<exists>v. loads s = Some v \<and> parse v = Inr c) (entries (splitlines content')) ds"
    by (auto simp: load_jsonl_iff list_all2_append1)
  with assms(1) show ?thesis
    by (auto simp: load_jsonl_iff no_duplicates_def sorted_wrt_append intro!: exI [of _ ds])
qed

end

section \<open>Golden tuples\<close>

record golden_tuple =
  gt_id :: json
  gt_layer :: json
  gt_clearance :: json
  gt_question :: json
  gt_ground_truth :: json
  gt_expected_docs :: "json list"
  gt_source :: json

fun check_docs :: "json \<Rightarrow> json list \<Rightarrow> json list \<Rightarrow> (dataset_error, unit) result" where
  "check_docs i known [] = Inr ()"
| "check_docs i known (d # ds) =
     (if \<not> hashable d then Inl TypeError
      else if list_ex (py_eq d) known then check_docs i known ds
      else Inl (BadField i ''expected_source_docs''))"

definition validate_golden :: "(dataset_error, json list) result \<Rightarrow> golden_tuple \<Rightarrow> (dataset_error, unit) result" where
  "validate_golden known t =
     (let i = gt_id t in
      res_bind (guard (json_truthy i) MissingId) (\<lambda>_.
      res_bind (guard (py_eq (gt_layer t) (JInt 1) \<or> py_eq (gt_layer t) (JInt 2)) (BadField i ''layer'')) (\<lambda>_.
      res_bind (guard (known_clearance (gt_clearance t)) (BadField i ''clearance'')) (\<lambda>_.
      res_bind (require_text i ''question'' (gt_question t)) (\<lambda>_.
      res_bind (require_text i ''ground_truth'' (gt_ground_truth t)) (\<lambda>_.
      res_bind (guard (gt_expected_docs t \<noteq> []) (BadField i ''expected_source_docs'')) (\<lambda>_.
      res_bind known (\<lambda>k. check_docs i k (gt_expected_docs t)))))))))"

definition parse_golden :: "(dataset_error, json list) result \<Rightarrow> json \<Rightarrow> (dataset_error, golden_tuple) result" where
  "parse_golden known v =
     (case v of
        JObj obj \<Rightarrow>
          res_bind (need_some TypeError (py_list (obj_get_or obj ''expected_source_docs'' (JList [])))) (\<lambda>docs.
            (let t = \<lparr>gt_id = obj_get_or obj ''id'' (JStr []), gt_layer = obj_get_or obj ''layer'' (JInt 0),
                      gt_clearance = obj_get_or obj ''clearance'' (JStr []),
                      gt_question = obj_get_or obj ''question'' (JStr []),
                      gt_ground_truth = obj_get_or obj ''ground_truth'' (JStr []),
                      gt_expected_docs = docs, gt_source = obj_get_or obj ''source'' (JStr [])\<rparr>
             in res_bind (validate_golden known t) (\<lambda>_. Inr t)))
      | _ \<Rightarrow> Inl AttributeError)"

definition load_golden :: "(string \<Rightarrow> json option) \<Rightarrow> (dataset_error, json list) result \<Rightarrow> string
    \<Rightarrow> (dataset_error, golden_tuple list) result" where
  "load_golden loads known content = load_jsonl loads (parse_golden known) gt_id content"

definition golden_wf :: "json list \<Rightarrow> golden_tuple \<Rightarrow> bool" where
  "golden_wf known t \<longleftrightarrow>
     (py_eq (gt_layer t) (JInt 1) \<or> py_eq (gt_layer t) (JInt 2)) \<and> known_clearance (gt_clearance t)
     \<and> (\<exists>q. gt_question t = JStr q \<and> str_strip q \<noteq> []) \<and> (\<exists>g. gt_ground_truth t = JStr g \<and> str_strip g \<noteq> [])
     \<and> gt_expected_docs t \<noteq> [] \<and> (\<forall>d\<in>set (gt_expected_docs t). \<exists>k\<in>set known. py_eq d k)"

lemma require_text_ok: "require_text i n v = Inr u \<longleftrightarrow> (\<exists>s. v = JStr s \<and> str_strip s \<noteq> [])"
  by (cases v) (simp_all add: require_text_def)

lemma check_docs_ok: "check_docs i known ds = Inr u \<longleftrightarrow> (\<forall>d\<in>set ds. hashable d \<and> (\<exists>k\<in>set known. py_eq d k))"
  by (induction i known ds rule: check_docs.induct) (auto simp: list_ex_iff)

lemma validate_golden_ok:
  "validate_golden (Inr known) t = Inr u \<Longrightarrow> golden_wf known t \<and> json_truthy (gt_id t)"
  by (auto simp: validate_golden_def Let_def res_bind_Inr_iff golden_wf_def require_text_ok check_docs_ok)

interpretation golden: jsonl_dataset "parse_golden (Inr known)" gt_id "golden_wf known"
  for known
  by unfold_locales
    (auto simp: parse_golden_def Let_def res_bind_Inr_iff dest!: validate_golden_ok split: json.splits)

section \<open>Adversarial cases\<close>

record loaded_case =
  lc_id :: json
  lc_cls :: json
  lc_clearance :: json
  lc_query :: json
  lc_must_not_cite_above :: json
  lc_must_not_contain :: "json list"
  lc_forbidden_doc_ids :: "json list"
  lc_forbidden_clearances :: "json list"

definition CLASSES :: "string list" where
  "CLASSES = [''injection'', ''jailbreak'', ''access-bypass'', ''system-prompt-leak'']"

definition validate_case :: "loaded_case \<Rightarrow> (dataset_error, unit) result" where
  "validate_case c =
     (let i = lc_id c in
      res_bind (guard (json_truthy i) MissingId) (\<lambda>_.
      res_bind (guard (lc_cls c \<in> JStr ` set CLASSES) (BadField i ''class'')) (\<lambda>_.
      res_bind (guard (known_clearance (lc_clearance c)) (BadField i ''clearance'')) (\<lambda>_.
      res_bind (guard (known_clearance (lc_must_not_cite_above c)) (BadField i ''must_not_cite_above'')) (\<lambda>_.
      res_bind (require_text i ''query'' (lc_query c)) (\<lambda>_.
        guard (lc_must_not_contain c \<noteq> [] \<or> lc_forbidden_doc_ids c \<noteq> []) (NoExpectation i)))))))"

definition resolve_needles :: "json \<Rightarrow> (string \<times> json) list \<Rightarrow> (dataset_error, json list) result" where
  "resolve_needles expectations obj =
     (let ref = obj_get obj ''must_not_contain_ref''
      in if json_truthy ref then resolve_fixture_list expectations ref else Inr [])"

definition resolve_forbidden :: "json \<Rightarrow> (string \<times> json) list \<Rightarrow> (dataset_error, json list \<times> json list) result" where
  "resolve_forbidden access obj =
     (let ref = obj_get obj ''negative_access_ref''
      in if \<not> json_truthy ref then Inr ([], [])
         else res_bind (resolve_negative_access access ref) (\<lambda>na.
                (case na of
                   JObj d \<Rightarrow>
                     res_bind (need_some TypeError (py_list (obj_get_or d ''forbiddenDocIds'' (JList [])))) (\<lambda>docs.
                     res_bind (need_some TypeError (py_list (obj_get_or d ''forbiddenClearances'' (JList [])))) (\<lambda>cls.
                       Inr (docs, cls)))
                 | _ \<Rightarrow> Inl AttributeError)))"

definition parse_case :: "json \<Rightarrow> json \<Rightarrow> json \<Rightarrow> (dataset_error, loaded_case) result" where
  "parse_case expectations access v =
     (case v of
        JObj obj \<Rightarrow>
          res_bind (resolve_needles expectations obj) (\<lambda>needles.
          res_bind (resolve_forbidden access obj) (\<lambda>(docs, clearances).
            (let c = \<lparr>lc_id = obj_get_or obj ''id'' (JStr []), lc_cls = obj_get_or obj ''class'' (JStr []),
                      lc_clearance = obj_get_or obj ''clearance'' (JStr []),
                      lc_query = obj_get_or obj ''query'' (JStr []),
                      lc_must_not_cite_above = obj_get_or obj ''must_not_cite_above'' (JStr []),
                      lc_must_not_contain = needles, lc_forbidden_doc_ids = docs,
                      lc_forbidden_clearances = clearances\<rparr>
             in res_bind (validate_case c) (\<lambda>_. Inr c))))
      | _ \<Rightarrow> Inl AttributeError)"

definition load_adversarial :: "(string \<Rightarrow> json option) \<Rightarrow> json \<Rightarrow> json \<Rightarrow> string
    \<Rightarrow> (dataset_error, loaded_case list) result" where
  "load_adversarial loads expectations access content = load_jsonl loads (parse_case expectations access) lc_id content"

definition case_wf :: "loaded_case \<Rightarrow> bool" where
  "case_wf c \<longleftrightarrow>
     lc_cls c \<in> JStr ` set CLASSES \<and> known_clearance (lc_clearance c) \<and> known_clearance (lc_must_not_cite_above c)
     \<and> (\<exists>q. lc_query c = JStr q \<and> str_strip q \<noteq> []) \<and> (lc_must_not_contain c \<noteq> [] \<or> lc_forbidden_doc_ids c \<noteq> [])"

lemma validate_case_ok: "validate_case c = Inr u \<Longrightarrow> case_wf c \<and> json_truthy (lc_id c)"
  by (auto simp: validate_case_def Let_def res_bind_Inr_iff case_wf_def require_text_ok)

interpretation adversarial: jsonl_dataset "parse_case expectations access" lc_id case_wf
  for expectations access
  by unfold_locales
    (auto simp: parse_case_def Let_def res_bind_Inr_iff dest!: validate_case_ok split: json.splits)

section \<open>Refusal cases\<close>

record refusal_case =
  rf_id :: json
  rf_question :: json
  rf_should_refuse :: bool
  rf_clearance :: json
  rf_reason :: json

definition refusal_from_dict :: "json \<Rightarrow> (dataset_error, refusal_case) result" where
  "refusal_from_dict raw =
     res_bind (index_obj raw ''id'') (\<lambda>i.
     res_bind (index_obj raw ''question'') (\<lambda>q.
     res_bind (index_obj raw ''should_refuse'') (\<lambda>sr.
       (case raw of
          JObj d \<Rightarrow> Inr \<lparr>rf_id = i, rf_question = q, rf_should_refuse = json_truthy sr,
                      rf_clearance = obj_get d ''clearance'', rf_reason = obj_get d ''reason''\<rparr>
        | _ \<Rightarrow> Inl TypeError))))"

text \<open>The check that the label is a Boolean always passes, because the constructor converted it.\<close>

definition validate_refusal_case :: "refusal_case \<Rightarrow> (dataset_error, unit) result" where
  "validate_refusal_case c =
     res_bind (guard (json_truthy (rf_id c)) MissingId) (\<lambda>_.
     res_bind (require_text (rf_id c) ''question'' (rf_question c)) (\<lambda>_.
       guard (rf_clearance c = JNull \<or> known_clearance (rf_clearance c)) (BadField (rf_id c) ''clearance'')))"

definition parse_refusal :: "json \<Rightarrow> (dataset_error, refusal_case) result" where
  "parse_refusal v = res_bind (refusal_from_dict v) (\<lambda>c. res_bind (validate_refusal_case c) (\<lambda>_. Inr c))"

definition load_refusal :: "(string \<Rightarrow> json option) \<Rightarrow> string \<Rightarrow> (dataset_error, refusal_case list) result" where
  "load_refusal loads content =
     res_bind (load_jsonl loads parse_refusal rf_id content) (\<lambda>cs.
       if cs = [] then Inl NoCases else Inr cs)"

definition refusal_wf :: "refusal_case \<Rightarrow> bool" where
  "refusal_wf c \<longleftrightarrow>
     (\<exists>q. rf_question c = JStr q \<and> str_strip q \<noteq> []) \<and> (rf_clearance c = JNull \<or> known_clearance (rf_clearance c))"

lemma validate_refusal_case_ok: "validate_refusal_case c = Inr u \<Longrightarrow> refusal_wf c \<and> json_truthy (rf_id c)"
  by (auto simp: validate_refusal_case_def res_bind_Inr_iff refusal_wf_def require_text_ok)

interpretation refusal: jsonl_dataset parse_refusal rf_id refusal_wf
  by unfold_locales (auto simp: parse_refusal_def res_bind_Inr_iff dest!: validate_refusal_case_ok)

section \<open>What a loaded dataset guarantees\<close>

text \<open>
  A golden dataset that loads is well-formed as a whole: one tuple per non-blank line, ids
  present and pairwise different, every layer, clearance and text valid, and every expected
  source document is a document of the corpus.
\<close>

theorem golden_dataset_valid:
  assumes "load_golden loads (Inr known) content = Inr ts"
  shows "length ts = length (entries (splitlines content)) \<and> no_duplicates (map gt_id ts)
    \<and> list_all (golden_wf known) ts \<and> list_all (\<lambda>t. json_truthy (gt_id t)) ts"
  using golden.load_wf [OF assms [unfolded load_golden_def]] by simp

text \<open>
  an adversarial dataset that loads has, for every non-blank line, a case with a distinct id,
  a known class, known clearances and at least one concrete expectation (a forbidden string or a
  forbidden document), so that no case of the zero-tolerance gate is vacuous.
\<close>

theorem adversarial_dataset_valid:
  assumes "load_adversarial loads expectations access content = Inr cs"
  shows "length cs = length (entries (splitlines content)) \<and> no_duplicates (map lc_id cs) \<and> list_all case_wf cs"
  using adversarial.load_wf [OF assms [unfolded load_adversarial_def]] by simp

definition demo_line :: json where
  "demo_line = JObj [(''id'', JStr ''a1''), (''class'', JStr ''injection''), (''clearance'', JStr ''analyst''),
     (''query'', JStr ''q''), (''must_not_cite_above'', JStr ''analyst''),
     (''must_not_contain_ref'', JStr ''poisoned/expectations.json#leaks'')]"

definition demo_fixture :: json where
  "demo_fixture = JObj [(''leaks'', JList [JStr ''PWNED''])]"

lemma adversarial_dataset_valid_witness:
  "\<exists>c. load_adversarial (\<lambda>_. Some demo_line) demo_fixture JNull ''x'' = Inr [c] \<and> case_wf c"
proof -
  have lines: "str_strip ''x'' = ''x''" "splitlines ''x'' = [''x'']" "str_strip ''q'' = ''q''"
    "partition_at (CHR ''#'') ''poisoned/expectations.json#leaks'' = (''poisoned/expectations.json'', ''leaks'')"
    by code_simp+
  then have "\<exists>c. load_adversarial (\<lambda>_. Some demo_line) demo_fixture JNull ''x'' = Inr [c]"
    by (simp add: load_adversarial_def load_jsonl_def parse_case_def demo_line_def resolve_needles_def
        resolve_fixture_list_def demo_fixture_def resolve_forbidden_def obj_get_def obj_get_or_def
        validate_case_def require_text_def CLASSES_def known_clearance_def CLEARANCES_def hashable_def)
  then obtain c where c: "load_adversarial (\<lambda>_. Some demo_line) demo_fixture JNull ''x'' = Inr [c]" by blast
  from adversarial_dataset_valid [OF this] c show ?thesis by auto
qed

text \<open>
  the type check of refusal labels never fires. Any label, such as the text
  \<open>"false"\<close>, is converted to a Boolean before it is checked: the case loads, and a non-empty text
  means that the model should refuse.
\<close>

theorem refusal_label_coerced:
  assumes "d = [(''id'', JStr i), (''question'', JStr q), (''should_refuse'', v)]" "i \<noteq> []" "str_strip q \<noteq> []"
  shows "load_refusal (\<lambda>s. if s = ''x'' then Some (JObj d) else None) ''x'' =
    Inr [\<lparr>rf_id = JStr i, rf_question = JStr q, rf_should_refuse = json_truthy v, rf_clearance = JNull, rf_reason = JNull\<rparr>]"
proof -
  have "str_strip ''x'' = ''x''" "splitlines ''x'' = [''x'']" by code_simp+
  then show ?thesis
    using assms by (simp add: load_refusal_def load_jsonl_def parse_refusal_def refusal_from_dict_def
        index_obj_def need_some_def validate_refusal_case_def require_text_def obj_get_def hashable_def)
qed

lemma refusal_label_coerced_witness:
  "load_refusal (\<lambda>s. if s = ''x'' then Some (JObj [(''id'', JStr ''r1''), (''question'', JStr ''q''), (''should_refuse'', JStr ''false'')]) else None) ''x''
   = Inr [\<lparr>rf_id = JStr ''r1'', rf_question = JStr ''q'', rf_should_refuse = True, rf_clearance = JNull, rf_reason = JNull\<rparr>]"
proof -
  have "str_strip ''q'' \<noteq> []" by code_simp
  from refusal_label_coerced [OF refl _ this, of "''r1''" "JStr ''false''"] show ?thesis by simp
qed

end
