(* ===== verification/Eval_Cassettes.thy ===== *)
theory Eval_Cassettes
  imports Eval_Datasets
begin

text \<open>
  Record and replay of live responses (\<open>evals/atlas_evals/cassettes.py\<close>) and the clients that use
  it (\<open>client.py\<close>, \<open>gateway_client.py\<close>). A directory of cassettes is a dictionary from keys to
  file contents, parsed; \<open>None\<close> is a file that is not JSON. The hash of the canonical key parts,
  the transport and the live service are parameters; a session numbers its live calls.
\<close>

section \<open>Store\<close>

datatype cassette_mode = OFF | RECORD | REPLAY | FILL

datatype cassette_error =
    CassetteMiss string
  | CorruptCassette string
  | NoResponseField string
  | BadMode string
  | LiveError string
  | NoDevUser string
  | NoToken

definition mode_from_value :: "string option \<Rightarrow> (cassette_error, cassette_mode) result" where
  "mode_from_value v =
     (case v of
        None \<Rightarrow> Inr REPLAY
      | Some s \<Rightarrow>
          (if s = [] then Inr REPLAY
           else if s = ''off'' then Inr OFF
           else if s = ''record'' then Inr RECORD
           else if s = ''replay'' then Inr REPLAY
           else if s = ''fill'' then Inr FILL
           else Inl (BadMode s)))"

type_synonym cassettes = "(string, json option) dict"

definition has_cassette :: "cassettes \<Rightarrow> string \<Rightarrow> bool" where
  "has_cassette store key = (dict_get store key \<noteq> None)"

definition cassette_get :: "cassettes \<Rightarrow> string \<Rightarrow> (cassette_error, json) result" where
  "cassette_get store key =
     (case dict_get store key of
        None \<Rightarrow> Inl (CassetteMiss key)
      | Some None \<Rightarrow> Inl (CorruptCassette key)
      | Some (Some (JObj d)) \<Rightarrow>
          (case map_of d ''response'' of None \<Rightarrow> Inl (NoResponseField key) | Some r \<Rightarrow> Inr r)
      | Some (Some _) \<Rightarrow> Inl (NoResponseField key))"

definition cassette_put :: "string \<Rightarrow> json \<Rightarrow> json \<Rightarrow> cassettes \<Rightarrow> cassettes" where
  "cassette_put key response meta store =
     dict_set key (Some (JObj [(''meta'', if json_truthy meta then meta else JObj []), (''response'', response)])) store"

text \<open>\<open>produce\<close> is what the live call would return; the flag tells whether it was made.\<close>

definition record_or_replay ::
  "cassette_mode \<Rightarrow> string \<Rightarrow> (cassette_error, json) result \<Rightarrow> json \<Rightarrow> cassettes
     \<Rightarrow> (cassette_error, json) result \<times> cassettes \<times> bool" where
  "record_or_replay mode key produce meta store =
     (if mode = REPLAY then (cassette_get store key, store, False)
      else if mode = OFF then (produce, store, True)
      else if mode = FILL \<and> has_cassette store key then (cassette_get store key, store, False)
      else (case produce of
              Inl e \<Rightarrow> (Inl e, store, True)
            | Inr response \<Rightarrow> (Inr response, cassette_put key response meta store, True)))"

section \<open>Requests\<close>

record query_request =
  qr_question :: string
  qr_clearance :: string
  qr_user :: "string option"
  qr_top_k :: "int option"
  qr_include_contexts :: bool

record http_request =
  hr_url :: string
  hr_headers :: "(string, string) dict"
  hr_bearer :: "json option"
  hr_body :: json

definition query_payload :: "query_request \<Rightarrow> json" where
  "query_payload q =
     JObj ([(''query'', JStr (qr_question q)), (''includeContexts'', JBool (qr_include_contexts q))]
           @ (case qr_top_k q of None \<Rightarrow> [] | Some k \<Rightarrow> [(''topK'', JInt k)]))"

definition endpoint_url :: "string \<Rightarrow> string \<Rightarrow> string" where
  "endpoint_url base_url path = rstrip_chars (\<lambda>c. c = CHR ''/'') base_url @ path"

text \<open>The direct client: the clearance header, and the user header when there is a user.\<close>

definition rag_request :: "string \<Rightarrow> query_request \<Rightarrow> http_request" where
  "rag_request base_url q =
     \<lparr>hr_url = endpoint_url base_url ''/v1/query'',
      hr_headers = [(''Content-Type'', ''application/json''), (''X-Atlas-Clearance'', qr_clearance q)]
        @ (case qr_user q of Some u \<Rightarrow> (if u = [] then [] else [(''X-Atlas-User'', u)]) | None \<Rightarrow> []),
      hr_bearer = None, hr_body = query_payload q\<rparr>"

section \<open>Gateway client\<close>

definition USER_BY_CLEARANCE :: "(string, string) dict" where
  "USER_BY_CLEARANCE = [(''public'', ''guest-public''), (''analyst'', ''analyst-bob''),
     (''compliance'', ''priya''), (''restricted'', ''bsa-admin'')]"

text \<open>The client keeps its tokens; the requests sent are recorded, latest last.\<close>

record gateway_state =
  gs_tokens :: "(string, json) dict"
  gs_sent :: "http_request list"

type_synonym transport = "http_request list \<Rightarrow> http_request \<Rightarrow> (cassette_error, json) result"

definition send :: "transport \<Rightarrow> http_request \<Rightarrow> gateway_state \<Rightarrow> (cassette_error, json) result \<times> gateway_state" where
  "send transport r s = (transport (gs_sent s) r, s\<lparr>gs_sent := gs_sent s @ [r]\<rparr>)"

definition token_request :: "string \<Rightarrow> string \<Rightarrow> http_request" where
  "token_request base_url user =
     \<lparr>hr_url = endpoint_url base_url ''/v1/auth/token'', hr_headers = [(''Content-Type'', ''application/json'')],
      hr_bearer = None, hr_body = JObj [(''user'', JStr user)]\<rparr>"

definition gateway_token :: "transport \<Rightarrow> string \<Rightarrow> string \<Rightarrow> gateway_state
    \<Rightarrow> (cassette_error, json) result \<times> gateway_state" where
  "gateway_token transport base_url clearance s =
     (case dict_get (gs_tokens s) clearance of
        Some t \<Rightarrow> (Inr t, s)
      | None \<Rightarrow>
          (case dict_get USER_BY_CLEARANCE clearance of
             None \<Rightarrow> (Inl (NoDevUser clearance), s)
           | Some user \<Rightarrow>
               (case send transport (token_request base_url user) s of
                  (Inl e, s') \<Rightarrow> (Inl e, s')
                | (Inr (JObj d), s') \<Rightarrow>
                    (case map_of d ''token'' of
                       None \<Rightarrow> (Inl NoToken, s')
                     | Some t \<Rightarrow> (Inr t, s'\<lparr>gs_tokens := dict_set clearance t (gs_tokens s')\<rparr>))
                | (Inr _, s') \<Rightarrow> (Inl NoToken, s'))))"

definition gateway_query :: "transport \<Rightarrow> string \<Rightarrow> query_request \<Rightarrow> gateway_state
    \<Rightarrow> (cassette_error, json) result \<times> gateway_state" where
  "gateway_query transport base_url q s =
     (case gateway_token transport base_url (qr_clearance q) s of
        (Inl e, s') \<Rightarrow> (Inl e, s')
      | (Inr t, s') \<Rightarrow>
          send transport \<lparr>hr_url = endpoint_url base_url ''/v1/query'',
            hr_headers = [(''Content-Type'', ''application/json'')], hr_bearer = Some t,
            hr_body = query_payload q\<rparr> s')"

section \<open>Cassetting client\<close>

definition query_key :: "(json list \<Rightarrow> string) \<Rightarrow> string \<Rightarrow> query_request \<Rightarrow> string" where
  "query_key key_of fingerprint q =
     key_of [JStr ''v1/query'', JStr fingerprint, JStr (qr_question q), JStr (qr_clearance q),
             (case qr_top_k q of None \<Rightarrow> JNull | Some k \<Rightarrow> JInt k), JBool (qr_include_contexts q)]"

text \<open>\<open>live n q\<close> is the answer of the service to the \<open>n\<close>-th live call of the session.\<close>

definition cassetting_query ::
  "cassette_mode \<Rightarrow> (json list \<Rightarrow> string) \<Rightarrow> string \<Rightarrow> (nat \<Rightarrow> query_request \<Rightarrow> (cassette_error, json) result)
     \<Rightarrow> query_request \<Rightarrow> cassettes \<times> nat \<Rightarrow> (cassette_error, json) result \<times> cassettes \<times> nat" where
  "cassetting_query mode key_of fingerprint live q = (\<lambda>(store, n).
     (let (r, store', called) =
        record_or_replay mode (query_key key_of fingerprint q) (live n q)
          (JObj [(''question'', JStr (qr_question q)), (''clearance'', JStr (qr_clearance q))]) store
      in (r, store', if called then Suc n else n)))"

text \<open>A session asks a list of questions and stops at the first error.\<close>

fun run_queries ::
  "cassette_mode \<Rightarrow> (json list \<Rightarrow> string) \<Rightarrow> string \<Rightarrow> (nat \<Rightarrow> query_request \<Rightarrow> (cassette_error, json) result)
     \<Rightarrow> query_request list \<Rightarrow> cassettes \<times> nat \<Rightarrow> (cassette_error, json list) result \<times> cassettes \<times> nat" where
  "run_queries mode key_of fp live [] s = (Inr [], s)"
| "run_queries mode key_of fp live (q # qs) s =
     (case cassetting_query mode key_of fp live q s of
        (Inl e, s') \<Rightarrow> (Inl e, s')
      | (Inr v, s') \<Rightarrow>
          (case run_queries mode key_of fp live qs s' of
             (Inl e, s'') \<Rightarrow> (Inl e, s'')
           | (Inr vs, s'') \<Rightarrow> (Inr (v # vs), s'')))"

section \<open>A store as a cache\<close>

text \<open>What the sessions rely on: a written cassette reads back, and other keys are untouched.\<close>

locale record_store =
  fixes fetch :: "'s \<Rightarrow> 'k \<Rightarrow> ('e, 'v) result"
    and put :: "'k \<Rightarrow> 'v \<Rightarrow> 's \<Rightarrow> 's"
    and present :: "'s \<Rightarrow> 'k \<Rightarrow> bool"
  assumes fetch_put: "fetch (put k v s) k = Inr v"
    and fetch_put_other: "k' \<noteq> k \<Longrightarrow> fetch (put k v s) k' = fetch s k'"
    and present_put: "present (put k v s) k' \<longleftrightarrow> k' = k \<or> present s k'"
    and fetch_present: "fetch s k = Inr v \<Longrightarrow> present s k"
begin

definition keeps :: "'s \<Rightarrow> 's \<Rightarrow> bool" where
  "keeps s s' \<longleftrightarrow> (\<forall>k. present s k \<longrightarrow> present s' k \<and> fetch s' k = fetch s k)"

lemma keeps_refl: "keeps s s"
  by (simp add: keeps_def)

lemma keeps_trans: "keeps s t \<Longrightarrow> keeps t u \<Longrightarrow> keeps s u"
  by (simp add: keeps_def)

lemma keeps_put: "\<not> present s k \<Longrightarrow> keeps s (put k v s)"
  by (metis fetch_put_other keeps_def present_put)

lemma keeps_fetch: "keeps s t \<Longrightarrow> fetch s k = Inr v \<Longrightarrow> fetch t k = Inr v"
  using fetch_present by (simp add: keeps_def)

end

lemma cassette_get_put:
  "cassette_get (cassette_put k v m s) k' = (if k' = k then Inr v else cassette_get s k')"
  by (simp add: cassette_get_def cassette_put_def)

interpretation cassette: record_store cassette_get "\<lambda>k v. cassette_put k v m" has_cassette
  for m
proof
  show "cassette_get s k = Inr v \<Longrightarrow> has_cassette s k" for s k v
    by (auto simp: cassette_get_def has_cassette_def split: option.splits)
  show "has_cassette (cassette_put k v m s) k' \<longleftrightarrow> k' = k \<or> has_cassette s k'" for k v s k'
    by (auto simp: cassette_put_def has_cassette_def)
qed (simp_all add: cassette_get_put)

abbreviation keeps_cassettes :: "cassettes \<Rightarrow> cassettes \<Rightarrow> bool" where
  "keeps_cassettes \<equiv> record_store.keeps cassette_get has_cassette"

section \<open>Replay is offline\<close>

lemma replay_step:
  "cassetting_query REPLAY key_of fp live q (store, n) = (cassette_get store (query_key key_of fp q), store, n)"
  by (simp add: cassetting_query_def record_or_replay_def)

lemma replay_session:
  "run_queries REPLAY key_of fp live qs (store, n) =
     (res_map (\<lambda>q. cassette_get store (query_key key_of fp q)) qs, store, n)"
  by (induction qs) (auto simp: replay_step split: sum.splits)

section \<open>Filling\<close>

lemma fill_step:
  assumes "cassetting_query FILL key_of fp live q (store, n) = (r, store', n')"
  shows "keeps_cassettes store store'" "r = Inr v \<Longrightarrow> cassette_get store' (query_key key_of fp q) = Inr v"
    "r = Inr v \<Longrightarrow> n' + card (dom (map_of store)) = n + card (dom (map_of store'))"
    "n' \<le> Suc n"
proof -
  let ?k = "query_key key_of fp q"
  let ?m = "JObj [(''question'', JStr (qr_question q)), (''clearance'', JStr (qr_clearance q))]"
  note defs = cassetting_query_def record_or_replay_def
  show "n' \<le> Suc n" using assms by (auto simp: defs split: if_splits sum.splits)
  show "keeps_cassettes store store'"
    using assms cassette.keeps_put [of store ?k _ ?m]
    by (auto simp: defs cassette.keeps_refl split: if_splits sum.splits)
  show "r = Inr v \<Longrightarrow> cassette_get store' ?k = Inr v"
    using assms by (auto simp: defs cassette_get_put split: if_splits sum.splits)
  have new: "dom (map_of (cassette_put ?k u ?m store)) = insert ?k (dom (map_of store))" for u
    by (auto simp: cassette_put_def)
  have card: "card (dom (map_of (cassette_put ?k u ?m store))) = Suc (card (dom (map_of store)))"
    if "\<not> has_cassette store ?k" for u
    unfolding new using that by (simp add: finite_dom_map_of domIff has_cassette_def)
  show "r = Inr v \<Longrightarrow> n' + card (dom (map_of store)) = n + card (dom (map_of store'))"
    using assms card by (auto simp: defs split: if_splits sum.splits)
qed

lemma fill_session:
  assumes "run_queries FILL key_of fp live qs (store, n) = (r, store', n')"
  shows "keeps_cassettes store store'
    \<and> (\<forall>vs. r = Inr vs \<longrightarrow> res_map (\<lambda>q. cassette_get store' (query_key key_of fp q)) qs = Inr vs
         \<and> n' + card (dom (map_of store)) = n + card (dom (map_of store')))"
  using assms
proof (induction qs arbitrary: store n r store' n')
  case Nil
  then show ?case by (simp add: cassette.keeps_refl)
next
  case (Cons q qs)
  obtain r1 s1 n1 where step: "cassetting_query FILL key_of fp live q (store, n) = (r1, s1, n1)"
    by (metis surj_pair)
  note fs = fill_step [OF step]
  show ?case
  proof (cases r1)
    case (Inl e)
    then show ?thesis using Cons.prems fs(1) by (auto simp: step)
  next
    case (Inr v)
    obtain r2 s2 n2 where rest: "run_queries FILL key_of fp live qs (s1, n1) = (r2, s2, n2)"
      by (metis surj_pair)
    note IH = Cons.IH [OF rest]
    have out: "store' = s2" "n' = n2" "r = (case r2 of Inl e \<Rightarrow> Inl e | Inr vs \<Rightarrow> Inr (v # vs))"
      using Cons.prems by (auto simp: step Inr rest split: sum.splits)
    have keeps: "keeps_cassettes store s2"
      using cassette.keeps_trans [OF fs(1)] IH by blast
    have got: "cassette_get s2 (query_key key_of fp q) = Inr v"
      using cassette.keeps_fetch IH fs(2) Inr by blast
    show ?thesis
      using keeps got IH fs(3) [OF Inr] by (auto simp: out split: sum.splits)
  qed
qed

text \<open>
  record once, replay for ever. When a resumable (FILL) session answers all its questions, a
  replay of the same questions on the resulting directory gives the same answers, makes no live
  call and changes no file; the session overwrote no cassette it found, and it made exactly one
  live call for every cassette it added.
\<close>

theorem fill_then_replay:
  assumes "run_queries FILL key_of fp live qs (store, n) = (Inr vs, store', n')"
  shows "run_queries REPLAY key_of fp live' qs (store', m) = (Inr vs, store', m)
    \<and> (\<forall>k v. cassette_get store k = Inr v \<longrightarrow> cassette_get store' k = Inr v)
    \<and> n' + card (dom (map_of store)) = n + card (dom (map_of store'))"
  using fill_session [OF assms] cassette.keeps_fetch by (auto simp: replay_session)

definition demo_query :: query_request where
  "demo_query = \<lparr>qr_question = ''q'', qr_clearance = ''analyst'', qr_user = None, qr_top_k = Some 6,
     qr_include_contexts = True\<rparr>"

lemma fill_then_replay_witness:
  "\<exists>store. \<forall>live. run_queries REPLAY (\<lambda>_. ''k'') ''fp'' live [demo_query, demo_query] (store, 0)
     = (Inr [JInt 7, JInt 7], store, 0)"
proof -
  have "\<exists>store n. run_queries FILL (\<lambda>_. ''k'') ''fp'' (\<lambda>_ _. Inr (JInt 7)) [demo_query, demo_query] ([], 0)
      = (Inr [JInt 7, JInt 7], store, n)"
    by (simp add: cassetting_query_def record_or_replay_def query_key_def cassette_put_def cassette_get_def has_cassette_def)
  then show ?thesis using fill_then_replay by blast
qed

text \<open>
  The key does not contain the user: a cassette recorded for one user answers for every other.
\<close>

lemma replay_ignores_user:
  "run_queries REPLAY key_of fp live [q\<lparr>qr_user := u\<rparr>] s = run_queries REPLAY key_of fp live [q] s"
  by (cases s; cases q) (simp only: replay_session query_key_def res_map.simps query_request.simps query_request.update_convs)

section \<open>Tokens are fetched once\<close>

lemma gateway_token_cached:
  assumes "gateway_token transport base_url c s = (Inr t, s')"
  shows "dict_get (gs_tokens s') c = Some t" "gateway_token transport' base_url' c s' = (Inr t, s')"
  using assms by (auto simp: gateway_token_def split: option.splits prod.splits sum.splits json.splits)

lemma gateway_unknown_clearance:
  assumes "dict_get USER_BY_CLEARANCE c = None" "dict_get (gs_tokens s) c = None" "qr_clearance q = c"
  shows "gateway_query transport base_url q s = (Inl (NoDevUser c), s)"
  using assms by (simp add: gateway_query_def gateway_token_def)

end
