(* ===== verification/Eval_Metrics.thy ===== *)
theory Eval_Metrics
  imports Agent_Text Eval_Gate Eval_Datasets
begin

text \<open>
  The deterministic metrics of the evaluation harness: citation resolution, samples and metric
  means (\<open>metrics/citation.py\<close>, \<open>samples.py\<close>, \<open>ragas_runner.py\<close>, the aggregation of
  \<open>ragas_scorer.py\<close>), the output-format validator (\<open>metrics/format_validity.py\<close>) and the
  refusal scorer (\<open>metrics/refusal.py\<close>), and the drift sample (\<open>drift.py\<close>).
\<close>

section \<open>Means\<close>

text \<open>
  \<open>math.fsum\<close>: the exact sum, rounded once. Opposite infinities and a sum beyond the range are
  errors (\<open>None\<close>). \<open>statistics.fmean\<close> divides it by the length; it is an error on no data.
\<close>

fun fin_part :: "pyfloat \<Rightarrow> rat" where
  "fin_part (Fin q) = q"
| "fin_part _ = 0"

definition f_fsum :: "pyfloat list \<Rightarrow> pyfloat option" where
  "f_fsum xs =
     (if NaN \<in> set xs then Some NaN
      else if PInf \<in> set xs then (if NInf \<in> set xs then None else Some PInf)
      else if NInf \<in> set xs then Some NInf
      else (case fl (sum_list (map fin_part xs)) of Fin q \<Rightarrow> Some (Fin q) | _ \<Rightarrow> None))"

definition fmean :: "pyfloat list \<Rightarrow> pyfloat option" where
  "fmean xs =
     (if xs = [] then None
      else case f_fsum xs of None \<Rightarrow> None | Some s \<Rightarrow> f_div s (Fin (of_nat (length xs))))"

section \<open>Citations\<close>

definition MARKER :: gpat where
  "MARKER = (Ch (\<lambda>c. c = CHR ''[''), plus (Ch is_digit), Ch (\<lambda>c. c = CHR '']''))"

definition cited_markers :: "string \<Rightarrow> int list" where
  "cited_markers answer = nub (map digits_value (findall MARKER answer))"

definition citation_resolution_rate :: "string \<Rightarrow> nat \<Rightarrow> pyfloat" where
  "citation_resolution_rate answer num_contexts =
     (let markers = cited_markers answer in
      if markers = [] then Fin 1
      else int_div (int (count_if (\<lambda>m. 1 \<le> m \<and> m \<le> int num_contexts) markers)) (int (length markers)))"

section \<open>Samples and the runner\<close>

record eval_sample =
  es_id :: json
  es_question :: json
  es_answer :: string
  es_contexts :: "string list"
  es_ground_truth :: json

definition text_or_empty :: "string option \<Rightarrow> string" where
  "text_or_empty v = (case v of Some s \<Rightarrow> s | None \<Rightarrow> [])"

datatype metric_error = NoResponseFor json | CountMismatch nat nat | ScorerError | MeanError

definition build_sample :: "(json, rag_response) dict \<Rightarrow> golden_tuple \<Rightarrow> (metric_error, eval_sample) result" where
  "build_sample responses t =
     (case dict_get responses (gt_id t) of
        None \<Rightarrow> Inl (NoResponseFor (gt_id t))
      | Some resp \<Rightarrow>
          Inr \<lparr>es_id = gt_id t, es_question = gt_question t, es_answer = text_or_empty (rr_answer resp),
               es_contexts = map (text_or_empty \<circ> cx_text) (rr_contexts resp),
               es_ground_truth = gt_ground_truth t\<rparr>)"

definition build_samples :: "golden_tuple list \<Rightarrow> (json, rag_response) dict \<Rightarrow> (metric_error, eval_sample list) result" where
  "build_samples ts responses = res_map (build_sample responses) ts"

text \<open>Per-sample judge scores, where a metric may be absent or null, and their means.\<close>

type_synonym sample_scores = "(string, pyfloat option) dict"

definition metric_values :: "(json, sample_scores) dict \<Rightarrow> string \<Rightarrow> pyfloat list" where
  "metric_values per_sample metric =
     concat (map (\<lambda>(_, sc). case dict_get sc metric of Some (Some x) \<Rightarrow> [x] | _ \<Rightarrow> []) per_sample)"

fun metric_means :: "(json, sample_scores) dict \<Rightarrow> string list \<Rightarrow> (metric_error, (string, pyfloat) dict) result" where
  "metric_means per_sample [] = Inr []"
| "metric_means per_sample (m # ms) =
     (let vals = metric_values per_sample m in
      if vals = [] then metric_means per_sample ms
      else (case fmean vals of
              None \<Rightarrow> Inl MeanError
            | Some x \<Rightarrow> res_bind (metric_means per_sample ms) (\<lambda>ds. Inr ((m, x) # ds))))"

definition DEFAULT_METRICS :: "string list" where
  "DEFAULT_METRICS = [''faithfulness'', ''answer_relevancy'', ''context_precision'', ''context_recall'',
     ''context_entity_recall'', ''noise_sensitivity'']"

text \<open>
  \<open>judge\<close> stands for serving one sample through its cassette. The metric names are distinct.
\<close>

definition ragas_score ::
  "(eval_sample \<Rightarrow> (metric_error, sample_scores) result) \<Rightarrow> string list \<Rightarrow> eval_sample list
     \<Rightarrow> (metric_error, (string, pyfloat) dict) result" where
  "ragas_score judge metrics samples =
     res_bind (res_map (\<lambda>s. res_bind (judge s) (\<lambda>sc. Inr (es_id s, sc))) samples) (\<lambda>kvs.
       metric_means (fold (\<lambda>(k, sc). dict_set k sc) kvs []) metrics)"

record metric_report =
  mr_scores :: "(string, pyfloat) dict"
  mr_n_samples :: nat

definition run_metrics ::
  "(eval_sample list \<Rightarrow> (metric_error, (string, pyfloat) dict) result) \<Rightarrow> golden_tuple list
     \<Rightarrow> (json, rag_response) dict \<Rightarrow> (metric_error, metric_report) result" where
  "run_metrics scorer ts responses =
     res_bind (build_samples ts responses) (\<lambda>samples.
     res_bind (scorer samples) (\<lambda>scores.
       (case (if samples = [] then Some (Fin 1)
              else fmean (map (\<lambda>s. citation_resolution_rate (es_answer s) (length (es_contexts s))) samples)) of
          None \<Rightarrow> Inl MeanError
        | Some x \<Rightarrow> Inr \<lparr>mr_scores = dict_set ''citation_correctness'' x scores,
                         mr_n_samples = length samples\<rparr>)))"

section \<open>Output format\<close>

definition doc_char :: "char \<Rightarrow> bool" where
  "doc_char c \<longleftrightarrow> is_ascii_alnum c \<or> c = CHR ''_'' \<or> c = CHR ''-''"

definition DOC_MARKER :: gpat where
  "DOC_MARKER = (lit ''[doc:'', plus (Ch doc_char), Ch (\<lambda>c. c = CHR '']''))"

fun seqs :: "rx list \<Rightarrow> rx" where
  "seqs [] = Eps"
| "seqs [r] = r"
| "seqs (r # rs) = Seq r (seqs rs)"

fun alts :: "rx list \<Rightarrow> rx" where
  "alts [] = Ch (\<lambda>_. False)"
| "alts [r] = r"
| "alts (r # rs) = Alt r (alts rs)"

abbreviation spaces :: rx where
  "spaces \<equiv> plus (Ch is_space)"

definition REFUSAL_CUES :: "rx list" where
  "REFUSAL_CUES =
     [seqs [WordB,
        alts [Seq (lit_ci ''can'') (Alt (Seq (opt (Ch (\<lambda>c. ord c = 39))) (lit_ci ''t'')) (lit_ci ''not'')),
              seqs [lit_ci ''could'', spaces, lit_ci ''not''], lit_ci ''cannot'',
              seqs [lit_ci ''unable'', spaces, lit_ci ''to''],
              seqs [lit_ci ''not'', spaces, lit_ci ''able'', spaces, lit_ci ''to'']],
        spaces, lit_ci ''answer''],
      seqs [WordB, lit_ci ''does'', spaces, lit_ci ''not'', spaces, lit_ci ''contain'', WordB],
      seqs [WordB, alts [lit_ci ''no'', seqs [lit_ci ''not'', spaces, lit_ci ''enough''], lit_ci ''insufficient''],
        spaces, alts [lit_ci ''information'', lit_ci ''context'', lit_ci ''data''], WordB],
      seqs [WordB, lit_ci ''not'', spaces, alts [lit_ci ''found'', lit_ci ''present'', lit_ci ''available''],
        spaces, lit_ci ''in'', spaces, lit_ci ''the'', spaces, opt (Seq (lit_ci ''provided'') spaces),
        Alt (lit_ci ''sources'') (lit_ci ''context''), WordB]]"

definition GROUNDING_REF :: rx where
  "GROUNDING_REF =
     seqs [WordB, opt (Seq (lit_ci ''provided'') spaces),
       alts [Seq (lit_ci ''source'') (opt (lit_ci ''s'')), lit_ci ''context'', Seq (lit_ci ''document'') (opt (lit_ci ''s''))],
       WordB]"

definition cited_doc_ids :: "string \<Rightarrow> string list" where
  "cited_doc_ids output = nub (findall DOC_MARKER output)"

definition is_grounded_refusal :: "string \<Rightarrow> bool" where
  "is_grounded_refusal output =
     (let t = str_strip output in t \<noteq> [] \<and> list_ex (\<lambda>cue. search cue t) REFUSAL_CUES \<and> search GROUNDING_REF t)"

definition answer_text_without_markers :: "string \<Rightarrow> string" where
  "answer_text_without_markers output = str_strip (erase DOC_MARKER output)"

datatype format_class = Answer | Refusal | Invalid

definition classify :: "string \<Rightarrow> string list option \<Rightarrow> format_class" where
  "classify output allowed =
     (let t = str_strip output in
      if t = [] then Invalid
      else let ids = cited_doc_ids t; refusal = is_grounded_refusal t in
        if ids \<noteq> [] then
          (if refusal then Invalid
           else if (case allowed of None \<Rightarrow> False | Some al \<Rightarrow> \<not> list_all (\<lambda>i. i \<in> set al) ids) then Invalid
           else if answer_text_without_markers t = [] then Invalid
           else Answer)
        else if refusal then Refusal else Invalid)"

definition format_score :: "string \<Rightarrow> string list option \<Rightarrow> bool" where
  "format_score output allowed = (classify output allowed \<noteq> Invalid)"

section \<open>Refusals\<close>

definition did_refuse :: "string \<Rightarrow> bool" where
  "did_refuse output = is_grounded_refusal output"

definition refusal_score :: "refusal_case \<Rightarrow> string \<Rightarrow> bool" where
  "refusal_score c output = (if rf_should_refuse c then did_refuse output else \<not> did_refuse output)"

definition refusal_score_rate :: "refusal_case list \<Rightarrow> string list \<Rightarrow> (metric_error, pyfloat) result" where
  "refusal_score_rate cases outputs =
     (if length outputs \<noteq> length cases then Inl (CountMismatch (length outputs) (length cases))
      else if cases = [] then Inr (Fin 1)
      else Inr (int_div (int (count_if (\<lambda>(c, out). refusal_score c out) (zip cases outputs))) (int (length cases))))"

section \<open>Drift\<close>

definition drift_drop :: "pyfloat \<Rightarrow> pyfloat \<Rightarrow> pyfloat" where
  "drift_drop score base = f_round (f_sub base score) 6"

section \<open>Means stay in the unit interval\<close>

definition unit_score :: "pyfloat \<Rightarrow> bool" where
  "unit_score x \<longleftrightarrow> f_le (Fin 0) x \<and> f_le x (Fin 1)"

lemma unit_score_Fin: "unit_score x \<Longrightarrow> \<exists>q. x = Fin q \<and> 0 \<le> q \<and> q \<le> 1"
  by (cases x) (auto simp: unit_score_def)

lemma unit_score_int_div:
  assumes "0 \<le> a" "a \<le> b" "0 < b"
  shows "unit_score (int_div a b)"
proof -
  have "0 \<le> of_int a / (of_int b :: rat)" "of_int a / (of_int b :: rat) \<le> 1"
    using assms by simp_all
  from fl_mono [OF this(1)] fl_mono [OF this(2)] show ?thesis by (simp add: unit_score_def int_div_def)
qed

lemma unit_score_rate: "xs \<noteq> [] \<Longrightarrow> unit_score (int_div (int (count_if p xs)) (int (length xs)))"
  using count_if_le [of p xs] by (intro unit_score_int_div) auto

lemma fmean_unit:
  assumes "list_all unit_score xs" "xs \<noteq> []" "length xs < 2 ^ 53"
  shows "\<exists>x. fmean xs = Some x \<and> unit_score x"
proof -
  have no: "NaN \<notin> set xs" "PInf \<notin> set xs" "NInf \<notin> set xs"
    using assms(1) by (auto simp: list_all_iff unit_score_def)
  define n where "n = (of_nat (length xs) :: rat)"
  define s where "s = sum_list (map fin_part xs)"
  have s: "0 \<le> s \<and> s \<le> n"
    using assms(1) unfolding s_def n_def
    by (induction xs) (auto dest!: unit_score_Fin)
  have "fl n = Fin n" using fl_small_int [of "int (length xs)"] assms(3) by (simp add: n_def)
  then have le: "f_le (Fin 0) (fl s)" "f_le (fl s) (Fin n)"
    using fl_mono [of 0 s] fl_mono [of s n] s by simp_all
  then obtain q where q: "fl s = Fin q" "0 \<le> q" "q \<le> n" by (cases "fl s") simp_all
  have n: "0 < n" using assms(2) by (simp add: n_def)
  then have "0 \<le> q / n" "q / n \<le> 1" using q by simp_all
  then have "unit_score (fl (q / n))" using fl_mono [of 0 "q / n"] fl_mono [of "q / n" 1] by (simp add: unit_score_def)
  then show ?thesis using no assms(2) n q(1)
    by (simp add: fmean_def f_fsum_def f_div_def s_def [symmetric] n_def [symmetric])
qed

lemma unit_score_citation: "unit_score (citation_resolution_rate answer n)"
  using unit_score_rate by (auto simp: citation_resolution_rate_def Let_def unit_score_def)

lemma unit_score_refusal_rate: "refusal_score_rate cases outputs = Inr r \<Longrightarrow> unit_score r"
proof -
  assume r: "refusal_score_rate cases outputs = Inr r"
  then have len: "length (zip cases outputs) = length cases" by (auto simp: refusal_score_rate_def split: if_splits)
  show ?thesis
  proof (cases "cases = []")
    case True
    then show ?thesis using r by (auto simp: refusal_score_rate_def unit_score_def split: if_splits)
  next
    case False
    then have "zip cases outputs \<noteq> []" using len by (metis length_0_conv)
    from unit_score_rate [OF this] show ?thesis
      using r False unfolding len by (auto simp: refusal_score_rate_def split: if_splits)
  qed
qed

lemma length_fold_dict_set: "length (fold (\<lambda>(k, v). dict_set k v) kvs d) \<le> length d + length kvs"
proof (induction kvs arbitrary: d)
  case (Cons kv kvs)
  obtain k v where kv: "kv = (k, v)" by fastforce
  have "length (dict_set k v d) \<le> Suc (length d)" by (induction d) auto
  with Cons.IH [of "dict_set k v d"] show ?case by (simp add: kv)
qed simp

lemma set_dict_set: "set (dict_set k v d) \<subseteq> insert (k, v) (set d)"
  by (induction d) auto

lemma set_fold_dict_set: "set (fold (\<lambda>(k, v). dict_set k v) kvs d) \<subseteq> set d \<union> set kvs"
proof (induction kvs arbitrary: d)
  case (Cons kv kvs)
  obtain k v where kv: "kv = (k, v)" by fastforce
  show ?case using Cons.IH [of "dict_set k v d"] set_dict_set [of k v d] by (auto simp: kv)
qed simp

lemma metric_values_bound: "length (metric_values ps m) \<le> length ps"
  by (induction ps) (auto simp: metric_values_def split: option.splits)

lemma metric_values_mem:
  "x \<in> set (metric_values ps m) \<Longrightarrow> \<exists>k sc. (k, sc) \<in> set ps \<and> dict_get sc m = Some (Some x)"
  by (force simp: metric_values_def split: option.splits)

lemma metric_means_unit:
  assumes "\<And>m x. x \<in> set (metric_values ps m) \<Longrightarrow> unit_score x" "length ps < 2 ^ 53"
    and "metric_means ps ms = Inr means"
  shows "list_all (unit_score \<circ> snd) means"
  using assms(3)
proof (induction ms arbitrary: means)
  case (Cons m ms)
  show ?case
  proof (cases "metric_values ps m = []")
    case True
    then show ?thesis using Cons by simp
  next
    case False
    have "length (metric_values ps m) < 2 ^ 53" using metric_values_bound [of ps m] assms(2) by (rule le_less_trans)
    moreover have "list_all unit_score (metric_values ps m)" using assms(1) by (simp add: list_all_iff)
    ultimately obtain x where "fmean (metric_values ps m) = Some x" "unit_score x"
      using fmean_unit False by blast
    then show ?thesis using Cons False by (auto simp: Let_def res_bind_Inr_iff)
  qed
qed simp

lemma ragas_score_unit:
  assumes "\<And>s sc m x. judge s = Inr sc \<Longrightarrow> dict_get sc m = Some (Some x) \<Longrightarrow> unit_score x"
    and "ragas_score judge metrics samples = Inr scores" "length samples < 2 ^ 53"
  shows "list_all (unit_score \<circ> snd) scores"
proof -
  obtain kvs where kvs: "res_map (\<lambda>s. res_bind (judge s) (\<lambda>sc. Inr (es_id s, sc))) samples = Inr kvs"
    and means: "metric_means (fold (\<lambda>(k, sc). dict_set k sc) kvs []) metrics = Inr scores"
    using assms(2) by (auto simp: ragas_score_def res_bind_Inr_iff)
  let ?ps = "fold (\<lambda>(k, sc). dict_set k sc) kvs []"
  have "list_all2 (\<lambda>s kv. res_bind (judge s) (\<lambda>sc. Inr (es_id s, sc)) = Inr kv) samples kvs"
    using kvs by (simp add: res_map_Inr_iff)
  then have judged: "\<exists>s. judge s = Inr sc" if "(k, sc) \<in> set kvs" for k sc
    using that by (induction rule: list_all2_induct) (auto simp: res_bind_Inr_iff)
  have "unit_score x" if "x \<in> set (metric_values ?ps m)" for m x
    using metric_values_mem [OF that] set_fold_dict_set [of kvs "[]"] judged assms(1) by fastforce
  moreover have "length ?ps \<le> length samples"
    using length_fold_dict_set [of kvs "[]"] res_map_length [OF kvs] by simp
  then have "length ?ps < 2 ^ 53" using assms(3) by (rule le_less_trans)
  ultimately show ?thesis using metric_means_unit means by blast
qed

lemma run_metrics_report:
  assumes "\<And>s sc m x. judge s = Inr sc \<Longrightarrow> dict_get sc m = Some (Some x) \<Longrightarrow> unit_score x"
    and "run_metrics (ragas_score judge metrics) ts responses = Inr r" "length ts < 2 ^ 53"
  shows "list_all (unit_score \<circ> snd) (mr_scores r) \<and> dict_get (mr_scores r) ''citation_correctness'' \<noteq> None
    \<and> mr_n_samples r = length ts"
proof -
  obtain samples scores c where samples: "build_samples ts responses = Inr samples"
    and scores: "ragas_score judge metrics samples = Inr scores"
    and c: "(if samples = [] then Some (Fin 1)
      else fmean (map (\<lambda>s. citation_resolution_rate (es_answer s) (length (es_contexts s))) samples)) = Some c"
    and r: "r = \<lparr>mr_scores = dict_set ''citation_correctness'' c scores, mr_n_samples = length samples\<rparr>"
    using assms(2) by (auto simp: run_metrics_def res_bind_Inr_iff split: option.splits)
  have len: "length samples = length ts" using res_map_length samples unfolding build_samples_def by blast
  then have l53: "length samples < 2 ^ 53" using assms(3) by (rule ssubst)
  have "unit_score c"
  proof (cases "samples = []")
    case True
    then show ?thesis using c by (auto simp: unit_score_def)
  next
    case False
    then show ?thesis
      using fmean_unit [of "map (\<lambda>s. citation_resolution_rate (es_answer s) (length (es_contexts s))) samples"] c l53
      by (simp add: list_all_iff unit_score_citation)
  qed
  moreover have "list_all (unit_score \<circ> snd) scores"
    by (rule ragas_score_unit [OF assms(1) scores l53])
  ultimately have "list_all (unit_score \<circ> snd) (dict_set ''citation_correctness'' c scores)"
    using set_dict_set [of "''citation_correctness''" c scores] by (auto simp: list_all_iff)
  then show ?thesis by (simp add: r len)
qed

lemma run_metrics_unit:
  assumes "\<And>s sc m x. judge s = Inr sc \<Longrightarrow> dict_get sc m = Some (Some x) \<Longrightarrow> unit_score x"
    and "run_metrics (ragas_score judge metrics) ts responses = Inr r" "length ts < 2 ^ 53"
  shows "list_all (unit_score \<circ> snd) (mr_scores r)"
  by (rule conjunct1 [OF run_metrics_report [OF _ assms(2,3)]]) (erule (1) assms(1))

text \<open>
  every metric of a run is a probability-like number. When the judge's per-sample scores lie in
  the unit interval (or are missing), each mean, computed with one rounding of the exact sum and
  one of the quotient, lies in the unit interval, and so does the citation metric, which every
  report has; no score of such a run is NaN or infinite.
\<close>

theorem run_scores_unit:
  assumes "\<And>s sc m x. judge s = Inr sc \<Longrightarrow> dict_get sc m = Some (Some x) \<Longrightarrow> unit_score x"
    and "run_metrics (ragas_score judge metrics) ts responses = Inr r" "length ts < 2 ^ 53"
  shows "list_all (unit_score \<circ> snd) (mr_scores r) \<and> dict_get (mr_scores r) ''citation_correctness'' \<noteq> None
    \<and> mr_n_samples r = length ts"
  by (rule run_metrics_report [OF _ assms(2,3)]) (erule (1) assms(1))

lemma run_scores_unit_witness:
  "\<exists>r. run_metrics (ragas_score (\<lambda>_. Inr [(''faithfulness'', Some (Fin 1))]) DEFAULT_METRICS) [] [] = Inr r
     \<and> list_all (unit_score \<circ> snd) (mr_scores r)"
proof -
  let ?j = "\<lambda>_ :: eval_sample. Inr [(''faithfulness'', Some (Fin 1))] :: (metric_error, sample_scores) result"
  have "\<exists>r. run_metrics (ragas_score ?j DEFAULT_METRICS) [] [] = Inr r"
    by (simp add: run_metrics_def build_samples_def ragas_score_def DEFAULT_METRICS_def metric_values_def)
  then obtain r where r: "run_metrics (ragas_score ?j DEFAULT_METRICS) [] [] = Inr r" by blast
  have j: "?j s = Inr sc \<Longrightarrow> dict_get sc m = Some (Some x) \<Longrightarrow> unit_score x" for s sc m x
    by (auto simp: unit_score_def split: if_splits)
  from run_scores_unit [OF j r] r show ?thesis by simp
qed

section \<open>Formats and refusals agree\<close>

lemma doc_marker_found:
  assumes "i \<in> set (cited_doc_ids t)"
  shows "i \<noteq> [] \<and> list_all doc_char i \<and> str_in (''[doc:'' @ i @ '']'') t"
proof -
  have "i \<in> set (findall DOC_MARKER t)" using assms by (simp add: cited_doc_ids_def)
  moreover have "gpat_assertion_free DOC_MARKER" by (simp add: DOC_MARKER_def plus_def)
  ultimately have i: "i \<in> lang (plus (Ch doc_char))"
    and "\<exists>u\<in>lang (lit ''[doc:''). \<exists>v\<in>lang (Ch (\<lambda>c. c = CHR '']'')). sublist (u @ i @ v) t"
    unfolding DOC_MARKER_def by (blast dest: findall_sound)+
  then obtain u v where uv: "u \<in> lang (lit ''[doc:'')" "v \<in> lang (Ch (\<lambda>c. c = CHR '']''))" "sublist (u @ i @ v) t"
    by blast
  have "u = s" if "u \<in> lang (lit s)" for u s
    using that
  proof (induction s arbitrary: u)
    case (Cons c s)
    then show ?case unfolding lit.simps lang_Seq_Ch by auto
  qed simp
  with uv(1) have "u = ''[doc:''" by blast
  moreover have "v = '']''" using uv(2) by simp
  ultimately show ?thesis using uv(3) i unfolding lang_plus_Ch by simp
qed

text \<open>
  the format validator and the refusal scorer agree. On an output of valid format, "the model
  refused" and "the format is a refusal" are the same; and a valid cited answer cites at least one
  document, every cited id is one of the allowed ids and appears as a marker in the output.
\<close>

theorem format_and_refusal_agree:
  assumes "format_score out allowed"
  shows "(did_refuse out \<longleftrightarrow> classify out allowed = Refusal)
    \<and> (\<not> did_refuse out \<longrightarrow> cited_doc_ids (str_strip out) \<noteq> []
        \<and> (\<forall>i\<in>set (cited_doc_ids (str_strip out)).
             str_in (''[doc:'' @ i @ '']'') (str_strip out) \<and> (\<forall>al. allowed = Some al \<longrightarrow> i \<in> set al)))"
proof -
  have strip: "is_grounded_refusal (str_strip out) = is_grounded_refusal out"
    by (simp add: is_grounded_refusal_def dropWhile_idem_strip)
  have "did_refuse out \<longleftrightarrow> classify out allowed = Refusal"
    using assms by (auto simp: format_score_def classify_def did_refuse_def Let_def strip split: if_splits)
  moreover have "cited_doc_ids (str_strip out) \<noteq> []
      \<and> (\<forall>i\<in>set (cited_doc_ids (str_strip out)). \<forall>al. allowed = Some al \<longrightarrow> i \<in> set al)" if "\<not> did_refuse out"
    using assms that
    by (auto simp: format_score_def classify_def did_refuse_def Let_def strip list_all_iff split: if_splits option.splits)
  ultimately show ?thesis using doc_marker_found by blast
qed

lemma format_and_refusal_agree_witness:
  "\<not> did_refuse ''x [doc:a]'' \<and> set (cited_doc_ids ''x [doc:a]'') \<subseteq> {''a''}"
proof -
  have f: "format_score ''x [doc:a]'' (Some [''a''])" by code_simp
  have s: "str_strip ''x [doc:a]'' = ''x [doc:a]''" by code_simp
  have "\<not> did_refuse ''x [doc:a]''" by code_simp
  with format_and_refusal_agree [OF f] show ?thesis unfolding s by auto
qed

end
