(* ===== verification/Eval_Run.thy ===== *)
theory Eval_Run
  imports Eval_Cassettes Eval_Metrics
begin

text \<open>
  The merge gate end to end (\<open>evals/atlas_evals/gate.py\<close>, \<open>_run\<close> and the exit code of \<open>main\<close>):
  golden questions and adversarial queries are served from the committed cassettes, scored, and
  the gate decides. Responses are JSON; the fields the scorers read are taken by
  \<open>rag_response_of\<close>, and a response in which one of them has another type is \<open>BadResponse\<close>.
\<close>

section \<open>Reading cassettes\<close>

definition opt_text :: "json \<Rightarrow> string option option" where
  "opt_text v = (case v of JStr s \<Rightarrow> Some (Some s) | JNull \<Rightarrow> Some None | _ \<Rightarrow> None)"

fun opt_map :: "('a \<Rightarrow> 'b option) \<Rightarrow> 'a list \<Rightarrow> 'b list option" where
  "opt_map f [] = Some []"
| "opt_map f (x # xs) =
     (case f x of None \<Rightarrow> None | Some y \<Rightarrow> map_option (\<lambda>ys. y # ys) (opt_map f xs))"

definition context_of :: "json \<Rightarrow> rag_context option" where
  "context_of v =
     (case v of
        JObj d \<Rightarrow>
          (case (opt_text (obj_get d ''chunkId''), opt_text (obj_get d ''clearance''), opt_text (obj_get d ''text'')) of
             (Some i, Some c, Some t) \<Rightarrow> Some \<lparr>cx_chunk_id = i, cx_clearance = c, cx_text = t\<rparr>
           | _ \<Rightarrow> None)
      | _ \<Rightarrow> None)"

definition citation_of :: "json \<Rightarrow> rag_citation option" where
  "citation_of v =
     (case v of
        JObj d \<Rightarrow>
          (case (opt_text (obj_get d ''docId''), opt_text (obj_get d ''clearance'')) of
             (Some i, Some c) \<Rightarrow> Some \<lparr>rc_doc_id = i, rc_clearance = c\<rparr>
           | _ \<Rightarrow> None)
      | _ \<Rightarrow> None)"

text \<open>\<open>response.get(k) or []\<close>.\<close>

definition items_of :: "(string \<times> json) list \<Rightarrow> string \<Rightarrow> json list option" where
  "items_of d k =
     (let v = obj_get d k in
      if json_truthy v then (case v of JList xs \<Rightarrow> Some xs | _ \<Rightarrow> None) else Some [])"

definition rag_response_of :: "json \<Rightarrow> rag_response option" where
  "rag_response_of v =
     (case v of
        JObj d \<Rightarrow>
          (case (opt_text (obj_get d ''answer''), items_of d ''contexts'', items_of d ''citations'') of
             (Some a, Some cxs, Some cits) \<Rightarrow>
               (case (opt_map context_of cxs, opt_map citation_of cits) of
                  (Some cs, Some ts) \<Rightarrow> Some \<lparr>rr_answer = a, rr_contexts = cs, rr_citations = ts\<rparr>
                | _ \<Rightarrow> None)
           | _ \<Rightarrow> None)
      | _ \<Rightarrow> None)"

definition metric_entry :: "string \<times> json \<Rightarrow> (string \<times> pyfloat option) option" where
  "metric_entry kv =
     (case snd kv of
        JNull \<Rightarrow> Some (fst kv, None)
      | v \<Rightarrow> map_option (\<lambda>x. (fst kv, Some x)) (json_number v))"

definition sample_scores_of :: "json \<Rightarrow> sample_scores option" where
  "sample_scores_of v = (case v of JObj d \<Rightarrow> opt_map metric_entry d | _ \<Rightarrow> None)"

section \<open>The run\<close>

datatype run_error =
    RunCassette cassette_error
  | RunMetric metric_error
  | RunScorer eval_exc
  | BadResponse

fun map_err :: "('e \<Rightarrow> 'f) \<Rightarrow> ('e, 'a) result \<Rightarrow> ('f, 'a) result" where
  "map_err g (Inl e) = Inl (g e)"
| "map_err g (Inr x) = Inr x"

lemma map_err_Inr [simp]: "map_err g r = Inr x \<longleftrightarrow> r = Inr x"
  by (cases r) simp_all

definition text_of :: "json \<Rightarrow> string" where
  "text_of v = (case v of JStr s \<Rightarrow> s | _ \<Rightarrow> [])"

definition golden_request :: "golden_tuple \<Rightarrow> query_request" where
  "golden_request t = \<lparr>qr_question = text_of (gt_question t), qr_clearance = text_of (gt_clearance t),
     qr_user = None, qr_top_k = Some 6, qr_include_contexts = True\<rparr>"

definition case_request :: "adversarial_case \<Rightarrow> query_request" where
  "case_request c = \<lparr>qr_question = ac_query c, qr_clearance = ac_clearance c,
     qr_user = None, qr_top_k = Some 6, qr_include_contexts = True\<rparr>"

definition judge_key :: "(json list \<Rightarrow> string) \<Rightarrow> string \<Rightarrow> string \<Rightarrow> string list \<Rightarrow> eval_sample \<Rightarrow> string" where
  "judge_key key_of judge_model fingerprint metrics s =
     key_of [JStr ''ragas'', JStr judge_model, JStr fingerprint, JList (map JStr metrics), es_question s,
             JStr (es_answer s), JList (map JStr (es_contexts s)), es_ground_truth s]"

text \<open>In replay a sample is scored by its cassette.\<close>

definition replay_judge :: "(json list \<Rightarrow> string) \<Rightarrow> string \<Rightarrow> string \<Rightarrow> string list \<Rightarrow> cassettes \<Rightarrow> eval_sample
    \<Rightarrow> (metric_error, sample_scores) result" where
  "replay_judge key_of judge_model fingerprint metrics store s =
     (case cassette_get store (judge_key key_of judge_model fingerprint metrics s) of
        Inl _ \<Rightarrow> Inl ScorerError
      | Inr v \<Rightarrow> (case sample_scores_of v of None \<Rightarrow> Inl ScorerError | Some sc \<Rightarrow> Inr sc))"

record gate_config =
  gc_key_of :: "json list \<Rightarrow> string"
  gc_rag_fp :: string
  gc_ragas_fp :: string
  gc_judge_model :: string
  gc_golden :: "golden_tuple list"
  gc_cases :: "adversarial_case list"
  gc_baseline :: baseline

text \<open>A dictionary comprehension over questions: one response per identifier, the last one wins.\<close>

definition ask_all ::
  "(json list \<Rightarrow> string) \<Rightarrow> string \<Rightarrow> (nat \<Rightarrow> query_request \<Rightarrow> (cassette_error, json) result)
     \<Rightarrow> ('k \<times> query_request) list \<Rightarrow> cassettes \<times> nat \<Rightarrow> (run_error, ('k, rag_response) dict) result \<times> cassettes \<times> nat" where
  "ask_all key_of fp live ks s =
     (case run_queries REPLAY key_of fp live (map snd ks) s of
        (r, s') \<Rightarrow>
          (res_bind (map_err RunCassette r) (\<lambda>vs.
             case opt_map rag_response_of vs of
               None \<Rightarrow> Inl BadResponse
             | Some rs \<Rightarrow> Inr (pd.fill (zip (map fst ks) rs) [])), s'))"

definition gate_run ::
  "gate_config \<Rightarrow> (nat \<Rightarrow> query_request \<Rightarrow> (cassette_error, json) result) \<Rightarrow> cassettes \<Rightarrow> cassettes \<times> nat
     \<Rightarrow> (run_error, metric_report \<times> case_result list) result \<times> cassettes \<times> nat" where
  "gate_run g live judge_store s =
     (case ask_all (gc_key_of g) (gc_rag_fp g) live (map (\<lambda>t. (gt_id t, golden_request t)) (gc_golden g)) s of
        (Inl e, s1) \<Rightarrow> (Inl e, s1)
      | (Inr responses, s1) \<Rightarrow>
          (case map_err RunMetric
                  (run_metrics
                    (ragas_score (replay_judge (gc_key_of g) (gc_judge_model g) (gc_ragas_fp g) DEFAULT_METRICS judge_store)
                       DEFAULT_METRICS) (gc_golden g) responses) of
             Inl e \<Rightarrow> (Inl e, s1)
           | Inr report \<Rightarrow>
               (case ask_all (gc_key_of g) (gc_rag_fp g) live (map (\<lambda>c. (ac_id c, case_request c)) (gc_cases g)) s1 of
                  (Inl e, s2) \<Rightarrow> (Inl e, s2)
                | (Inr adv_responses, s2) \<Rightarrow>
                    (res_bind (map_err RunScorer (score_adversarial (gc_cases g) adv_responses)) (\<lambda>adv.
                       Inr (report, adv)), s2))))"

text \<open>The exit code of the command: an exception ends the interpreter with 1.\<close>

definition gate_main ::
  "gate_config \<Rightarrow> (nat \<Rightarrow> query_request \<Rightarrow> (cassette_error, json) result) \<Rightarrow> cassettes \<Rightarrow> cassettes \<times> nat
     \<Rightarrow> int \<times> cassettes \<times> nat" where
  "gate_main g live judge_store s =
     (case gate_run g live judge_store s of
        (Inl _, s') \<Rightarrow> (1, s')
      | (Inr (report, adv), s') \<Rightarrow>
          ((if gate_passed (mr_scores report) adv (gc_baseline g) then 0 else 1), s'))"

definition through_gateway :: "string option \<Rightarrow> bool" where
  "through_gateway env = (str_lower (case env of Some v \<Rightarrow> v | None \<Rightarrow> []) \<in> {''1'', ''true'', ''yes''})"

section \<open>What exit code zero means\<close>

lemma opt_map_Some: "opt_map f xs = Some ys \<longleftrightarrow> list_all2 (\<lambda>x y. f x = Some y) xs ys"
proof (induction xs arbitrary: ys)
  case (Cons x xs)
  show ?case by (cases "f x"; cases "opt_map f xs"; cases ys) (auto simp: Cons.IH [symmetric])
qed auto

lemma ask_all_state: "snd (ask_all key_of fp live ks s) = s"
  by (cases s) (simp add: ask_all_def replay_session)

lemma ask_all_get:
  assumes "ask_all key_of fp live ks s = (Inr d, s')" "distinct (map fst ks)" "(k, q) \<in> set ks"
  shows "\<exists>v. cassette_get (fst s) (query_key key_of fp q) = Inr v \<and> rag_response_of v = dict_get d k
    \<and> dict_get d k \<noteq> None"
proof -
  obtain store n where s: "s = (store, n)" by fastforce
  obtain vs rs where vs: "res_map (\<lambda>q. cassette_get store (query_key key_of fp q)) (map snd ks) = Inr vs"
    and rs: "opt_map rag_response_of vs = Some rs" and d: "d = pd.fill (zip (map fst ks) rs) []"
    using assms(1) by (auto simp: ask_all_def s replay_session res_bind_Inr_iff split: option.splits)
  have a: "list_all2 (\<lambda>q v. cassette_get store (query_key key_of fp q) = Inr v) (map snd ks) vs"
    using vs by (simp add: res_map_Inr_iff)
  have b: "list_all2 (\<lambda>v r. rag_response_of v = Some r) vs rs" using rs by (simp add: opt_map_Some)
  obtain i where i: "i < length ks" "ks ! i = (k, q)" using assms(3) by (auto simp: in_set_conv_nth)
  have len: "length vs = length ks" "length rs = length ks"
    using list_all2_lengthD [OF a] list_all2_lengthD [OF b] by simp_all
  have got: "cassette_get store (query_key key_of fp q) = Inr (vs ! i)" "rag_response_of (vs ! i) = Some (rs ! i)"
    using list_all2_nthD [OF a, of i] list_all2_nthD [OF b, of i] i len by simp_all
  have "(k, rs ! i) \<in> set (rev (zip (map fst ks) rs))"
    using i len by (auto simp: set_zip intro!: exI [of _ i])
  moreover have "distinct (map fst (rev (zip (map fst ks) rs)))"
    using assms(2) len by (simp add: rev_map [symmetric])
  ultimately have "map_of (rev (zip (map fst ks) rs)) k = Some (rs ! i)" by (intro map_of_is_SomeI)
  then have "dict_get d k = Some (rs ! i)" unfolding d by (simp add: pd.get_fill)
  with got s show ?thesis by simp
qed

lemma pass_rate_not_nan: "pass_rate report \<noteq> NaN"
  by (simp add: pass_rate_def int_div_def)

lemma gate_passed_adversarial:
  assumes "gate_passed scores report bl" "bl_must_pass bl = Fin 1"
  shows "adversarial_passed report"
proof -
  have "\<not> f_lt (pass_rate report) (Fin 1)"
    using assms by (auto simp: gate_passed_def evaluate_gate_def split: if_splits)
  then show ?thesis using pass_rate_not_nan not_f_lt by (simp add: adversarial_passed_def)
qed

lemma gate_run_ok:
  assumes "gate_run g live judge_store s = (Inr (report, adv), s')"
  shows "\<exists>responses advr.
    ask_all (gc_key_of g) (gc_rag_fp g) live (map (\<lambda>t. (gt_id t, golden_request t)) (gc_golden g)) s = (Inr responses, s)
    \<and> run_metrics (ragas_score (replay_judge (gc_key_of g) (gc_judge_model g) (gc_ragas_fp g) DEFAULT_METRICS judge_store)
         DEFAULT_METRICS) (gc_golden g) responses = Inr report
    \<and> ask_all (gc_key_of g) (gc_rag_fp g) live (map (\<lambda>c. (ac_id c, case_request c)) (gc_cases g)) s = (Inr advr, s)
    \<and> score_adversarial (gc_cases g) advr = Inr adv"
proof -
  let ?a = "ask_all (gc_key_of g) (gc_rag_fp g) live (map (\<lambda>t. (gt_id t, golden_request t)) (gc_golden g)) s"
  obtain r1 where a: "?a = (r1, s)" using ask_all_state by (metis prod.collapse)
  obtain r2 where b: "ask_all (gc_key_of g) (gc_rag_fp g) live (map (\<lambda>c. (ac_id c, case_request c)) (gc_cases g)) s = (r2, s)"
    using ask_all_state by (metis prod.collapse)
  obtain responses where r1: "r1 = Inr responses"
    using assms by (cases r1) (simp_all add: gate_run_def a)
  obtain rep where rep: "run_metrics (ragas_score (replay_judge (gc_key_of g) (gc_judge_model g) (gc_ragas_fp g)
      DEFAULT_METRICS judge_store) DEFAULT_METRICS) (gc_golden g) responses = Inr rep"
    using assms by (auto simp: gate_run_def a r1 split: sum.splits)
  obtain advr where r2: "r2 = Inr advr"
    using assms by (cases r2) (simp_all add: gate_run_def a r1 rep b)
  show ?thesis
    using assms a b rep by (auto simp: gate_run_def r1 r2 res_bind_Inr_iff)
qed

text \<open>
  exit code zero, end to end. When the gate command ends with 0, it made no live call and wrote
  no cassette; every adversarial case has a committed response under its key and that response
  is safe for the case; and, when the recorded judge scores lie in the unit interval, every gating
  metric has a score that really is at least its floor: the NaN loophole of the decision is closed
  by the recorded scores and the means.
\<close>

theorem gate_exit_zero:
  assumes "gate_main g live judge_store s = (0, s')"
    and "distinct (map ac_id (gc_cases g))" "length (gc_cases g) < 2 ^ 53" "length (gc_golden g) < 2 ^ 53"
      "bl_must_pass (gc_baseline g) = Fin 1"
    and judged: "\<And>k v sc m x. cassette_get judge_store k = Inr v \<Longrightarrow> sample_scores_of v = Some sc \<Longrightarrow>
      dict_get sc m = Some (Some x) \<Longrightarrow> unit_score x"
  shows "s' = s
    \<and> (\<forall>c\<in>set (gc_cases g). \<exists>v resp. cassette_get (fst s) (query_key (gc_key_of g) (gc_rag_fp g) (case_request c)) = Inr v
         \<and> rag_response_of v = Some resp \<and> safe_response c resp)
    \<and> (\<exists>report adv. gate_run g live judge_store s = (Inr (report, adv), s) \<and>
         (\<forall>(name, thr)\<in>set (bl_metrics (gc_baseline g)). \<forall>flr. \<not> mt_report_only thr \<longrightarrow> mt_floor thr = Some flr \<longrightarrow> flr \<noteq> NaN \<longrightarrow>
            (\<exists>x. dict_get (mr_scores report) name = Some x \<and> f_le flr x)))"
proof -
  obtain report adv where run: "gate_run g live judge_store s = (Inr (report, adv), s')"
    and passed: "gate_passed (mr_scores report) adv (gc_baseline g)"
    using assms(1) by (auto simp: gate_main_def split: prod.splits sum.splits if_splits)
  obtain responses advr where
    m: "run_metrics (ragas_score (replay_judge (gc_key_of g) (gc_judge_model g) (gc_ragas_fp g) DEFAULT_METRICS judge_store)
         DEFAULT_METRICS) (gc_golden g) responses = Inr report"
    and b: "ask_all (gc_key_of g) (gc_rag_fp g) live (map (\<lambda>c. (ac_id c, case_request c)) (gc_cases g)) s = (Inr advr, s)"
    and sc: "score_adversarial (gc_cases g) advr = Inr adv"
    and a: "ask_all (gc_key_of g) (gc_rag_fp g) live (map (\<lambda>t. (gt_id t, golden_request t)) (gc_golden g)) s = (Inr responses, s)"
    using gate_run_ok [OF run] by blast
  have s': "s' = s" using run by (simp add: gate_run_def a m b sc)
  have safe: "\<forall>c\<in>set (gc_cases g). \<exists>resp. dict_get advr (ac_id c) = Some resp \<and> safe_response c resp"
    using gate_passed_adversarial [OF passed assms(5)] adversarial_cases_safe [OF sc assms(3)] by blast
  have keys: "distinct (map fst (map (\<lambda>c. (ac_id c, case_request c)) (gc_cases g)))"
    using assms(2) by (simp add: comp_def)
  have "\<exists>v resp. cassette_get (fst s) (query_key (gc_key_of g) (gc_rag_fp g) (case_request c)) = Inr v
         \<and> rag_response_of v = Some resp \<and> safe_response c resp" if "c \<in> set (gc_cases g)" for c
    using ask_all_get [OF b keys, of "ac_id c" "case_request c"] safe that by fastforce
  moreover have unit: "list_all (unit_score \<circ> snd) (mr_scores report)"
    by (rule run_metrics_unit [OF _ m assms(4)]) (auto simp: replay_judge_def dest: judged split: sum.splits option.splits)
  have "\<exists>x. dict_get (mr_scores report) name = Some x \<and> f_le flr x"
    if t: "(name, thr) \<in> set (bl_metrics (gc_baseline g))" "\<not> mt_report_only thr" "mt_floor thr = Some flr" "flr \<noteq> NaN"
    for name thr flr
  proof -
    obtain x where x: "dict_get (mr_scores report) name = Some x" "x \<noteq> NaN \<longrightarrow> f_le flr x"
      using passed_floor [OF passed t] by blast
    have "unit_score x" using unit map_of_SomeD [OF x(1)] by (auto simp: list_all_iff)
    then have "x \<noteq> NaN" by (auto simp: unit_score_def)
    with x show ?thesis by blast
  qed
  ultimately show ?thesis using s' run by auto
qed

definition demo_gate_config :: gate_config where
  "demo_gate_config = \<lparr>gc_key_of = (\<lambda>_. ''k''), gc_rag_fp = ''fp'', gc_ragas_fp = ''rf'', gc_judge_model = ''m'',
     gc_golden = [], gc_cases = [demo_case],
     gc_baseline = \<lparr>bl_metrics = [(''citation_correctness'', \<lparr>mt_baseline = None, mt_floor = Some (Fin 1),
       mt_max_regression = None, mt_report_only = False\<rparr>)], bl_must_pass = Fin 1\<rparr>\<rparr>"

definition demo_store :: cassettes where
  "demo_store = [(''k'', Some (JObj [(''response'', JObj [(''answer'', JStr ''no'')])]))]"

lemma demo_gate_exit: "gate_main demo_gate_config live [] (demo_store, 0) = (0, (demo_store, 0))"
proof -
  have up: "\<not> str_in (str_lower ''PWNED'') (str_lower ''no'')" by code_simp
  have rank: "rank ''analyst'' = Inr 1" by code_simp
  have get: "cassette_get demo_store ''k'' = Inr (JObj [(''answer'', JStr ''no'')])"
    by (simp add: cassette_get_def demo_store_def)
  have resp: "rag_response_of (JObj [(''answer'', JStr ''no'')]) = Some \<lparr>rr_answer = Some ''no'', rr_contexts = [], rr_citations = []\<rparr>"
    by (simp add: rag_response_of_def opt_text_def obj_get_def items_of_def)
  let ?r = "\<lparr>rr_answer = Some ''no'', rr_contexts = [], rr_citations = []\<rparr> :: rag_response"
  have none: "ask_all (\<lambda>_. ''k'') ''fp'' live [] (demo_store, 0) = (Inr ([] :: (json, rag_response) dict), (demo_store, 0))"
    by (simp add: ask_all_def pd.fill_def)
  have ask: "ask_all (\<lambda>_. ''k'') ''fp'' live [(''a1'', case_request demo_case)] (demo_store, 0)
      = (Inr [(''a1'', ?r)], (demo_store, 0))"
    by (simp add: ask_all_def replay_step get resp query_key_def pd.fill_def)
  have sc: "score_adversarial [demo_case] [(''a1'', ?r)] = Inr [\<lparr>cr_case_id = ''a1'', cr_cls = ''injection'', cr_violations = []\<rparr>]"
    by (simp add: score_adversarial_def score_case_def demo_case_def rank up leaked_def)
  have id: "ac_id demo_case = ''a1''" by (simp add: demo_case_def)
  have rep: "run_metrics (ragas_score j DEFAULT_METRICS) [] rs = Inr \<lparr>mr_scores = [(''citation_correctness'', Fin 1)], mr_n_samples = 0\<rparr>"
    for j rs
    by (simp add: run_metrics_def build_samples_def ragas_score_def DEFAULT_METRICS_def metric_values_def)
  show ?thesis
    by (simp add: gate_main_def gate_run_def demo_gate_config_def none ask sc id rep
        gate_passed_def evaluate_gate_def metric_failures_def pass_rate_def case_passed_def count_if_def int_div_def)
qed

lemma gate_exit_zero_witness:
  "\<exists>v resp. cassette_get demo_store ''k'' = Inr v \<and> rag_response_of v = Some resp \<and> safe_response demo_case resp"
proof -
  have "\<forall>c\<in>set (gc_cases demo_gate_config). \<exists>v resp. cassette_get (fst (demo_store, 0 :: nat))
      (query_key (gc_key_of demo_gate_config) (gc_rag_fp demo_gate_config) (case_request c)) = Inr v
         \<and> rag_response_of v = Some resp \<and> safe_response c resp"
    using gate_exit_zero [OF demo_gate_exit] by (simp add: demo_gate_config_def cassette_get_def)
  then show ?thesis by (simp add: demo_gate_config_def query_key_def)
qed

end
