(* ===== verification/Eval_Recalibrate.thy ===== *)
theory Eval_Recalibrate
  imports Eval_Run
begin

text \<open>
  The committed baseline and the whole gate command (\<open>evals/atlas_evals/baseline.py\<close>,
  \<open>evals/atlas_evals/gate.py\<close>): the baseline file with its pinned models and fingerprints, \<open>_run\<close> with and
  without \<open>--recalibrate\<close>, and the exit code. The baseline file is held parsed, \<open>None\<close> when it does
  not exist; a value of another type than the dataclass declares is outside the model and reads as
  \<open>None\<close>.
\<close>

section \<open>The baseline file\<close>

record full_baseline =
  fb_gate :: baseline
  fb_judge_model :: string
  fb_judge_temperature :: pyfloat
  fb_rag_model :: string
  fb_embed_model :: string
  fb_rag_fp :: string
  fb_ragas_fp :: string
  fb_semconv :: string
  fb_recorded_at :: string
  fb_git_sha :: string

definition float_or_null :: "pyfloat option \<Rightarrow> json" where
  "float_or_null v = (case v of None \<Rightarrow> JNull | Some x \<Rightarrow> JFloat x)"

definition threshold_json :: "metric_threshold \<Rightarrow> (string \<times> json) list" where
  "threshold_json t =
     [(''baseline'', float_or_null (mt_baseline t)), (''floor'', float_or_null (mt_floor t)),
      (''max_regression'', float_or_null (mt_max_regression t)), (''report_only'', JBool (mt_report_only t))]"

definition baseline_json :: "full_baseline \<Rightarrow> (string \<times> json) list" where
  "baseline_json b =
     [(''metrics'', JObj (map (\<lambda>(k, t). (k, JObj (threshold_json t))) (bl_metrics (fb_gate b)))),
      (''adversarial_must_pass_rate'', JFloat (bl_must_pass (fb_gate b))),
      (''judge_model'', JStr (fb_judge_model b)),
      (''judge_temperature'', JFloat (fb_judge_temperature b)),
      (''rag_model'', JStr (fb_rag_model b)),
      (''embed_model'', JStr (fb_embed_model b)),
      (''rag_fingerprint'', JStr (fb_rag_fp b)),
      (''ragas_fingerprint'', JStr (fb_ragas_fp b)),
      (''semconv_optin'', JStr (fb_semconv b)),
      (''recorded_at'', JStr (fb_recorded_at b)),
      (''git_sha'', JStr (fb_git_sha b))]"

text \<open>Reading: every keyword has a default, an unknown one is the \<open>TypeError\<close> of the constructor.\<close>

fun as_opt_float :: "json \<Rightarrow> pyfloat option option" where
  "as_opt_float JNull = Some None"
| "as_opt_float v = map_option Some (json_number v)"

fun as_bool :: "json \<Rightarrow> bool option" where
  "as_bool (JBool b) = Some b"
| "as_bool _ = None"

fun as_text :: "json \<Rightarrow> string option" where
  "as_text (JStr s) = Some s"
| "as_text _ = None"

definition THRESHOLD_KEYS :: "string list" where
  "THRESHOLD_KEYS = [''baseline'', ''floor'', ''max_regression'', ''report_only'']"

definition read_threshold :: "json \<Rightarrow> metric_threshold option" where
  "read_threshold v =
     (case kwargs [] THRESHOLD_KEYS v of
        None \<Rightarrow> None
      | Some d \<Rightarrow>
          (case (as_opt_float (obj_get d ''baseline''), as_opt_float (obj_get d ''floor''),
                 as_opt_float (obj_get d ''max_regression''), as_bool (obj_get_or d ''report_only'' (JBool False))) of
             (Some b, Some f, Some m, Some r) \<Rightarrow>
               Some \<lparr>mt_baseline = b, mt_floor = f, mt_max_regression = m, mt_report_only = r\<rparr>
           | _ \<Rightarrow> None))"

definition read_entry :: "string \<times> json \<Rightarrow> (string \<times> metric_threshold) option" where
  "read_entry = (\<lambda>(k, v). map_option (\<lambda>t. (k, t)) (read_threshold v))"

definition BASELINE_KEYS :: "string list" where
  "BASELINE_KEYS = [''metrics'', ''adversarial_must_pass_rate'', ''judge_model'', ''judge_temperature'',
     ''rag_model'', ''embed_model'', ''rag_fingerprint'', ''ragas_fingerprint'', ''semconv_optin'',
     ''recorded_at'', ''git_sha'']"

definition text_at :: "(string \<times> json) list \<Rightarrow> string \<Rightarrow> string option" where
  "text_at d k = as_text (obj_get_or d k (JStr []))"

definition read_baseline :: "json \<Rightarrow> full_baseline option" where
  "read_baseline v =
     (case kwargs [] BASELINE_KEYS v of
        None \<Rightarrow> None
      | Some d \<Rightarrow>
          (case (obj_get_or d ''metrics'' (JObj []), json_number (obj_get_or d ''adversarial_must_pass_rate'' (JFloat (Fin 1))),
                 json_number (obj_get_or d ''judge_temperature'' (JFloat (Fin 0))),
                 those (map (text_at d) [''judge_model'', ''rag_model'', ''embed_model'', ''rag_fingerprint'',
                   ''ragas_fingerprint'', ''semconv_optin'', ''recorded_at'', ''git_sha''])) of
             (JObj ms, Some must, Some temp, Some [judge, rag, emb, rag_fp, ragas_fp, semconv, recorded, sha]) \<Rightarrow>
               map_option (\<lambda>ts. \<lparr>fb_gate = \<lparr>bl_metrics = ts, bl_must_pass = must\<rparr>, fb_judge_model = judge,
                   fb_judge_temperature = temp, fb_rag_model = rag, fb_embed_model = emb, fb_rag_fp = rag_fp,
                   fb_ragas_fp = ragas_fp, fb_semconv = semconv, fb_recorded_at = recorded, fb_git_sha = sha\<rparr>)
                 (opt_map read_entry ms)
           | _ \<Rightarrow> None))"

lemma read_threshold_json [simp]: "read_threshold (JObj (threshold_json t)) = Some t"
proof -
  have [simp]: "as_opt_float (float_or_null v) = Some v" for v by (cases v) (simp_all add: float_or_null_def)
  show ?thesis
    by (simp add: read_threshold_def kwargs_def threshold_json_def THRESHOLD_KEYS_def obj_get_def obj_get_or_def)
qed

lemma opt_map_read_entries: "opt_map read_entry (map (\<lambda>(k, t). (k, JObj (threshold_json t))) ts) = Some ts"
  by (induction ts) (auto simp: read_entry_def)

lemma read_baseline_json: "read_baseline (JObj (baseline_json b)) = Some b"
  by (cases b)
    (simp add: read_baseline_def kwargs_def baseline_json_def BASELINE_KEYS_def obj_get_or_def text_at_def
      opt_map_read_entries)

section \<open>The command\<close>

text \<open>What the process finds around it: environment, live fingerprints, clock; and the two data sets.\<close>

record gate_env =
  ge_key_of :: "json list \<Rightarrow> string"
  ge_golden :: "golden_tuple list"
  ge_cases :: "adversarial_case list"
  ge_rag_fp :: string
  ge_ragas_fp :: string
  ge_vars :: "(string, string) dict"
  ge_now :: string

definition var_or :: "gate_env \<Rightarrow> string \<Rightarrow> string \<Rightarrow> string" where
  "var_or e k dflt = (case dict_get (ge_vars e) k of Some v \<Rightarrow> v | None \<Rightarrow> dflt)"

definition judge_of :: "gate_env \<Rightarrow> full_baseline option \<Rightarrow> string" where
  "judge_of e b = (case b of Some b \<Rightarrow> fb_judge_model b | None \<Rightarrow> var_or e ''ATLAS_EVAL_JUDGE_MODEL'' ''llama3.1:8b'')"

definition config_for :: "gate_env \<Rightarrow> full_baseline option \<Rightarrow> gate_config" where
  "config_for e b =
     \<lparr>gc_key_of = ge_key_of e, gc_rag_fp = ge_rag_fp e,
      gc_ragas_fp = (case b of Some b \<Rightarrow> fb_ragas_fp b | None \<Rightarrow> ge_ragas_fp e),
      gc_judge_model = judge_of e b, gc_golden = ge_golden e, gc_cases = ge_cases e,
      gc_baseline = (case b of Some b \<Rightarrow> fb_gate b | None \<Rightarrow> \<lparr>bl_metrics = [], bl_must_pass = Fin 1\<rparr>)\<rparr>"

definition calibrated :: "gate_env \<Rightarrow> (string, pyfloat) dict \<Rightarrow> full_baseline" where
  "calibrated e scores =
     \<lparr>fb_gate = calibrate scores, fb_judge_model = judge_of e None, fb_judge_temperature = Fin 0,
      fb_rag_model = var_or e ''OLLAMA_CHAT_MODEL'' ''qwen2.5:3b-instruct'',
      fb_embed_model = var_or e ''OLLAMA_EMBED_MODEL'' ''nomic-embed-text'', fb_rag_fp = ge_rag_fp e,
      fb_ragas_fp = ge_ragas_fp e, fb_semconv = var_or e ''OTEL_SEMCONV_STABILITY_OPT_IN'' [],
      fb_recorded_at = ge_now e, fb_git_sha = var_or e ''GIT_SHA'' []\<rparr>"

datatype command_error = BadBaseline | RunFailed run_error

text \<open>\<open>_run\<close>: without \<open>--recalibrate\<close> the file decides which judge and RAGAS cassettes are read. The
  last component is the baseline file afterwards.\<close>

definition run_command ::
  "bool \<Rightarrow> gate_env \<Rightarrow> (nat \<Rightarrow> query_request \<Rightarrow> (cassette_error, json) result) \<Rightarrow> cassettes \<Rightarrow> cassettes \<Rightarrow> json option
     \<Rightarrow> (command_error, metric_report \<times> case_result list \<times> full_baseline) result \<times> json option" where
  "run_command recalibrate e live rag_store judge_store file =
     (let pinned = (if recalibrate then Inr None
                    else case file of
                           None \<Rightarrow> Inl BadBaseline
                         | Some v \<Rightarrow> (case read_baseline v of None \<Rightarrow> Inl BadBaseline | Some b \<Rightarrow> Inr (Some b)))
      in case pinned of
           Inl x \<Rightarrow> (Inl x, file)
         | Inr pin \<Rightarrow>
             (case fst (gate_run (config_for e pin) live judge_store (rag_store, 0)) of
                Inl x \<Rightarrow> (Inl (RunFailed x), file)
              | Inr (report, adv) \<Rightarrow>
                  (case pin of
                     Some b \<Rightarrow> (Inr (report, adv, b), file)
                   | None \<Rightarrow>
                       (let b = calibrated e (mr_scores report)
                        in (Inr (report, adv, b), Some (JObj (baseline_json b)))))))"

text \<open>\<open>main\<close>: an exception ends the interpreter with 1; a failed metrics push never does.\<close>

definition command_main ::
  "bool \<Rightarrow> gate_env \<Rightarrow> (nat \<Rightarrow> query_request \<Rightarrow> (cassette_error, json) result) \<Rightarrow> cassettes \<Rightarrow> cassettes \<Rightarrow> json option
     \<Rightarrow> int \<times> json option" where
  "command_main recalibrate e live rag_store judge_store file =
     (case run_command recalibrate e live rag_store judge_store file of
        (Inl x, file') \<Rightarrow> (1, file')
      | (Inr (report, adv, b), file') \<Rightarrow>
          ((if gate_passed (mr_scores report) adv (fb_gate b) then 0 else 1), file'))"

section \<open>The scores of a run\<close>

lemma fmean_f64: "fmean xs = Some x \<Longrightarrow> is_f64 x"
  by (auto simp: fmean_def f_div_def split: if_splits option.splits pyfloat.splits)

lemma metric_means_keys:
  "metric_means ps ms = Inr means \<Longrightarrow> distinct ms \<Longrightarrow>
     distinct (map fst means) \<and> set (map fst means) \<subseteq> set ms \<and> (\<forall>x\<in>snd ` set means. is_f64 x)"
proof (induction ms arbitrary: means)
  case (Cons m ms)
  show ?case
  proof (cases "metric_values ps m = []")
    case True
    with Cons show ?thesis by auto
  next
    case False
    then obtain x ds where x: "fmean (metric_values ps m) = Some x" "metric_means ps ms = Inr ds"
      and means: "means = (m, x) # ds"
      using Cons.prems by (auto simp: Let_def res_bind_Inr_iff split: option.splits)
    with Cons.IH [OF x(2)] Cons.prems(2) fmean_f64 [OF x(1)] show ?thesis by (auto simp: means)
  qed
qed simp

lemma f64_small: "is_f64 (Fin 1)" "is_f64 (Fin 0)"
  using is_f64_fl [of 1] is_f64_fl [of 0] fl_small_int [of 1] fl_small_int [of 0] by simp_all

lemma run_metrics_f64:
  assumes "run_metrics (ragas_score judge DEFAULT_METRICS) ts responses = Inr r"
  shows "distinct (map fst (mr_scores r)) \<and> (\<forall>x\<in>snd ` set (mr_scores r). is_f64 x)"
proof -
  obtain samples scores c where scores: "ragas_score judge DEFAULT_METRICS samples = Inr scores"
    and c: "(if samples = [] then Some (Fin 1)
      else fmean (map (\<lambda>s. citation_resolution_rate (es_answer s) (length (es_contexts s))) samples)) = Some c"
    and r: "mr_scores r = dict_set ''citation_correctness'' c scores"
    using assms by (auto simp: run_metrics_def res_bind_Inr_iff split: option.splits)
  have "is_f64 c" using c fmean_f64 f64_small by (auto split: if_splits)
  moreover have "distinct (map fst scores) \<and> (\<forall>x\<in>snd ` set scores. is_f64 x)"
  proof -
    obtain ps where "metric_means ps DEFAULT_METRICS = Inr scores"
      using scores by (auto simp: ragas_score_def res_bind_Inr_iff)
    moreover have "distinct DEFAULT_METRICS" by (simp add: DEFAULT_METRICS_def)
    ultimately show ?thesis using metric_means_keys by blast
  qed
  ultimately show ?thesis
    using set_dict_set [of "''citation_correctness''" c scores] unfolding r by (auto simp: distinct_update)
qed

section \<open>Replay depends on the pins only\<close>

lemma gate_run_state: "snd (gate_run g live judge s) = s"
proof -
  have "\<exists>r. ask_all k fp live ks s = (r, s)" for k fp ks by (metis ask_all_state prod.collapse)
  then obtain r1 r2 where "ask_all (gc_key_of g) (gc_rag_fp g) live (map (\<lambda>t. (gt_id t, golden_request t)) (gc_golden g)) s = (r1, s)"
    "ask_all (gc_key_of g) (gc_rag_fp g) live (map (\<lambda>c. (ac_id c, case_request c)) (gc_cases g)) s = (r2, s)"
    by meson
  then show ?thesis by (auto simp: gate_run_def split: sum.splits)
qed

lemma ask_all_live: "ask_all key_of fp live' = ask_all key_of fp live"
proof (intro ext)
  show "ask_all key_of fp live' ks s = ask_all key_of fp live ks s" for ks s
    by (cases s) (simp add: ask_all_def replay_session)
qed

lemma gate_run_pins:
  assumes "gc_key_of g' = gc_key_of g" "gc_rag_fp g' = gc_rag_fp g" "gc_ragas_fp g' = gc_ragas_fp g"
    "gc_judge_model g' = gc_judge_model g" "gc_golden g' = gc_golden g" "gc_cases g' = gc_cases g"
  shows "gate_run g' live' judge s = gate_run g live judge s"
  unfolding gate_run_def assms ask_all_live [of _ _ live' live] by (rule refl)

text \<open>Nothing but the file system and the fingerprint of the code may differ between two processes.\<close>

definition same_checkout :: "gate_env \<Rightarrow> gate_env \<Rightarrow> bool" where
  "same_checkout e e' \<longleftrightarrow> ge_key_of e' = ge_key_of e \<and> ge_golden e' = ge_golden e \<and> ge_cases e' = ge_cases e
     \<and> ge_rag_fp e' = ge_rag_fp e"

lemma run_command_recalibrated:
  assumes "run_command True e live rag judge file = (Inr (report, adv, b), file')"
  shows "gate_run (config_for e None) live judge (rag, 0) = (Inr (report, adv), rag, 0)"
    "b = calibrated e (mr_scores report)" "file' = Some (JObj (baseline_json b))"
proof -
  obtain r s where run: "gate_run (config_for e None) live judge (rag, 0) = (r, s)" by (metis surj_pair)
  with assms have r: "r = Inr (report, adv)" "b = calibrated e (mr_scores report)"
      "file' = Some (JObj (baseline_json b))"
    by (auto simp: run_command_def Let_def split: sum.splits)
  moreover have "s = (rag, 0)" using gate_run_state [of "config_for e None" live judge "(rag, 0)"] run by simp
  ultimately show "gate_run (config_for e None) live judge (rag, 0) = (Inr (report, adv), rag, 0)"
    "b = calibrated e (mr_scores report)" "file' = Some (JObj (baseline_json b))"
    using run by simp_all
qed

lemma calibrated_gate:
  assumes "gate_run g live judge_store s = (Inr (report, adv), s')" "length (gc_golden g) < 2 ^ 53"
    and judged: "\<And>k v sc m x. cassette_get judge_store k = Inr v \<Longrightarrow> sample_scores_of v = Some sc \<Longrightarrow>
      dict_get sc m = Some (Some x) \<Longrightarrow> unit_score x"
    and "\<forall>r\<in>set adv. case_passed r"
  shows "gate_passed (mr_scores report) adv (calibrate (mr_scores report))"
proof (rule calibrated_run_passes)
  obtain responses where m: "run_metrics (ragas_score (replay_judge (gc_key_of g) (gc_judge_model g)
      (gc_ragas_fp g) DEFAULT_METRICS judge_store) DEFAULT_METRICS) (gc_golden g) responses = Inr report"
    using gate_run_ok [OF assms(1)] by blast
  show "distinct (map fst (mr_scores report))" using run_metrics_f64 [OF m] by simp
  have "list_all (unit_score \<circ> snd) (mr_scores report)"
    by (rule run_metrics_unit [OF _ m assms(2)])
      (auto simp: replay_judge_def dest: judged split: sum.splits option.splits)
  then show "\<forall>v\<in>snd ` set (mr_scores report). \<exists>q. v = Fin q \<and> is_f64 (Fin q) \<and> 0 \<le> q \<and> q \<le> 1"
    using run_metrics_f64 [OF m] by (fastforce simp: list_all_iff dest: unit_score_Fin)
  show "\<forall>r\<in>set adv. case_passed r" by (rule assms(4))
qed


definition demo_gate_env :: gate_env where
  "demo_gate_env = \<lparr>ge_key_of = (\<lambda>_. ''k''), ge_golden = [], ge_cases = [demo_case], ge_rag_fp = ''fp'',
     ge_ragas_fp = ''rf'', ge_vars = [(''ATLAS_EVAL_JUDGE_MODEL'', ''m'')], ge_now = ''2026-07-01''\<rparr>"

lemma demo_recalibration:
  "\<exists>report adv b file'. run_command True demo_gate_env live demo_store [] None = (Inr (report, adv, b), file')
     \<and> (\<forall>r\<in>set adv. case_passed r)"
proof -
  have pins: "gate_run (config_for demo_gate_env None) live [] (demo_store, 0)
      = gate_run demo_gate_config live [] (demo_store, 0)"
    by (rule gate_run_pins)
      (simp_all add: config_for_def demo_gate_env_def demo_gate_config_def judge_of_def var_or_def)
  obtain report adv s where run: "gate_run demo_gate_config live [] (demo_store, 0) = (Inr (report, adv), s)"
    and passed: "gate_passed (mr_scores report) adv (gc_baseline demo_gate_config)"
    using demo_gate_exit [of live] by (auto simp: gate_main_def split: prod.splits sum.splits if_splits)
  have "adversarial_passed adv"
    by (rule gate_passed_adversarial [OF passed]) (simp add: demo_gate_config_def)
  moreover obtain advr where "score_adversarial (gc_cases demo_gate_config) advr = Inr adv"
    using gate_run_ok [OF run] by blast
  then have "length adv = length (gc_cases demo_gate_config)"
    unfolding score_adversarial_def by (rule res_map_length)
  then have "length adv < 2 ^ 53" by (simp add: demo_gate_config_def)
  ultimately have "\<forall>r\<in>set adv. case_passed r" by (simp add: adversarial_passed_def pass_rate_one)
  with run show ?thesis by (simp add: run_command_def pins Let_def)
qed

end
