(* ===== verification/Eval_Record.thy ===== *)
theory Eval_Record
  imports Eval_Recalibrate
begin

text \<open>
  Recording and comparing cassettes: the live recorder (\<open>evals/atlas_evals/record.py\<close>) with the
  recording half of the judge's scorer (\<open>metrics/ragas_scorer.py\<close>), the comparison of two cassette sets
  (\<open>ab.py\<close>), the fingerprint of the code under test (\<open>fingerprint.py\<close>) and the Langfuse data set
  (\<open>langfuse_sync.py\<close>). The services, the judge and the hash are parameters.
\<close>

section \<open>Fingerprints\<close>

definition BEHAVIOUR_FILES :: "string list" where
  "BEHAVIOUR_FILES =
     map (\<lambda>f. ''rag-engine/src/main/java/com/atlas/ragengine/'' @ f @ ''.java'')
       [''qa/QueryService'', ''qa/CitationExtractor'', ''guardrail/InjectionGuardrail'',
        ''retrieval/HybridDocumentRetriever'', ''retrieval/DenseRetriever'', ''retrieval/SparseRetriever'',
        ''retrieval/ReciprocalRankFusion'', ''retrieval/RrfPassThroughReranker'', ''retrieval/LlmReranker'',
        ''retrieval/RetrievalProperties'']"

text \<open>The hash sees the concatenation of the updates; \<open>file\<close> gives the content, \<open>None\<close> if it is missing.\<close>

definition behaviour_bytes :: "(string \<Rightarrow> string option) \<Rightarrow> string" where
  "behaviour_bytes file =
     concat (map (\<lambda>rel. rel @ (case file rel of Some s \<Rightarrow> s | None \<Rightarrow> ''<missing>'')) BEHAVIOUR_FILES)"

definition rag_fingerprint :: "(string \<Rightarrow> string) \<Rightarrow> (string, string) dict \<Rightarrow> (string \<Rightarrow> string option) \<Rightarrow> string" where
  "rag_fingerprint sha256_hex vars file =
     str_join ''|''
       [(case dict_get vars ''OLLAMA_CHAT_MODEL'' of Some v \<Rightarrow> v | None \<Rightarrow> ''qwen2.5:3b-instruct''),
        (case dict_get vars ''OLLAMA_EMBED_MODEL'' of Some v \<Rightarrow> v | None \<Rightarrow> ''nomic-embed-text''),
        ''rag:'' @ take 8 (sha256_hex (behaviour_bytes file))]"

definition ragas_fingerprint :: "string option \<Rightarrow> string" where
  "ragas_fingerprint version = (case version of Some v \<Rightarrow> ''ragas:'' @ v | None \<Rightarrow> ''ragas:unknown'')"

section \<open>Scoring through cassettes\<close>

text \<open>
  \<open>RagasScorer.score\<close> in any mode: \<open>live n s\<close> is what the judge says of sample \<open>s\<close> at its \<open>n\<close>-th call. The
  values are kept as JSON, and read as scores when the means are taken.
\<close>

fun judge_session ::
  "cassette_mode \<Rightarrow> (eval_sample \<Rightarrow> string) \<Rightarrow> (nat \<Rightarrow> eval_sample \<Rightarrow> (cassette_error, json) result) \<Rightarrow> eval_sample list
     \<Rightarrow> cassettes \<times> nat \<Rightarrow> (cassette_error, (json \<times> json) list) result \<times> cassettes \<times> nat" where
  "judge_session mode key live [] s = (Inr [], s)"
| "judge_session mode key live (x # xs) (store, n) =
     (case record_or_replay mode (key x) (live n x) (JObj [(''id'', es_id x)]) store of
        (Inl e, store', called) \<Rightarrow> (Inl e, store', if called then Suc n else n)
      | (Inr v, store', called) \<Rightarrow>
          (case judge_session mode key live xs (store', if called then Suc n else n) of
             (Inl e, s) \<Rightarrow> (Inl e, s)
           | (Inr kvs, s) \<Rightarrow> (Inr ((es_id x, v) # kvs), s)))"

definition scores_of :: "(json \<times> json) list \<Rightarrow> (json \<times> sample_scores) list option" where
  "scores_of kvs = opt_map (\<lambda>(k, v). map_option (\<lambda>sc. (k, sc)) (sample_scores_of v)) kvs"

definition session_means ::
  "(cassette_error, (json \<times> json) list) result \<Rightarrow> (metric_error, (string, pyfloat) dict) result" where
  "session_means r =
     (case r of
        Inl e \<Rightarrow> Inl ScorerError
      | Inr kvs \<Rightarrow>
          (case scores_of kvs of
             None \<Rightarrow> Inl ScorerError
           | Some ks \<Rightarrow> metric_means (fold (\<lambda>(k, sc). dict_set k sc) ks []) DEFAULT_METRICS))"

section \<open>The recorder\<close>

definition judge_key_for :: "gate_config \<Rightarrow> eval_sample \<Rightarrow> string" where
  "judge_key_for g = judge_key (gc_key_of g) (gc_judge_model g) (gc_ragas_fp g) DEFAULT_METRICS"

definition answers_of :: "golden_tuple list \<Rightarrow> json list \<Rightarrow> (run_error, (json, rag_response) dict) result" where
  "answers_of ts vs =
     (case opt_map rag_response_of vs of
        None \<Rightarrow> Inl BadResponse
      | Some rs \<Rightarrow> Inr (pd.fill (zip (map gt_id ts) rs) []))"

definition record_judgements ::
  "cassette_mode \<Rightarrow> gate_config \<Rightarrow> (nat \<Rightarrow> eval_sample \<Rightarrow> (cassette_error, json) result) \<Rightarrow> json list \<Rightarrow> cassettes
     \<Rightarrow> (run_error, metric_report) result \<times> cassettes" where
  "record_judgements mode g live_judge vs judge =
     (case answers_of (gc_golden g) vs of
        Inl e \<Rightarrow> (Inl e, judge)
      | Inr responses \<Rightarrow>
          (case build_samples (gc_golden g) responses of
             Inl e \<Rightarrow> (Inl (RunMetric e), judge)
           | Inr samples \<Rightarrow>
               (case judge_session mode (judge_key_for g) live_judge samples (judge, 0) of
                  (r, j) \<Rightarrow>
                    (map_err RunMetric (run_metrics (\<lambda>_. session_means r) (gc_golden g) responses), fst j))))"

text \<open>Queries first, golden then adversarial, then the judge; the files written so far stay on an error.\<close>

definition record_main ::
  "cassette_mode \<Rightarrow> gate_config \<Rightarrow> (nat \<Rightarrow> query_request \<Rightarrow> (cassette_error, json) result)
     \<Rightarrow> (nat \<Rightarrow> eval_sample \<Rightarrow> (cassette_error, json) result) \<Rightarrow> cassettes \<Rightarrow> cassettes
     \<Rightarrow> (run_error, metric_report) result \<times> cassettes \<times> cassettes" where
  "record_main mode g live live_judge rag judge =
     (case run_queries mode (gc_key_of g) (gc_rag_fp g) live (map golden_request (gc_golden g)) (rag, 0) of
        (Inl e, s1) \<Rightarrow> (Inl (RunCassette e), fst s1, judge)
      | (Inr vs, s1) \<Rightarrow>
          (case run_queries mode (gc_key_of g) (gc_rag_fp g) live (map case_request (gc_cases g)) s1 of
             (Inl e, s2) \<Rightarrow> (Inl (RunCassette e), fst s2, judge)
           | (Inr _, s2) \<Rightarrow>
               (let (report, judge') = record_judgements mode g live_judge vs judge in (report, fst s2, judge'))))"

section \<open>Comparing two sets\<close>

definition AB_REPORT :: "string list" where
  "AB_REPORT = [''faithfulness'', ''answer_relevancy'', ''context_precision'', ''context_recall'']"

text \<open>\<open>scores_for\<close>: a replay of the golden set, without the adversarial cases.\<close>

definition ab_scores ::
  "gate_config \<Rightarrow> cassettes \<Rightarrow> cassettes \<Rightarrow> (run_error, (string, pyfloat) dict) result" where
  "ab_scores g rag judge =
     (case fst (run_queries REPLAY (gc_key_of g) (gc_rag_fp g) (\<lambda>_ _. Inl NoToken) (map golden_request (gc_golden g)) (rag, 0)) of
        Inl e \<Rightarrow> Inl (RunCassette e)
      | Inr vs \<Rightarrow>
          res_bind (answers_of (gc_golden g) vs) (\<lambda>responses.
          res_bind (map_err RunMetric (run_metrics (ragas_score (replay_judge (gc_key_of g) (gc_judge_model g)
                      (gc_ragas_fp g) DEFAULT_METRICS judge) DEFAULT_METRICS) (gc_golden g) responses)) (\<lambda>report.
            Inr (mr_scores report))))"

definition ab_row :: "(string, pyfloat) dict \<Rightarrow> (string, pyfloat) dict \<Rightarrow> string \<Rightarrow> pyfloat option" where
  "ab_row base var m =
     (case (dict_get base m, dict_get var m) of
        (Some b, Some v) \<Rightarrow> Some (f_sub v b)
      | _ \<Rightarrow> None)"

definition ab_improved :: "(string, pyfloat) dict \<Rightarrow> (string, pyfloat) dict \<Rightarrow> nat" where
  "ab_improved base var =
     count_if (\<lambda>m. case ab_row base var m of Some d \<Rightarrow> f_lt (Fin 0) d | None \<Rightarrow> False) AB_REPORT"

section \<open>Langfuse\<close>

definition dataset_item :: "golden_tuple \<Rightarrow> (string \<times> json) list" where
  "dataset_item t =
     [(''input'', JObj [(''query'', gt_question t), (''clearance'', gt_clearance t)]),
      (''expected_output'', gt_ground_truth t),
      (''metadata'', JObj [(''id'', gt_id t), (''layer'', gt_layer t),
         (''expected_source_docs'', JList (gt_expected_docs t)), (''source'', gt_source t)])]"

datatype langfuse_call = CreateDataset string | CreateItem string "(string \<times> json) list"

definition sync_dataset :: "golden_tuple list \<Rightarrow> string \<Rightarrow> langfuse_call list \<times> nat" where
  "sync_dataset ts name = (CreateDataset name # map (\<lambda>t. CreateItem name (dataset_item t)) ts, length ts)"

definition langfuse_enabled :: "(string, string) dict \<Rightarrow> bool" where
  "langfuse_enabled vars \<longleftrightarrow>
     list_all (\<lambda>k. case dict_get vars k of Some v \<Rightarrow> v \<noteq> [] | None \<Rightarrow> False)
       [''LANGFUSE_PUBLIC_KEY'', ''LANGFUSE_SECRET_KEY'']"

section \<open>One judgement\<close>

text \<open>
  \<open>_evaluate_one\<close>: what the judge is shown of a sample, and what is kept of the row of metrics it returns.
  \<open>ask\<close> is the evaluation itself, \<open>None\<close> if it raises.
\<close>

record shown_sample =
  sh_input :: json
  sh_response :: string
  sh_contexts :: "string list"
  sh_reference :: json

definition shown :: "eval_sample \<Rightarrow> shown_sample" where
  "shown s =
     \<lparr>sh_input = es_question s, sh_response = es_answer s,
      sh_contexts = (if es_contexts s = [] then [[]] else es_contexts s), sh_reference = es_ground_truth s\<rparr>"

text \<open>\<open>_as_float\<close>: what is no number, and NaN, becomes null; an integer beyond the range of floats raises.\<close>

definition as_float :: "(string \<Rightarrow> pyfloat option) \<Rightarrow> json \<Rightarrow> json option" where
  "as_float parse v =
     (case v of
        JInt n \<Rightarrow> map_option JFloat (num_float v)
      | _ \<Rightarrow> Some (case json_float parse v of
                   None \<Rightarrow> JNull
                 | Some x \<Rightarrow> if f_eq x x then JFloat x else JNull))"

definition evaluate_one ::
  "(string \<Rightarrow> pyfloat option) \<Rightarrow> (shown_sample \<Rightarrow> string list \<Rightarrow> (string \<times> json) list option) \<Rightarrow> string list
     \<Rightarrow> eval_sample \<Rightarrow> json option" where
  "evaluate_one parse ask metrics s =
     Option.bind (ask (shown s) (filter (\<lambda>m. m \<in> set DEFAULT_METRICS) metrics)) (\<lambda>row.
       map_option JObj (opt_map (\<lambda>m. map_option (Pair m) (as_float parse (obj_get row m))) metrics))"

lemma as_float_entry:
  "as_float parse v = Some u \<Longrightarrow> \<exists>x. metric_entry (m, u) = Some (m, x) \<and> x \<noteq> Some NaN"
  by (cases v) (auto simp: as_float_def metric_entry_def num_float_def f_eq_def split: option.splits if_splits pyfloat.splits)

text \<open>A judgement that was recorded can be read back, has every metric, and none of its scores is NaN.\<close>

lemma recorded_judgement_readable:
  assumes "evaluate_one parse ask metrics s = Some v"
  shows "\<exists>sc. sample_scores_of v = Some sc \<and> map fst sc = metrics \<and> (\<forall>(m, x)\<in>set sc. x \<noteq> Some NaN)"
proof -
  obtain row d where d: "opt_map (\<lambda>m. map_option (Pair m) (as_float parse (obj_get row m))) metrics = Some d" "v = JObj d"
    using assms by (auto simp: evaluate_one_def split: bind_splits)
  from d(1) have "\<exists>sc. opt_map metric_entry d = Some sc \<and> map fst sc = metrics \<and> (\<forall>(m, x)\<in>set sc. x \<noteq> Some NaN)"
  proof (induction metrics arbitrary: d)
    case (Cons m ms)
    obtain u d' where u: "as_float parse (obj_get row m) = Some u" "d = (m, u) # d'"
      "opt_map (\<lambda>m. map_option (Pair m) (as_float parse (obj_get row m))) ms = Some d'"
      using Cons.prems by (auto split: option.splits)
    obtain x where "metric_entry (m, u) = Some (m, x)" "x \<noteq> Some NaN" using as_float_entry [OF u(1)] by blast
    then show ?case using Cons.IH [OF u(3)] u(2) by auto
  qed simp
  then show ?thesis by (simp add: sample_scores_of_def d(2))
qed

section \<open>What was recorded replays\<close>

lemma record_fill:
  assumes "record_or_replay FILL k p m store = (r, store', c)"
  shows "keeps_cassettes store store'" "r = Inr v \<Longrightarrow> cassette_get store' k = Inr v"
  using assms cassette.keeps_put [of store k _ m]
  by (auto simp: record_or_replay_def cassette.keeps_refl cassette_get_put split: if_splits sum.splits)

lemma judge_fill:
  assumes "judge_session FILL key live xs (store, n) = (r, store', n')"
  shows "keeps_cassettes store store'
    \<and> (\<forall>kvs. r = Inr kvs \<longrightarrow> list_all2 (\<lambda>x kv. fst kv = es_id x \<and> cassette_get store' (key x) = Inr (snd kv)) xs kvs)"
  using assms
proof (induction xs arbitrary: store n r store' n')
  case Nil
  then show ?case by (auto simp: cassette.keeps_refl)
next
  case (Cons x xs)
  obtain r1 s1 c where step: "record_or_replay FILL (key x) (live n x) (JObj [(''id'', es_id x)]) store = (r1, s1, c)"
    by (metis surj_pair)
  note kept = record_fill [OF step]
  show ?case
  proof (cases r1)
    case (Inl e)
    then show ?thesis using Cons.prems kept(1) by (auto simp: step)
  next
    case (Inr v)
    obtain r2 s2 n2 where rest: "judge_session FILL key live xs (s1, if c then Suc n else n) = (r2, s2, n2)"
      by (metis surj_pair)
    note IH = Cons.IH [OF rest]
    have out: "store' = s2" "r = (case r2 of Inl e \<Rightarrow> Inl e | Inr kvs \<Rightarrow> Inr ((es_id x, v) # kvs))"
      using Cons.prems by (auto simp: step Inr rest split: sum.splits)
    have "keeps_cassettes store s2" using cassette.keeps_trans [OF kept(1)] IH by blast
    moreover have "cassette_get s2 (key x) = Inr v" using cassette.keeps_fetch IH kept(2) Inr by blast
    ultimately show ?thesis using IH by (auto simp: out split: sum.splits)
  qed
qed

lemma replayed_scores:
  assumes "list_all2 (\<lambda>x kv. fst kv = es_id x \<and> cassette_get judge (judge_key_for g x) = Inr (snd kv)) samples kvs"
    and "scores_of kvs = Some ks"
  shows "res_map (\<lambda>s. res_bind (replay_judge (gc_key_of g) (gc_judge_model g) (gc_ragas_fp g) DEFAULT_METRICS judge s)
      (\<lambda>sc. Inr (es_id s, sc))) samples = Inr ks"
  using assms
proof (induction samples kvs arbitrary: ks rule: list_all2_induct)
  case (Cons x xs kv kvs)
  obtain k v where kv: "kv = (k, v)" by fastforce
  with Cons.prems obtain sc ks' where sc: "sample_scores_of v = Some sc" "scores_of kvs = Some ks'" "ks = (k, sc) # ks'"
    by (auto simp: scores_of_def split: option.splits)
  from Cons.IH [OF sc(2)] Cons.hyps(1) sc show ?case
    by (simp add: kv replay_judge_def judge_key_for_def)
qed (simp add: scores_of_def)

lemma session_means_replay:
  assumes "session_means r = Inr scores"
    and "\<And>kvs. r = Inr kvs \<Longrightarrow> list_all2 (\<lambda>x kv. fst kv = es_id x \<and> cassette_get judge (judge_key_for g x) = Inr (snd kv)) samples kvs"
  shows "ragas_score (replay_judge (gc_key_of g) (gc_judge_model g) (gc_ragas_fp g) DEFAULT_METRICS judge)
     DEFAULT_METRICS samples = Inr scores"
proof -
  obtain kvs ks where r: "r = Inr kvs" "scores_of kvs = Some ks"
    and means: "metric_means (fold (\<lambda>(k, sc). dict_set k sc) ks []) DEFAULT_METRICS = Inr scores"
    using assms(1) by (auto simp: session_means_def split: sum.splits option.splits)
  from replayed_scores [OF assms(2) [OF r(1)] r(2)] means show ?thesis by (simp add: ragas_score_def)
qed

lemma kept_session:
  assumes "keeps_cassettes store store'"
    and "res_map (\<lambda>q. cassette_get store (query_key key_of fp q)) qs = Inr vs"
  shows "res_map (\<lambda>q. cassette_get store' (query_key key_of fp q)) qs = Inr vs"
  using assms(2) cassette.keeps_fetch [OF assms(1)] by (auto simp: res_map_Inr_iff elim: list_all2_mono)

lemma ask_all_answers:
  assumes "res_map (\<lambda>q. cassette_get store (query_key key_of fp q)) (map golden_request ts) = Inr vs"
    and "answers_of ts vs = Inr responses"
  shows "ask_all key_of fp live (map (\<lambda>t. (gt_id t, golden_request t)) ts) (store, n) = (Inr responses, store, n)"
  using assms by (auto simp: ask_all_def replay_session comp_def answers_of_def split: option.splits)

lemma ask_all_adversarial:
  assumes "res_map (\<lambda>q. cassette_get store (query_key key_of fp q)) (map case_request cs) = Inr vs"
  shows "\<exists>advr. ask_all key_of fp live (map (\<lambda>c. (ac_id c, case_request c)) cs) (store, n) \<in> {(Inl BadResponse, store, n), (Inr advr, store, n)}"
  using assms by (auto simp: ask_all_def replay_session comp_def split: option.splits)

text \<open>C26: What the recorder recorded, the gate replays. After a recording session in the resumable (FILL)
  mode that completes, a run of the gate under the same pins answers every golden question and judges
  every sample from the files: it computes the very report the recorder printed, with no live call,
  no file changed and no missing cassette; only the shape of an adversarial response, which the
  recorder does not read, can still stop it. No cassette that existed before was overwritten.\<close>

theorem recorded_run_replays:
  assumes "record_main FILL g live live_judge rag judge = (Inr report, rag', judge')"
  shows "((\<exists>adv. gate_run g live' judge' (rag', n) = (Inr (report, adv), rag', n))
      \<or> gate_run g live' judge' (rag', n) = (Inl BadResponse, rag', n)
      \<or> (\<exists>x. gate_run g live' judge' (rag', n) = (Inl (RunScorer x), rag', n)))
    \<and> (\<forall>k v. cassette_get rag k = Inr v \<longrightarrow> cassette_get rag' k = Inr v)
    \<and> (\<forall>k v. cassette_get judge k = Inr v \<longrightarrow> cassette_get judge' k = Inr v)"
proof -
  obtain r1 s1 n1 where q1': "run_queries FILL (gc_key_of g) (gc_rag_fp g) live (map golden_request (gc_golden g)) (rag, 0) = (r1, s1, n1)"
    by (metis surj_pair)
  obtain vs where r1: "r1 = Inr vs" using assms by (cases r1) (simp_all add: record_main_def q1')
  note q1 = q1' [unfolded r1]
  obtain r2 s2 n2 where q2': "run_queries FILL (gc_key_of g) (gc_rag_fp g) live (map case_request (gc_cases g)) (s1, n1) = (r2, s2, n2)"
    by (metis surj_pair)
  obtain advs where r2: "r2 = Inr advs" using assms by (cases r2) (simp_all add: record_main_def q1 q2')
  note q2 = q2' [unfolded r2]
  have rj: "record_judgements FILL g live_judge vs judge = (Inr report, judge')" and rag': "rag' = s2"
    using assms by (simp_all add: record_main_def q1 q2 split: prod.splits)
  obtain responses where ans: "answers_of (gc_golden g) vs = Inr responses"
    using rj by (cases "answers_of (gc_golden g) vs") (simp_all add: record_judgements_def)
  obtain samples where samples: "build_samples (gc_golden g) responses = Inr samples"
    using rj by (cases "build_samples (gc_golden g) responses") (simp_all add: record_judgements_def ans)
  obtain r j m where js: "judge_session FILL (judge_key_for g) live_judge samples (judge, 0) = (r, j, m)"
    by (metis surj_pair)
  have out: "run_metrics (\<lambda>_. session_means r) (gc_golden g) responses = Inr report" "rag' = s2" "judge' = j"
    using rj rag' by (simp_all add: record_judgements_def ans samples js)
  note f1 = fill_session [OF q1] and f2 = fill_session [OF q2] and fj = judge_fill [OF js]
  have golden: "ask_all (gc_key_of g) (gc_rag_fp g) live' (map (\<lambda>t. (gt_id t, golden_request t)) (gc_golden g)) (s2, n)
      = (Inr responses, s2, n)"
    by (rule ask_all_answers [OF kept_session [of s1 s2] ans]) (use f1 f2 in simp_all)
  obtain scores where scores: "session_means r = Inr scores"
    using out(1) samples by (auto simp: run_metrics_def res_bind_Inr_iff)
  have "ragas_score (replay_judge (gc_key_of g) (gc_judge_model g) (gc_ragas_fp g) DEFAULT_METRICS j)
     DEFAULT_METRICS samples = Inr scores"
    by (rule session_means_replay [OF scores]) (use fj in blast)
  then have rep: "run_metrics (ragas_score (replay_judge (gc_key_of g) (gc_judge_model g) (gc_ragas_fp g) DEFAULT_METRICS j)
     DEFAULT_METRICS) (gc_golden g) responses = Inr report"
    using out(1) samples scores by (simp add: run_metrics_def)
  have adv: "\<exists>advr. ask_all (gc_key_of g) (gc_rag_fp g) live' (map (\<lambda>c. (ac_id c, case_request c)) (gc_cases g)) (s2, n)
      \<in> {(Inl BadResponse, s2, n), (Inr advr, s2, n)}"
    by (rule ask_all_adversarial) (use f2 in blast)
  have "(\<exists>adv. gate_run g live' j (s2, n) = (Inr (report, adv), s2, n))
      \<or> gate_run g live' j (s2, n) = (Inl BadResponse, s2, n)
      \<or> (\<exists>x. gate_run g live' j (s2, n) = (Inl (RunScorer x), s2, n))"
  proof -
    obtain advr where "ask_all (gc_key_of g) (gc_rag_fp g) live' (map (\<lambda>c. (ac_id c, case_request c)) (gc_cases g)) (s2, n)
      \<in> {(Inl BadResponse, s2, n), (Inr advr, s2, n)}" using adv by blast
    then show ?thesis
      by (cases "score_adversarial (gc_cases g) advr") (auto simp: gate_run_def golden rep)
  qed
  moreover have "keeps_cassettes rag s2" using cassette.keeps_trans f1 f2 by blast
  ultimately show ?thesis using cassette.keeps_fetch fj unfolding out(2,3) by blast
qed

text \<open>A first session of one golden question and one case against an empty directory.\<close>

definition demo_golden :: golden_tuple where
  "demo_golden = \<lparr>gt_id = JStr ''g1'', gt_layer = JStr ''l'', gt_clearance = JStr ''analyst'', gt_question = JStr ''q'',
     gt_ground_truth = JStr ''t'', gt_expected_docs = [], gt_source = JStr ''s''\<rparr>"

definition demo_record_config :: gate_config where
  "demo_record_config = demo_gate_config\<lparr>gc_golden := [demo_golden],
     gc_key_of := (\<lambda>vs. case vs of JStr s # _ \<Rightarrow> s | _ \<Rightarrow> [])\<rparr>"

definition demo_answer :: json where
  "demo_answer = JObj [(''answer'', JStr ''no''), (''contexts'', JList [])]"

definition demo_judged :: json where
  "demo_judged = JObj [(''faithfulness'', JFloat (Fin 1))]"

lemma demo_recorded:
  "\<exists>report rag judge. record_main FILL demo_record_config (\<lambda>_ _. Inr demo_answer) (\<lambda>_ _. Inr demo_judged) [] []
     = (Inr report, rag, judge)"
proof -
  obtain c where c: "fmean [citation_resolution_rate ''no'' 0] = Some c"
  proof -
    have "fmean [citation_resolution_rate ''no'' 0] \<noteq> None" by code_simp
    then show ?thesis using that by blast
  qed
  obtain ms where ms: "session_means (Inr [(JStr ''g1'', demo_judged)]) = Inr ms"
  proof -
    have "is_ok (session_means (Inr [(JStr ''g1'', demo_judged)]))" by code_simp
    then show ?thesis using that by (auto simp: is_ok_def split: sum.splits)
  qed
  have resp: "rag_response_of demo_answer = Some \<lparr>rr_answer = Some ''no'', rr_contexts = [], rr_citations = []\<rparr>"
    by code_simp
  note step = cassetting_query_def record_or_replay_def has_cassette_def query_key_def cassette_put_def cassette_get_def
  define k where "k = (\<lambda>vs. case vs of JStr s # _ \<Rightarrow> s | _ \<Rightarrow> [])"
  have g: "gc_key_of demo_record_config = k" "gc_golden demo_record_config = [demo_golden]"
    "gc_cases demo_record_config = [demo_case]"
    by (simp_all add: demo_record_config_def demo_gate_config_def k_def)
  have q1: "\<exists>s1 n1. run_queries FILL k fp (\<lambda>_ _. Inr demo_answer) [golden_request demo_golden] ([], 0) = (Inr [demo_answer], s1, n1)"
    for fp by (simp add: step k_def)
  obtain s1 n1 where s1: "run_queries FILL k ''fp'' (\<lambda>_ _. Inr demo_answer) [golden_request demo_golden] ([], 0)
      = (Inr [demo_answer], s1, n1)" using q1 by blast
  have q2: "\<exists>v s2 n2. run_queries FILL k ''fp'' (\<lambda>_ _. Inr demo_answer) [case_request demo_case] (s1, n1) = (Inr [v], s2, n2)"
    using s1 by (auto simp: step k_def)
  then obtain v s2 n2 where s2: "run_queries FILL k ''fp'' (\<lambda>_ _. Inr demo_answer) [case_request demo_case] (s1, n1)
      = (Inr [v], s2, n2)" by blast
  have fp: "gc_rag_fp demo_record_config = ''fp''" by (simp add: demo_record_config_def demo_gate_config_def)
  have j: "\<exists>s m. judge_session FILL (judge_key_for demo_record_config) (\<lambda>_ _. Inr demo_judged) [x] ([], 0)
      = (Inr [(es_id x, demo_judged)], s, m)" for x
    by (simp add: record_or_replay_def has_cassette_def)
  have ans: "answers_of [demo_golden] [demo_answer] = Inr [(JStr ''g1'', \<lparr>rr_answer = Some ''no'', rr_contexts = [], rr_citations = []\<rparr>)]"
    by (simp add: answers_of_def resp pd.fill_def demo_golden_def)
  have smp: "build_samples [demo_golden] [(JStr ''g1'', \<lparr>rr_answer = Some ''no'', rr_contexts = [], rr_citations = []\<rparr>)]
      = Inr [\<lparr>es_id = JStr ''g1'', es_question = JStr ''q'', es_answer = ''no'', es_contexts = [], es_ground_truth = JStr ''t''\<rparr>]"
    (is "_ = Inr [?x]")
    by (simp add: build_samples_def build_sample_def demo_golden_def text_or_empty_def)
  obtain s m where sm: "judge_session FILL (judge_key_for demo_record_config) (\<lambda>_ _. Inr demo_judged) [?x] ([], 0)
      = (Inr [(JStr ''g1'', demo_judged)], s, m)" using j [of ?x] by auto
  have "\<exists>report. record_judgements FILL demo_record_config (\<lambda>_ _. Inr demo_judged) [demo_answer] [] = (Inr report, s)"
    by (simp add: record_judgements_def g ans smp sm run_metrics_def ms c del: judge_session.simps)
  then show ?thesis by (auto simp: record_main_def g fp s1 s2 simp del: run_queries.simps)
qed

lemma recorded_run_replays_witness:
  "\<exists>report rag judge. \<forall>live. (\<exists>adv. gate_run demo_record_config live judge (rag, 0) = (Inr (report, adv), rag, 0))
      \<or> gate_run demo_record_config live judge (rag, 0) = (Inl BadResponse, rag, 0)
      \<or> (\<exists>x. gate_run demo_record_config live judge (rag, 0) = (Inl (RunScorer x), rag, 0))"
proof -
  obtain report rag judge where r: "record_main FILL demo_record_config (\<lambda>_ _. Inr demo_answer) (\<lambda>_ _. Inr demo_judged) [] []
     = (Inr report, rag, judge)" using demo_recorded by blast
  show ?thesis by (intro exI allI) (rule conjunct1 [OF recorded_run_replays [OF r]])
qed
end
