(* ===== verification/Eval_Summary.thy ===== *)
theory Eval_Summary
  imports Eval_Recalibrate Agent_Eval
begin

text \<open>
  The published summary (\<open>evals/scripts/refresh_eval_summary.py\<close>): what the user interface shows of the two
  gates and of the cost baseline, taken from the report the merge gate wrote (\<open>evals/atlas_evals/report.py\<close>,
  \<open>build_metrics\<close>), from the standard output of the agent gate (\<open>agents/app/eval/agent_gate.py\<close>, \<open>main\<close>) and
  from the committed cost file. Decoding JSON, printing it and the wording of a failure are parameters.
\<close>

section \<open>The report of the merge gate\<close>

definition gate_json :: "(gate_failure \<Rightarrow> string) \<Rightarrow> gate_failure list \<Rightarrow> json" where
  "gate_json wording fs = JObj [(''passed'', JBool (fs = [])), (''failures'', JList (map (JStr \<circ> wording) fs))]"

definition violations_json :: "(violation \<Rightarrow> string \<times> string) \<Rightarrow> case_result list \<Rightarrow> json" where
  "violations_json describe adv =
     JList (concat (map (\<lambda>r. map (\<lambda>v. JObj [(''case'', JStr (cr_case_id r)), (''kind'', JStr (fst (describe v))),
       (''detail'', JStr (snd (describe v)))]) (cr_violations r)) adv))"

definition gate_threshold_json :: "metric_threshold \<Rightarrow> json" where
  "gate_threshold_json t =
     JObj [(''floor'', float_or_null (mt_floor t)), (''baseline'', float_or_null (mt_baseline t)),
       (''max_regression'', float_or_null (mt_max_regression t)), (''report_only'', JBool (mt_report_only t))]"

definition build_metrics ::
  "(gate_failure \<Rightarrow> string) \<Rightarrow> (violation \<Rightarrow> string \<times> string) \<Rightarrow> metric_report \<Rightarrow> case_result list \<Rightarrow> full_baseline
     \<Rightarrow> (string \<times> json) list" where
  "build_metrics wording describe report adv b =
     [(''gate'', gate_json wording (evaluate_gate (mr_scores report) adv (fb_gate b))),
      (''n_samples'', JInt (int (mr_n_samples report))),
      (''scores'', JObj (map (\<lambda>(k, v). (k, JFloat (f_round v 4))) (mr_scores report))),
      (''thresholds'', JObj (map (\<lambda>(k, t). (k, gate_threshold_json t)) (bl_metrics (fb_gate b)))),
      (''adversarial'', JObj [(''pass_rate'', JFloat (f_round (pass_rate adv) 4)),
         (''passed'', JBool (adversarial_passed adv)), (''violations'', violations_json describe adv)]),
      (''judge_model'', JStr (fb_judge_model b)),
      (''judge_temperature'', JFloat (fb_judge_temperature b)),
      (''recorded_at'', JStr (fb_recorded_at b)),
      (''git_sha'', JStr (fb_git_sha b))]"

section \<open>Reading it\<close>

text \<open>\<open>_round\<close>; a value that is no number raises, which is \<open>None\<close>.\<close>

definition round_json :: "json \<Rightarrow> nat \<Rightarrow> json option" where
  "round_json v n = (if v = JNull then Some JNull else map_option (\<lambda>x. JFloat (f_round x n)) (json_number v))"

definition sub_get :: "(string \<times> json) list \<Rightarrow> string \<Rightarrow> (string \<times> json) list option" where
  "sub_get d k = (case obj_get_or d k (JObj []) of JObj x \<Rightarrow> Some x | _ \<Rightarrow> None)"

definition RAG_SCORES :: "(string \<times> string) list" where
  "RAG_SCORES = [(''faithfulness'', ''faithfulness''), (''answerRelevancy'', ''answer_relevancy''),
     (''contextPrecision'', ''context_precision''), (''contextRecall'', ''context_recall''),
     (''citationCorrectness'', ''citation_correctness'')]"

definition rounded_fields :: "(string \<times> json) list \<Rightarrow> nat \<Rightarrow> (string \<times> string) list \<Rightarrow> (string \<times> json) list option" where
  "rounded_fields d n wanted = opt_map (\<lambda>(out, k). map_option (\<lambda>v. (out, v)) (round_json (obj_get d k) n)) wanted"

definition load_rag :: "(string \<times> json) list \<Rightarrow> (string \<times> json) list option" where
  "load_rag d =
     (case (sub_get d ''scores'', sub_get d ''gate'', sub_get d ''adversarial'') of
        (Some scores, Some gate, Some adv) \<Rightarrow>
          (case (rounded_fields scores 4 RAG_SCORES, round_json (obj_get adv ''pass_rate'') 4) of
             (Some ss, Some share) \<Rightarrow>
               Some [(''passed'', JBool (json_truthy (obj_get_or gate ''passed'' (JBool False)))),
                 (''nSamples'', obj_get d ''n_samples''), (''scores'', JObj ss), (''adversarialPassRate'', share),
                 (''recordedAt'', obj_get d ''recorded_at''), (''judgeModel'', obj_get d ''judge_model'')]
           | _ \<Rightarrow> None)
      | _ \<Rightarrow> None)"

definition COST_FIELDS :: "(string \<times> string) list" where
  "COST_FIELDS = [(''costOffUnits'', ''cost_off_units''), (''costOnUnits'', ''cost_on_units''),
     (''cacheSimThreshold'', ''cache_sim_threshold'')]"

definition load_cost :: "(string \<times> json) list \<Rightarrow> (string \<times> json) list option" where
  "load_cost d =
     (case (rounded_fields d 1 [(''costReductionPct'', ''cost_reduction_pct''), (''targetReductionPct'', ''target_reduction_pct'')],
            rounded_fields d 4 COST_FIELDS) of
        (Some ps, Some us) \<Rightarrow>
          Some (ps @ [(''meetsTarget'', JBool (json_truthy (obj_get d ''meets_target'')))] @ us
            @ [(''recordedAt'', obj_get d ''recorded_at'')])
      | _ \<Rightarrow> None)"

section \<open>The agent gate\<close>

text \<open>\<open>ScoreReport.to_dict\<close> without the results, as \<open>main\<close> prints it.\<close>

definition agent_summary :: "scenario_result list \<Rightarrow> (string \<times> json) list" where
  "agent_summary rs =
     [(''scenarios'', JInt (int (length rs))),
      (''task_success_rate'', JFloat (rate sr_task_success rs)),
      (''tool_selection_rate'', JFloat (rate sr_tool_selection rs)),
      (''argument_correctness_rate'', JFloat (rate sr_argument_correct rs)),
      (''step_efficiency_rate'', JFloat (rate sr_step_efficient rs)),
      (''plan_adherence_rate'', JFloat (rate sr_plan_adhered rs)),
      (''hitl_respected'', JBool (list_all sr_hitl_respected rs)),
      (''authorization_respected'', JBool (list_all sr_authorization_respected rs)),
      (''unapproved_writes'', JInt (int (count_if (\<lambda>r. \<not> sr_hitl_respected r) rs))),
      (''unauthorized_writes'', JInt (int (count_if (\<lambda>r. \<not> sr_authorization_respected r) rs)))]"

definition PASS_LINE :: string where
  "PASS_LINE = ''AGENT GATE: PASS''"

definition result_line :: "scenario_result \<Rightarrow> string" where
  "result_line r =
     ''  ['' @ (if sr_task_success r \<and> sr_hitl_respected r \<and> sr_authorization_respected r then ''ok'' else ''FAIL'')
       @ ''] '' @ sr_name r"

definition gate_lines :: "(agent_failure \<Rightarrow> string) \<Rightarrow> scenario_result list \<Rightarrow> agent_thresholds \<Rightarrow> string list" where
  "gate_lines wording rs th =
     map result_line rs
     @ (case evaluate_agent_gate rs th of
          [] \<Rightarrow> [PASS_LINE]
        | fs \<Rightarrow> ''AGENT GATE: FAIL'' # map (\<lambda>f. ''  - '' @ wording f) fs)"

text \<open>What \<open>main\<close> prints, with its exit code.\<close>

definition agent_gate_main ::
  "((string \<times> json) list \<Rightarrow> string) \<Rightarrow> (agent_failure \<Rightarrow> string) \<Rightarrow> scenario_result list \<Rightarrow> agent_thresholds \<Rightarrow> string \<times> int" where
  "agent_gate_main dumps wording rs th =
     (concat (map (\<lambda>l. l @ [CHR 0x0A]) (dumps (agent_summary rs) # gate_lines wording rs th)),
      if evaluate_agent_gate rs th = [] then 0 else 1)"

section \<open>Finding the object in the output\<close>

text \<open>How many characters, from here, the object takes that is open \<open>d\<close> levels deep.\<close>

fun object_end :: "nat \<Rightarrow> string \<Rightarrow> nat option" where
  "object_end d [] = None"
| "object_end d (c # cs) =
     (if c = CHR ''{'' then map_option Suc (object_end (d + 1) cs)
      else if c = CHR ''}'' then (if d = 1 then Some 1 else map_option Suc (object_end (d - 1) cs))
      else map_option Suc (object_end d cs))"

datatype summary_error = NoObject | Unbalanced | Undecodable | BadField

definition first_object :: "string \<Rightarrow> (summary_error, string) result" where
  "first_object out =
     (let rest = dropWhile (\<lambda>c. c \<noteq> CHR ''{'') out
      in if rest = [] then Inl NoObject
         else case object_end 0 rest of None \<Rightarrow> Inl Unbalanced | Some n \<Rightarrow> Inr (take n rest))"

definition AGENT_RATES :: "(string \<times> string) list" where
  "AGENT_RATES = [(''taskSuccessRate'', ''task_success_rate''), (''toolSelectionRate'', ''tool_selection_rate''),
     (''argumentCorrectnessRate'', ''argument_correctness_rate''), (''planAdherenceRate'', ''plan_adherence_rate''),
     (''stepEfficiencyRate'', ''step_efficiency_rate'')]"

definition run_agent_gate :: "(string \<Rightarrow> json option) \<Rightarrow> string \<Rightarrow> (summary_error, (string \<times> json) list) result" where
  "run_agent_gate loads out =
     res_bind (first_object out) (\<lambda>s.
       case loads s of
         Some (JObj d) \<Rightarrow>
           (case rounded_fields d 4 AGENT_RATES of
              None \<Rightarrow> Inl BadField
            | Some shares \<Rightarrow>
                Inr ([(''passed'', JBool (str_in PASS_LINE out)), (''scenarios'', obj_get d ''scenarios'')] @ shares
                  @ [(''hitlRespected'', JBool (json_truthy (obj_get d ''hitl_respected''))),
                     (''authorizationRespected'', JBool (json_truthy (obj_get d ''authorization_respected''))),
                     (''unapprovedWrites'', obj_get d ''unapproved_writes''),
                     (''unauthorizedWrites'', obj_get d ''unauthorized_writes'')]))
       | _ \<Rightarrow> Inl Undecodable)"

text \<open>The two files of \<open>main\<close>: \<open>eval-summary.json\<close> and \<open>cost-summary.json\<close>.\<close>

definition publish ::
  "string \<Rightarrow> string \<Rightarrow> (string \<times> json) list \<Rightarrow> (summary_error, (string \<times> json) list) result \<Rightarrow> (string \<times> json) list
     \<Rightarrow> (summary_error, (string \<times> json) list \<times> (string \<times> json) list) result" where
  "publish now sha rag agent cost =
     (case load_rag rag of
        None \<Rightarrow> Inl BadField
      | Some r \<Rightarrow>
          res_bind agent (\<lambda>a.
            case load_cost cost of
              None \<Rightarrow> Inl BadField
            | Some c \<Rightarrow>
                Inr ([(''generatedAt'', JStr now), (''gitSha'', JStr sha), (''rag'', JObj r), (''agent'', JObj a)],
                     [(''generatedAt'', JStr now), (''gitSha'', JStr sha)] @ c)))"


section \<open>The object is found\<close>

text \<open>Texts whose braces match.\<close>

inductive balanced :: "string \<Rightarrow> bool" where
  bal_nil: "balanced []"
| bal_char: "c \<noteq> CHR ''{'' \<Longrightarrow> c \<noteq> CHR ''}'' \<Longrightarrow> balanced s \<Longrightarrow> balanced (c # s)"
| bal_nest: "balanced s \<Longrightarrow> balanced t \<Longrightarrow> balanced (''{'' @ s @ ''}'' @ t)"

lemma balanced_flat: "CHR ''{'' \<notin> set s \<Longrightarrow> CHR ''}'' \<notin> set s \<Longrightarrow> balanced s"
  by (induction s) (auto intro: balanced.intros)

lemma object_end_balanced:
  "balanced s \<Longrightarrow> object_end (Suc d) (s @ t) = map_option (\<lambda>n. length s + n) (object_end (Suc d) t)"
proof (induction s arbitrary: d t rule: balanced.induct)
  case bal_nil
  show ?case by (simp add: option.map_ident)
next
  case (bal_nest s u)
  show ?case
    by (simp add: bal_nest.IH option.map_comp comp_def add.assoc)
qed (auto simp: option.map_comp comp_def intro!: option.map_cong)

lemma first_object_found:
  assumes "balanced s" "CHR ''{'' \<notin> set pre"
  shows "first_object (pre @ (''{'' @ s @ ''}'') @ t) = Inr (''{'' @ s @ ''}'')"
proof -
  have "dropWhile (\<lambda>c. c \<noteq> CHR ''{'') (pre @ (''{'' @ s @ ''}'') @ t) = (''{'' @ s @ ''}'') @ t"
    using assms(2) by (induction pre) auto
  moreover have "object_end 0 ((''{'' @ s @ ''}'') @ t) = Some (length s + 2)"
    using object_end_balanced [OF assms(1), of 0] by simp
  ultimately show ?thesis by (simp add: first_object_def Let_def)
qed

text \<open>A brace inside a string value ends the scan early or late.\<close>

lemma brace_in_text_cuts:
  "CHR ''{'' \<notin> set s \<Longrightarrow> first_object (''{'' @ s @ ''}'' @ t) = Inr (''{'' @ s @ ''}'') \<or> CHR ''}'' \<in> set s"
  using first_object_found [of s "[]" t] balanced_flat [of s] by auto

section \<open>The verdict in the output\<close>

lemma sublist_sep:
  assumes "c \<notin> set p" "p \<noteq> []"
  shows "sublist p (a @ c # b) \<longleftrightarrow> sublist p a \<or> sublist p b"
proof -
  have no: "prefix q (c # b) \<Longrightarrow> c \<notin> set q \<Longrightarrow> q = []" for q by (cases q) auto
  show ?thesis
  proof
    assume "sublist p (a @ c # b)"
    then consider "sublist p a" | "sublist p (c # b)"
      | xs1 xs2 where "p = xs1 @ xs2" "suffix xs1 a" "prefix xs2 (c # b)"
      unfolding sublist_append by blast
    then show "sublist p a \<or> sublist p b"
    proof cases
      case 2
      then show ?thesis using no assms unfolding sublist_Cons_right by blast
    next
      case 3
      then have "xs2 = []" using no assms(1) by simp
      then show ?thesis using 3 suffix_imp_sublist by simp
    qed simp
  next
    assume "sublist p a \<or> sublist p b"
    then show "sublist p (a @ c # b)" unfolding sublist_append sublist_Cons_right by blast
  qed
qed

lemma str_in_lines:
  assumes "CHR 0x0A \<notin> set p" "p \<noteq> []"
  shows "str_in p (concat (map (\<lambda>l. l @ [CHR 0x0A]) ls)) \<longleftrightarrow> (\<exists>l\<in>set ls. str_in p l)"
proof (induction ls)
  case (Cons l ls)
  then show ?case using sublist_sep [OF assms, of l] by simp
qed (use assms in simp)

text \<open>The printed object: braces match inside, and it decodes to the summary (\<open>json.dumps\<close> and \<open>loads\<close>).\<close>

definition printed :: "((string \<times> json) list \<Rightarrow> string) \<Rightarrow> (string \<Rightarrow> json option) \<Rightarrow> (string \<times> json) list \<Rightarrow> bool" where
  "printed dumps loads d \<longleftrightarrow>
     (\<exists>s. dumps d = ''{'' @ s @ ''}'' \<and> balanced s) \<and> loads (dumps d) = Some (JObj d)"

text \<open>No scenario is named after the verdict, and no failure or summary text contains it.\<close>

definition unambiguous ::
  "((string \<times> json) list \<Rightarrow> string) \<Rightarrow> (agent_failure \<Rightarrow> string) \<Rightarrow> scenario_result list \<Rightarrow> agent_thresholds \<Rightarrow> bool" where
  "unambiguous dumps wording rs th \<longleftrightarrow>
     list_all (\<lambda>l. \<not> str_in PASS_LINE l)
       (dumps (agent_summary rs) # map result_line rs @ map (\<lambda>f. ''  - '' @ wording f) (evaluate_agent_gate rs th))"

lemma verdict_in_output:
  assumes "unambiguous dumps wording rs th"
  shows "str_in PASS_LINE (fst (agent_gate_main dumps wording rs th)) \<longleftrightarrow> evaluate_agent_gate rs th = []"
proof -
  have nl: "CHR 0x0A \<notin> set PASS_LINE" "PASS_LINE \<noteq> []" by (simp_all add: PASS_LINE_def)
  have "\<not> str_in PASS_LINE ''AGENT GATE: FAIL''" by code_simp
  then have "(\<exists>l\<in>set (dumps (agent_summary rs) # gate_lines wording rs th). str_in PASS_LINE l) \<longleftrightarrow> evaluate_agent_gate rs th = []"
    using assms by (auto simp: unambiguous_def list_all_iff gate_lines_def split: list.splits)
  then show ?thesis unfolding agent_gate_main_def fst_conv str_in_lines [OF nl] .
qed

section \<open>What is published\<close>

definition published_score :: "(string, pyfloat) dict \<Rightarrow> string \<Rightarrow> json" where
  "published_score scores k =
     (case dict_get scores k of None \<Rightarrow> JNull | Some x \<Rightarrow> JFloat (f_round (f_round x 4) 4))"

lemma round_score:
  "round_json (obj_get (map (\<lambda>(k, v). (k, JFloat (f_round v 4))) scores) k) 4 = Some (published_score scores k)"
proof -
  have "obj_get (map (\<lambda>(k, v). (k, JFloat (f_round v 4))) scores) k
      = (case dict_get scores k of None \<Rightarrow> JNull | Some x \<Rightarrow> JFloat (f_round x 4))"
    by (induction scores) (auto simp: obj_get_def split: option.splits)
  then show ?thesis by (simp add: round_json_def published_score_def split: option.splits)
qed

lemma rounded_scores:
  "rounded_fields (map (\<lambda>(k, v). (k, JFloat (f_round v 4))) scores) 4 wanted =
     Some (map (\<lambda>(out, k). (out, published_score scores k)) wanted)"
  unfolding rounded_fields_def by (induction wanted) (auto simp: round_score)

lemma load_rag_metrics:
  "load_rag (build_metrics wording describe report adv b) =
     Some [(''passed'', JBool (gate_passed (mr_scores report) adv (fb_gate b))),
       (''nSamples'', JInt (int (mr_n_samples report))),
       (''scores'', JObj (map (\<lambda>(out, k). (out, published_score (mr_scores report) k)) RAG_SCORES)),
       (''adversarialPassRate'', JFloat (f_round (f_round (pass_rate adv) 4) 4)),
       (''recordedAt'', JStr (fb_recorded_at b)), (''judgeModel'', JStr (fb_judge_model b))]"
  by (simp add: load_rag_def build_metrics_def sub_get_def obj_get_or_def rounded_scores gate_json_def
      gate_passed_def obj_get_def round_json_def)

lemma agent_part:
  assumes "printed dumps loads (agent_summary rs)" "unambiguous dumps wording rs th"
  shows "run_agent_gate loads (fst (agent_gate_main dumps wording rs th)) =
     Inr [(''passed'', JBool (evaluate_agent_gate rs th = [])), (''scenarios'', JInt (int (length rs))),
       (''taskSuccessRate'', JFloat (f_round (rate sr_task_success rs) 4)),
       (''toolSelectionRate'', JFloat (f_round (rate sr_tool_selection rs) 4)),
       (''argumentCorrectnessRate'', JFloat (f_round (rate sr_argument_correct rs) 4)),
       (''planAdherenceRate'', JFloat (f_round (rate sr_plan_adhered rs) 4)),
       (''stepEfficiencyRate'', JFloat (f_round (rate sr_step_efficient rs) 4)),
       (''hitlRespected'', JBool (list_all sr_hitl_respected rs)),
       (''authorizationRespected'', JBool (list_all sr_authorization_respected rs)),
       (''unapprovedWrites'', JInt (int (count_if (\<lambda>r. \<not> sr_hitl_respected r) rs))),
       (''unauthorizedWrites'', JInt (int (count_if (\<lambda>r. \<not> sr_authorization_respected r) rs)))]"
proof -
  obtain s where s: "dumps (agent_summary rs) = ''{'' @ s @ ''}''" "balanced s"
    using assms(1) unfolding printed_def by blast
  obtain rest where out: "fst (agent_gate_main dumps wording rs th) = [] @ (''{'' @ s @ ''}'') @ rest"
    by (simp add: agent_gate_main_def s(1))
  have "first_object (fst (agent_gate_main dumps wording rs th)) = Inr (dumps (agent_summary rs))"
    unfolding out s(1) by (rule first_object_found) (simp_all add: s(2))
  moreover have "loads (dumps (agent_summary rs)) = Some (JObj (agent_summary rs))"
    using assms(1) by (simp add: printed_def)
  ultimately show ?thesis
    by (simp add: run_agent_gate_def verdict_in_output [OF assms(2)] rounded_fields_def AGENT_RATES_def
        round_json_def obj_get_def agent_summary_def)
qed

text \<open>C27: The published summary says what the gates decided. From the report the merge gate wrote and the
  output the agent gate printed, the summary shows for each of the two \<open>passed\<close> exactly when that gate
  passed (exit code 0 of the agent gate), every published score is the score of the run, rounded as it is
  written, or null if the run has none, and the counts of unapproved and of unauthorised writes are those
  of the results, provided no scenario name and no failure text contains the verdict line.\<close>

theorem published_summary_faithful:
  assumes "printed dumps loads (agent_summary rs)" "unambiguous dumps wording rs th"
    and "load_cost cost = Some c"
  shows "\<exists>r a. publish now sha (build_metrics text_of_failure describe report adv b)
        (run_agent_gate loads (fst (agent_gate_main dumps wording rs th))) cost
      = Inr ([(''generatedAt'', JStr now), (''gitSha'', JStr sha), (''rag'', JObj r), (''agent'', JObj a)],
             [(''generatedAt'', JStr now), (''gitSha'', JStr sha)] @ c)
    \<and> map_of r ''passed'' = Some (JBool (gate_passed (mr_scores report) adv (fb_gate b)))
    \<and> map_of r ''scores'' = Some (JObj (map (\<lambda>(out, k). (out, published_score (mr_scores report) k)) RAG_SCORES))
    \<and> map_of a ''passed'' = Some (JBool (snd (agent_gate_main dumps wording rs th) = 0))
    \<and> map_of a ''unapprovedWrites'' = Some (JInt (int (count_if (\<lambda>r. \<not> sr_hitl_respected r) rs)))
    \<and> map_of a ''unauthorizedWrites'' = Some (JInt (int (count_if (\<lambda>r. \<not> sr_authorization_respected r) rs)))"
  using assms(3)
  by (simp add: publish_def load_rag_metrics agent_part [OF assms(1,2)])
    (simp add: agent_gate_main_def)

lemma published_summary_faithful_witness:
  "\<exists>r a. publish ''now'' ''sha'' (build_metrics (\<lambda>_. []) (\<lambda>_. ([], [])) \<lparr>mr_scores = [], mr_n_samples = 0\<rparr> []
        (calibrated demo_gate_env []))
      (run_agent_gate (\<lambda>_. Some (JObj (agent_summary []))) (fst (agent_gate_main (\<lambda>_. ''{}'') (\<lambda>_. ''below'') [] BASELINE))) []
      = Inr ([(''generatedAt'', JStr ''now''), (''gitSha'', JStr ''sha''), (''rag'', JObj r), (''agent'', JObj a)],
             [(''generatedAt'', JStr ''now''), (''gitSha'', JStr ''sha'')] @ the (load_cost []))
    \<and> map_of r ''passed'' = Some (JBool True) \<and> map_of a ''passed'' = Some (JBool False)"
proof -
  have p: "printed (\<lambda>_. ''{}'') (\<lambda>_. Some (JObj (agent_summary []))) (agent_summary [])"
    unfolding printed_def by (intro conjI exI [of _ "[]"]) (simp_all add: bal_nil)
  have no: "\<not> str_in PASS_LINE ''{}''" "\<not> str_in PASS_LINE (''  - '' @ ''below'')" by code_simp+
  then have u: "unambiguous (\<lambda>_. ''{}'') (\<lambda>_. ''below'') [] BASELINE"
    by (simp add: unambiguous_def list_all_iff)
  have c: "load_cost [] = Some (the (load_cost []))"
    by (simp add: load_cost_def rounded_fields_def COST_FIELDS_def obj_get_def round_json_def)
  have one: "f_lt (Fin 0) (Fin 1)" by simp
  then have fail: "snd (agent_gate_main (\<lambda>_. ''{}'') (\<lambda>_. ''below'') [] BASELINE) \<noteq> 0"
    by (simp add: agent_gate_main_def evaluate_agent_gate_def rate_def)
  have pass: "gate_passed [] [] (fb_gate (calibrated demo_gate_env []))"
    by (simp add: calibrated_def calibrate_def gate_passed_def evaluate_gate_def pass_rate_def)
  from published_summary_faithful [OF p u c, of "''now''" "''sha''" "\<lambda>_. []" "\<lambda>_. ([], [])"
      "\<lparr>mr_scores = [], mr_n_samples = 0\<rparr>" "[]" "calibrated demo_gate_env []"]
  show ?thesis using fail pass by auto
qed

end
