(* ===== verification/Eval_Drift.thy ===== *)
theory Eval_Drift
  imports Eval_Summary
begin

text \<open>
  Publishing scores to Prometheus and capturing the drift alert: the exposition texts of the gate report
  (\<open>evals/atlas_evals/report.py\<close>) and of the drift sample (\<open>evals/atlas_evals/drift.py\<close>), their push, and the
  poll of Alertmanager (\<open>evals/scripts/capture_drift_alert.py\<close>). The printing of a number, the clock and what
  the services answer are parameters. A scraper is modelled to say what an exposition means.
\<close>

section \<open>Expositions\<close>

definition newline :: string where
  "newline = [CHR 0x0A]"

definition of_lines :: "string list \<Rightarrow> string" where
  "of_lines ls = concat (map (\<lambda>l. l @ newline) ls)"

definition score_series :: "string \<Rightarrow> string" where
  "score_series k = ''atlas_eval_metric_score{metric=\"'' @ k @ ''\"}''"

definition SHARE_SERIES :: string where
  "SHARE_SERIES = ''atlas_eval_adversarial_pass_rate''"

definition PASSED_SERIES :: string where
  "PASSED_SERIES = ''atlas_eval_gate_passed''"

definition prometheus_lines :: "(json \<Rightarrow> string) \<Rightarrow> (string \<times> json) list \<Rightarrow> json \<Rightarrow> bool \<Rightarrow> string list" where
  "prometheus_lines show scores share passed =
     ''# TYPE atlas_eval_metric_score gauge''
       # map (\<lambda>(k, v). score_series k @ CHR '' '' # show v) scores
     @ [''# TYPE atlas_eval_adversarial_pass_rate gauge'', SHARE_SERIES @ CHR '' '' # show share,
        ''# TYPE atlas_eval_gate_passed gauge'', PASSED_SERIES @ CHR '' '' # (if passed then ''1'' else ''0'')]"

text \<open>\<open>prometheus_text\<close> of a report object; \<open>None\<close> is the \<open>KeyError\<close> of a missing part.\<close>

definition prometheus_text :: "(json \<Rightarrow> string) \<Rightarrow> (string \<times> json) list \<Rightarrow> string option" where
  "prometheus_text show m =
     (case (obj_get m ''scores'', obj_get m ''adversarial'', obj_get m ''gate'') of
        (JObj scores, JObj adv, JObj gate) \<Rightarrow>
          (case (map_of adv ''pass_rate'', map_of gate ''passed'') of
             (Some share, Some passed) \<Rightarrow>
               Some (of_lines (prometheus_lines show scores share (json_truthy passed)))
           | _ \<Rightarrow> None)
      | _ \<Rightarrow> None)"

definition drift_labels :: "string \<Rightarrow> string \<Rightarrow> string" where
  "drift_labels metric version = ''{metric=\"'' @ metric @ ''\",model_version=\"'' @ version @ ''\"}''"

definition BASELINE_NAME :: string where
  "BASELINE_NAME = ''atlas_model_quality_baseline''"

definition SCORE_NAME :: string where
  "SCORE_NAME = ''atlas_eval_metric_score''"

definition drift_lines :: "(json \<Rightarrow> string) \<Rightarrow> string \<Rightarrow> string \<Rightarrow> pyfloat \<Rightarrow> pyfloat \<Rightarrow> string list" where
  "drift_lines show metric version score base =
     [''# TYPE atlas_eval_metric_score gauge'',
      SCORE_NAME @ drift_labels metric version @ CHR '' '' # show (JFloat score),
      ''# TYPE atlas_model_quality_baseline gauge'',
      BASELINE_NAME @ drift_labels metric version @ CHR '' '' # show (JFloat base)]"

text \<open>\<open>None\<close> is the \<open>ValueError\<close> of an empty name.\<close>

definition drift_exposition :: "(json \<Rightarrow> string) \<Rightarrow> string \<Rightarrow> string \<Rightarrow> pyfloat \<Rightarrow> pyfloat \<Rightarrow> string option" where
  "drift_exposition show metric version score base =
     (if metric = [] \<or> version = [] then None else Some (of_lines (drift_lines show metric version score base)))"

section \<open>Pushing\<close>

record put_request =
  pq_url :: string
  pq_type :: string
  pq_body :: string

definition DRIFT_JOB :: string where
  "DRIFT_JOB = ''atlas_model_drift''"

definition push_request :: "string \<Rightarrow> string \<Rightarrow> string \<Rightarrow> put_request" where
  "push_request body url job =
     \<lparr>pq_url = rstrip_chars (\<lambda>c. c = CHR ''/'') url @ ''/metrics/job/'' @ job, pq_type = ''text/plain'', pq_body = body\<rparr>"

record drift_args =
  da_version :: string
  da_metric :: string
  da_score :: pyfloat
  da_baseline :: pyfloat
  da_gateway :: "string option"
  da_job :: string

text \<open>\<open>main\<close>: an empty gateway is no gateway, and without one nothing is sent.\<close>

definition drift_main ::
  "(json \<Rightarrow> string) \<Rightarrow> (put_request \<Rightarrow> bool) \<Rightarrow> string option \<Rightarrow> drift_args \<Rightarrow> put_request list \<times> (unit, int) result" where
  "drift_main show accepted env_gateway a =
     (let chosen = (case da_gateway a of Some g \<Rightarrow> if g \<noteq> [] then Some g else env_gateway | None \<Rightarrow> env_gateway)
      in case drift_exposition show (da_metric a) (da_version a) (da_score a) (da_baseline a) of
           None \<Rightarrow> ([], Inl ())
         | Some text \<Rightarrow>
             (case chosen of
                None \<Rightarrow> ([], Inr 0)
              | Some g \<Rightarrow>
                  (if g = [] then ([], Inr 0)
                   else (let rq = push_request text g (da_job a)
                         in ([rq], if accepted rq then Inr 0 else Inl ())))))"

section \<open>Capturing the alert\<close>

definition ALERTNAME :: string where
  "ALERTNAME = ''AtlasModelQualityDrift''"

datatype capture_error = FetchFailed | BadAlert | BadClock | NotFired

definition is_drift_alert :: "json \<Rightarrow> bool option" where
  "is_drift_alert a =
     (case a of
        JObj d \<Rightarrow> (case obj_get_or d ''labels'' (JObj []) of JObj l \<Rightarrow> Some (obj_get l ''alertname'' = JStr ALERTNAME) | _ \<Rightarrow> None)
      | _ \<Rightarrow> None)"

fun firing_of :: "json list \<Rightarrow> json list option" where
  "firing_of [] = Some []"
| "firing_of (a # as) =
     (case is_drift_alert a of
        None \<Rightarrow> None
      | Some b \<Rightarrow> map_option (\<lambda>fs. if b then a # fs else fs) (firing_of as))"

text \<open>The value of the request is the decoded answer, \<open>None\<close> if it failed.\<close>

definition fetch_firing :: "json option \<Rightarrow> (capture_error, json list) result" where
  "fetch_firing answer =
     (case answer of
        None \<Rightarrow> Inl FetchFailed
      | Some (JList as) \<Rightarrow> (case firing_of as of None \<Rightarrow> Inl BadAlert | Some fs \<Rightarrow> Inr fs)
      | Some _ \<Rightarrow> Inr [])"

text \<open>\<open>int\<close> of a float.\<close>

definition f_trunc :: "pyfloat \<Rightarrow> int option" where
  "f_trunc x = (case x of Fin q \<Rightarrow> Some (if 0 \<le> q then \<lfloor>q\<rfloor> else \<lceil>q\<rceil>) | _ \<Rightarrow> None)"

record capture =
  cp_captured_at :: int
  cp_seeded_at :: int
  cp_lead_time :: pyfloat
  cp_alerts :: "json list"

definition capture_at :: "pyfloat \<Rightarrow> pyfloat \<Rightarrow> json list \<Rightarrow> (capture_error, capture) result" where
  "capture_at seeded fired fs =
     (case (f_trunc fired, f_trunc seeded) of
        (Some f, Some s) \<Rightarrow>
          Inr \<lparr>cp_captured_at = f, cp_seeded_at = s, cp_lead_time = f_round (f_sub fired seeded) 1, cp_alerts = fs\<rparr>
      | _ \<Rightarrow> Inl BadClock)"

text \<open>What the \<open>i\<close>-th round sees: the clock at its test, the answer, and the clock when an alert was found.\<close>

record alert_env =
  ae_now :: "nat \<Rightarrow> pyfloat"
  ae_answer :: "nat \<Rightarrow> json option"
  ae_fired :: "nat \<Rightarrow> pyfloat"

partial_function (option) poll_alert ::
  "alert_env \<Rightarrow> pyfloat \<Rightarrow> pyfloat \<Rightarrow> nat \<Rightarrow> (capture_error, capture) result option" where
  [code]: "poll_alert e seeded deadline i =
     (if \<not> f_lt (ae_now e i) deadline then Some (Inl NotFired)
      else (case fetch_firing (ae_answer e i) of
              Inl x \<Rightarrow> Some (Inl x)
            | Inr fs \<Rightarrow>
                (if fs \<noteq> [] then Some (capture_at seeded (ae_fired e i) fs)
                 else poll_alert e seeded deadline (i + 1))))"

text \<open>\<open>poll\<close>: the clock is read once before the loop for the deadline.\<close>

definition capture_alert :: "alert_env \<Rightarrow> pyfloat \<Rightarrow> pyfloat \<Rightarrow> pyfloat \<Rightarrow> (capture_error, capture) result option" where
  "capture_alert e begun seeded timeout = poll_alert e seeded (f_add begun timeout) 0"

definition capture_json :: "capture \<Rightarrow> (string \<times> json) list" where
  "capture_json c =
     [(''alertname'', JStr ALERTNAME), (''captured_at'', JInt (cp_captured_at c)),
      (''seeded_at'', JInt (cp_seeded_at c)), (''lead_time_seconds'', JFloat (cp_lead_time c)),
      (''alerts'', JList (cp_alerts c))]"

text \<open>\<open>main\<close>: the exit code, and the file if it is written.\<close>

definition capture_main :: "alert_env \<Rightarrow> pyfloat \<Rightarrow> pyfloat \<Rightarrow> pyfloat \<Rightarrow> (int \<times> (string \<times> json) list option) option" where
  "capture_main e begun seeded timeout =
     map_option (\<lambda>r. case r of Inl _ \<Rightarrow> (1, None) | Inr c \<Rightarrow> (0, Some (capture_json c)))
       (capture_alert e begun seeded timeout)"

section \<open>What a scraper reads\<close>

text \<open>
  The text format: a line that starts with a hash is a comment, any other names a series, up to the last
  blank, and its value.
\<close>

definition read_sample :: "string \<Rightarrow> (string \<times> string) option" where
  "read_sample l =
     (if l = [] \<or> hd l = CHR ''#'' then None
      else Some (rev (tl (dropWhile (\<lambda>c. c \<noteq> CHR '' '') (rev l))), rev (takeWhile (\<lambda>c. c \<noteq> CHR '' '') (rev l))))"

definition read_samples :: "string \<Rightarrow> (string \<times> string) list" where
  "read_samples text = List.map_filter read_sample (split_on (CHR 0x0A) text)"

lemma split_lines:
  "list_all (\<lambda>l. CHR 0x0A \<notin> set l) ls \<Longrightarrow> split_on (CHR 0x0A) (of_lines ls) = ls @ [[]]"
proof (induction ls)
  case (Cons l ls)
  have "split_on c (l @ c # s) = l # split_on c s" if "c \<notin> set l" for c :: char and l s
    using that by (induction l) auto
  with Cons show ?case by (simp add: of_lines_def newline_def)
qed (simp add: of_lines_def)

lemma until_last:
  "c \<notin> set v \<Longrightarrow> takeWhile (\<lambda>x. x \<noteq> c) (v @ c # w) = v \<and> dropWhile (\<lambda>x. x \<noteq> c) (v @ c # w) = c # w"
  by (induction v) auto

lemma read_sample_line:
  "series \<noteq> [] \<Longrightarrow> hd series \<noteq> CHR ''#'' \<Longrightarrow> CHR '' '' \<notin> set v \<Longrightarrow>
     read_sample (series @ CHR '' '' # v) = Some (series, v)"
  using until_last [of "CHR '' ''" "rev v" "rev series"] by (cases series) (simp_all add: read_sample_def)

lemma read_of_lines:
  "list_all (\<lambda>l. CHR 0x0A \<notin> set l) ls \<Longrightarrow> read_samples (of_lines ls) = List.map_filter read_sample ls"
  by (simp add: read_samples_def split_lines map_filter_def read_sample_def)

definition one_word :: "(json \<Rightarrow> string) \<Rightarrow> bool" where
  "one_word show \<longleftrightarrow> (\<forall>v. CHR '' '' \<notin> set (show v) \<and> CHR 0x0A \<notin> set (show v))"

lemma read_sample_series:
  assumes "one_word show" "n \<noteq> []" "hd n \<noteq> CHR ''#''"
  shows "read_sample (n @ CHR '' '' # show v) = Some (n, show v)"
  using assms by (intro read_sample_line) (auto simp: one_word_def)

lemma read_sample_comment: "read_sample (CHR ''#'' # l) = None"
  by (simp add: read_sample_def)

lemma read_prometheus:
  assumes "one_word show" "list_all (\<lambda>(k, v). CHR 0x0A \<notin> set k) scores"
  shows "read_samples (of_lines (prometheus_lines show scores share passed)) =
    map (\<lambda>(k, v). (score_series k, show v)) scores
      @ [(SHARE_SERIES, show share), (PASSED_SERIES, if passed then ''1'' else ''0'')]"
proof -
  have one: "CHR 0x0A \<notin> set (show v)" for v using assms(1) by (simp add: one_word_def)
  have lines: "list_all (\<lambda>l. CHR 0x0A \<notin> set l) (prometheus_lines show scores share passed)"
    using assms(2) one
    by (auto simp: prometheus_lines_def list_all_iff score_series_def SHARE_SERIES_def PASSED_SERIES_def)
  have series: "read_sample (score_series k @ CHR '' '' # show v) = Some (score_series k, show v)" for k v
    by (rule read_sample_series [OF assms(1)]) (simp_all add: score_series_def)
  have mid: "List.map_filter read_sample (map (\<lambda>(k, v). score_series k @ CHR '' '' # show v) scores)
      = map (\<lambda>(k, v). (score_series k, show v)) scores"
  proof (induction scores)
    case (Cons kv scores)
    then show ?case using series [of "fst kv" "snd kv"] by (simp only: list.map case_prod_beta List.map_filter_simps option.case)
  qed (simp add: List.map_filter_simps)
  have share: "read_sample (SHARE_SERIES @ CHR '' '' # show share) = Some (SHARE_SERIES, show share)"
    by (rule read_sample_series [OF assms(1)]) (simp_all add: SHARE_SERIES_def)
  have verdict: "read_sample (PASSED_SERIES @ CHR '' '' # v) = Some (PASSED_SERIES, v)" if "CHR '' '' \<notin> set v" for v
    by (rule read_sample_line) (simp_all add: PASSED_SERIES_def that)
  have app: "List.map_filter f (xs @ ys) = List.map_filter f xs @ List.map_filter f ys" for f :: "string \<Rightarrow> (string \<times> string) option" and xs ys
    by (simp add: List.map_filter_def)
  have bit: "CHR '' '' \<notin> set (if passed then ''1'' else ''0'')" by simp
  show ?thesis
    unfolding read_of_lines [OF lines]
    by (simp only: prometheus_lines_def append_Cons append_Nil app mid List.map_filter_simps share verdict [OF bit]
        read_sample_comment option.case)
qed



text \<open>The drift sample is read back as the two series that the alert rule subtracts.\<close>

lemma drift_sample_read:
  assumes "one_word show" "drift_exposition show metric version score base = Some text"
    and "CHR 0x0A \<notin> set metric" "CHR 0x0A \<notin> set version"
  shows "read_samples text =
    [(SCORE_NAME @ drift_labels metric version, show (JFloat score)),
     (BASELINE_NAME @ drift_labels metric version, show (JFloat base))]"
proof -
  have body: "text = of_lines (drift_lines show metric version score base)"
    using assms(2) by (auto simp: drift_exposition_def split: if_splits)
  have lines: "list_all (\<lambda>l. CHR 0x0A \<notin> set l) (drift_lines show metric version score base)"
    using assms(1,3,4) by (simp add: drift_lines_def drift_labels_def one_word_def SCORE_NAME_def BASELINE_NAME_def)
  have series: "read_sample (n @ drift_labels metric version @ CHR '' '' # show v) = Some (n @ drift_labels metric version, show v)"
    if "n \<noteq> []" "hd n \<noteq> CHR ''#''" for n v
    using read_sample_series [OF assms(1), of "n @ drift_labels metric version" v] that by simp
  have one: "read_sample (SCORE_NAME @ drift_labels metric version @ CHR '' '' # show v)
      = Some (SCORE_NAME @ drift_labels metric version, show v)"
    and two: "read_sample (BASELINE_NAME @ drift_labels metric version @ CHR '' '' # show v)
      = Some (BASELINE_NAME @ drift_labels metric version, show v)" for v
    by (rule series; simp add: SCORE_NAME_def BASELINE_NAME_def)+
  show ?thesis
    unfolding body unfolding read_of_lines [OF lines] unfolding drift_lines_def
    by (simp only: List.map_filter_simps one two read_sample_comment option.case)
qed

section \<open>The capture ends\<close>

definition quiet :: "alert_env \<Rightarrow> nat \<Rightarrow> nat \<Rightarrow> bool" where
  "quiet e i k \<longleftrightarrow> (\<forall>j. i \<le> j \<longrightarrow> j < k \<longrightarrow> fetch_firing (ae_answer e j) = Inr [])"

lemma quiet_step: "quiet e (i + 1) k \<Longrightarrow> fetch_firing (ae_answer e i) = Inr [] \<Longrightarrow> quiet e i k"
  unfolding quiet_def by (metis Suc_eq_plus1 Suc_leI le_neq_implies_less)

text \<open>What an outcome says of the rounds from \<open>i\<close> on, when the clock has reached the deadline in round \<open>m\<close>.\<close>

fun outcome_ok :: "alert_env \<Rightarrow> pyfloat \<Rightarrow> pyfloat \<Rightarrow> nat \<Rightarrow> nat \<Rightarrow> (capture_error, capture) result \<Rightarrow> bool" where
  "outcome_ok e seeded deadline i m (Inr c) \<longleftrightarrow>
     (\<exists>k fs. i \<le> k \<and> k < m \<and> quiet e i k \<and> fetch_firing (ae_answer e k) = Inr fs \<and> fs \<noteq> []
        \<and> capture_at seeded (ae_fired e k) fs = Inr c)"
| "outcome_ok e seeded deadline i m (Inl NotFired) \<longleftrightarrow>
     (\<exists>k. i \<le> k \<and> k \<le> m \<and> quiet e i k \<and> \<not> f_lt (ae_now e k) deadline)"
| "outcome_ok e seeded deadline i m (Inl _) \<longleftrightarrow> True"

lemma outcome_ok_step:
  assumes "outcome_ok e seeded deadline (i + 1) m r" "fetch_firing (ae_answer e i) = Inr []"
  shows "outcome_ok e seeded deadline i m r"
proof (cases r)
  case (Inl x)
  then show ?thesis using assms quiet_step [OF _ assms(2)] by (cases x) (auto intro: Suc_leD)
next
  case (Inr c)
  then show ?thesis using assms quiet_step [OF _ assms(2)] by (auto dest: Suc_leD)
qed

lemma capture_at_no_timeout: "capture_at seeded fired fs \<noteq> Inl NotFired"
  by (auto simp: capture_at_def split: option.splits)

lemma fetch_no_timeout: "fetch_firing a \<noteq> Inl NotFired"
  by (auto simp: fetch_firing_def split: option.splits json.splits)

lemma poll_alert_from:
  assumes "\<not> f_lt (ae_now e (i + n)) deadline"
  shows "\<exists>r. poll_alert e seeded deadline i = Some r \<and> outcome_ok e seeded deadline i (i + n) r"
  using assms
proof (induction n arbitrary: i)
  case 0
  then show ?case by (subst poll_alert.simps) (auto simp: quiet_def)
next
  case (Suc n)
  show ?case
  proof (cases "f_lt (ae_now e i) deadline")
    case True
    show ?thesis
    proof (cases "fetch_firing (ae_answer e i)")
      case (Inl x)
      with True fetch_no_timeout [of "ae_answer e i"] show ?thesis
        by (subst poll_alert.simps) (cases x; simp)
    next
      case (Inr fs)
      show ?thesis
      proof (cases "fs = []")
        case nil: True
        obtain r where "poll_alert e seeded deadline (i + 1) = Some r"
          "outcome_ok e seeded deadline (i + 1) (i + 1 + n) r"
          using Suc.IH [of "i + 1"] Suc.prems by auto
        then show ?thesis using True Inr nil outcome_ok_step [of e seeded deadline i _ r]
          by (subst poll_alert.simps) auto
      next
        case False
        have "outcome_ok e seeded deadline i (i + Suc n) (capture_at seeded (ae_fired e i) fs)"
        proof (cases "capture_at seeded (ae_fired e i) fs")
          case (Inl x)
          then show ?thesis using capture_at_no_timeout [of seeded "ae_fired e i" fs] by (cases x) auto
        next
          case (Inr c)
          then show ?thesis using False \<open>fetch_firing (ae_answer e i) = Inr fs\<close>
            by (auto simp: quiet_def intro!: exI [of _ i])
        qed
        then show ?thesis using True Inr False by (subst poll_alert.simps) simp
      qed
    qed
  next
    case False
    then show ?thesis by (subst poll_alert.simps) (auto simp: quiet_def intro!: exI [of _ i])
  qed
qed

lemma firing_of_alerts: "firing_of as = Some fs \<Longrightarrow> a \<in> set fs \<Longrightarrow> is_drift_alert a = Some True"
  by (induction as arbitrary: fs) (auto split: option.splits if_splits)

lemma fetch_firing_alerts: "fetch_firing v = Inr fs \<Longrightarrow> a \<in> set fs \<Longrightarrow> is_drift_alert a = Some True"
  by (auto simp: fetch_firing_def split: option.splits json.splits dest: firing_of_alerts)


definition demo_alert :: json where
  "demo_alert = JObj [(''labels'', JObj [(''alertname'', JStr ''AtlasModelQualityDrift'')])]"

definition demo_alert_env :: alert_env where
  "demo_alert_env =
     \<lparr>ae_now = (\<lambda>i. Fin (5 * of_nat i)), ae_answer = (\<lambda>i. Some (JList (if i < 2 then [] else [demo_alert]))),
      ae_fired = (\<lambda>i. Fin (5 * of_nat i + 1))\<rparr>"


end
