(* ===== verification/Eval_Promotion.thy ===== *)
theory Eval_Promotion
  imports Py_Num Eval_Gate
begin

text \<open>
  The model-promotion gate: the floors and their loader
  (\<open>evals/atlas_evals/promotion_floors.py\<close>) and the decision over a scored comparison
  (\<open>evals/atlas_evals/promotion_gate.py\<close>). Both read JSON; every malformation the code notices is
  an error value, as are the errors it does not catch. Values that are only shown through
  \<open>str\<close> stay JSON values, and texts of rules and reasons are constructors.
\<close>

section \<open>Floors\<close>

datatype floor_error =
    FloorsNotFound
  | FloorsNotJson
  | FloorsNotObject
  | MissingBlock string
  | MalformedBlock
  | ExpectedNumber string
  | OutOfRange string
  | BadMode json
  | NotBoolean
  | FloorOverflow

record floors =
  fo_abs_floor :: json
  fo_max_regression :: json
  fo_mode :: json
  fo_format_floor :: json
  fo_refusal_min :: json
  fo_cost_band :: json
  fo_reason_required :: json

definition FAITHFULNESS_MODES :: "string list" where
  "FAITHFULNESS_MODES = [''hybrid'', ''no_regression'', ''absolute'']"

definition require_unit :: "string \<Rightarrow> json \<Rightarrow> (floor_error, pyfloat) result" where
  "require_unit name v =
     (if \<not> is_num v then Inl (ExpectedNumber name)
      else (case num_float v of
              None \<Rightarrow> Inl FloorOverflow
            | Some x \<Rightarrow> if f_le (Fin 0) x \<and> f_le x (Fin 1) then Inr x else Inl (OutOfRange name)))"

definition validate_faithfulness :: "floors \<Rightarrow> (floor_error, unit) result" where
  "validate_faithfulness f =
     res_bind (require_unit ''faithfulness.abs_floor'' (fo_abs_floor f)) (\<lambda>_.
     res_bind (require_unit ''faithfulness.max_regression_vs_base'' (fo_max_regression f)) (\<lambda>_.
       guard (fo_mode f \<in> JStr ` set FAITHFULNESS_MODES) (BadMode (fo_mode f))))"

definition validate_format :: "floors \<Rightarrow> (floor_error, unit) result" where
  "validate_format f = res_bind (require_unit ''format_validity.abs_floor'' (fo_format_floor f)) (\<lambda>_. Inr ())"

definition validate_refusal :: "floors \<Rightarrow> (floor_error, unit) result" where
  "validate_refusal f = guard (is_num (fo_refusal_min f)) (ExpectedNumber ''refusal_correctness.min_delta_vs_base'')"

definition validate_cost :: "floors \<Rightarrow> (floor_error, unit) result" where
  "validate_cost f =
     (let name = ''cost.max_regression_pct_vs_base'' in
      if \<not> is_num (fo_cost_band f) then Inl (ExpectedNumber name)
      else (case num_float (fo_cost_band f) of
              None \<Rightarrow> Inl FloorOverflow
            | Some v \<Rightarrow> guard (\<not> f_lt v (Fin 0)) (OutOfRange name)))"

definition validate_floors :: "floors \<Rightarrow> (floor_error, unit) result" where
  "validate_floors f =
     res_bind (validate_faithfulness f) (\<lambda>_. res_bind (validate_format f) (\<lambda>_.
     res_bind (validate_refusal f) (\<lambda>_. res_bind (validate_cost f) (\<lambda>_.
       guard (fo_reason_required f \<in> {JBool True, JBool False}) NotBoolean))))"

definition build_floors :: "(string \<times> json) list \<Rightarrow> floors option" where
  "build_floors d =
     (case (kwargs [''abs_floor'', ''max_regression_vs_base''] [''mode''] (obj_get d ''faithfulness''),
            kwargs [''abs_floor''] [] (obj_get d ''format_validity''),
            kwargs [] [''min_delta_vs_base''] (obj_get_or d ''refusal_correctness'' (JObj [])),
            kwargs [] [''max_regression_pct_vs_base''] (obj_get_or d ''cost'' (JObj []))) of
        (Some fa, Some fm, Some rf, Some co) \<Rightarrow>
          Some \<lparr>fo_abs_floor = obj_get fa ''abs_floor'',
                fo_max_regression = obj_get fa ''max_regression_vs_base'',
                fo_mode = obj_get_or fa ''mode'' (JStr ''hybrid''),
                fo_format_floor = obj_get fm ''abs_floor'',
                fo_refusal_min = obj_get_or rf ''min_delta_vs_base'' (JFloat (Fin 0)),
                fo_cost_band = obj_get_or co ''max_regression_pct_vs_base'' (JFloat (Fin 10)),
                fo_reason_required = obj_get_or d ''block_reason_required'' (JBool True)\<rparr>
      | _ \<Rightarrow> None)"

text \<open>The file is a parameter: absent, or its text; \<open>loads\<close> is \<open>json.loads\<close>.\<close>

definition load_floors :: "(string \<Rightarrow> json option) \<Rightarrow> string option \<Rightarrow> (floor_error, floors) result" where
  "load_floors loads content =
     (case content of
        None \<Rightarrow> Inl FloorsNotFound
      | Some t \<Rightarrow>
          (case loads t of
             None \<Rightarrow> Inl FloorsNotJson
           | Some (JObj d) \<Rightarrow>
               (if map_of d ''faithfulness'' = None then Inl (MissingBlock ''faithfulness'')
                else if map_of d ''format_validity'' = None then Inl (MissingBlock ''format_validity'')
                else (case build_floors d of
                        None \<Rightarrow> Inl MalformedBlock
                      | Some f \<Rightarrow> res_bind (validate_floors f) (\<lambda>_. Inr f)))
           | Some _ \<Rightarrow> Inl FloorsNotObject))"

section \<open>Decision\<close>

datatype comparison_error =
    MissingMetric string
  | NotNumeric string string
  | AttributeErr
  | BadFloat
  | GateOverflow

definition metric_block :: "(string \<times> json) list \<Rightarrow> string \<Rightarrow> (comparison_error, (string \<times> json) list) result" where
  "metric_block comparison name =
     (case obj_get comparison ''metrics'' of
        JObj ms \<Rightarrow>
          (case map_of ms name of
             None \<Rightarrow> Inl (MissingMetric name)
           | Some (JObj block) \<Rightarrow>
               (if \<not> is_num (obj_get block ''base'') then Inl (NotNumeric name ''base'')
                else if \<not> is_num (obj_get block ''ft'') then Inl (NotNumeric name ''ft'')
                else Inr block)
           | Some _ \<Rightarrow> Inl AttributeErr)
      | _ \<Rightarrow> Inl (MissingMetric name))"

definition model_version :: "(string \<times> json) list \<Rightarrow> json" where
  "model_version comparison =
     (case obj_get comparison ''model_ids'' of
        JObj ids \<Rightarrow> (if json_truthy (obj_get ids ''ft'') then obj_get ids ''ft''
                     else obj_get_or comparison ''ft_model'' (JStr []))
      | _ \<Rightarrow> obj_get_or comparison ''ft_model'' (JStr []))"

datatype gate_metric = FaithfulnessFloor | FaithfulnessRegression json | FormatValidity | RefusalCorrectness | CostPerRequest

datatype gate_rule = FtAboveFloor | FloorOnly | WithinBand json | WithinBandOrJump json | DeltaAtLeast json
  | CostNotMeasured json | CostWithin json

record gate_decision =
  gd_metric :: gate_metric
  gd_value :: "pyfloat option"
  gd_base :: "pyfloat option"
  gd_threshold :: json
  gd_rule :: gate_rule
  gd_passed :: bool

datatype block_reason =
    BelowAbsFloor pyfloat json
  | RegressedBeyondBand pyfloat pyfloat json json
  | FormatBelowFloor pyfloat json
  | RefusalRegressed pyfloat json
  | CostRegressed pyfloat json
  | SeeDecisions

record promotion_result =
  pr_promoted :: bool
  pr_decisions :: "gate_decision list"
  pr_reasons :: "block_reason list"
  pr_model_version :: json
  pr_evaluated_at :: string
  pr_git_sha :: json

definition FORMAT_JUMP_MIN_DELTA :: pyfloat where
  "FORMAT_JUMP_MIN_DELTA = Fin (1 / 4)"

definition within_band :: "pyfloat \<Rightarrow> pyfloat \<Rightarrow> pyfloat \<Rightarrow> bool" where
  "within_band f_ft f_base band = f_le (f_sub f_base band) (f_add f_ft EPS)"

definition format_jumped :: "pyfloat \<Rightarrow> pyfloat \<Rightarrow> json \<Rightarrow> bool" where
  "format_jumped fmt_ft fmt_base flr =
     (num_le flr (f_add fmt_ft EPS)
      \<and> f_le FORMAT_JUMP_MIN_DELTA (f_add (f_sub fmt_ft fmt_base) EPS))"

definition regression_ok :: "json \<Rightarrow> bool \<Rightarrow> bool \<Rightarrow> bool" where
  "regression_ok mode in_band jumped =
     (if mode = JStr ''absolute'' then True
      else if mode = JStr ''no_regression'' then in_band
      else in_band \<or> jumped)"

definition regression_rule :: "json \<Rightarrow> json \<Rightarrow> gate_rule" where
  "regression_rule mode band =
     (if mode = JStr ''absolute'' then FloorOnly
      else if mode = JStr ''no_regression'' then WithinBand band
      else WithinBandOrJump band)"

definition need :: "comparison_error \<Rightarrow> 'a option \<Rightarrow> (comparison_error, 'a) result" where
  "need e v = (case v of None \<Rightarrow> Inl e | Some x \<Rightarrow> Inr x)"

text \<open>The refusal delta of the comparison, or the difference of the scores when it has none.\<close>

definition refusal_delta :: "(string \<Rightarrow> pyfloat option) \<Rightarrow> (string \<times> json) list \<Rightarrow> (comparison_error, pyfloat) result" where
  "refusal_delta parse refusal =
     res_bind (need GateOverflow (num_float (obj_get refusal ''ft''))) (\<lambda>ft.
     res_bind (need GateOverflow (num_float (obj_get refusal ''base''))) (\<lambda>base.
       (case map_of refusal ''delta'' of
          None \<Rightarrow> Inr (f_sub ft base)
        | Some v \<Rightarrow> need BadFloat (any_float parse v))))"

definition cost_delta :: "(string \<times> json) list \<Rightarrow> json" where
  "cost_delta comparison = (case obj_get comparison ''cost'' of JObj c \<Rightarrow> obj_get c ''delta_pct'' | _ \<Rightarrow> JNull)"

definition cost_decision ::
  "(string \<Rightarrow> pyfloat option) \<Rightarrow> json \<Rightarrow> json \<Rightarrow> (comparison_error, gate_decision \<times> block_reason list) result" where
  "cost_decision parse delta_pct band =
     (if delta_pct = JNull
      then Inr (\<lparr>gd_metric = CostPerRequest, gd_value = None, gd_base = None, gd_threshold = band,
                 gd_rule = CostNotMeasured band, gd_passed = True\<rparr>, [])
      else res_bind (need BadFloat (any_float parse delta_pct)) (\<lambda>d.
           res_bind (need GateOverflow (num_float band)) (\<lambda>b.
             (let ok = f_le d (f_add b EPS) in
              Inr (\<lparr>gd_metric = CostPerRequest, gd_value = Some d, gd_base = Some (Fin 0), gd_threshold = band,
                     gd_rule = CostWithin band, gd_passed = ok\<rparr>,
                   if ok then [] else [CostRegressed d band])))))"

definition faithfulness_decisions ::
  "floors \<Rightarrow> pyfloat \<Rightarrow> pyfloat \<Rightarrow> pyfloat \<Rightarrow> pyfloat \<Rightarrow> pyfloat \<Rightarrow> gate_decision list \<times> block_reason list" where
  "faithfulness_decisions fs f_ft f_base fmt_ft fmt_base band =
     (let floor_ok = num_le (fo_abs_floor fs) (f_add f_ft EPS);
          reg_ok = regression_ok (fo_mode fs) (within_band f_ft f_base band)
                     (format_jumped fmt_ft fmt_base (fo_format_floor fs))
      in ([\<lparr>gd_metric = FaithfulnessFloor, gd_value = Some f_ft, gd_base = Some f_base,
            gd_threshold = fo_abs_floor fs, gd_rule = FtAboveFloor, gd_passed = floor_ok\<rparr>,
           \<lparr>gd_metric = FaithfulnessRegression (fo_mode fs), gd_value = Some f_ft, gd_base = Some f_base,
            gd_threshold = fo_max_regression fs,
            gd_rule = regression_rule (fo_mode fs) (fo_max_regression fs), gd_passed = reg_ok\<rparr>],
          (if floor_ok then [] else [BelowAbsFloor f_ft (fo_abs_floor fs)])
          @ (if reg_ok then [] else [RegressedBeyondBand f_ft f_base (fo_max_regression fs) (fo_mode fs)])))"

definition format_decision :: "floors \<Rightarrow> pyfloat \<Rightarrow> pyfloat \<Rightarrow> gate_decision \<times> block_reason list" where
  "format_decision fs fmt_ft fmt_base =
     (let ok = num_le (fo_format_floor fs) (f_add fmt_ft EPS)
      in (\<lparr>gd_metric = FormatValidity, gd_value = Some fmt_ft, gd_base = Some fmt_base,
           gd_threshold = fo_format_floor fs, gd_rule = FtAboveFloor, gd_passed = ok\<rparr>,
          if ok then [] else [FormatBelowFloor fmt_ft (fo_format_floor fs)]))"

text \<open>The reason of a failed refusal check formats the minimum as a float, which may overflow.\<close>

definition refusal_decision ::
  "(string \<Rightarrow> pyfloat option) \<Rightarrow> floors \<Rightarrow> (string \<times> json) list \<Rightarrow> (comparison_error, gate_decision \<times> block_reason list) result" where
  "refusal_decision parse fs refusal =
     res_bind (refusal_delta parse refusal) (\<lambda>r_delta.
       (let r_min = fo_refusal_min fs; ok = num_le r_min (f_add r_delta EPS) in
        res_bind (guard (ok \<or> num_float r_min \<noteq> None) GateOverflow) (\<lambda>_.
          Inr (\<lparr>gd_metric = RefusalCorrectness, gd_value = num_float (obj_get refusal ''ft''),
                 gd_base = num_float (obj_get refusal ''base''), gd_threshold = r_min,
                 gd_rule = DeltaAtLeast r_min, gd_passed = ok\<rparr>,
               if ok then [] else [RefusalRegressed r_delta r_min]))))"

definition evaluate_promotion_gate ::
  "(string \<Rightarrow> pyfloat option) \<Rightarrow> string \<Rightarrow> (string \<times> json) list \<Rightarrow> floors \<Rightarrow> string
     \<Rightarrow> (comparison_error, promotion_result) result" where
  "evaluate_promotion_gate parse now comparison fs git_sha =
     res_bind (metric_block comparison ''faithfulness'') (\<lambda>faith.
     res_bind (metric_block comparison ''format_validity'') (\<lambda>fmt.
     res_bind (metric_block comparison ''refusal_correctness'') (\<lambda>refusal.
     res_bind (need GateOverflow (num_float (obj_get faith ''ft''))) (\<lambda>f_ft.
     res_bind (need GateOverflow (num_float (obj_get faith ''base''))) (\<lambda>f_base.
     res_bind (need GateOverflow (num_float (obj_get fmt ''ft''))) (\<lambda>fmt_ft.
     res_bind (need GateOverflow (num_float (obj_get fmt ''base''))) (\<lambda>fmt_base.
     res_bind (need GateOverflow (num_float (fo_max_regression fs))) (\<lambda>band.
     res_bind (refusal_decision parse fs refusal) (\<lambda>(rd, rr).
     res_bind (cost_decision parse (cost_delta comparison) (fo_cost_band fs)) (\<lambda>(cd, cr).
       (let (fds, frs) = faithfulness_decisions fs f_ft f_base fmt_ft fmt_base band;
            (md, mr) = format_decision fs fmt_ft fmt_base;
            decisions = fds @ [md, rd, cd];
            reasons = frs @ mr @ rr @ cr;
            promoted = list_all gd_passed decisions
        in Inr \<lparr>pr_promoted = promoted, pr_decisions = decisions,
                pr_reasons = (if \<not> promoted \<and> json_truthy (fo_reason_required fs) \<and> reasons = []
                              then [SeeDecisions] else reasons),
                pr_model_version = model_version comparison, pr_evaluated_at = now,
                pr_git_sha = (if git_sha \<noteq> [] then JStr git_sha
                              else obj_get_or comparison ''git_sha'' (JStr []))\<rparr>)))))))))))"

section \<open>The loader validates\<close>

definition unit_number :: "json \<Rightarrow> bool" where
  "unit_number v \<longleftrightarrow> (\<exists>x. num_float v = Some x \<and> f_le (Fin 0) x \<and> f_le x (Fin 1))"

definition valid_floors :: "floors \<Rightarrow> bool" where
  "valid_floors f \<longleftrightarrow>
     unit_number (fo_abs_floor f) \<and> unit_number (fo_max_regression f) \<and> unit_number (fo_format_floor f)
     \<and> (\<exists>m\<in>set FAITHFULNESS_MODES. fo_mode f = JStr m) \<and> is_num (fo_refusal_min f)
     \<and> (\<exists>v. num_float (fo_cost_band f) = Some v \<and> \<not> f_lt v (Fin 0)) \<and> (\<exists>b. fo_reason_required f = JBool b)"

lemma is_ok_require_unit: "(\<exists>x. require_unit name v = Inr x) \<longleftrightarrow> unit_number v"
  by (auto simp: require_unit_def unit_number_def num_le_float split: option.splits)

lemma validate_floors_iff: "validate_floors f = Inr () \<longleftrightarrow> valid_floors f"
proof -
  have c: "validate_cost f = Inr u \<longleftrightarrow> (\<exists>v. num_float (fo_cost_band f) = Some v \<and> \<not> f_lt v (Fin 0))" for u
    by (auto simp: validate_cost_def Let_def num_le_float split: option.splits)
  show ?thesis
    unfolding validate_floors_def validate_faithfulness_def validate_format_def validate_refusal_def valid_floors_def
    by (auto simp: res_bind_Inr_iff c is_ok_require_unit)
qed

text \<open>
  the floors loader returns a configuration exactly when the file holds a JSON object with
  both required blocks whose fields construct floors in range: floors and the regression band in
  the unit interval (NaN excluded), a known mode, a numeric refusal minimum, a cost band that is
  not negative, and a Boolean flag. Every other file is an error.
\<close>

theorem load_floors_valid:
  "load_floors loads content = Inr f \<longleftrightarrow>
     (\<exists>t d. content = Some t \<and> loads t = Some (JObj d) \<and> map_of d ''faithfulness'' \<noteq> None
        \<and> map_of d ''format_validity'' \<noteq> None \<and> build_floors d = Some f \<and> valid_floors f)"
  by (cases content) (auto simp: load_floors_def res_bind_Inr_iff validate_floors_iff split: option.splits json.splits)

section \<open>What the decision means\<close>

definition metric_score :: "(string \<times> json) list \<Rightarrow> string \<Rightarrow> string \<Rightarrow> pyfloat option" where
  "metric_score c m k = (case metric_block c m of Inr b \<Rightarrow> num_float (obj_get b k) | Inl _ \<Rightarrow> None)"

definition measured_refusal_delta :: "(string \<Rightarrow> pyfloat option) \<Rightarrow> (string \<times> json) list \<Rightarrow> pyfloat option" where
  "measured_refusal_delta parse c =
     (case res_bind (metric_block c ''refusal_correctness'') (refusal_delta parse) of Inr d \<Rightarrow> Some d | Inl _ \<Rightarrow> None)"

definition at_least :: "pyfloat \<Rightarrow> json \<Rightarrow> bool" where
  "at_least x flr \<longleftrightarrow> num_le flr (f_add x EPS)"

text \<open>The promotion policy, over the scores of the comparison.\<close>

definition promotable :: "(string \<Rightarrow> pyfloat option) \<Rightarrow> (string \<times> json) list \<Rightarrow> floors \<Rightarrow> bool" where
  "promotable parse c fs \<longleftrightarrow>
     (\<exists>f_ft f_base fmt_ft fmt_base band d.
        metric_score c ''faithfulness'' ''ft'' = Some f_ft \<and> metric_score c ''faithfulness'' ''base'' = Some f_base
        \<and> metric_score c ''format_validity'' ''ft'' = Some fmt_ft \<and> metric_score c ''format_validity'' ''base'' = Some fmt_base
        \<and> measured_refusal_delta parse c = Some d \<and> num_float (fo_max_regression fs) = Some band
        \<and> at_least f_ft (fo_abs_floor fs) \<and> at_least fmt_ft (fo_format_floor fs) \<and> at_least d (fo_refusal_min fs)
        \<and> (fo_mode fs \<noteq> JStr ''absolute'' \<longrightarrow> within_band f_ft f_base band
             \<or> fo_mode fs \<noteq> JStr ''no_regression'' \<and> at_least fmt_ft (fo_format_floor fs)
               \<and> f_le FORMAT_JUMP_MIN_DELTA (f_add (f_sub fmt_ft fmt_base) EPS))
        \<and> (cost_delta c \<noteq> JNull \<longrightarrow> (\<exists>x b. any_float parse (cost_delta c) = Some x
             \<and> num_float (fo_cost_band fs) = Some b \<and> f_le x (f_add b EPS))))"

lemma need_Inr [simp]: "need e v = Inr x \<longleftrightarrow> v = Some x"
  by (cases v) (simp_all add: need_def)

lemma need_Some [simp]: "need e (Some x) = Inr x"
  by (simp add: need_def)

lemma refusal_decision_ok:
  "refusal_decision parse fs refusal = Inr (rd, rr) \<Longrightarrow>
     \<exists>d. refusal_delta parse refusal = Inr d \<and> gd_passed rd = at_least d (fo_refusal_min fs) \<and> (rr = [] \<longleftrightarrow> gd_passed rd)"
  by (auto simp: refusal_decision_def res_bind_Inr_iff Let_def at_least_def split: if_splits)

lemma cost_decision_ok:
  "cost_decision parse v band = Inr (cd, cr) \<Longrightarrow>
     (gd_passed cd \<longleftrightarrow> (v \<noteq> JNull \<longrightarrow> (\<exists>x b. any_float parse v = Some x \<and> num_float band = Some b \<and> f_le x (f_add b EPS))))
     \<and> (cr = [] \<longleftrightarrow> gd_passed cd)"
  by (auto simp: cost_decision_def res_bind_Inr_iff Let_def split: if_splits)

lemma faithfulness_decisions_ok:
  "faithfulness_decisions fs f_ft f_base fmt_ft fmt_base band = (ds, rs) \<Longrightarrow>
     (list_all gd_passed ds \<longleftrightarrow> at_least f_ft (fo_abs_floor fs)
        \<and> regression_ok (fo_mode fs) (within_band f_ft f_base band) (format_jumped fmt_ft fmt_base (fo_format_floor fs)))
     \<and> (rs = [] \<longleftrightarrow> list_all gd_passed ds)"
  by (auto simp: faithfulness_decisions_def Let_def at_least_def split: if_splits)

lemma format_decision_ok:
  "format_decision fs fmt_ft fmt_base = (d, rs) \<Longrightarrow>
     gd_passed d = at_least fmt_ft (fo_format_floor fs) \<and> (rs = [] \<longleftrightarrow> gd_passed d)"
  by (auto simp: format_decision_def Let_def at_least_def split: if_splits)

lemma promoted_iff:
  assumes "evaluate_promotion_gate parse now c fs sha = Inr r"
  shows "(pr_promoted r \<longleftrightarrow> promotable parse c fs) \<and> (pr_reasons r = [] \<longleftrightarrow> pr_promoted r)"
proof -
  obtain faith fmt refusal f_ft f_base fmt_ft fmt_base band rd rr cd cr
    where m: "metric_block c ''faithfulness'' = Inr faith" "metric_block c ''format_validity'' = Inr fmt"
      "metric_block c ''refusal_correctness'' = Inr refusal"
      and n: "num_float (obj_get faith ''ft'') = Some f_ft" "num_float (obj_get faith ''base'') = Some f_base"
      "num_float (obj_get fmt ''ft'') = Some fmt_ft" "num_float (obj_get fmt ''base'') = Some fmt_base"
      "num_float (fo_max_regression fs) = Some band"
      and rd: "refusal_decision parse fs refusal = Inr (rd, rr)"
      and cd: "cost_decision parse (cost_delta c) (fo_cost_band fs) = Inr (cd, cr)"
    using assms by (auto simp: evaluate_promotion_gate_def res_bind_Inr_iff)
  obtain fds frs where fd: "faithfulness_decisions fs f_ft f_base fmt_ft fmt_base band = (fds, frs)" by fastforce
  obtain md mr where md: "format_decision fs fmt_ft fmt_base = (md, mr)" by fastforce
  have r: "pr_promoted r \<longleftrightarrow> list_all gd_passed fds \<and> gd_passed md \<and> gd_passed rd \<and> gd_passed cd"
    "pr_reasons r = [] \<longleftrightarrow> frs @ mr @ rr @ cr = [] \<and> \<not> (\<not> pr_promoted r \<and> json_truthy (fo_reason_required fs))"
    using assms by (auto simp: evaluate_promotion_gate_def m n rd cd fd md split: if_splits)
  obtain d where d: "refusal_delta parse refusal = Inr d" "gd_passed rd = at_least d (fo_refusal_min fs)" "rr = [] \<longleftrightarrow> gd_passed rd"
    using refusal_decision_ok [OF rd] by blast
  note ok = faithfulness_decisions_ok [OF fd] format_decision_ok [OF md] cost_decision_ok [OF cd] d
  have "pr_promoted r \<longleftrightarrow> promotable parse c fs"
    unfolding promotable_def r(1) metric_score_def measured_refusal_delta_def m
    using ok n by (auto simp: regression_ok_def format_jumped_def at_least_def m)
  moreover have "pr_reasons r = [] \<longleftrightarrow> pr_promoted r"
    unfolding r(2) using r(1) ok by auto
  ultimately show ?thesis by blast
qed

text \<open>
  C13: the promotion gate implements its policy. Whenever it decides, a model is promoted exactly
  when the policy holds of the scores (absolute floor in every mode, regression rule of the mode,
  format floor, refusal delta, cost band when measured), and it is blocked exactly when at least
  one reason is given, whether or not the configuration asks for reasons.
\<close>

theorem promotion_policy:
  assumes "evaluate_promotion_gate parse now c fs sha = Inr r"
  shows "(pr_promoted r \<longleftrightarrow> promotable parse c fs) \<and> (pr_reasons r = [] \<longleftrightarrow> pr_promoted r)"
  by (rule promoted_iff [OF assms])

text \<open>A comparison and floors at which the gate decides.\<close>

definition demo_comparison :: "pyfloat \<Rightarrow> (string \<times> json) list" where
  "demo_comparison x =
     [(''metrics'', JObj
        [(''faithfulness'', JObj [(''base'', JInt 1), (''ft'', JFloat x)]),
         (''format_validity'', JObj [(''base'', JInt 0), (''ft'', JInt 1)]),
         (''refusal_correctness'', JObj [(''base'', JInt 1), (''ft'', JInt 1), (''delta'', JInt 0)])])]"

definition demo_floors :: floors where
  "demo_floors = \<lparr>fo_abs_floor = JInt 0, fo_max_regression = JInt 0, fo_mode = JStr ''hybrid'',
     fo_format_floor = JInt 1, fo_refusal_min = JInt 0, fo_cost_band = JInt 10, fo_reason_required = JBool True\<rparr>"

lemma num_float_int: "\<bar>n\<bar> < 2 ^ 53 \<Longrightarrow> num_float (JInt n) = Some (Fin (of_int n))"
  using fl_small_int [of n] by (simp add: num_float_def f_of_int_def)

lemma demo_evaluates:
  "\<exists>r. evaluate_promotion_gate parse now (demo_comparison x) demo_floors sha = Inr r"
  using num_float_int [of 0] num_float_int [of 1]
  by (simp add: evaluate_promotion_gate_def demo_comparison_def demo_floors_def metric_block_def obj_get_def
      refusal_decision_def refusal_delta_def any_float_def cost_decision_def cost_delta_def Let_def split: prod.split)

lemma promotion_policy_witness:
  "\<exists>r. evaluate_promotion_gate (\<lambda>_. None) [] (demo_comparison (Fin 0)) demo_floors [] = Inr r
     \<and> (pr_reasons r = [] \<longleftrightarrow> promotable (\<lambda>_. None) (demo_comparison (Fin 0)) demo_floors)"
  using demo_evaluates promotion_policy by blast

section \<open>Failing closed\<close>

text \<open>
  unlike the merge gate, the promotion gate fails closed on NaN. A comparison whose
  fine-tuned faithfulness or format score, refusal delta or measured cost change is NaN is never
  promoted, in any mode and with any floors.
\<close>

theorem promotion_nan_blocks:
  assumes "evaluate_promotion_gate parse now c fs sha = Inr r"
    and "metric_score c ''faithfulness'' ''ft'' = Some NaN \<or> metric_score c ''format_validity'' ''ft'' = Some NaN
      \<or> measured_refusal_delta parse c = Some NaN
      \<or> cost_delta c \<noteq> JNull \<and> any_float parse (cost_delta c) = Some NaN"
  shows "\<not> pr_promoted r"
proof -
  have "\<not> at_least NaN flr" for flr by (simp add: at_least_def)
  with assms(2) have "\<not> promotable parse c fs" unfolding promotable_def by auto
  with promoted_iff [OF assms(1)] show ?thesis by simp
qed

lemma promotion_nan_blocks_witness:
  "\<exists>r. evaluate_promotion_gate (\<lambda>_. None) [] (demo_comparison NaN) demo_floors [] = Inr r \<and> \<not> pr_promoted r"
proof -
  obtain r where r: "evaluate_promotion_gate (\<lambda>_. None) [] (demo_comparison NaN) demo_floors [] = Inr r"
    using demo_evaluates by blast
  have "metric_score (demo_comparison NaN) ''faithfulness'' ''ft'' = Some NaN"
    by (simp add: metric_score_def metric_block_def demo_comparison_def obj_get_def)
  with promotion_nan_blocks [OF r] r show ?thesis by blast
qed

section \<open>A better score never hurts\<close>

definition set_score :: "(string \<times> json) list \<Rightarrow> string \<Rightarrow> string \<Rightarrow> json \<Rightarrow> (string \<times> json) list" where
  "set_score c m k v =
     (case obj_get c ''metrics'' of
        JObj ms \<Rightarrow> (case map_of ms m of
                     Some (JObj b) \<Rightarrow> dict_set ''metrics'' (JObj (dict_set m (JObj (dict_set k v b)) ms)) c
                   | _ \<Rightarrow> c)
      | _ \<Rightarrow> c)"

lemma metric_block_set_score:
  assumes "metric_block c m = Inr b" "is_num v"
  shows "metric_block (set_score c m k v) m = Inr (dict_set k v b)"
    and "m' \<noteq> m \<Longrightarrow> metric_block (set_score c m k v) m' = metric_block c m'"
    and "n \<noteq> ''metrics'' \<Longrightarrow> map_of (set_score c m k v) n = map_of c n"
proof -
  obtain ms where ms: "obj_get c ''metrics'' = JObj ms" "map_of ms m = Some (JObj b)"
    and num: "is_num (obj_get b ''base'')" "is_num (obj_get b ''ft'')"
    using assms(1) by (auto simp: metric_block_def split: json.splits option.splits if_splits)
  have s: "set_score c m k v = dict_set ''metrics'' (JObj (dict_set m (JObj (dict_set k v b)) ms)) c"
    by (simp add: set_score_def ms)
  have g: "obj_get (set_score c m k v) ''metrics'' = JObj (dict_set m (JObj (dict_set k v b)) ms)"
    by (simp add: s obj_get_def)
  have "is_num (obj_get (dict_set k v b) ''base'')" "is_num (obj_get (dict_set k v b) ''ft'')"
    using num assms(2) by (simp_all add: obj_get_def split: if_splits)
  then show "metric_block (set_score c m k v) m = Inr (dict_set k v b)"
    by (simp add: metric_block_def g)
  show "m' \<noteq> m \<Longrightarrow> metric_block (set_score c m k v) m' = metric_block c m'"
    by (simp add: metric_block_def g ms)
  show "n \<noteq> ''metrics'' \<Longrightarrow> map_of (set_score c m k v) n = map_of c n"
    by (simp add: s)
qed

lemma add_EPS_mono: "f_le x y \<Longrightarrow> f_le (f_add x EPS) (f_add y EPS)"
proof -
  assume le: "f_le x y"
  obtain e where e: "EPS = Fin e" using EPS_Fin by blast
  have "f_add z EPS \<noteq> NaN" if "z \<noteq> NaN" for z using that by (cases z) (simp_all add: e)
  then show ?thesis using f_add_mono [OF le] f_le_not_nan [OF le] by blast
qed

lemma evaluate_with_faith:
  assumes ev: "evaluate_promotion_gate parse now c fs sha = Inr r"
    and f: "metric_block c' ''faithfulness'' = Inr faith'" "num_float (obj_get faith' ''ft'') = Some x"
      "num_float (obj_get faith' ''base'') = Some b"
    and rest: "metric_block c' ''format_validity'' = metric_block c ''format_validity''"
      "metric_block c' ''refusal_correctness'' = metric_block c ''refusal_correctness''"
      "cost_delta c' = cost_delta c"
  shows "\<exists>r'. evaluate_promotion_gate parse now c' fs sha = Inr r'"
proof -
  obtain fmt refusal fmt_ft fmt_base band rd rr cd cr
    where m: "metric_block c ''format_validity'' = Inr fmt" "metric_block c ''refusal_correctness'' = Inr refusal"
      and n: "num_float (obj_get fmt ''ft'') = Some fmt_ft" "num_float (obj_get fmt ''base'') = Some fmt_base"
      "num_float (fo_max_regression fs) = Some band"
      and rd: "refusal_decision parse fs refusal = Inr (rd, rr)"
      and cd: "cost_decision parse (cost_delta c) (fo_cost_band fs) = Inr (cd, cr)"
    using ev by (auto simp: evaluate_promotion_gate_def res_bind_Inr_iff)
  show ?thesis
    unfolding evaluate_promotion_gate_def rest f(1) m by (simp add: f n rd cd split: prod.split)
qed

text \<open>
  promotion is monotone in the fine-tuned faithfulness score. Replacing that score in a
  promoted comparison by any greater or equal float is decided again, and promoted again.
\<close>

theorem promotion_monotone:
  assumes ev: "evaluate_promotion_gate parse now c fs sha = Inr r" "pr_promoted r"
    and x: "metric_score c ''faithfulness'' ''ft'' = Some x" "f_le x y"
  shows "\<exists>r'. evaluate_promotion_gate parse now (set_score c ''faithfulness'' ''ft'' (JFloat y)) fs sha = Inr r'
    \<and> pr_promoted r'"
proof -
  let ?c = "set_score c ''faithfulness'' ''ft'' (JFloat y)"
  obtain b where b: "metric_block c ''faithfulness'' = Inr b" "num_float (obj_get b ''ft'') = Some x"
    using x(1) by (auto simp: metric_score_def split: sum.splits)
  note upd = metric_block_set_score [OF b(1), of "JFloat y"]
  have cost: "cost_delta ?c = cost_delta c" by (simp add: cost_delta_def obj_get_def upd)
  have p: "promotable parse c fs" using promoted_iff [OF ev(1)] ev(2) by simp
  obtain bs where bs: "num_float (obj_get b ''base'') = Some bs"
    using p by (auto simp: promotable_def metric_score_def b)
  have new: "num_float (obj_get (dict_set ''ft'' (JFloat y) b) ''ft'') = Some y"
    "num_float (obj_get (dict_set ''ft'' (JFloat y) b) ''base'') = Some bs"
    using bs by (simp_all add: obj_get_def)
  obtain r' where r': "evaluate_promotion_gate parse now ?c fs sha = Inr r'"
    using evaluate_with_faith [OF ev(1) upd(1) new] upd(2) cost by auto
  have "metric_score ?c ''faithfulness'' ''ft'' = Some y" by (simp add: metric_score_def upd new)
  moreover have "metric_score ?c m k = metric_score c m k" if "m \<noteq> ''faithfulness'' \<or> k = ''base'' " for m k
    using that by (cases "m = ''faithfulness''") (auto simp: metric_score_def upd b new bs)
  moreover have "measured_refusal_delta parse ?c = measured_refusal_delta parse c"
    by (simp add: measured_refusal_delta_def upd)
  moreover have "at_least x flr \<Longrightarrow> at_least y flr" for flr
    using add_EPS_mono [OF x(2)] by (auto simp: at_least_def intro: num_le_trans)
  moreover have "within_band x base band \<Longrightarrow> within_band y base band" for base band
    using add_EPS_mono [OF x(2)] by (auto simp: within_band_def intro: f_le_trans)
  ultimately have "promotable parse ?c fs" using p x(1) unfolding promotable_def cost by auto
  with promoted_iff [OF r'] r' show ?thesis by blast
qed

lemma promotion_monotone_witness:
  "\<exists>r. evaluate_promotion_gate (\<lambda>_. None) [] (set_score (demo_comparison (Fin 0)) ''faithfulness'' ''ft'' (JFloat (Fin (1 / 2)))) demo_floors [] = Inr r
     \<and> pr_promoted r"
proof -
  let ?c = "demo_comparison (Fin 0)"
  obtain r where r: "evaluate_promotion_gate (\<lambda>_. None) [] ?c demo_floors [] = Inr r"
    using demo_evaluates by blast
  obtain e where e: "EPS = Fin e" "0 \<le> e" using EPS_Fin by blast
  have nn: "num_le (JInt 0) (fl e)" "num_le (JInt 1) (fl (1 + e))"
    using fl_mono [of 0 e] fl_mono [of 1 "1 + e"] e(2) by (cases "fl e"; cases "fl (1 + e)"; simp)+
  have "f_le (Fin (1 / 4)) (fl (1 + e))"
    using fl_mono [of 1 "1 + e"] e(2) by (auto intro: f_le_trans [of _ "Fin 1"])
  with nn have "promotable (\<lambda>_. None) ?c demo_floors"
    using num_float_int [of 0] num_float_int [of 1]
    unfolding promotable_def e(1) at_least_def
    by (simp add: metric_score_def metric_block_def measured_refusal_delta_def refusal_delta_def
      demo_comparison_def demo_floors_def obj_get_def any_float_def f_sub_def FORMAT_JUMP_MIN_DELTA_def
      cost_delta_def)
  then have p: "pr_promoted r" using promoted_iff [OF r] by simp
  have x: "metric_score ?c ''faithfulness'' ''ft'' = Some (Fin 0)"
    by (simp add: metric_score_def metric_block_def demo_comparison_def obj_get_def)
  show ?thesis using promotion_monotone [OF r p x] by simp
qed

end
