(* ===== verification/Py_Sort.thy ===== *)
theory Py_Sort
  imports Py_Json
begin

text \<open>
  Sorting and indexing lists of floats. Numbers are compared by value; NaN, which Python's
  \<open>sorted\<close> leaves in an unspecified place, is put last by the order, and the theorems about sorted
  lists assume that it does not occur.
\<close>

instantiation pyfloat :: linorder
begin

definition less_eq_pyfloat :: "pyfloat \<Rightarrow> pyfloat \<Rightarrow> bool" where
  "less_eq_pyfloat x y \<longleftrightarrow> y = NaN \<or> f_le x y"

definition less_pyfloat :: "pyfloat \<Rightarrow> pyfloat \<Rightarrow> bool" where
  "less_pyfloat x y \<longleftrightarrow> x \<le> y \<and> \<not> y \<le> (x :: pyfloat)"

instance
proof
  fix x y z :: pyfloat
  show "x < y \<longleftrightarrow> x \<le> y \<and> \<not> y \<le> x" by (simp add: less_pyfloat_def)
  show "x \<le> x" by (simp add: less_eq_pyfloat_def)
  show "x \<le> y \<Longrightarrow> y \<le> z \<Longrightarrow> x \<le> z"
    by (auto simp: less_eq_pyfloat_def dest: f_le_not_nan intro: f_le_trans)
  show "x \<le> y \<Longrightarrow> y \<le> x \<Longrightarrow> x = y"
    by (auto simp: less_eq_pyfloat_def intro: f_le_antisym)
  show "x \<le> y \<or> y \<le> x" using f_le_total by (auto simp: less_eq_pyfloat_def)
qed

end

lemma le_float_iff: "y \<noteq> NaN \<Longrightarrow> x \<le> y \<longleftrightarrow> f_le x (y :: pyfloat)"
  by (simp add: less_eq_pyfloat_def)

text \<open>\<open>min(xs)\<close> keeps the first smallest element.\<close>

definition f_min :: "pyfloat \<Rightarrow> pyfloat list \<Rightarrow> pyfloat" where
  "f_min x xs = fold (\<lambda>y m. if f_lt y m then y else m) xs x"

lemma f_min_le: "x \<noteq> NaN \<Longrightarrow> NaN \<notin> set xs \<Longrightarrow> y \<in> set (x # xs) \<Longrightarrow> f_le (f_min x xs) y"
proof (induction xs arbitrary: x y)
  case Nil
  then show ?case by (simp add: f_min_def)
next
  case (Cons z zs)
  define m where "m = (if f_lt z x then z else x)"
  have step: "f_min x (z # zs) = f_min m zs" by (simp add: f_min_def m_def)
  have m: "m \<noteq> NaN" "f_le m x" "f_le m z"
    using Cons.prems by (auto simp: m_def not_f_lt f_lt_imp_le)
  have mm: "f_le (f_min m zs) m"
    using Cons.IH [of m m] Cons.prems m by simp
  consider "y = x" | "y = z" | "y \<in> set zs" using Cons.prems by auto
  then show ?case
  proof cases
    case 3
    then show ?thesis using Cons.IH [of m y] Cons.prems m step by simp
  qed (use m mm step in \<open>auto intro: f_le_trans\<close>)
qed

lemma f_min_mem: "f_min x xs \<in> set (x # xs)"
  unfolding f_min_def by (induction xs arbitrary: x) auto

text \<open>\<open>xs[i]\<close>: a negative index counts from the end, \<open>None\<close> is the \<open>IndexError\<close>.\<close>

definition py_index :: "'a list \<Rightarrow> int \<Rightarrow> 'a option" where
  "py_index xs i =
     (let n = int (length xs); j = (if i < 0 then n + i else i)
      in if 0 \<le> j \<and> j < n then Some (xs ! nat j) else None)"

lemma py_index_Some: "0 \<le> i \<Longrightarrow> i < int (length xs) \<Longrightarrow> py_index xs i = Some (xs ! nat i)"
  by (simp add: py_index_def)

text \<open>\<open>min(values)\<close> and \<open>max(values)\<close> of a non-empty list.\<close>

definition list_min :: "pyfloat list \<Rightarrow> pyfloat" where
  "list_min xs = (case xs of [] \<Rightarrow> NaN | y # ys \<Rightarrow> f_min y ys)"

definition list_max :: "pyfloat list \<Rightarrow> pyfloat" where
  "list_max xs = (case xs of [] \<Rightarrow> NaN | y # ys \<Rightarrow> f_max y ys)"

lemma list_min_le: "NaN \<notin> set xs \<Longrightarrow> y \<in> set xs \<Longrightarrow> f_le (list_min xs) y"
  using f_min_le by (cases xs) (auto simp: list_min_def)

lemma list_max_ge: "NaN \<notin> set xs \<Longrightarrow> y \<in> set xs \<Longrightarrow> f_le y (list_max xs)"
  using f_max_ge by (cases xs) (auto simp: list_max_def)

text \<open>\<open>sum(xs)\<close> of floats: a running total with the Neumaier compensation that Python 3.12 adds.\<close>

fun sum_step :: "pyfloat \<Rightarrow> pyfloat \<times> pyfloat \<Rightarrow> pyfloat \<times> pyfloat" where
  "sum_step x (s, e) =
     (let t = f_add s x
      in (t, f_add e (if f_le (f_abs x) (f_abs s) then f_add (f_sub s t) x
                      else f_add (f_sub x t) s)))"

fun is_fin :: "pyfloat \<Rightarrow> bool" where
  "is_fin (Fin r) = True"
| "is_fin _ = False"

definition f_sum :: "pyfloat list \<Rightarrow> pyfloat" where
  "f_sum xs =
     (case xs of
        [] \<Rightarrow> Fin 0
      | y # ys \<Rightarrow> (case fold sum_step ys (y, Fin 0) of (s, e) \<Rightarrow>
                    if is_fin e then f_add s e else s))"

text \<open>\<open>math.floor\<close> and \<open>math.ceil\<close>; \<open>None\<close> is the error on an infinity or NaN.\<close>

definition f_floor :: "pyfloat \<Rightarrow> int option" where
  "f_floor x = (case x of Fin r \<Rightarrow> Some \<lfloor>r\<rfloor> | _ \<Rightarrow> None)"

definition f_ceil :: "pyfloat \<Rightarrow> int option" where
  "f_ceil x = (case x of Fin r \<Rightarrow> Some \<lceil>r\<rceil> | _ \<Rightarrow> None)"

section \<open>Positions in a sorted list\<close>

text \<open>A fraction of at most one of the last index is a position of the list.\<close>

lemma f_le_Fin_iff: "f_le (Fin 0) x \<and> f_le x (Fin b) \<longleftrightarrow> (\<exists>r. x = Fin r \<and> 0 \<le> r \<and> r \<le> b)"
  by (cases x) auto

lemma scaled_rank:
  assumes "0 \<le> q" "q \<le> 1" "\<bar>n\<bar> < 2 ^ 53" "0 \<le> n"
  shows "\<exists>r. f_mul (Fin q) (Fin (of_int n)) = Fin r \<and> 0 \<le> r \<and> r \<le> of_int n"
proof -
  have q: "0 \<le> q * of_int n" "q * of_int n \<le> of_int n"
    using assms by (simp_all add: mult_left_le_one_le)
  have "f_le (fl 0) (fl (q * of_int n))" "f_le (fl (q * of_int n)) (fl (of_int n))"
    using fl_mono [OF q(1)] fl_mono [OF q(2)] by simp_all
  then have "f_le (Fin 0) (fl (q * of_int n)) \<and> f_le (fl (q * of_int n)) (Fin (of_int n))"
    using fl_small_int [OF assms(3)] by simp
  then show ?thesis unfolding f_le_Fin_iff by (simp add: f_mul_def)
qed

lemma sorted_nth_le:
  fixes xs :: "pyfloat list"
  assumes "i \<le> j" "j < length xs" "NaN \<notin> set xs"
  shows "f_le (sort xs ! i) (sort xs ! j)"
proof -
  have "sort xs ! j \<in> set xs" using assms(2) by (metis length_sort nth_mem set_sort)
  then have "sort xs ! j \<noteq> NaN" using assms(3) by metis
  then show ?thesis using sorted_nth_mono [OF sorted_sort, of i j xs] assms(1,2)
    by (simp add: le_float_iff)
qed

text \<open>Sorting depends on the multiset only.\<close>

lemma sort_mset_cong: "mset xs = mset ys \<Longrightarrow> sort xs = sort (ys :: 'a :: linorder list)"
  by (metis mset_sort properties_for_sort sorted_sort)

end
