(* ===== verification/Eval_Release.thy ===== *)
theory Eval_Release
  imports Eval_Promotion Eval_Run Py_Sort
begin

text \<open>
  The release commands: the promotion gate with its report (\<open>evals/atlas_evals/promotion_gate.py\<close>, \<open>main\<close>),
  the live cost measurement (\<open>evals/atlas_evals/cost_report.py\<close>, \<open>_run_live\<close>) and the cost gate over the
  file it writes (\<open>evals/atlas_evals/cost_gate.py\<close>, \<open>main\<close>). Files are held as texts, \<open>None\<close> when absent;
  decoding JSON, the wording of decisions and the Gateway's answers are parameters. An exception ends the
  interpreter with exit code 1.
\<close>

section \<open>The promotion gate\<close>

definition floors_json :: "floors \<Rightarrow> (string \<times> json) list" where
  "floors_json f =
     [(''faithfulness'', JObj [(''abs_floor'', fo_abs_floor f), (''max_regression_vs_base'', fo_max_regression f),
         (''mode'', fo_mode f)]),
      (''format_validity'', JObj [(''abs_floor'', fo_format_floor f)]),
      (''refusal_correctness'', JObj [(''min_delta_vs_base'', fo_refusal_min f)]),
      (''cost'', JObj [(''max_regression_pct_vs_base'', fo_cost_band f)]),
      (''block_reason_required'', fo_reason_required f)]"

lemma floors_round_trip:
  assumes "loads text = Some (JObj (floors_json f))"
  shows "load_floors loads (Some text) = Inr f \<longleftrightarrow> valid_floors f"
proof -
  have "build_floors (floors_json f) = Some f"
    by (simp add: build_floors_def floors_json_def kwargs_def obj_get_def obj_get_or_def)
  then show ?thesis
    using assms by (auto simp: load_floors_valid floors_json_def)
qed

definition opt_float :: "pyfloat option \<Rightarrow> json" where
  "opt_float x = (case x of None \<Rightarrow> JNull | Some v \<Rightarrow> JFloat v)"

text \<open>\<open>to_json\<close>; the names of metrics, rules and reasons are \<open>wording\<close>.\<close>

record wording =
  wo_metric :: "gate_metric \<Rightarrow> string"
  wo_rule :: "gate_rule \<Rightarrow> string"
  wo_reason :: "block_reason \<Rightarrow> string"

definition decision_json :: "wording \<Rightarrow> gate_decision \<Rightarrow> json" where
  "decision_json wo d =
     JObj [(''metric'', JStr (wo_metric wo (gd_metric d))), (''value'', opt_float (gd_value d)),
       (''base'', opt_float (gd_base d)), (''threshold'', gd_threshold d), (''rule'', JStr (wo_rule wo (gd_rule d))),
       (''passed'', JBool (gd_passed d))]"

definition promotion_json :: "wording \<Rightarrow> promotion_result \<Rightarrow> (string \<times> json) list" where
  "promotion_json wo r =
     [(''promoted'', JBool (pr_promoted r)), (''decisions'', JList (map (decision_json wo) (pr_decisions r))),
      (''blocked_reasons'', JList (map (JStr \<circ> wo_reason wo) (pr_reasons r))),
      (''model_version'', pr_model_version r), (''evaluated_at'', JStr (pr_evaluated_at r)), (''git_sha'', pr_git_sha r)]"

text \<open>\<open>main\<close>: the exit code and the report, if it is written.\<close>

definition promotion_main ::
  "wording \<Rightarrow> (string \<Rightarrow> pyfloat option) \<Rightarrow> (string \<Rightarrow> json option) \<Rightarrow> string \<Rightarrow> string \<Rightarrow> string option \<Rightarrow> string option
     \<Rightarrow> int \<times> (string \<times> json) list option" where
  "promotion_main wo parse loads now git_sha floors_file comparison_file =
     (case comparison_file of
        None \<Rightarrow> (1, None)
      | Some text \<Rightarrow>
          (case load_floors loads floors_file of
             Inl _ \<Rightarrow> (1, None)
           | Inr fs \<Rightarrow>
               (case loads text of
                  Some (JObj c) \<Rightarrow>
                    (case evaluate_promotion_gate parse now c fs git_sha of
                       Inl _ \<Rightarrow> (1, None)
                     | Inr r \<Rightarrow> (if pr_promoted r then 0 else 1, Some (promotion_json wo r)))
                | _ \<Rightarrow> (1, None))))"

text \<open>C31: The promotion command fails closed. It exits with 0 exactly if the floors file is a valid
  configuration, the comparison file is an object the gate can decide, and the comparison satisfies the
  promotion policy; and then, and whenever it reaches a decision, the report says promoted exactly if the
  exit code is 0 and gives a reason exactly if it is not.\<close>

theorem promotion_command_fails_closed:
  "(fst (promotion_main wo parse loads now sha ff cf) = 0 \<longleftrightarrow>
      (\<exists>body fs c r. cf = Some body \<and> load_floors loads ff = Inr fs \<and> valid_floors fs \<and> loads body = Some (JObj c)
         \<and> evaluate_promotion_gate parse now c fs sha = Inr r \<and> promotable parse c fs))
   \<and> (case snd (promotion_main wo parse loads now sha ff cf) of
        None \<Rightarrow> fst (promotion_main wo parse loads now sha ff cf) = 1
      | Some rep \<Rightarrow>
          obj_get rep ''promoted'' = JBool (fst (promotion_main wo parse loads now sha ff cf) = 0)
          \<and> (obj_get rep ''blocked_reasons'' = JList [] \<longleftrightarrow> fst (promotion_main wo parse loads now sha ff cf) = 0))"
proof (cases "\<exists>body fs c r. cf = Some body \<and> load_floors loads ff = Inr fs \<and> loads body = Some (JObj c)
    \<and> evaluate_promotion_gate parse now c fs sha = Inr r")
  case True
  then obtain body fs c r where p: "cf = Some body" "load_floors loads ff = Inr fs" "loads body = Some (JObj c)"
    "evaluate_promotion_gate parse now c fs sha = Inr r" by blast
  have v: "valid_floors fs" using p(2) by (auto simp: load_floors_valid)
  have out: "promotion_main wo parse loads now sha ff cf
      = (if pr_promoted r then 0 else 1, Some (promotion_json wo r))"
    by (simp add: promotion_main_def p)
  show ?thesis unfolding out using promoted_iff [OF p(4)] v p by (auto simp: promotion_json_def obj_get_def)
next
  case False
  then have "promotion_main wo parse loads now sha ff cf = (1, None)"
    by (auto simp: promotion_main_def split: option.splits sum.splits json.splits)
  with False show ?thesis by auto
qed

section \<open>Measuring the cost\<close>

definition METHODOLOGY :: string where
  "METHODOLOGY =
     ''cold->warm on the golden set: off = every query a model call (cold); ''
     @ ''on = the same queries re-served from the clearance-partitioned semantic cache (warm). ''
     @ ''It measures the cache CEILING (100% of serving cost removed on an exact-repeat hit); ''
     @ ''a blended production saving scales with the real query repeat rate. ''
     @ ''Routing (small-model default) sets the uncached cost floor.''"

definition COST_NOTE :: string where
  "COST_NOTE =
     ''Self-hosted cost-units are documented estimates (ADR-0040). Quality-equality is proven ''
     @ ''by the RAGAS gate with ATLAS_EVAL_THROUGH_GATEWAY=true (both gates PASS).''"

text \<open>The object \<open>build_baseline\<close> returns.\<close>

definition cost_json :: "string \<Rightarrow> pyfloat \<Rightarrow> pyfloat \<Rightarrow> pyfloat \<Rightarrow> pyfloat \<Rightarrow> (string \<times> json) list" where
  "cost_json now sim off_total on_total r =
     [(''cache_sim_threshold'', JFloat sim), (''methodology'', JStr METHODOLOGY),
      (''cost_off_units'', JFloat (f_round off_total 6)), (''cost_on_units'', JFloat (f_round on_total 6)),
      (''cost_reduction_pct'', JFloat (f_round r 2)), (''target_reduction_pct'', JFloat (Fin 30)),
      (''meets_target'', JBool (f_le (Fin 30) r)), (''recorded_at'', JStr now), (''note'', JStr COST_NOTE)]"

datatype live_error = LiveQuery cassette_error | BadCostUnits | BadThreshold

text \<open>One pass over the questions.\<close>

fun cost_pass ::
  "(string \<Rightarrow> pyfloat option) \<Rightarrow> transport \<Rightarrow> string \<Rightarrow> query_request list \<Rightarrow> gateway_state
     \<Rightarrow> (live_error, pyfloat list) result \<times> gateway_state" where
  "cost_pass parse transport url [] s = (Inr [], s)"
| "cost_pass parse transport url (q # qs) s =
     (case gateway_query transport url q s of
        (Inl e, s') \<Rightarrow> (Inl (LiveQuery e), s')
      | (Inr v, s') \<Rightarrow>
          (case cost_units parse v of
             None \<Rightarrow> (Inl BadCostUnits, s')
           | Some x \<Rightarrow>
               (case cost_pass parse transport url qs s' of
                  (Inl e, s'') \<Rightarrow> (Inl e, s'')
                | (Inr xs, s'') \<Rightarrow> (Inr (x # xs), s''))))"

text \<open>\<open>_run_live\<close>: the cold pass, the warm pass and the object written.\<close>

definition cost_live ::
  "(string \<Rightarrow> pyfloat option) \<Rightarrow> transport \<Rightarrow> (string, string) dict \<Rightarrow> string \<Rightarrow> golden_tuple list \<Rightarrow> gateway_state
     \<Rightarrow> (live_error, (string \<times> json) list) result \<times> gateway_state" where
  "cost_live parse transport vars now ts s =
     (let url = (case dict_get vars ''GATEWAY_URL'' of Some u \<Rightarrow> u | None \<Rightarrow> ''http://localhost:8080'');
          sim = (case dict_get vars ''ATLAS_CACHE_SIM_THRESHOLD'' of Some v \<Rightarrow> parse v | None \<Rightarrow> Some (fl (95 / 100)))
      in case sim of
           None \<Rightarrow> (Inl BadThreshold, s)
         | Some threshold \<Rightarrow>
             (case cost_pass parse transport url (map golden_request ts) s of
                (Inl e, s1) \<Rightarrow> (Inl e, s1)
              | (Inr cold, s1) \<Rightarrow>
                  (case cost_pass parse transport url (map golden_request ts) s1 of
                     (Inl e, s2) \<Rightarrow> (Inl e, s2)
                   | (Inr warm, s2) \<Rightarrow>
                       (Inr (cost_json now threshold (f_sum cold) (f_sum warm)
                          (the (pct_reduction (f_sum cold) (f_sum warm)))), s2))))"

lemma pct_reduction_total: "pct_reduction off_total on_total \<noteq> None"
  by (cases off_total) (auto simp: pct_reduction_def f_div_def split: pyfloat.splits)

section \<open>The cost gate\<close>

text \<open>\<open>evaluate_cost_gate\<close> on the object of the file; \<open>None\<close> is arithmetic on what is no number. The two
  numbers of a test are only read if neither is null.\<close>

definition both_numbers :: "json \<Rightarrow> json \<Rightarrow> (pyfloat option \<times> pyfloat option) option" where
  "both_numbers a b =
     (if a = JNull \<or> b = JNull then Some (None, None)
      else case (num_float a, num_float b) of (Some x, Some y) \<Rightarrow> Some (Some x, Some y) | _ \<Rightarrow> None)"

definition read_cost :: "(string \<times> json) list \<Rightarrow> cost_baseline option" where
  "read_cost d =
     (case (both_numbers (obj_get d ''cost_reduction_pct'') (obj_get d ''target_reduction_pct''),
            both_numbers (obj_get d ''max_cost_on_units'') (obj_get d ''cost_on_units'')) of
        (Some (r, t), Some (cap, u)) \<Rightarrow>
          Some \<lparr>co_reduction = r, co_target = t,
            co_meets = (case obj_get d ''meets_target'' of JBool b \<Rightarrow> Some b | _ \<Rightarrow> None), co_on_units = u, co_ceiling = cap\<rparr>
      | _ \<Rightarrow> None)"

definition cost_gate_main :: "(string \<Rightarrow> json option) \<Rightarrow> string option \<Rightarrow> int" where
  "cost_gate_main loads file =
     (case file of
        None \<Rightarrow> 1
      | Some text \<Rightarrow>
          (case loads text of
             Some (JObj d) \<Rightarrow>
               (case read_cost d of
                  None \<Rightarrow> 1
                | Some c \<Rightarrow> if evaluate_cost_gate c = [] then 0 else 1)
           | _ \<Rightarrow> 1))"

lemma cost_pass_length:
  "cost_pass parse transport url qs s = (Inr xs, s') \<Longrightarrow> length xs = length qs"
proof (induction qs arbitrary: s xs)
  case (Cons q qs)
  then show ?case by (auto split: sum.splits prod.splits option.splits)
qed simp

text \<open>What the gate makes of a written measurement.\<close>

lemma cost_gate_of_json:
  assumes "loads text = Some (JObj (cost_json now sim off_total on_total r))"
    and "pct_reduction off_total on_total = Some r"
  shows "cost_gate_main loads (Some text) = (if f_le (Fin 30) r then 0 else 1)"
proof -
  let ?c = "\<lparr>co_reduction = Some (f_round r 2), co_target = Some (Fin 30), co_meets = Some (f_le (Fin 30) r),
    co_on_units = None, co_ceiling = None\<rparr>"
  have read: "read_cost (cost_json now sim off_total on_total r) = Some ?c"
    by (simp add: read_cost_def cost_json_def obj_get_def both_numbers_def)
  have "evaluate_cost_gate ?c = [] \<longleftrightarrow> f_le (Fin 30) r"
    using recorded_cost_gate [OF assms(2), of "?c\<lparr>co_on_units := Some (f_round on_total 6)\<rparr>"] assms(2)
    by (simp add: build_cost_baseline_def evaluate_cost_gate_def)
  then show ?thesis by (simp add: cost_gate_main_def assms(1) read)
qed

text \<open>C35: The cost gate agrees with the measurement it gates. When a live measurement completes, it has asked
  every golden question twice, cold before warm, and the gate run on the file it wrote exits with 0
  exactly if the unrounded reduction from the summed cold to the summed warm cost is at least 30 percent;
  rounding the stored numbers neither saves nor fails a run.\<close>

theorem live_cost_gates_exactly:
  assumes "cost_live parse transport vars now ts s = (Inr d, s')" "loads text = Some (JObj d)"
  shows "\<exists>url cold warm s1 r. cost_pass parse transport url (map golden_request ts) s = (Inr cold, s1)
    \<and> cost_pass parse transport url (map golden_request ts) s1 = (Inr warm, s')
    \<and> length cold = length ts \<and> length warm = length ts
    \<and> pct_reduction (f_sum cold) (f_sum warm) = Some r
    \<and> cost_gate_main loads (Some text) = (if f_le (Fin 30) r then 0 else 1)"
proof -
  define url where "url = (case dict_get vars ''GATEWAY_URL'' of Some u \<Rightarrow> u | None \<Rightarrow> ''http://localhost:8080'')"
  obtain sim where sim: "(case dict_get vars ''ATLAS_CACHE_SIM_THRESHOLD'' of Some v \<Rightarrow> parse v | None \<Rightarrow> Some (fl (95 / 100))) = Some sim"
    using assms(1) unfolding cost_live_def Let_def by (metis (no_types, lifting) Inl_Inr_False fst_conv option.case(1) option.exhaust)
  obtain r1 s1 where p1: "cost_pass parse transport url (map golden_request ts) s = (r1, s1)" by (metis surj_pair)
  obtain cold where r1: "r1 = Inr cold"
    using assms(1) p1 by (cases r1) (simp_all add: cost_live_def Let_def sim url_def [symmetric])
  obtain r2 s2 where p2: "cost_pass parse transport url (map golden_request ts) s1 = (r2, s2)" by (metis surj_pair)
  obtain warm where r2: "r2 = Inr warm"
    using assms(1) p1 r1 p2 by (cases r2) (simp_all add: cost_live_def Let_def sim url_def [symmetric])
  obtain r where r: "pct_reduction (f_sum cold) (f_sum warm) = Some r" using pct_reduction_total by blast
  have d: "d = cost_json now sim (f_sum cold) (f_sum warm) r" "s' = s2"
    using assms(1) by (simp_all add: cost_live_def Let_def sim url_def [symmetric] p1 r1 p2 r2 r)
  have len: "length cold = length ts" "length warm = length ts"
    using cost_pass_length [OF p1 [unfolded r1]] cost_pass_length [OF p2 [unfolded r2]] by simp_all
  have gate: "cost_gate_main loads (Some text) = (if f_le (Fin 30) r then 0 else 1)"
    by (rule cost_gate_of_json [OF _ r]) (simp add: assms(2) d(1))
  show ?thesis
    using p1 r1 p2 r2 d(2) len r gate by blast
qed

text \<open>A Gateway that charges nothing for the second pass.\<close>

definition demo_transport :: transport where
  "demo_transport sent rq =
     (if hr_bearer rq = None then Inr (JObj [(''token'', JStr ''t'')])
      else Inr (JObj [(''cost'', JObj [(''costUnits'', JFloat (Fin (if length sent = 1 then 1 else 0)))])]))"

definition demo_question :: golden_tuple where
  "demo_question = \<lparr>gt_id = JStr ''g1'', gt_layer = JStr ''1'', gt_clearance = JStr ''public'', gt_question = JStr ''q'',
     gt_ground_truth = JStr ''a'', gt_expected_docs = [], gt_source = JStr ''s''\<rparr>"

definition demo_written :: "(string \<times> json) list" where
  "demo_written = cost_json ''now'' (fl (95 / 100)) (Fin 1) (Fin 0) (Fin 100)"

abbreviation demo_cost :: "(live_error, (string \<times> json) list) result \<times> gateway_state" where
  "demo_cost \<equiv> cost_live (\<lambda>_. None) demo_transport [] ''now'' [demo_question] \<lparr>gs_tokens = [], gs_sent = []\<rparr>"

lemma demo_cost_value: "demo_cost = (Inr demo_written, snd demo_cost)"
  by (simp add: demo_written_def Let_def f_sum_def pct_reduction_def f_div_def f_mul_def f_sub_def f_max_def cost_live_def
    golden_request_def demo_question_def gateway_query_def gateway_token_def USER_BY_CLEARANCE_def send_def demo_transport_def
    token_request_def cost_units_def obj_get_def text_of_def)

theorem live_cost_gates_exactly_witness:
  "demo_cost = (Inr demo_written, snd demo_cost)
   \<and> (\<exists>url cold warm s1 r. cost_pass (\<lambda>_. None) demo_transport url (map golden_request [demo_question])
          \<lparr>gs_tokens = [], gs_sent = []\<rparr> = (Inr cold, s1)
      \<and> cost_pass (\<lambda>_. None) demo_transport url (map golden_request [demo_question]) s1 = (Inr warm, snd demo_cost)
      \<and> length cold = 1 \<and> length warm = 1 \<and> pct_reduction (f_sum cold) (f_sum warm) = Some r
      \<and> cost_gate_main (\<lambda>_. Some (JObj demo_written)) (Some ''f'') = (if f_le (Fin 30) r then 0 else 1))"
  using live_cost_gates_exactly [OF demo_cost_value, of "\<lambda>_. Some (JObj demo_written)" "''f''"] demo_cost_value by simp

end
