(* ===== verification/Train_Stats.thy ===== *)
theory Train_Stats
  imports Py_Sort "HOL-Library.Monad_Syntax"
begin

text \<open>
  The report-only statistics of the base-versus-fine-tuned comparison
  (\<open>training/atlas_training/stats.py\<close>). The random generator is a parameter, \<open>rand seed n k\<close> the
  \<open>k\<close>-th draw below \<open>n\<close>, and so are the square root \<open>sq\<close> and \<open>erfc\<close> of the C library. Exceptions are \<open>None\<close>.
\<close>

section \<open>Percentiles and the bootstrap\<close>

definition percentile_q :: "pyfloat list \<Rightarrow> pyfloat \<Rightarrow> pyfloat option" where
  "percentile_q xs q =
     (case xs of
        [] \<Rightarrow> None
      | [x] \<Rightarrow> Some x
      | _ \<Rightarrow>
          (let pos = f_mul q (f_of_int (int (length xs) - 1)) in
           do {
             lo \<leftarrow> f_floor pos;
             hi \<leftarrow> f_ceil pos;
             a \<leftarrow> py_index xs lo;
             if lo = hi then Some a
             else do {
               b \<leftarrow> py_index xs hi;
               let frac = f_sub pos (f_of_int lo);
               Some (f_add (f_mul a (f_sub (Fin 1) frac)) (f_mul b frac))
             }
           }))"

definition deltas :: "pyfloat list \<Rightarrow> pyfloat list \<Rightarrow> pyfloat list" where
  "deltas base ft = map (\<lambda>(b, f). f_sub f b) (zip base ft)"

text \<open>The mean of resample \<open>r\<close>; \<open>s += x\<close> adds without compensation.\<close>

definition resample_sum :: "(nat \<Rightarrow> nat) \<Rightarrow> pyfloat list \<Rightarrow> nat \<Rightarrow> pyfloat" where
  "resample_sum draw ds r =
     fold (\<lambda>k s. f_add s (ds ! draw (r * length ds + k))) [0..<length ds] (Fin 0)"

definition CI_LEVEL :: pyfloat where
  "CI_LEVEL = fl (95 / 100)"

definition paired_bootstrap_ci ::
  "(int \<Rightarrow> nat \<Rightarrow> nat \<Rightarrow> nat) \<Rightarrow> pyfloat list \<Rightarrow> pyfloat list \<Rightarrow> nat \<Rightarrow> pyfloat \<Rightarrow> int
     \<Rightarrow> (pyfloat \<times> pyfloat) option" where
  "paired_bootstrap_ci rand base ft n_resamples ci seed =
     (if length base \<noteq> length ft \<or> base = [] then None
      else do {
        let ds = deltas base ft;
        means \<leftarrow> those (map (\<lambda>r. f_div (resample_sum (rand seed (length ds)) ds r)
                                     (f_of_int (int (length ds)))) [0..<n_resamples]);
        let sorted_means = sort means;
        lo_q \<leftarrow> f_div (f_sub (Fin 1) ci) (Fin 2);
        lo \<leftarrow> percentile_q sorted_means lo_q;
        hi \<leftarrow> percentile_q sorted_means (f_sub (Fin 1) lo_q);
        Some (f_round lo 4, f_round hi 4)
      })"

section \<open>Wilcoxon signed-rank test\<close>

definition nonzero_diffs :: "pyfloat list \<Rightarrow> pyfloat list \<Rightarrow> pyfloat list" where
  "nonzero_diffs base ft =
     map (\<lambda>(b, f). f_sub f b) (filter (\<lambda>(b, f). \<not> f_eq f b) (zip base ft))"

text \<open>The last position of the group of values equal to position \<open>i\<close>.\<close>

function tie_end :: "pyfloat list \<Rightarrow> nat \<Rightarrow> nat \<Rightarrow> nat" where
  "tie_end xs i j =
     (if j + 1 < length xs \<and> f_eq (xs ! (j + 1)) (xs ! i) then tie_end xs i (j + 1) else j)"
  by auto
termination by (relation "measure (\<lambda>(xs, i, j). length xs - j)") auto

declare tie_end.simps [simp del]

lemma tie_end_ge: "j \<le> tie_end xs i j"
  by (induction xs i j rule: tie_end.induct) (subst tie_end.simps, auto)

lemma tie_end_less: "j < length xs \<Longrightarrow> tie_end xs i j < length xs"
  by (induction xs i j rule: tie_end.induct) (subst tie_end.simps, auto)

text \<open>\<open>xs\<close> are the absolute differences in the order of \<open>order\<close>.\<close>

function assign_ranks :: "pyfloat list \<Rightarrow> nat list \<Rightarrow> nat \<Rightarrow> pyfloat list \<Rightarrow> pyfloat list" where
  "assign_ranks xs order i ranks =
     (if i < length xs
      then (let j = tie_end xs i i; avg = int_div (int (i + 1 + j + 1)) 2
            in assign_ranks xs order (j + 1)
                 (fold (\<lambda>k r. r[order ! k := avg]) [i..<j + 1] ranks))
      else ranks)"
  by auto
termination
  by (relation "measure (\<lambda>(xs, order, i, ranks). length xs - i)")
    (auto simp: tie_end_ge le_imp_less_Suc intro!: diff_less_mono2)

declare assign_ranks.simps [simp del]

definition rank_order :: "pyfloat list \<Rightarrow> nat list" where
  "rank_order dv = sort_key (\<lambda>i. f_abs (dv ! i)) [0..<length dv]"

definition signed_ranks :: "pyfloat list \<Rightarrow> pyfloat list" where
  "signed_ranks dv =
     (let order = rank_order dv
      in assign_ranks (map (\<lambda>i. f_abs (dv ! i)) order) order 0 (replicate (length dv) (Fin 0)))"

definition rank_sum :: "(pyfloat \<Rightarrow> bool) \<Rightarrow> pyfloat list \<Rightarrow> pyfloat" where
  "rank_sum p dv = f_sum (map snd (filter (\<lambda>(d, r). p d) (zip dv (signed_ranks dv))))"

function tie_sum :: "pyfloat list \<Rightarrow> nat \<Rightarrow> pyfloat \<Rightarrow> pyfloat" where
  "tie_sum xs i acc =
     (if i < length xs
      then (let j = tie_end xs i i; t = int (j - i + 1)
            in tie_sum xs (j + 1) (if 1 < t then f_add acc (f_of_int (t ^ 3 - t)) else acc))
      else acc)"
  by auto
termination
  by (relation "measure (\<lambda>(xs, i, acc). length xs - i)")
    (auto simp: tie_end_ge le_imp_less_Suc intro!: diff_less_mono2)

declare tie_sum.simps [simp del]

definition normal_sf :: "(pyfloat \<Rightarrow> pyfloat) \<Rightarrow> (pyfloat \<Rightarrow> pyfloat) \<Rightarrow> pyfloat \<Rightarrow> pyfloat option" where
  "normal_sf sq erfc z = map_option (\<lambda>q. f_mul (Fin (1 / 2)) (erfc q)) (f_div z (sq (Fin 2)))"

definition f_min2 :: "pyfloat \<Rightarrow> pyfloat \<Rightarrow> pyfloat" where
  "f_min2 x y = (if f_lt y x then y else x)"

definition wilcoxon_signed_rank_p ::
  "(pyfloat \<Rightarrow> pyfloat) \<Rightarrow> (pyfloat \<Rightarrow> pyfloat) \<Rightarrow> pyfloat list \<Rightarrow> pyfloat list \<Rightarrow> pyfloat option" where
  "wilcoxon_signed_rank_p sq erfc base ft =
     (if length base \<noteq> length ft then None
      else (let dv = nonzero_diffs base ft; n = int (length dv) in
            if n = 0 then Some (Fin 1)
            else do {
              let w = f_min2 (rank_sum (\<lambda>d. f_lt (Fin 0) d) dv) (rank_sum (\<lambda>d. f_lt d (Fin 0)) dv);
              let mean_w = int_div (n * (n + 1)) 4;
              tie \<leftarrow> f_div (tie_sum (sort (map f_abs dv)) 0 (Fin 0)) (Fin 48);
              let var_w = f_sub (int_div (n * (n + 1) * (2 * n + 1)) 24) tie;
              if f_le var_w (Fin 0) then Some (Fin 1)
              else do {
                z \<leftarrow> f_div (f_sub (f_abs (f_sub w mean_w)) (Fin (1 / 2))) (sq var_w);
                p \<leftarrow> normal_sf sq erfc z;
                Some (f_round (f_min2 (Fin 1) (f_mul (Fin 2) p)) 4)
              }
            }))"

section \<open>McNemar test\<close>

text \<open>\<open>math.comb(n, x) * p ** x * (1 - p) ** (n - x)\<close> at \<open>p = 0.5\<close>, the only value it is called with; a
  coefficient beyond the range of floats is an error.\<close>

definition pmf :: "nat \<Rightarrow> nat \<Rightarrow> pyfloat option" where
  "pmf n x =
     (case f_of_int (int (n choose x)) of
        Fin c \<Rightarrow> Some (f_mul (f_mul (Fin c) (fl (1 / 2 ^ x))) (fl (1 / 2 ^ (n - x))))
      | _ \<Rightarrow> None)"

definition binom_two_sided_p :: "nat \<Rightarrow> nat \<Rightarrow> pyfloat option" where
  "binom_two_sided_p k n =
     (if n = 0 then Some (Fin 1)
      else do {
        obs \<leftarrow> pmf n k;
        ps \<leftarrow> those (map (pmf n) [0..<n + 1]);
        let likely = filter (\<lambda>p. f_le p (f_add obs (fl (1 / 10 ^ 12)))) ps;
        Some (f_round (f_min2 (Fin 1) (f_sum likely)) 4)
      })"

definition discordant :: "pyfloat list \<Rightarrow> pyfloat list \<Rightarrow> nat" where
  "discordant xs ys =
     count_if (\<lambda>(x, y). f_le (Fin (1 / 2)) x \<and> f_lt y (Fin (1 / 2))) (zip xs ys)"

definition mcnemar_p :: "pyfloat list \<Rightarrow> pyfloat list \<Rightarrow> pyfloat option" where
  "mcnemar_p base ft =
     (if length base \<noteq> length ft then None
      else (let b = discordant base ft; c = discordant ft base
            in if b + c = 0 then Some (Fin 1) else binom_two_sided_p (min b c) (b + c)))"

section \<open>The block of one metric\<close>

datatype metric_kind = Continuous | Binary

record stat_block =
  sb_lo :: pyfloat
  sb_hi :: pyfloat
  sb_p :: pyfloat
  sb_significant :: bool
  sb_test :: string

definition paired_stats ::
  "(int \<Rightarrow> nat \<Rightarrow> nat \<Rightarrow> nat) \<Rightarrow> (pyfloat \<Rightarrow> pyfloat) \<Rightarrow> (pyfloat \<Rightarrow> pyfloat) \<Rightarrow>
     pyfloat list \<Rightarrow> pyfloat list \<Rightarrow> metric_kind \<Rightarrow> nat \<Rightarrow> int \<Rightarrow> stat_block option" where
  "paired_stats rand sq erfc base ft kind n_resamples seed =
     do {
       (lo, hi) \<leftarrow> paired_bootstrap_ci rand base ft n_resamples CI_LEVEL seed;
       p \<leftarrow> (case kind of
               Continuous \<Rightarrow> wilcoxon_signed_rank_p sq erfc base ft
             | Binary \<Rightarrow> mcnemar_p base ft);
       Some \<lparr>sb_lo = lo, sb_hi = hi, sb_p = p,
             sb_significant = (\<not> (f_le lo (Fin 0) \<and> f_le (Fin 0) hi)),
             sb_test = (case kind of Continuous \<Rightarrow> ''wilcoxon'' | Binary \<Rightarrow> ''mcnemar'')\<rparr>
     }"

definition summarize_delta :: "pyfloat list \<Rightarrow> pyfloat list \<Rightarrow> pyfloat option" where
  "summarize_delta base ft =
     (if base = [] then Some (Fin 0)
      else if length ft < length base then None
      else map_option (\<lambda>x. f_round x 4)
             (f_div (f_sum (deltas base ft)) (f_of_int (int (length base)))))"

text \<open>\<open>statistics.median\<close> of a sorted list: the middle element, or the mean of the middle two.\<close>

definition median_sorted :: "pyfloat list \<Rightarrow> pyfloat option" where
  "median_sorted s =
     (let n = length s in
      if n = 0 then None
      else if odd n then Some (s ! (n div 2))
      else f_div (f_add (s ! (n div 2 - 1)) (s ! (n div 2))) (Fin 2))"

definition p50_p95 :: "pyfloat list \<Rightarrow> (pyfloat \<times> pyfloat) option" where
  "p50_p95 xs =
     (if xs = [] then Some (Fin 0, Fin 0)
      else do {
        m \<leftarrow> median_sorted (sort xs);
        q \<leftarrow> percentile_q (sort xs) (fl (95 / 100));
        Some (f_round m 1, f_round q 1)
      })"

end
