(* ===== verification/Train_Report.thy ===== *)
theory Train_Report
  imports Train_Stats Eval_Promotion
begin

text \<open>
  The base-versus-fine-tuned comparison (\<open>training/atlas_training/report.py\<close>) and its reader, the
  promotion gate. The commit and the clock are parameters; the rendered Markdown is not modelled.
\<close>

section \<open>Metrics\<close>

definition METRICS :: "string list" where
  "METRICS = [''faithfulness'', ''format_validity'', ''refusal_correctness'']"

definition METRIC_KIND :: "string \<Rightarrow> metric_kind" where
  "METRIC_KIND m = (if m = ''faithfulness'' then Continuous else Binary)"

definition metric_delta :: "pyfloat \<Rightarrow> pyfloat \<Rightarrow> pyfloat" where
  "metric_delta base ft = f_round (f_sub ft base) 4"

definition stats_json :: "stat_block \<Rightarrow> (string \<times> json) list" where
  "stats_json sb =
     [(''ci95_delta'', JList [JFloat (sb_lo sb), JFloat (sb_hi sb)]),
      (''p_value'', JFloat (sb_p sb)),
      (''significant'', JBool (sb_significant sb)),
      (''test'', JStr (sb_test sb))]"

type_synonym scores = "(string \<times> pyfloat) list"
type_synonym case_vectors = "(string \<times> (pyfloat list \<times> pyfloat list)) list"

text \<open>\<open>stats\<close> is \<open>paired_stats\<close> at the seed of the report; \<open>None\<close> is its exception.\<close>

type_synonym stats_fun = "pyfloat list \<Rightarrow> pyfloat list \<Rightarrow> metric_kind \<Rightarrow> stat_block option"

definition plain_block :: "pyfloat \<Rightarrow> pyfloat \<Rightarrow> (string \<times> json) list" where
  "plain_block b f =
     [(''base'', JFloat (f_round b 4)), (''ft'', JFloat (f_round f 4)),
      (''delta'', JFloat (metric_delta b f))]"

text \<open>\<open>block.update(stats)\<close> appends, as the keys differ.\<close>

definition block_of :: "stats_fun \<Rightarrow> case_vectors \<Rightarrow> string \<Rightarrow> pyfloat \<Rightarrow> pyfloat \<Rightarrow>
    (string \<times> json) list option" where
  "block_of stats per_case m b f =
     (case map_of per_case m of
        None \<Rightarrow> Some (plain_block b f)
      | Some (vb, vf) \<Rightarrow>
          map_option (\<lambda>sb. plain_block b f @ stats_json sb) (stats vb vf (METRIC_KIND m)))"

section \<open>The comparison\<close>

record comparison =
  cr_metrics :: json
  cr_model_ids :: json
  cr_dataset_size :: json
  cr_training_cost :: json
  cr_git_sha :: json
  cr_recorded_at :: json
  cr_meta :: json
  cr_cost :: json
  cr_ci_method :: json
  cr_sig_test :: json

definition to_json :: "comparison \<Rightarrow> (string \<times> json) list" where
  "to_json c =
     [(''metrics'', cr_metrics c), (''model_ids'', cr_model_ids c),
      (''dataset_size'', cr_dataset_size c), (''training_cost'', cr_training_cost c),
      (''git_sha'', cr_git_sha c), (''recorded_at'', cr_recorded_at c), (''meta'', cr_meta c)]
     @ (if json_truthy (cr_cost c) then [(''cost'', cr_cost c)] else [])
     @ (if json_truthy (cr_ci_method c) then [(''ci_method'', cr_ci_method c)] else [])
     @ (if json_truthy (cr_sig_test c) then [(''sig_test'', cr_sig_test c)] else [])"

text \<open>A missing key is the \<open>KeyError\<close>, \<open>None\<close>.\<close>

definition from_json :: "(string \<times> json) list \<Rightarrow> comparison option" where
  "from_json raw =
     do {
       metrics \<leftarrow> map_of raw ''metrics'';
       model_ids \<leftarrow> map_of raw ''model_ids'';
       dataset_size \<leftarrow> map_of raw ''dataset_size'';
       git_sha \<leftarrow> map_of raw ''git_sha'';
       recorded_at \<leftarrow> map_of raw ''recorded_at'';
       Some \<lparr>cr_metrics = metrics, cr_model_ids = model_ids, cr_dataset_size = dataset_size,
             cr_training_cost = obj_get_or raw ''training_cost'' (JObj []),
             cr_git_sha = git_sha, cr_recorded_at = recorded_at,
             cr_meta = obj_get_or raw ''meta'' (JObj []),
             cr_cost = obj_get_or raw ''cost'' (JObj []),
             cr_ci_method = obj_get_or raw ''ci_method'' (JStr []),
             cr_sig_test = obj_get_or raw ''sig_test'' (JStr [])\<rparr>
     }"

datatype report_error = MissingScores "string list" | StatsFailed

text \<open>The optional arguments are \<open>None\<close> when absent; \<open>sha\<close> and \<open>now\<close> are the commit and the clock.\<close>

record report_args =
  ra_model_ids :: "(string \<times> string) list"
  ra_dataset_size :: int
  ra_training_cost :: "(string \<times> json) list option"
  ra_git_sha :: "string option"
  ra_recorded_at :: "string option"
  ra_meta :: "(string \<times> json) list option"
  ra_cost :: "(string \<times> json) list option"

definition str_or :: "string option \<Rightarrow> string \<Rightarrow> string" where
  "str_or v d = (case v of Some (x # xs) \<Rightarrow> x # xs | _ \<Rightarrow> d)"

definition obj_or_empty :: "(string \<times> json) list option \<Rightarrow> json" where
  "obj_or_empty v = JObj (case v of Some d \<Rightarrow> d | None \<Rightarrow> [])"

definition missing_scores :: "scores \<Rightarrow> scores \<Rightarrow> string list" where
  "missing_scores base ft = filter (\<lambda>m. map_of base m = None \<or> map_of ft m = None) METRICS"

definition score_of :: "scores \<Rightarrow> string \<Rightarrow> pyfloat" where
  "score_of s m = (case map_of s m of Some x \<Rightarrow> x | None \<Rightarrow> NaN)"

definition build_blocks :: "stats_fun \<Rightarrow> case_vectors \<Rightarrow> scores \<Rightarrow> scores \<Rightarrow> (string \<times> json) list option" where
  "build_blocks stats per_case base ft =
     those (map (\<lambda>m. map_option (\<lambda>b. (m, JObj b))
                        (block_of stats per_case m (score_of base m) (score_of ft m))) METRICS)"

definition build_comparison ::
  "stats_fun \<Rightarrow> string \<Rightarrow> string \<Rightarrow> scores \<Rightarrow> scores \<Rightarrow> report_args \<Rightarrow> case_vectors option
     \<Rightarrow> (report_error, comparison) result" where
  "build_comparison stats sha now base ft a per_case =
     (if missing_scores base ft \<noteq> [] then Inl (MissingScores (missing_scores base ft))
      else (let pc = (case per_case of Some v \<Rightarrow> v | None \<Rightarrow> []) in
            case build_blocks stats pc base ft of
              None \<Rightarrow> Inl StatsFailed
            | Some blocks \<Rightarrow>
                Inr \<lparr>cr_metrics = JObj blocks,
                     cr_model_ids = JObj (map (\<lambda>(k, v). (k, JStr v)) (ra_model_ids a)),
                     cr_dataset_size = JInt (ra_dataset_size a),
                     cr_training_cost = obj_or_empty (ra_training_cost a),
                     cr_git_sha = JStr (str_or (ra_git_sha a) sha),
                     cr_recorded_at = JStr (str_or (ra_recorded_at a) now),
                     cr_meta = obj_or_empty (ra_meta a),
                     cr_cost = obj_or_empty (ra_cost a),
                     cr_ci_method = JStr (if pc = [] then [] else ''paired_bootstrap_10k''),
                     cr_sig_test = JStr (if pc = [] then [] else ''wilcoxon+mcnemar'')\<rparr>))"

section \<open>Cost per request\<close>

record request_costs =
  rc_base_latencies :: "pyfloat list"
  rc_ft_latencies :: "pyfloat list"
  rc_base_units :: pyfloat
  rc_ft_units :: pyfloat
  rc_gpu :: string

definition cost_side :: "pyfloat \<Rightarrow> pyfloat \<times> pyfloat \<Rightarrow> json" where
  "cost_side units p =
     JObj [(''cost_units_per_req'', JFloat (f_round units 6)),
           (''latency_ms_p50'', JFloat (fst p)), (''latency_ms_p95'', JFloat (snd p))]"

definition cost_delta_pct :: "pyfloat \<Rightarrow> pyfloat \<Rightarrow> pyfloat option" where
  "cost_delta_pct base ft =
     (if f_lt (Fin 0) base
      then map_option (\<lambda>q. f_round (f_mul q (Fin 100)) 2) (f_div (f_sub ft base) base)
      else Some (Fin 0))"

definition build_cost_per_request :: "request_costs \<Rightarrow> (string \<times> json) list option" where
  "build_cost_per_request rc =
     do {
       b \<leftarrow> p50_p95 (rc_base_latencies rc);
       f \<leftarrow> p50_p95 (rc_ft_latencies rc);
       d \<leftarrow> cost_delta_pct (rc_base_units rc) (rc_ft_units rc);
       Some [(''base'', cost_side (rc_base_units rc) b), (''ft'', cost_side (rc_ft_units rc) f),
             (''delta_pct'', JFloat d), (''same_gpu'', JStr (rc_gpu rc))]
     }"

section \<open>What the gate reads\<close>

lemma block_of_shape: "block_of stats pc m b f = Some blk \<Longrightarrow> \<exists>e. blk = plain_block b f @ e"
  by (auto simp: block_of_def split: option.splits)

lemma build_blocks_shape:
  assumes "build_blocks stats pc base ft = Some bs"
  shows "\<exists>e1 e2 e3. bs =
    [(''faithfulness'', JObj (plain_block (score_of base ''faithfulness'') (score_of ft ''faithfulness'') @ e1)),
     (''format_validity'', JObj (plain_block (score_of base ''format_validity'') (score_of ft ''format_validity'') @ e2)),
     (''refusal_correctness'', JObj (plain_block (score_of base ''refusal_correctness'') (score_of ft ''refusal_correctness'') @ e3))]"
  using assms by (auto simp: build_blocks_def METRICS_def split: option.splits dest!: block_of_shape)

lemma build_blocks_plain:
  "build_blocks stats [] base ft = Some
    [(''faithfulness'', JObj (plain_block (score_of base ''faithfulness'') (score_of ft ''faithfulness''))),
     (''format_validity'', JObj (plain_block (score_of base ''format_validity'') (score_of ft ''format_validity''))),
     (''refusal_correctness'', JObj (plain_block (score_of base ''refusal_correctness'') (score_of ft ''refusal_correctness'')))]"
  by (simp add: build_blocks_def METRICS_def block_of_def)

lemma plain_block_get:
  "obj_get (plain_block b f @ e) ''base'' = JFloat (f_round b 4)"
  "obj_get (plain_block b f @ e) ''ft'' = JFloat (f_round f 4)"
  "map_of (plain_block b f @ e) ''delta'' = Some (JFloat (metric_delta b f))"
  by (simp_all add: plain_block_def obj_get_def)

text \<open>The keys that the comparison writes once.\<close>

lemma to_json_get:
  "obj_get (to_json c) ''metrics'' = cr_metrics c"
  "obj_get (to_json c) ''model_ids'' = cr_model_ids c"
  "map_of (to_json c) ''git_sha'' = Some (cr_git_sha c)"
  "map_of (to_json c) ''ft_model'' = None"
  "json_truthy (cr_cost c) \<Longrightarrow> obj_get (to_json c) ''cost'' = cr_cost c"
  "\<not> json_truthy (cr_cost c) \<Longrightarrow> obj_get (to_json c) ''cost'' = JNull"
  by (simp_all add: to_json_def obj_get_def)

lemma to_json_cost_delta:
  "cost_delta (to_json c) = (case cr_cost c of JObj d \<Rightarrow> obj_get d ''delta_pct'' | _ \<Rightarrow> JNull)"
proof (cases "json_truthy (cr_cost c)")
  case True
  then show ?thesis by (simp add: cost_delta_def to_json_get)
next
  case False
  then show ?thesis by (cases "cr_cost c") (simp_all add: cost_delta_def to_json_get, simp add: obj_get_def)
qed

lemma built_cost: "cr_cost c = obj_or_empty v \<Longrightarrow> cost_delta (to_json c) =
    (case v of Some d \<Rightarrow> obj_get d ''delta_pct'' | None \<Rightarrow> JNull)"
  by (auto simp: to_json_cost_delta obj_or_empty_def obj_get_def split: option.splits)

definition gate_view :: "scores \<Rightarrow> scores \<Rightarrow> (string \<times> json) list \<Rightarrow> bool" where
  "gate_view base ft c \<longleftrightarrow>
     (\<forall>m\<in>set METRICS. \<exists>e. metric_block c m = Inr (plain_block (score_of base m) (score_of ft m) @ e))"

lemma built_view:
  assumes "build_comparison stats sha now base ft a per_case = Inr c"
  shows "gate_view base ft (to_json c)"
proof -
  obtain bs where bs: "build_blocks stats (case per_case of Some v \<Rightarrow> v | None \<Rightarrow> []) base ft = Some bs"
    "cr_metrics c = JObj bs"
    using assms by (auto simp: build_comparison_def Let_def split: if_splits option.splits)
  then show ?thesis
    using build_blocks_shape [OF bs(1)]
    by (auto simp: gate_view_def METRICS_def metric_block_def to_json_get plain_block_get)
qed

lemma evaluate_view:
  assumes "gate_view base ft c" "gate_view base ft c'"
    and "cost_delta c = cost_delta c'" "model_version c = model_version c'"
    and "obj_get_or c ''git_sha'' (JStr []) = obj_get_or c' ''git_sha'' (JStr [])"
  shows "evaluate_promotion_gate parse now c fs sha = evaluate_promotion_gate parse now c' fs sha"
proof -
  obtain e1 e2 e3 where e:
    "metric_block c ''faithfulness'' = Inr (plain_block (score_of base ''faithfulness'') (score_of ft ''faithfulness'') @ e1)"
    "metric_block c ''format_validity'' = Inr (plain_block (score_of base ''format_validity'') (score_of ft ''format_validity'') @ e2)"
    "metric_block c ''refusal_correctness'' = Inr (plain_block (score_of base ''refusal_correctness'') (score_of ft ''refusal_correctness'') @ e3)"
    using assms(1) by (auto simp: gate_view_def METRICS_def)
  obtain d1 d2 d3 where d:
    "metric_block c' ''faithfulness'' = Inr (plain_block (score_of base ''faithfulness'') (score_of ft ''faithfulness'') @ d1)"
    "metric_block c' ''format_validity'' = Inr (plain_block (score_of base ''format_validity'') (score_of ft ''format_validity'') @ d2)"
    "metric_block c' ''refusal_correctness'' = Inr (plain_block (score_of base ''refusal_correctness'') (score_of ft ''refusal_correctness'') @ d3)"
    using assms(2) by (auto simp: gate_view_def METRICS_def)
  have r: "refusal_decision parse fs (plain_block x y @ e3) = refusal_decision parse fs (plain_block x y @ d3)" for x y
    by (simp only: refusal_decision_def refusal_delta_def plain_block_get)
  show ?thesis
    unfolding evaluate_promotion_gate_def e d assms(3-5)
    by (simp only: res_bind_simps plain_block_get r)
qed

section \<open>The statistics are report-only\<close>

lemma from_to_json_defaults:
  assumes "json_truthy (cr_cost c) \<or> cr_cost c = JObj []"
    and "json_truthy (cr_ci_method c) \<or> cr_ci_method c = JStr []"
    and "json_truthy (cr_sig_test c) \<or> cr_sig_test c = JStr []"
  shows "from_json (to_json c) = Some c"
  using assms by (elim disjE) (simp_all add: from_json_def to_json_def obj_get_or_def)

lemma from_to_json:
  assumes "build_comparison stats sha now base ft a per_case = Inr c"
  shows "from_json (to_json c) = Some c"
proof (rule from_to_json_defaults)
  show "json_truthy (cr_cost c) \<or> cr_cost c = JObj []"
    and "json_truthy (cr_ci_method c) \<or> cr_ci_method c = JStr []"
    and "json_truthy (cr_sig_test c) \<or> cr_sig_test c = JStr []"
    using assms by (auto simp: build_comparison_def Let_def obj_or_empty_def split: if_splits option.splits)
qed

lemma built_without_stats:
  assumes "build_comparison stats sha now base ft a per_case = Inr c"
  shows "\<exists>c0. build_comparison stats sha now base ft a None = Inr c0
    \<and> cr_cost c0 = cr_cost c \<and> cr_model_ids c0 = cr_model_ids c \<and> cr_git_sha c0 = cr_git_sha c"
  using assms build_blocks_plain [of stats base ft]
  by (auto simp: build_comparison_def Let_def split: if_splits option.splits)

lemma built_gate_equal:
  assumes "build_comparison stats sha now base ft a per_case = Inr c"
    and "build_comparison stats sha now base ft a None = Inr c0"
    and "cr_cost c0 = cr_cost c" "cr_model_ids c0 = cr_model_ids c" "cr_git_sha c0 = cr_git_sha c"
  shows "evaluate_promotion_gate parse t (to_json c) fs g = evaluate_promotion_gate parse t (to_json c0) fs g"
proof (rule evaluate_view [OF built_view [OF assms(1)] built_view [OF assms(2)]])
  show "cost_delta (to_json c) = cost_delta (to_json c0)" by (simp add: to_json_cost_delta assms(3))
  show "model_version (to_json c) = model_version (to_json c0)"
    by (simp only: model_version_def to_json_get(2) obj_get_or_simps(1) [OF to_json_get(4)] assms(4))
  show "obj_get_or (to_json c) ''git_sha'' (JStr []) = obj_get_or (to_json c0) ''git_sha'' (JStr [])"
    by (simp add: obj_get_or_def to_json_get(3) assms(5))
qed


section \<open>Composition with the gate\<close>

lemma built_scores:
  assumes "gate_view base ft c" "m \<in> set METRICS"
  shows "metric_score c m ''ft'' = Some (f_round (score_of ft m) 4)"
    and "metric_score c m ''base'' = Some (f_round (score_of base m) 4)"
  using assms by (auto simp: gate_view_def metric_score_def plain_block_get dest!: bspec)

lemma built_refusal_delta:
  assumes "gate_view base ft c"
  shows "measured_refusal_delta parse c =
    Some (metric_delta (score_of base ''refusal_correctness'') (score_of ft ''refusal_correctness''))"
proof -
  obtain e where "metric_block c ''refusal_correctness'' =
      Inr (plain_block (score_of base ''refusal_correctness'') (score_of ft ''refusal_correctness'') @ e)"
    using assms by (auto simp: gate_view_def METRICS_def)
  then show ?thesis
    by (simp add: measured_refusal_delta_def refusal_delta_def plain_block_get any_float_def need_def
        del: map_of_append)
qed

lemma nan_score_blocks:
  assumes "build_comparison stats sha now base ft a per_case = Inr c"
    and "evaluate_promotion_gate parse t (to_json c) fs g = Inr r"
    and "score_of ft ''faithfulness'' = NaN"
  shows "\<not> pr_promoted r"
proof -
  have "metric_score (to_json c) ''faithfulness'' ''ft'' = Some NaN"
    using built_scores(1) [OF built_view [OF assms(1)], of "''faithfulness''"] assms(3)
    by (simp add: METRICS_def f_round_def)
  then show ?thesis by (intro promotion_nan_blocks [OF assms(2)]) simp
qed

text \<open>With validated floors the gate decides every comparison the report builds.\<close>

lemma built_decides_cost:
  assumes "build_comparison stats sha now base ft a per_case = Inr c" "valid_floors fs"
    and "num_float (fo_refusal_min fs) \<noteq> None"
    and "cost_delta (to_json c) = JFloat x"
  shows "\<exists>r. evaluate_promotion_gate parse t (to_json c) fs g = Inr r"
proof -
  obtain e1 e2 e3 where e:
    "metric_block (to_json c) ''faithfulness'' = Inr (plain_block (score_of base ''faithfulness'') (score_of ft ''faithfulness'') @ e1)"
    "metric_block (to_json c) ''format_validity'' = Inr (plain_block (score_of base ''format_validity'') (score_of ft ''format_validity'') @ e2)"
    "metric_block (to_json c) ''refusal_correctness'' = Inr (plain_block (score_of base ''refusal_correctness'') (score_of ft ''refusal_correctness'') @ e3)"
    using built_view [OF assms(1)] by (auto simp: gate_view_def METRICS_def)
  obtain band cb rm where fs: "num_float (fo_max_regression fs) = Some band"
    "num_float (fo_cost_band fs) = Some cb" "num_float (fo_refusal_min fs) = Some rm"
    using assms(2,3) by (auto simp: valid_floors_def unit_number_def)
  obtain cd where cd: "cost_decision parse (cost_delta (to_json c)) (fo_cost_band fs) = Inr cd"
    using fs by (auto simp: assms(4) cost_decision_def any_float_def Let_def need_def)
  obtain rd where "refusal_decision parse fs
      (plain_block (score_of base ''refusal_correctness'') (score_of ft ''refusal_correctness'') @ e3) = Inr rd"
    using fs by (auto simp: refusal_decision_def refusal_delta_def plain_block_get any_float_def Let_def need_def guard_def
        simp del: map_of_append)
  then show ?thesis
    by (simp add: evaluate_promotion_gate_def e plain_block_get fs cd need_def split: prod.split)
qed

section \<open>A concrete comparison\<close>

definition demo_stats :: stats_fun where
  "demo_stats b f k = paired_stats (\<lambda>_ _ _. 0) (\<lambda>x. x) (\<lambda>x. x) b f k 1 0"

definition demo_scores :: scores where
  "demo_scores = [(''faithfulness'', Fin 1), (''format_validity'', Fin 1), (''refusal_correctness'', Fin 1)]"

definition demo_args :: report_args where
  "demo_args = \<lparr>ra_model_ids = [(''base'', ''b''), (''ft'', ''f'')], ra_dataset_size = 2,
     ra_training_cost = None, ra_git_sha = None, ra_recorded_at = None, ra_meta = None, ra_cost = None\<rparr>"

definition demo_cases :: case_vectors where
  "demo_cases = [(''format_validity'', ([Fin 1], [Fin 1]))]"

lemma demo_stats_value: "demo_stats [Fin 1] [Fin 1] Binary \<noteq> None"
proof -
  have ds: "deltas [Fin 1] [Fin 1] = [Fin 0]" by (simp add: deltas_def f_sub_def)
  have half: "f_div x (Fin 2) \<noteq> None" for x by (cases x) (simp_all add: f_div_def)
  have "f_div (Fin 0) (Fin 1) = Some (Fin 0)" by (simp add: f_div_def)
  then have ci: "paired_bootstrap_ci (\<lambda>_ _ _. 0) [Fin 1] [Fin 1] 1 CI_LEVEL 0 \<noteq> None"
    using half [of "f_sub (Fin 1) CI_LEVEL"]
    by (auto simp: paired_bootstrap_ci_def ds resample_sum_def f_of_int_def percentile_q_def Let_def)
  have "mcnemar_p [Fin 1] [Fin 1] = Some (Fin 1)"
    by (simp add: mcnemar_p_def discordant_def count_if_def Let_def f_lt_def)
  then show ?thesis using ci by (auto simp: demo_stats_def paired_stats_def)
qed

lemma demo_built: "\<exists>c. build_comparison demo_stats [] [] demo_scores demo_scores demo_args (Some demo_cases) = Inr c"
  using demo_stats_value
  by (auto simp: build_comparison_def missing_scores_def METRICS_def METRIC_KIND_def build_blocks_def
      block_of_def demo_cases_def demo_scores_def)


end
