(* ===== verification/Train_Config.thy ===== *)
theory Train_Config
  imports Eval_Datasets
begin

text \<open>
  The loader of the pinned fine-tuning configuration (\<open>training/atlas_training/config.py\<close>). A run
  is reproducible from the committed file only if every field is present and has its type, so the
  loader fails on the first field that is not. The decoding of YAML is an argument; its values are
  the JSON values (mappings with string keys). The theorems describe the accepted files by the table
  \<open>PINNED\<close> of the required fields, independently of the order in which the code reads them.
\<close>

section \<open>Records\<close>

record quant_config =
  q_load_in_4bit :: json
  q_quant_type :: json
  q_compute_dtype :: json
  q_double_quant :: json

record lora_config =
  lora_r :: json
  lora_alpha :: json
  lora_dropout :: json
  lora_modules :: "json list"

record train_config =
  tr_epochs :: json
  tr_lr :: json
  tr_batch_size :: json
  tr_grad_accum :: json
  tr_max_seq_len :: json
  tr_seed :: json

record early_stopping =
  es_metric :: json
  es_patience :: json
  es_min_delta :: json

record dataset_refs =
  ds_manifest :: json
  ds_train :: json
  ds_val :: json

record mlflow_config =
  ml_experiment :: json
  ml_run_name :: json
  ml_register_as :: json

record run_config =
  cfg_base_model :: json
  cfg_quant :: quant_config
  cfg_lora :: lora_config
  cfg_train :: train_config
  cfg_early :: early_stopping
  cfg_dataset :: dataset_refs
  cfg_mlflow :: mlflow_config

definition config_seed :: "run_config \<Rightarrow> json" where
  "config_seed c = tr_seed (cfg_train c)"

section \<open>Validation helpers\<close>

datatype config_error =
    NotMapping string
  | MissingField string
  | WrongType string
  | NotAllowed string
  | Unhashable string
  | BadModules
  | NoConfigFile
  | BadYaml
  | TopNotMapping
  | EmptyBaseModel

datatype py_type = TBool | TInt | TFloat | TStr

text \<open>\<open>isinstance\<close>: a Boolean is also an \<open>int\<close>.\<close>

fun isinst :: "json \<Rightarrow> py_type \<Rightarrow> bool" where
  "isinst (JBool b) t = (t \<in> {TBool, TInt})"
| "isinst (JInt n) t = (t = TInt)"
| "isinst (JFloat x) t = (t = TFloat)"
| "isinst (JStr s) t = (t = TStr)"
| "isinst _ t = False"

definition is_bool :: "json \<Rightarrow> bool" where
  "is_bool v = (case v of JBool _ \<Rightarrow> True | _ \<Rightarrow> False)"

definition is_str :: "json \<Rightarrow> bool" where
  "is_str v = (case v of JStr _ \<Rightarrow> True | _ \<Rightarrow> False)"

definition dotted :: "string \<Rightarrow> string \<Rightarrow> string" where
  "dotted sec key = (if sec = [] then key else sec @ ''.'' @ key)"

text \<open>An absent key and a null value are both missing.\<close>

definition require :: "json \<Rightarrow> string \<Rightarrow> string \<Rightarrow> (config_error, json) result" where
  "require raw key sec =
     (case raw of
        JObj d \<Rightarrow> (if obj_get d key = JNull then Inl (MissingField (dotted sec key))
                   else Inr (obj_get d key))
      | _ \<Rightarrow> Inl (NotMapping sec))"

definition require_type :: "json \<Rightarrow> py_type list \<Rightarrow> string \<Rightarrow> (config_error, json) result" where
  "require_type v types field =
     (if TBool \<notin> set types \<and> is_bool v then Inl (WrongType field)
      else if \<not> list_ex (isinst v) types then Inl (WrongType field)
      else Inr v)"

text \<open>Membership in a set of strings hashes the value first.\<close>

definition require_choice :: "json \<Rightarrow> string list \<Rightarrow> string \<Rightarrow> (config_error, json) result" where
  "require_choice v allowed field =
     (if \<not> hashable v then Inl (Unhashable field)
      else if v \<notin> JStr ` set allowed then Inl (NotAllowed field)
      else Inr v)"

definition QUANT_TYPES :: "string list" where
  "QUANT_TYPES = [''nf4'', ''fp4'']"

definition COMPUTE_DTYPES :: "string list" where
  "COMPUTE_DTYPES = [''bfloat16'', ''float16'', ''float32'']"

definition EARLY_STOP_METRICS :: "string list" where
  "EARLY_STOP_METRICS = [''eval_loss'', ''loss'']"

text \<open>\<open>_require_type(_require(raw, key, sec), types, "sec.key")\<close> and the same with a choice.\<close>

definition typed :: "json \<Rightarrow> string \<Rightarrow> string \<Rightarrow> py_type list \<Rightarrow> (config_error, json) result" where
  "typed raw sec key types =
     res_bind (require raw key sec) (\<lambda>v. require_type v types (dotted sec key))"

definition choice :: "json \<Rightarrow> string \<Rightarrow> string \<Rightarrow> string list \<Rightarrow> (config_error, json) result" where
  "choice raw sec key allowed =
     res_bind (require raw key sec) (\<lambda>v. require_choice v allowed (dotted sec key))"

section \<open>Sections\<close>

definition quant_section :: "json \<Rightarrow> (config_error, quant_config) result" where
  "quant_section raw =
     res_bind (typed raw ''quant'' ''load_in_4bit'' [TBool]) (\<lambda>a.
     res_bind (choice raw ''quant'' ''bnb_4bit_quant_type'' QUANT_TYPES) (\<lambda>b.
     res_bind (choice raw ''quant'' ''bnb_4bit_compute_dtype'' COMPUTE_DTYPES) (\<lambda>c.
     res_bind (typed raw ''quant'' ''double_quant'' [TBool]) (\<lambda>d.
       Inr \<lparr>q_load_in_4bit = a, q_quant_type = b, q_compute_dtype = c,
            q_double_quant = d\<rparr>))))"

definition string_list :: "json \<Rightarrow> json list option" where
  "string_list v =
     (case v of JList xs \<Rightarrow> if xs \<noteq> [] \<and> list_all is_str xs then Some xs else None | _ \<Rightarrow> None)"

definition lora_section :: "json \<Rightarrow> (config_error, lora_config) result" where
  "lora_section raw =
     res_bind (require raw ''target_modules'' ''lora'') (\<lambda>m.
     case string_list m of None \<Rightarrow> Inl BadModules
     | Some modules \<Rightarrow>
         res_bind (typed raw ''lora'' ''r'' [TInt]) (\<lambda>a.
         res_bind (typed raw ''lora'' ''alpha'' [TInt]) (\<lambda>b.
         res_bind (typed raw ''lora'' ''dropout'' [TInt, TFloat]) (\<lambda>c.
           Inr \<lparr>lora_r = a, lora_alpha = b, lora_dropout = c, lora_modules = modules\<rparr>))))"

definition train_section :: "json \<Rightarrow> (config_error, train_config) result" where
  "train_section raw =
     res_bind (typed raw ''train'' ''epochs'' [TInt]) (\<lambda>a.
     res_bind (typed raw ''train'' ''lr'' [TInt, TFloat]) (\<lambda>b.
     res_bind (typed raw ''train'' ''batch_size'' [TInt]) (\<lambda>c.
     res_bind (typed raw ''train'' ''grad_accum'' [TInt]) (\<lambda>d.
     res_bind (typed raw ''train'' ''max_seq_len'' [TInt]) (\<lambda>e.
     res_bind (typed raw ''train'' ''seed'' [TInt]) (\<lambda>f.
       Inr \<lparr>tr_epochs = a, tr_lr = b, tr_batch_size = c, tr_grad_accum = d, tr_max_seq_len = e, tr_seed = f\<rparr>))))))"

definition early_section :: "json \<Rightarrow> (config_error, early_stopping) result" where
  "early_section raw =
     res_bind (choice raw ''early_stopping'' ''metric'' EARLY_STOP_METRICS) (\<lambda>a.
     res_bind (typed raw ''early_stopping'' ''patience'' [TInt]) (\<lambda>b.
     res_bind (typed raw ''early_stopping'' ''min_delta'' [TInt, TFloat]) (\<lambda>c.
       Inr \<lparr>es_metric = a, es_patience = b, es_min_delta = c\<rparr>)))"

definition dataset_section :: "json \<Rightarrow> (config_error, dataset_refs) result" where
  "dataset_section raw =
     res_bind (typed raw ''dataset'' ''manifest'' [TStr]) (\<lambda>a.
     res_bind (typed raw ''dataset'' ''train'' [TStr]) (\<lambda>b.
     res_bind (typed raw ''dataset'' ''val'' [TStr]) (\<lambda>c.
       Inr \<lparr>ds_manifest = a, ds_train = b, ds_val = c\<rparr>)))"

definition mlflow_section :: "json \<Rightarrow> (config_error, mlflow_config) result" where
  "mlflow_section raw =
     res_bind (typed raw ''mlflow'' ''experiment'' [TStr]) (\<lambda>a.
     res_bind (typed raw ''mlflow'' ''run_name'' [TStr]) (\<lambda>b.
     res_bind (typed raw ''mlflow'' ''register_as'' [TStr]) (\<lambda>c.
       Inr \<lparr>ml_experiment = a, ml_run_name = b, ml_register_as = c\<rparr>)))"

definition sub_section ::
  "json \<Rightarrow> string \<Rightarrow> (json \<Rightarrow> (config_error, 'a) result) \<Rightarrow> (config_error, 'a) result" where
  "sub_section raw key parse = res_bind (require raw key []) parse"

definition parse_config :: "json \<Rightarrow> (config_error, run_config) result" where
  "parse_config raw =
     res_bind (guard (is_obj raw) TopNotMapping) (\<lambda>_.
     res_bind (typed raw [] ''base_model'' [TStr]) (\<lambda>bm.
     res_bind (guard (case bm of JStr s \<Rightarrow> str_strip s \<noteq> [] | _ \<Rightarrow> False) EmptyBaseModel) (\<lambda>_.
     res_bind (sub_section raw ''quant'' quant_section) (\<lambda>q.
     res_bind (sub_section raw ''lora'' lora_section) (\<lambda>l.
     res_bind (sub_section raw ''train'' train_section) (\<lambda>t.
     res_bind (sub_section raw ''early_stopping'' early_section) (\<lambda>e.
     res_bind (sub_section raw ''dataset'' dataset_section) (\<lambda>d.
     res_bind (sub_section raw ''mlflow'' mlflow_section) (\<lambda>m.
       Inr \<lparr>cfg_base_model = bm, cfg_quant = q, cfg_lora = l, cfg_train = t, cfg_early = e, cfg_dataset = d,
            cfg_mlflow = m\<rparr>)))))))))"

text \<open>\<open>file\<close> is the content of the file, \<open>None\<close> if there is none; \<open>yaml\<close> decodes, \<open>None\<close> on bad YAML.\<close>

definition load_config ::
  "(string \<Rightarrow> json option) \<Rightarrow> string option \<Rightarrow> (config_error, run_config) result" where
  "load_config yaml file =
     (case file of None \<Rightarrow> Inl NoConfigFile
      | Some content \<Rightarrow>
          (case yaml content of None \<Rightarrow> Inl BadYaml | Some raw \<Rightarrow> parse_config raw))"

section \<open>The table of pinned fields\<close>

datatype field_type =
    FBool
  | FChoice "string list"
  | FInt
  | FNum
  | FStr
  | FText
  | FModules

fun field_ok :: "field_type \<Rightarrow> json \<Rightarrow> bool" where
  "field_ok FBool v = is_bool v"
| "field_ok (FChoice xs) v = (v \<in> JStr ` set xs)"
| "field_ok FInt v = (case v of JInt _ \<Rightarrow> True | _ \<Rightarrow> False)"
| "field_ok FNum v = is_num v"
| "field_ok FStr v = is_str v"
| "field_ok FText v = (case v of JStr s \<Rightarrow> str_strip s \<noteq> [] | _ \<Rightarrow> False)"
| "field_ok FModules v = (string_list v \<noteq> None)"

definition PINNED :: "(string \<times> string \<times> field_type) list" where
  "PINNED =
     [([], ''base_model'', FText),
      (''quant'', ''load_in_4bit'', FBool),
      (''quant'', ''bnb_4bit_quant_type'', FChoice QUANT_TYPES),
      (''quant'', ''bnb_4bit_compute_dtype'', FChoice COMPUTE_DTYPES),
      (''quant'', ''double_quant'', FBool),
      (''lora'', ''r'', FInt), (''lora'', ''alpha'', FInt), (''lora'', ''dropout'', FNum),
      (''lora'', ''target_modules'', FModules),
      (''train'', ''epochs'', FInt), (''train'', ''lr'', FNum), (''train'', ''batch_size'', FInt),
      (''train'', ''grad_accum'', FInt), (''train'', ''max_seq_len'', FInt), (''train'', ''seed'', FInt),
      (''early_stopping'', ''metric'', FChoice EARLY_STOP_METRICS),
      (''early_stopping'', ''patience'', FInt), (''early_stopping'', ''min_delta'', FNum),
      (''dataset'', ''manifest'', FStr), (''dataset'', ''train'', FStr), (''dataset'', ''val'', FStr),
      (''mlflow'', ''experiment'', FStr), (''mlflow'', ''run_name'', FStr),
      (''mlflow'', ''register_as'', FStr)]"

definition field :: "json \<Rightarrow> string \<Rightarrow> string \<Rightarrow> json" where
  "field raw sec key =
     (let read = (\<lambda>v k. case v of JObj d \<Rightarrow> obj_get d k | _ \<Rightarrow> JNull)
      in if sec = [] then read raw key else read (read raw sec) key)"

definition pinned :: "json \<Rightarrow> bool" where
  "pinned raw = list_all (\<lambda>(sec, key, t). field_ok t (field raw sec key)) PINNED"

definition quant_of :: "json \<Rightarrow> quant_config" where
  "quant_of raw =
     \<lparr>q_load_in_4bit = field raw [] ''load_in_4bit'',
      q_quant_type = field raw [] ''bnb_4bit_quant_type'',
      q_compute_dtype = field raw [] ''bnb_4bit_compute_dtype'',
      q_double_quant = field raw [] ''double_quant''\<rparr>"

definition lora_of :: "json \<Rightarrow> lora_config" where
  "lora_of raw =
     \<lparr>lora_r = field raw [] ''r'',
      lora_alpha = field raw [] ''alpha'',
      lora_dropout = field raw [] ''dropout'',
      lora_modules = the (string_list (field raw [] ''target_modules''))\<rparr>"

definition train_of :: "json \<Rightarrow> train_config" where
  "train_of raw =
     \<lparr>tr_epochs = field raw [] ''epochs'',
      tr_lr = field raw [] ''lr'',
      tr_batch_size = field raw [] ''batch_size'',
      tr_grad_accum = field raw [] ''grad_accum'',
      tr_max_seq_len = field raw [] ''max_seq_len'',
      tr_seed = field raw [] ''seed''\<rparr>"

definition early_of :: "json \<Rightarrow> early_stopping" where
  "early_of raw =
     \<lparr>es_metric = field raw [] ''metric'',
      es_patience = field raw [] ''patience'',
      es_min_delta = field raw [] ''min_delta''\<rparr>"

definition dataset_of :: "json \<Rightarrow> dataset_refs" where
  "dataset_of raw =
     \<lparr>ds_manifest = field raw [] ''manifest'',
      ds_train = field raw [] ''train'',
      ds_val = field raw [] ''val''\<rparr>"

definition mlflow_of :: "json \<Rightarrow> mlflow_config" where
  "mlflow_of raw =
     \<lparr>ml_experiment = field raw [] ''experiment'',
      ml_run_name = field raw [] ''run_name'',
      ml_register_as = field raw [] ''register_as''\<rparr>"

definition config_of :: "json \<Rightarrow> run_config" where
  "config_of raw =
     \<lparr>cfg_base_model = field raw [] ''base_model'',
      cfg_quant = quant_of (field raw [] ''quant''),
      cfg_lora = lora_of (field raw [] ''lora''),
      cfg_train = train_of (field raw [] ''train''),
      cfg_early = early_of (field raw [] ''early_stopping''),
      cfg_dataset = dataset_of (field raw [] ''dataset''),
      cfg_mlflow = mlflow_of (field raw [] ''mlflow'')\<rparr>"

lemma field_ok_JNull [simp]: "\<not> field_ok t JNull"
  by (cases t) (auto simp: is_bool_def is_str_def string_list_def)

lemma field_secs:
  "field raw ''quant'' key = field (field raw [] ''quant'') [] key"
  "field raw ''lora'' key = field (field raw [] ''lora'') [] key"
  "field raw ''train'' key = field (field raw [] ''train'') [] key"
  "field raw ''early_stopping'' key = field (field raw [] ''early_stopping'') [] key"
  "field raw ''dataset'' key = field (field raw [] ''dataset'') [] key"
  "field raw ''mlflow'' key = field (field raw [] ''mlflow'') [] key"
  by (simp_all add: field_def)

lemma field_JObj: "field (JObj d) [] key = obj_get d key"
  by (simp add: field_def)

lemma field_not_obj: "\<not> is_obj raw \<Longrightarrow> field raw [] key = JNull"
  by (cases raw) (simp_all add: field_def is_obj_def)

lemma require_Inr: "require raw key sec = Inr v \<longleftrightarrow> v = field raw [] key \<and> v \<noteq> JNull"
  by (cases raw) (auto simp: require_def field_def)

lemma typed_Inr: "typed raw sec key types = Inr v \<longleftrightarrow>
    v = field raw [] key \<and> v \<noteq> JNull \<and> (TBool \<in> set types \<or> \<not> is_bool v) \<and> list_ex (isinst v) types"
  by (auto simp: typed_def res_bind_Inr_iff require_Inr require_type_def split: if_splits)

lemma typed_field [simp]:
  "typed raw sec key [TBool] = Inr v \<longleftrightarrow> v = field raw [] key \<and> field_ok FBool v"
  "typed raw sec key [TInt] = Inr v \<longleftrightarrow> v = field raw [] key \<and> field_ok FInt v"
  "typed raw sec key [TInt, TFloat] = Inr v \<longleftrightarrow> v = field raw [] key \<and> field_ok FNum v"
  "typed raw sec key [TStr] = Inr v \<longleftrightarrow> v = field raw [] key \<and> field_ok FStr v"
  by (cases v; auto simp: typed_Inr is_bool_def is_str_def is_num_def)+

lemma require_choice_Inr:
  "require_choice w allowed f = Inr v \<longleftrightarrow> v = w \<and> field_ok (FChoice allowed) w"
  by (cases w) (auto simp: require_choice_def hashable_def)

lemma choice_field [simp]:
  "choice raw sec key allowed = Inr v \<longleftrightarrow> v = field raw [] key \<and> field_ok (FChoice allowed) v"
proof -
  have "choice raw sec key allowed = Inr v \<longleftrightarrow>
      (\<exists>w. (w = field raw [] key \<and> w \<noteq> JNull) \<and> v = w \<and> field_ok (FChoice allowed) w)"
    unfolding choice_def res_bind_Inr_iff require_Inr require_choice_Inr ..
  then show ?thesis by (metis field_ok_JNull)
qed

lemma modules_field:
  "(\<exists>v. (v = w \<and> v \<noteq> JNull) \<and> string_list v = Some xs) \<longleftrightarrow> field_ok FModules w \<and> xs = the (string_list w)"
  by (cases w; cases "string_list w") (auto simp: string_list_def)

text \<open>The rows of the table that belong to one section, read from its value.\<close>

definition sect :: "json \<Rightarrow> string \<Rightarrow> bool" where
  "sect raw sec = list_all (\<lambda>(s, key, t). s = sec \<longrightarrow> field_ok t (field raw [] key)) PINNED"

lemma quant_section_Inr: "quant_section raw = Inr q \<longleftrightarrow> sect raw ''quant'' \<and> q = quant_of raw"
  unfolding quant_section_def
  by (auto simp: res_bind_Inr_iff sect_def PINNED_def quant_of_def simp del: field_ok.simps)

lemma lora_section_Inr: "lora_section raw = Inr q \<longleftrightarrow> sect raw ''lora'' \<and> q = lora_of raw"
proof -
  have "lora_section raw = Inr q \<longleftrightarrow>
      (\<exists>xs. (\<exists>v. (v = field raw [] ''target_modules'' \<and> v \<noteq> JNull) \<and> string_list v = Some xs) \<and>
        field_ok FInt (field raw [] ''r'') \<and> field_ok FInt (field raw [] ''alpha'') \<and>
        field_ok FNum (field raw [] ''dropout'') \<and>
        q = \<lparr>lora_r = field raw [] ''r'', lora_alpha = field raw [] ''alpha'',
             lora_dropout = field raw [] ''dropout'', lora_modules = xs\<rparr>)"
    unfolding lora_section_def res_bind_Inr_iff require_Inr
    by (auto simp: res_bind_Inr_iff simp del: field_ok.simps split: option.splits)
  then show ?thesis
    unfolding modules_field
    by (auto simp: sect_def PINNED_def lora_of_def simp del: field_ok.simps)
qed

lemma train_section_Inr: "train_section raw = Inr q \<longleftrightarrow> sect raw ''train'' \<and> q = train_of raw"
  unfolding train_section_def
  by (auto simp: res_bind_Inr_iff sect_def PINNED_def train_of_def simp del: field_ok.simps)

lemma early_section_Inr: "early_section raw = Inr q \<longleftrightarrow> sect raw ''early_stopping'' \<and> q = early_of raw"
  unfolding early_section_def
  by (auto simp: res_bind_Inr_iff sect_def PINNED_def early_of_def simp del: field_ok.simps)

lemma dataset_section_Inr: "dataset_section raw = Inr q \<longleftrightarrow> sect raw ''dataset'' \<and> q = dataset_of raw"
  unfolding dataset_section_def
  by (auto simp: res_bind_Inr_iff sect_def PINNED_def dataset_of_def simp del: field_ok.simps)

lemma mlflow_section_Inr: "mlflow_section raw = Inr q \<longleftrightarrow> sect raw ''mlflow'' \<and> q = mlflow_of raw"
  unfolding mlflow_section_def
  by (auto simp: res_bind_Inr_iff sect_def PINNED_def mlflow_of_def simp del: field_ok.simps)

lemma section_Inr:
  "sub_section raw sec f = Inr q \<longleftrightarrow>
     field raw [] sec \<noteq> JNull \<and> f (field raw [] sec) = Inr q"
  by (auto simp: sub_section_def res_bind_Inr_iff require_Inr)

lemma pinned_sects:
  "pinned raw \<longleftrightarrow>
     field_ok FText (field raw [] ''base_model'') \<and>
     sect (field raw [] ''quant'') ''quant'' \<and> sect (field raw [] ''lora'') ''lora'' \<and>
     sect (field raw [] ''train'') ''train'' \<and>
     sect (field raw [] ''early_stopping'') ''early_stopping'' \<and>
     sect (field raw [] ''dataset'') ''dataset'' \<and> sect (field raw [] ''mlflow'') ''mlflow''"
  by (simp add: pinned_def sect_def PINNED_def field_secs del: field_ok.simps)

lemma field_JNull [simp]: "field JNull [] key = JNull"
  by (simp add: field_def)

lemma sect_not_null [simp]:
  "\<not> sect JNull ''quant''"
  "\<not> sect JNull ''lora''"
  "\<not> sect JNull ''train''"
  "\<not> sect JNull ''early_stopping''"
  "\<not> sect JNull ''dataset''"
  "\<not> sect JNull ''mlflow''"
  by (simp_all add: sect_def PINNED_def del: field_ok.simps)

lemma parse_config_Inr: "parse_config raw = Inr c \<longleftrightarrow> pinned raw \<and> c = config_of raw"
proof -
  have obj: "pinned raw \<Longrightarrow> is_obj raw"
    using field_not_obj [of raw "''base_model''"] field_ok_JNull [of FText]
    by (metis pinned_sects)
  have base: "(case v of JStr s \<Rightarrow> str_strip s \<noteq> [] | _ \<Rightarrow> False) \<longleftrightarrow> field_ok FText v"
    and textual: "field_ok FText v \<Longrightarrow> field_ok FStr v" for v
    by (cases v; simp add: is_str_def)+
  have "parse_config raw = Inr c \<longleftrightarrow> is_obj raw \<and> pinned raw \<and> c = config_of raw"
    unfolding parse_config_def
    by (auto simp: res_bind_Inr_iff section_Inr quant_section_Inr lora_section_Inr
        train_section_Inr early_section_Inr dataset_section_Inr mlflow_section_Inr
        pinned_sects config_of_def base textual simp del: field_ok.simps)
  then show ?thesis using obj by blast
qed

section \<open>The accepted configurations\<close>

text \<open>The types the dataclasses declare.\<close>

definition well_typed_config :: "run_config \<Rightarrow> bool" where
  "well_typed_config c \<longleftrightarrow>
     list_all is_bool [q_load_in_4bit (cfg_quant c), q_double_quant (cfg_quant c)]
     \<and> list_all is_str
         [cfg_base_model c, q_quant_type (cfg_quant c), q_compute_dtype (cfg_quant c),
          es_metric (cfg_early c), ds_manifest (cfg_dataset c), ds_train (cfg_dataset c),
          ds_val (cfg_dataset c), ml_experiment (cfg_mlflow c), ml_run_name (cfg_mlflow c),
          ml_register_as (cfg_mlflow c)]
     \<and> list_all (field_ok FInt)
         [lora_r (cfg_lora c), lora_alpha (cfg_lora c), tr_epochs (cfg_train c),
          tr_batch_size (cfg_train c), tr_grad_accum (cfg_train c), tr_max_seq_len (cfg_train c),
          tr_seed (cfg_train c), es_patience (cfg_early c)]
     \<and> list_all is_num
         [lora_dropout (cfg_lora c), tr_lr (cfg_train c), es_min_delta (cfg_early c)]
     \<and> lora_modules (cfg_lora c) \<noteq> [] \<and> list_all is_str (lora_modules (cfg_lora c))"

lemma choice_is_str: "field_ok (FChoice xs) v \<Longrightarrow> is_str v"
  by (auto simp: is_str_def)

lemma text_is_str: "field_ok FText v \<Longrightarrow> is_str v"
  by (cases v) (simp_all add: is_str_def)

lemma modules_typed:
  "field_ok FModules v \<Longrightarrow> the (string_list v) \<noteq> [] \<and> list_all is_str (the (string_list v))"
  by (auto simp: string_list_def split: json.splits if_splits)

lemma config_of_typed: "pinned raw \<Longrightarrow> well_typed_config (config_of raw)"
  unfolding pinned_sects
  by (intro well_typed_config_def [THEN iffD2])
    (auto simp: config_of_def quant_of_def lora_of_def train_of_def
      early_of_def dataset_of_def mlflow_of_def sect_def PINNED_def choice_is_str text_is_str
      modules_typed [THEN conjunct1] modules_typed [THEN conjunct2] simp del: field_ok.simps(2,3,6,7))

lemma load_config_Inr: "load_config yaml file = Inr c \<longleftrightarrow>
    (\<exists>raw. (\<exists>content. file = Some content \<and> yaml content = Some raw) \<and> pinned raw \<and> c = config_of raw)"
  by (auto simp: load_config_def parse_config_Inr split: option.splits)

text \<open>The values of the committed file \<open>training/configs/qlora_qwen7b.yaml\<close>.\<close>

definition QLORA_QWEN7B :: json where
  "QLORA_QWEN7B =
     JObj [(''base_model'', JStr ''Qwen/Qwen2.5-7B-Instruct''),
       (''quant'', JObj [(''load_in_4bit'', JBool True), (''bnb_4bit_quant_type'', JStr ''nf4''),
          (''bnb_4bit_compute_dtype'', JStr ''bfloat16''), (''double_quant'', JBool True)]),
       (''lora'', JObj [(''r'', JInt 16), (''alpha'', JInt 32), (''dropout'', JFloat (fl (5/100))),
          (''target_modules'', JList [JStr ''q_proj'', JStr ''k_proj'', JStr ''v_proj'',
             JStr ''o_proj'', JStr ''gate_proj'', JStr ''up_proj'', JStr ''down_proj''])]),
       (''train'', JObj [(''epochs'', JInt 3), (''lr'', JFloat (fl (2/10000))),
          (''batch_size'', JInt 4), (''grad_accum'', JInt 4), (''max_seq_len'', JInt 2048),
          (''seed'', JInt 42)]),
       (''early_stopping'', JObj [(''metric'', JStr ''eval_loss''), (''patience'', JInt 2),
          (''min_delta'', JFloat (fl (5/1000)))]),
       (''dataset'', JObj [(''manifest'', JStr ''data/manifest.json''),
          (''train'', JStr ''data/train.jsonl''), (''val'', JStr ''data/val.jsonl'')]),
       (''mlflow'', JObj [(''experiment'', JStr ''atlas-citation-ft''),
          (''run_name'', JStr ''qlora-qwen7b''), (''register_as'', JStr ''atlas-citation-adapter'')])]"

lemma committed_config_pinned: "pinned QLORA_QWEN7B"
  by (simp add: pinned_def PINNED_def QLORA_QWEN7B_def field_def obj_get_def QUANT_TYPES_def
      COMPUTE_DTYPES_def EARLY_STOP_METRICS_def string_list_def is_bool_def is_str_def)
     code_simp

text \<open>
  C14: The configuration loader accepts a file exactly when it decodes to a mapping in which every
  field of the table \<open>PINNED\<close> is present, not null and of its type or in its set of choices, and
  it then returns the values of the file: nothing is defaulted, so a run is determined by the
  committed file.
\<close>

theorem config_accepts_exactly_pinned:
  "load_config yaml (Some content) = Inr c \<longleftrightarrow>
     (\<exists>raw. yaml content = Some raw \<and> pinned raw \<and> c = config_of raw)"
  by (auto simp: load_config_Inr)

text \<open>
  C15: Every configuration the loader returns has the types its dataclasses declare: no Boolean
  passes for an integer, learning rate, dropout and tolerance are numbers, and the target modules
  are a non-empty list of strings.
\<close>

theorem config_well_typed: "load_config yaml file = Inr c \<Longrightarrow> well_typed_config c"
  by (auto simp: load_config_Inr config_of_typed)

theorem config_well_typed_witness:
  "well_typed_config (config_of QLORA_QWEN7B)
   \<and> load_config (\<lambda>_. Some QLORA_QWEN7B) (Some ''yaml'') = Inr (config_of QLORA_QWEN7B)"
proof -
  have load: "load_config (\<lambda>_. Some QLORA_QWEN7B) (Some ''yaml'') = Inr (config_of QLORA_QWEN7B)"
    by (auto simp: load_config_Inr committed_config_pinned)
  from config_well_typed [OF this] load show ?thesis ..
qed

text \<open>
  A choice field holding a list raises the \<open>TypeError\<close> of set membership, not a configuration
  error.
\<close>

lemma choice_of_list_escapes: "require_choice (JList xs) allowed f = Inl (Unhashable f)"
  by (simp add: require_choice_def hashable_def)

end
