(* ===== verification/Train_Registry.thy ===== *)
theory Train_Registry
  imports Train_Config
begin

text \<open>
  Tracking and the model registry (\<open>training/atlas_training/tracking.py\<close>): the run parameters, the
  registration of an adapter pushed to the hub, and the promotion and rollback of the champion
  version by aliases. The hub and the registry are services; what they answer is an argument, the
  calls made to them are recorded in order, and the laws of the alias store are the locale
  \<open>alias_registry\<close>, which the in-memory registry of the test-suite satisfies.
\<close>

datatype tracking_error =
    EmptyRepoOrRevision
  | RefusedSource string
  | RepoUnset
  | TokenUnset
  | NothingToRollBack string
  | ServiceError string

record model_version =
  mv_name :: string
  mv_version :: string
  mv_source :: string
  mv_run_id :: string

section \<open>Registration source\<close>

text \<open>\<open>s.split(sep, 1)\<close> as the parts before and after the first separator.\<close>

fun split_once :: "string \<Rightarrow> string \<Rightarrow> (string \<times> string) option" where
  "split_once sep [] = (if sep = [] then Some ([], []) else None)"
| "split_once sep (c # cs) =
     (if prefix sep (c # cs) then Some ([], drop (length sep) (c # cs))
      else map_option (\<lambda>(a, b). (c # a, b)) (split_once sep cs))"

definition hf_source_uri :: "string \<Rightarrow> string \<Rightarrow> (tracking_error, string) result" where
  "hf_source_uri repo revision =
     (if repo = [] \<or> revision = [] then Inl EmptyRepoOrRevision
      else Inr (''hf://'' @ repo @ ''@'' @ revision))"

definition is_hf_source :: "string \<Rightarrow> bool" where
  "is_hf_source uri \<longleftrightarrow>
     startswith uri ''hf://'' \<and>
     (case split_once ''://'' uri of None \<Rightarrow> False | Some (_, rest) \<Rightarrow> str_in ''@'' rest)"

lemma is_hf_source_uri: "is_hf_source (''hf://'' @ repo @ ''@'' @ rv)"
  by (simp add: is_hf_source_def sublist_def) blast

lemma hf_source_uri_ok: "hf_source_uri repo rv = Inr src \<Longrightarrow> is_hf_source src"
  using is_hf_source_uri [of repo rv] by (auto simp: hf_source_uri_def split: if_splits)

section \<open>Run parameters\<close>

definition run_params :: "run_config \<Rightarrow> string option \<Rightarrow> (string, json) dict" where
  "run_params c sha =
     [(''base_model'', cfg_base_model c),
      (''seed'', config_seed c),
      (''quant.load_in_4bit'', q_load_in_4bit (cfg_quant c)),
      (''quant.bnb_4bit_quant_type'', q_quant_type (cfg_quant c)),
      (''quant.bnb_4bit_compute_dtype'', q_compute_dtype (cfg_quant c)),
      (''lora.r'', lora_r (cfg_lora c)),
      (''lora.alpha'', lora_alpha (cfg_lora c)),
      (''lora.dropout'', lora_dropout (cfg_lora c)),
      (''train.epochs'', tr_epochs (cfg_train c)),
      (''train.lr'', tr_lr (cfg_train c)),
      (''train.batch_size'', tr_batch_size (cfg_train c)),
      (''train.grad_accum'', tr_grad_accum (cfg_train c)),
      (''train.max_seq_len'', tr_max_seq_len (cfg_train c)),
      (''dataset.manifest'', ds_manifest (cfg_dataset c)),
      (''dataset.train'', ds_train (cfg_dataset c)),
      (''dataset.val'', ds_val (cfg_dataset c))]
     @ (case sha of None \<Rightarrow> [] | Some s \<Rightarrow> if s = [] then [] else [(''dataset.prompt_template_sha'', JStr s)])"

section \<open>The tracker\<close>

record tracker =
  hf_repo :: string
  hf_token :: string
  hf_private :: bool

datatype call =
    SetExperiment json
  | StartRun json
  | LogParams "(string, json) dict"
  | LogMetrics "(string, pyfloat) dict" "int option"
  | Push string string bool string
  | CreateVersion string string string
  | EndRun

definition env_private :: "(string \<Rightarrow> string option) \<Rightarrow> bool" where
  "env_private env =
     (str_lower (case env ''HF_PRIVATE'' of None \<Rightarrow> ''true'' | Some s \<Rightarrow> s)
        \<notin> {''false'', ''0'', ''no''})"

definition tracker_from_env :: "(string \<Rightarrow> string option) \<Rightarrow> (tracking_error, tracker) result" where
  "tracker_from_env env =
     (let set_to = (\<lambda>k. case env k of None \<Rightarrow> [] | Some s \<Rightarrow> s);
          repo = set_to ''ATLAS_HF_ADAPTER_REPO''; token = set_to ''HF_TOKEN''
      in if repo = [] then Inl RepoUnset
         else if token = [] then Inl TokenUnset
         else Inr \<lparr>hf_repo = repo, hf_token = token, hf_private = env_private env\<rparr>)"

text \<open>\<open>start\<close> is the run id the registry answers.\<close>

definition log_run :: "string \<Rightarrow> run_config \<Rightarrow> string option \<Rightarrow> call list \<times> string" where
  "log_run start c sha =
     ([SetExperiment (ml_experiment (cfg_mlflow c)), StartRun (ml_run_name (cfg_mlflow c)),
       LogParams (run_params c sha)], start)"

definition log_loss :: "int \<Rightarrow> pyfloat \<Rightarrow> pyfloat option \<Rightarrow> call list" where
  "log_loss step train_loss eval_loss =
     [LogMetrics ([(''train_loss'', train_loss)]
        @ (case eval_loss of None \<Rightarrow> [] | Some e \<Rightarrow> [(''eval_loss'', e)])) (Some step)]"

definition log_metrics :: "(string, pyfloat) dict \<Rightarrow> call list" where
  "log_metrics m = [LogMetrics m None]"

text \<open>
  \<open>push\<close> and \<open>create\<close> are the answers of the hub and of the registry, \<open>Inl\<close> an exception of theirs.
\<close>

definition register_adapter ::
  "(tracking_error, string) result \<Rightarrow> (tracking_error, string) result \<Rightarrow> tracker \<Rightarrow> string
     \<Rightarrow> string \<Rightarrow> string \<Rightarrow> call list \<times> (tracking_error, model_version) result" where
  "register_adapter push create t run_id path name =
     (let pushed = [Push path (hf_repo t) (hf_private t) (hf_token t)]
      in case res_bind push (\<lambda>rv. hf_source_uri (hf_repo t) rv) of
           Inl e \<Rightarrow> (pushed, Inl e)
         | Inr source \<Rightarrow>
             if \<not> is_hf_source source then (pushed, Inl (RefusedSource source))
             else (case create of
                     Inl e \<Rightarrow> (pushed @ [CreateVersion name source run_id], Inl e)
                   | Inr version \<Rightarrow>
                       (pushed @ [CreateVersion name source run_id, EndRun],
                        Inr \<lparr>mv_name = name, mv_version = version, mv_source = source,
                             mv_run_id = run_id\<rparr>)))"

lemma register_adapter_cases:
  "register_adapter push create t run_id path name =
     (let pushed = [Push path (hf_repo t) (hf_private t) (hf_token t)]
      in case push of
           Inl e \<Rightarrow> (pushed, Inl e)
         | Inr rv \<Rightarrow>
             if hf_repo t = [] \<or> rv = [] then (pushed, Inl EmptyRepoOrRevision)
             else (let source = ''hf://'' @ hf_repo t @ ''@'' @ rv in
                   case create of
                     Inl e \<Rightarrow> (pushed @ [CreateVersion name source run_id], Inl e)
                   | Inr version \<Rightarrow>
                       (pushed @ [CreateVersion name source run_id, EndRun],
                        Inr \<lparr>mv_name = name, mv_version = version, mv_source = source,
                             mv_run_id = run_id\<rparr>)))"
proof (cases push)
  case (Inr rv)
  then show ?thesis using is_hf_source_uri [of "hf_repo t" rv]
    by (simp add: register_adapter_def hf_source_uri_def Let_def)
qed (simp add: register_adapter_def)

section \<open>Promotion and rollback\<close>

definition CHAMPION :: string where
  "CHAMPION = ''champion''"

definition PREVIOUS :: string where
  "PREVIOUS = ''previous_champion''"

datatype promotion_action = Promoted | RolledBack | NoOp

record promotion_outcome =
  po_name :: string
  po_champion :: string
  po_previous :: "string option"
  po_action :: promotion_action

definition promote ::
  "('s \<Rightarrow> string \<Rightarrow> string \<Rightarrow> string option) \<Rightarrow> (string \<Rightarrow> string \<Rightarrow> string \<Rightarrow> 's \<Rightarrow> 's)
     \<Rightarrow> string \<Rightarrow> string \<Rightarrow> 's \<Rightarrow> 's \<times> promotion_outcome" where
  "promote get set_alias name version s =
     (let current = get s name CHAMPION in
      if current = Some version
      then (s, \<lparr>po_name = name, po_champion = version, po_previous = None, po_action = NoOp\<rparr>)
      else (let s1 = (case current of None \<Rightarrow> s | Some c \<Rightarrow> set_alias name PREVIOUS c s)
            in (set_alias name CHAMPION version s1,
                \<lparr>po_name = name, po_champion = version, po_previous = current,
                 po_action = Promoted\<rparr>)))"

definition rollback ::
  "('s \<Rightarrow> string \<Rightarrow> string \<Rightarrow> string option) \<Rightarrow> (string \<Rightarrow> string \<Rightarrow> string \<Rightarrow> 's \<Rightarrow> 's)
     \<Rightarrow> string \<Rightarrow> 's \<Rightarrow> 's \<times> (tracking_error, promotion_outcome) result" where
  "rollback get set_alias name s =
     (case get s name PREVIOUS of
        None \<Rightarrow> (s, Inl (NothingToRollBack name))
      | Some p \<Rightarrow>
          (let current = get s name CHAMPION;
               s1 = set_alias name CHAMPION p s;
               s2 = (case current of
                       None \<Rightarrow> s1
                     | Some c \<Rightarrow> if c \<noteq> p then set_alias name PREVIOUS c s1 else s1)
           in (s2, Inr \<lparr>po_name = name, po_champion = p, po_previous = current,
                        po_action = RolledBack\<rparr>)))"

text \<open>The pair of aliases of one model, and the two operations on it.\<close>

type_synonym alias_pair = "string option \<times> string option"

fun promote_spec :: "string \<Rightarrow> alias_pair \<Rightarrow> alias_pair" where
  "promote_spec v (champ, prv) =
     (if champ = Some v then (champ, prv)
      else (Some v, case champ of None \<Rightarrow> prv | Some c \<Rightarrow> Some c))"

fun rollback_spec :: "alias_pair \<Rightarrow> alias_pair" where
  "rollback_spec (champ, None) = (champ, None)"
| "rollback_spec (champ, Some p) = (Some p, case champ of None \<Rightarrow> Some p | Some c \<Rightarrow> Some c)"

datatype lifecycle = Promote string | Rollback

fun spec_step :: "lifecycle \<Rightarrow> alias_pair \<Rightarrow> alias_pair" where
  "spec_step (Promote v) = promote_spec v"
| "spec_step Rollback = rollback_spec"

definition act ::
  "('s \<Rightarrow> string \<Rightarrow> string \<Rightarrow> string option) \<Rightarrow> (string \<Rightarrow> string \<Rightarrow> string \<Rightarrow> 's \<Rightarrow> 's)
     \<Rightarrow> string \<Rightarrow> lifecycle \<Rightarrow> 's \<Rightarrow> 's" where
  "act get set_alias name a s =
     (case a of Promote v \<Rightarrow> fst (promote get set_alias name v s)
      | Rollback \<Rightarrow> fst (rollback get set_alias name s))"

definition aliases :: "('s \<Rightarrow> string \<Rightarrow> string \<Rightarrow> string option) \<Rightarrow> string \<Rightarrow> 's \<Rightarrow> alias_pair" where
  "aliases get name s = (get s name CHAMPION, get s name PREVIOUS)"

lemma aliases_distinct [simp]: "CHAMPION \<noteq> PREVIOUS" "PREVIOUS \<noteq> CHAMPION"
  by (simp_all add: CHAMPION_def PREVIOUS_def)

locale alias_registry =
  fixes get :: "'s \<Rightarrow> string \<Rightarrow> string \<Rightarrow> string option"
    and set_alias :: "string \<Rightarrow> string \<Rightarrow> string \<Rightarrow> 's \<Rightarrow> 's"
  assumes get_set: "get (set_alias n a v s) n b = (if b = a then Some v else get s n b)"
begin

lemma aliases_act: "aliases get n (act get set_alias n a s) = spec_step a (aliases get n s)"
  by (cases a)
    (auto simp: act_def aliases_def promote_def rollback_def get_set Let_def split: option.splits)

lemma aliases_run:
  "aliases get n (fold (act get set_alias n) as s) = fold spec_step as (aliases get n s)"
  by (induction as arbitrary: s) (simp_all add: aliases_act)

end

text \<open>The aliases a model can have: none, a champion, or a champion and another version.\<close>

definition pair_ok :: "string set \<Rightarrow> alias_pair \<Rightarrow> bool" where
  "pair_ok V p \<longleftrightarrow>
     (case p of (None, prv) \<Rightarrow> prv = None
      | (Some c, None) \<Rightarrow> c \<in> V
      | (Some c, Some q) \<Rightarrow> c \<in> V \<and> q \<in> V \<and> c \<noteq> q)"

lemma pair_ok_step:
  "pair_ok V p \<Longrightarrow> (\<And>v. a = Promote v \<Longrightarrow> v \<in> V) \<Longrightarrow> pair_ok V (spec_step a p)"
  by (cases p; cases "fst p"; cases "snd p"; cases a) (auto simp: pair_ok_def)

lemma pair_ok_run:
  "pair_ok V p \<Longrightarrow> {v. Promote v \<in> set as} \<subseteq> V \<Longrightarrow> pair_ok V (fold spec_step as p)"
proof (induction as arbitrary: p)
  case (Cons a as)
  then have "pair_ok V (spec_step a p)" by (intro pair_ok_step) auto
  moreover have "{v. Promote v \<in> set as} \<subseteq> V" using Cons.prems(2) by auto
  ultimately show ?case using Cons.IH by simp
qed simp

text \<open>Rolling back twice undoes itself when there was a champion to swap with.\<close>

lemma rollback_spec_involutive: "pair_ok V p \<Longrightarrow> rollback_spec (rollback_spec p) = p"
  by (cases p; cases "fst p"; cases "snd p") (auto simp: pair_ok_def)

lemma rollback_promote_spec:
  "fst p = Some c \<Longrightarrow> c \<noteq> v \<Longrightarrow> rollback_spec (promote_spec v p) = (Some c, Some v)"
  by (cases p) simp

subsection \<open>The in-memory registry\<close>

record alias_store =
  al_aliases :: "(string, string) dict"
  al_sets :: "(string \<times> string) list"

definition mem_set_alias :: "string \<Rightarrow> string \<Rightarrow> string \<Rightarrow> alias_store \<Rightarrow> alias_store" where
  "mem_set_alias name a v s =
     \<lparr>al_aliases = dict_set a v (al_aliases s), al_sets = al_sets s @ [(a, v)]\<rparr>"

definition mem_get :: "alias_store \<Rightarrow> string \<Rightarrow> string \<Rightarrow> string option" where
  "mem_get s name a = dict_get (al_aliases s) a"

definition mem_empty :: alias_store where
  "mem_empty = \<lparr>al_aliases = [], al_sets = []\<rparr>"

interpretation mem: alias_registry mem_get mem_set_alias
  by unfold_locales (simp add: mem_get_def mem_set_alias_def)

section \<open>Properties\<close>

text \<open>
  C16: Promotion is reversible. With a registry whose aliases read back what was set, promoting a
  version over a champion and rolling back makes the old champion the champion again and keeps the
  promoted version as the rollback target, so rolling back once more promotes it again.
\<close>

theorem rollback_undoes_promote:
  assumes "alias_registry get set_alias" and "get s name CHAMPION = Some c" and "c \<noteq> v"
  shows "let s1 = fst (promote get set_alias name v s);
             s2 = fst (rollback get set_alias name s1);
             s3 = fst (rollback get set_alias name s2)
         in aliases get name s1 = (Some v, Some c)
          \<and> aliases get name s2 = (Some c, Some v)
          \<and> aliases get name s3 = (Some v, Some c)
          \<and> is_ok (snd (rollback get set_alias name s1))"
proof -
  have step: "aliases get name (fst (promote get set_alias name v x)) = promote_spec v (aliases get name x)"
    "aliases get name (fst (rollback get set_alias name x)) = rollback_spec (aliases get name x)" for x
    using alias_registry.aliases_act [OF assms(1), of name "Promote v" x]
      alias_registry.aliases_act [OF assms(1), of name Rollback x] by (simp_all add: act_def)
  have "fst (aliases get name s) = Some c" using assms(2) by (simp add: aliases_def)
  then obtain q where a: "aliases get name s = (Some c, q)" by (cases "aliases get name s") simp
  have p: "get (fst (promote get set_alias name v s)) name PREVIOUS = Some c"
    using step(1) [of s] assms(3) by (simp add: a) (simp add: aliases_def)
  have "is_ok (snd (rollback get set_alias name (fst (promote get set_alias name v s))))"
    by (simp add: rollback_def p Let_def)
  then show ?thesis using assms(3) by (simp add: Let_def step a)
qed

theorem rollback_undoes_promote_witness:
  "let s = mem_set_alias ''m'' CHAMPION ''1'' mem_empty;
       s1 = fst (promote mem_get mem_set_alias ''m'' ''2'' s);
       s2 = fst (rollback mem_get mem_set_alias ''m'' s1);
       s3 = fst (rollback mem_get mem_set_alias ''m'' s2)
   in aliases mem_get ''m'' s1 = (Some ''2'', Some ''1'')
    \<and> aliases mem_get ''m'' s2 = (Some ''1'', Some ''2'')
    \<and> aliases mem_get ''m'' s3 = (Some ''2'', Some ''1'')
    \<and> is_ok (snd (rollback mem_get mem_set_alias ''m'' s1))"
proof -
  have "mem_get (mem_set_alias ''m'' CHAMPION ''1'' mem_empty) ''m'' CHAMPION = Some ''1''"
    by (simp add: mem.get_set)
  from rollback_undoes_promote [OF mem.alias_registry_axioms this, of "''2''"]
  show ?thesis by (simp add: Let_def)
qed

text \<open>
  The alias life cycle refines a pair of versions. After any sequence of promotions and
  rollbacks the two aliases of a model are what the operations on the pair give; if the model
  started without aliases, the champion and the rollback target are different versions, both
  promoted before, and there is no rollback target without a champion.
\<close>

theorem alias_lifecycle:
  assumes "alias_registry get set_alias"
  shows "aliases get name (fold (act get set_alias name) as s) = fold spec_step as (aliases get name s)
    \<and> (aliases get name s = (None, None) \<longrightarrow>
        pair_ok {v. Promote v \<in> set as} (aliases get name (fold (act get set_alias name) as s)))"
proof -
  have run: "aliases get name (fold (act get set_alias name) as s) = fold spec_step as (aliases get name s)"
    by (rule alias_registry.aliases_run [OF assms])
  have "pair_ok {v. Promote v \<in> set as} (fold spec_step as (None, None))"
    by (rule pair_ok_run) (simp_all add: pair_ok_def)
  with run show ?thesis by simp
qed

theorem alias_lifecycle_witness:
  "aliases mem_get ''m''
     (fold (act mem_get mem_set_alias ''m'') [Rollback, Promote ''1'', Promote ''2'', Rollback] mem_empty)
     = (Some ''1'', Some ''2'')"
proof -
  have "aliases mem_get ''m'' mem_empty = (None, None)"
    by (simp add: aliases_def mem_get_def mem_empty_def)
  with alias_lifecycle [OF mem.alias_registry_axioms, of "''m''"
      "[Rollback, Promote ''1'', Promote ''2'', Rollback]" mem_empty]
  show ?thesis by simp
qed

text \<open>
  A version is only registered with a source on the hub, never a local path: every version
  creation follows the push of the adapter to the configured repository, names that repository and
  the revision the push returned, and the run is ended exactly when the registration succeeds.
\<close>

theorem registered_source_is_hub:
  assumes "register_adapter push create t run_id path name = (calls, res)"
  shows "hd calls = Push path (hf_repo t) (hf_private t) (hf_token t)
    \<and> (\<forall>n src r. CreateVersion n src r \<in> set calls \<longrightarrow> is_hf_source src \<and>
         (\<exists>rv. push = Inr rv \<and> rv \<noteq> [] \<and> src = ''hf://'' @ hf_repo t @ ''@'' @ rv))
    \<and> (EndRun \<in> set calls \<longleftrightarrow> is_ok res)
    \<and> (\<forall>mv. res = Inr mv \<longrightarrow> is_hf_source (mv_source mv) \<and> create = Inr (mv_version mv)
         \<and> CreateVersion name (mv_source mv) run_id \<in> set calls)"
proof (cases push)
  case (Inr rv)
  then show ?thesis using assms is_hf_source_uri [of "hf_repo t" rv]
    by (cases create) (auto simp: register_adapter_cases Let_def split: if_splits)
next
  case (Inl e)
  then show ?thesis using assms by (auto simp: register_adapter_cases Let_def)
qed

theorem registered_source_is_hub_witness:
  "let t = \<lparr>hf_repo = ''u/a'', hf_token = ''tok'', hf_private = True\<rparr>;
       (calls, res) = register_adapter (Inr ''abc'') (Inr ''7'') t ''run'' ''/out'' ''m''
   in hd calls = Push ''/out'' ''u/a'' True ''tok'' \<and> EndRun \<in> set calls
    \<and> (\<exists>mv. res = Inr mv \<and> is_hf_source (mv_source mv) \<and> mv_version mv = ''7'')"
  using registered_source_is_hub [of "Inr ''abc''" "Inr ''7''"
      "\<lparr>hf_repo = ''u/a'', hf_token = ''tok'', hf_private = True\<rparr>" "''run''" "''/out''" "''m''",
      OF prod.collapse [symmetric]]
  by (auto simp: register_adapter_cases Let_def)

end
