(* ===== verification/Train_Corpus.thy ===== *)
theory Train_Corpus
  imports Train_Registry "HOL-Library.List_Lexorder"
begin

text \<open>
  The trusted corpus of the training side (\<open>training/atlas_training/data/corpus.py\<close>): the evidence
  snippets listed by the layer-1 manifest and the authored documents of layer 2 with their front
  matter. Identifiers come from JSON and YAML, so the dictionary of documents is keyed by values
  compared with Python's equality. The directory is an argument.
\<close>

section \<open>Dictionaries keyed by values\<close>

fun py_put :: "json \<Rightarrow> 'v \<Rightarrow> (json \<times> 'v) list \<Rightarrow> (json \<times> 'v) list" where
  "py_put k v [] = [(k, v)]"
| "py_put k v ((k', v') # d) = (if py_eq k' k then (k', v) # d else (k', v') # py_put k v d)"

fun py_get :: "(json \<times> 'v) list \<Rightarrow> json \<Rightarrow> 'v option" where
  "py_get [] k = None"
| "py_get ((k', v) # d) k = (if py_eq k' k then Some v else py_get d k)"

lemma py_get_mem: "py_get d k = Some v \<Longrightarrow> \<exists>k'. (k', v) \<in> set d \<and> py_eq k' k"
  by (induction d) (auto split: if_splits)

lemma py_get_iff: "py_get d k \<noteq> None \<longleftrightarrow> (\<exists>k'\<in>fst ` set d. py_eq k' k)"
  by (induction d) auto

lemma py_put_mem: "(k', w) \<in> set (py_put k v d) \<Longrightarrow>
    (k', w) \<in> set d \<or> (w = v \<and> (k' = k \<or> py_eq k' k))"
  by (induction d) (auto split: if_splits)

lemma py_eq_hashable: "py_eq a b \<Longrightarrow> hashable a \<longleftrightarrow> hashable b"
  by (cases a; cases b) (auto simp: py_eq_def hashable_def)

lemma py_put_keys: "map fst (py_put k v d) =
    (if py_get d k = None then map fst d @ [k] else map fst d)"
  by (induction d) (auto split: if_splits)

lemma no_duplicates_put: "no_duplicates (map fst d) \<Longrightarrow> no_duplicates (map fst (py_put k v d))"
  using py_get_iff [of d k]
  by (auto simp: py_put_keys no_duplicates_def sorted_wrt_append simp del: not_None_eq)

section \<open>Documents\<close>

record trusted_doc =
  td_doc_id :: json
  td_layer :: nat
  td_clearance :: json
  td_text :: string
  td_source :: "string \<times> json"
  td_metadata :: "(string \<times> json) list"

datatype corpus_error =
    NoRoot
  | NoLayer1Manifest
  | JsonError
  | CorpusAttributeError
  | CorpusTypeError
  | CorpusKeyError string
  | MissingFile string
  | EmptyDoc
  | BadClearance json json
  | NoLayer1Docs
  | NoLayer2Dir
  | NoFrontMatter string
  | MalformedFrontMatter string
  | YamlError
  | FrontMatterNotMapping string
  | NoLayer2Docs
  | Collision "json list"
  | UnknownDoc json

type_synonym corpus = "(json \<times> trusted_doc) list"

definition corpus_contains :: "corpus \<Rightarrow> json \<Rightarrow> (corpus_error, bool) result" where
  "corpus_contains c i = (if hashable i then Inr (py_get c i \<noteq> None) else Inl CorpusTypeError)"

definition corpus_ids :: "corpus \<Rightarrow> json list" where
  "corpus_ids c = map fst c"

definition resolve :: "corpus \<Rightarrow> json \<Rightarrow> (corpus_error, trusted_doc) result" where
  "resolve c i =
     (if \<not> hashable i then Inl CorpusTypeError
      else (case py_get c i of None \<Rightarrow> Inl (UnknownDoc i) | Some d \<Rightarrow> Inr d))"

definition by_layer :: "corpus \<Rightarrow> nat \<Rightarrow> trusted_doc list" where
  "by_layer c n = filter (\<lambda>d. td_layer d = n) (map snd c)"

definition TRUSTED_CLEARANCES :: "string list" where
  "TRUSTED_CLEARANCES = [''public'', ''analyst'', ''compliance'', ''restricted'']"

definition cleared :: "json \<Rightarrow> bool" where
  "cleared v \<longleftrightarrow> v \<in> JStr ` set TRUSTED_CLEARANCES"

section \<open>The directory\<close>

text \<open>
  \<open>layer1_file\<close> reads a file of the first layer by the name the manifest gives; \<open>layer2\<close> lists the
  files of the second layer with their contents. \<open>loads\<close> and \<open>yaml\<close> decode, \<open>None\<close> on bad input.
\<close>

record corpus_dir =
  root_is_dir :: bool
  layer1_manifest :: "string option"
  layer1_file :: "string \<Rightarrow> string option"
  layer2 :: "(string \<times> string) list option"

definition resolve_root :: "string \<Rightarrow> string option \<Rightarrow> string option \<Rightarrow> string" where
  "resolve_root default_dir arg env =
     (case arg of Some r \<Rightarrow> r
      | None \<Rightarrow> (case env of None \<Rightarrow> default_dir | Some e \<Rightarrow> if e = [] then default_dir else e))"

definition split_front_matter ::
  "(string \<Rightarrow> json option) \<Rightarrow> string \<Rightarrow> string
     \<Rightarrow> (corpus_error, (string \<times> json) list \<times> string) result" where
  "split_front_matter yaml path raw =
     (if \<not> startswith raw ''---'' then Inl (NoFrontMatter path)
      else (case split_once ''---'' (drop 3 raw) of
              None \<Rightarrow> Inl (MalformedFrontMatter path)
            | Some (front, body) \<Rightarrow>
                (case yaml front of
                   None \<Rightarrow> Inl YamlError
                 | Some v \<Rightarrow>
                     (case (if json_truthy v then v else JObj []) of
                        JObj meta \<Rightarrow> Inr (meta, dropWhile (\<lambda>c. ord c = 10) body)
                      | _ \<Rightarrow> Inl (FrontMatterNotMapping path)))))"

definition without_keys :: "string list \<Rightarrow> (string \<times> json) list \<Rightarrow> (string \<times> json) list" where
  "without_keys ks d = filter (\<lambda>(k, _). k \<notin> set ks) d"

definition entry_field :: "(string \<times> json) list \<Rightarrow> string \<Rightarrow> (corpus_error, json) result" where
  "entry_field e k = (case map_of e k of None \<Rightarrow> Inl (CorpusKeyError k) | Some v \<Rightarrow> Inr v)"

definition as_entry :: "json \<Rightarrow> (corpus_error, (string \<times> json) list) result" where
  "as_entry v = (case v of JObj e \<Rightarrow> Inr e | _ \<Rightarrow> Inl CorpusTypeError)"

definition read_layer1 :: "corpus_dir \<Rightarrow> json \<Rightarrow> (corpus_error, string) result" where
  "read_layer1 dir f =
     (case f of
        JStr name \<Rightarrow>
          (case layer1_file dir name of None \<Rightarrow> Inl (MissingFile name) | Some content \<Rightarrow> Inr content)
      | _ \<Rightarrow> Inl CorpusTypeError)"

definition layer1_doc ::
  "json \<Rightarrow> (string \<times> json) list \<Rightarrow> string \<Rightarrow> (corpus_error, trusted_doc) result" where
  "layer1_doc i e content =
     (let body = str_strip content; cl = obj_get e ''clearance'' in
      if body = [] then Inl EmptyDoc
      else if \<not> cleared cl then Inl (BadClearance i cl)
      else if \<not> hashable i then Inl CorpusTypeError
      else Inr \<lparr>td_doc_id = i, td_layer = 1, td_clearance = cl, td_text = body,
                td_source = (''financebench:'', i),
                td_metadata = without_keys [''financebench_id'', ''file'', ''clearance''] e\<rparr>)"

definition layer1_entry :: "corpus_dir \<Rightarrow> json \<Rightarrow> (corpus_error, trusted_doc) result" where
  "layer1_entry dir entry =
     res_bind (as_entry entry) (\<lambda>e.
     res_bind (entry_field e ''financebench_id'') (\<lambda>i.
     res_bind (entry_field e ''file'') (\<lambda>f.
     res_bind (read_layer1 dir f) (\<lambda>content.
       layer1_doc i e content))))"

definition put_doc :: "trusted_doc \<Rightarrow> corpus \<Rightarrow> corpus" where
  "put_doc d c = py_put (td_doc_id d) d c"

text \<open>The loops of both layers: each item is checked in turn and its document inserted.\<close>

fun load_docs ::
  "('a \<Rightarrow> (corpus_error, trusted_doc) result) \<Rightarrow> 'a list \<Rightarrow> corpus \<Rightarrow> (corpus_error, corpus) result"
where
  "load_docs parse [] docs = Inr docs"
| "load_docs parse (x # xs) docs =
     (case parse x of Inl e \<Rightarrow> Inl e | Inr d \<Rightarrow> load_docs parse xs (put_doc d docs))"

definition load_layer1 ::
  "(string \<Rightarrow> json option) \<Rightarrow> corpus_dir \<Rightarrow> (corpus_error, corpus) result" where
  "load_layer1 loads dir =
     (case layer1_manifest dir of
        None \<Rightarrow> Inl NoLayer1Manifest
      | Some content \<Rightarrow>
          (case loads content of
             None \<Rightarrow> Inl JsonError
           | Some (JObj m) \<Rightarrow>
               (case py_list (obj_get_or m ''documents'' (JList [])) of
                  None \<Rightarrow> Inl CorpusTypeError
                | Some es \<Rightarrow>
                    res_bind (load_docs (layer1_entry dir) es []) (\<lambda>docs.
                      if docs = [] then Inl NoLayer1Docs else Inr docs))
           | Some _ \<Rightarrow> Inl CorpusAttributeError))"

definition layer2_entry ::
  "(string \<Rightarrow> json option) \<Rightarrow> string \<times> string \<Rightarrow> (corpus_error, trusted_doc) result" where
  "layer2_entry yaml md =
     res_bind (split_front_matter yaml (fst md) (snd md)) (\<lambda>(meta, body).
       let v = obj_get meta ''doc_id'';
           i = (if json_truthy v then v else JStr (stem (fst md)));
           cl = obj_get meta ''clearance'';
           body' = str_strip body
       in if \<not> cleared cl then Inl (BadClearance i cl)
          else if body' = [] then Inl EmptyDoc
          else if \<not> hashable i then Inl CorpusTypeError
          else Inr \<lparr>td_doc_id = i, td_layer = 2, td_clearance = cl, td_text = body',
                    td_source = (''layer2:'', i),
                    td_metadata = without_keys [''doc_id'', ''clearance''] meta\<rparr>)"

definition load_layer2 ::
  "(string \<Rightarrow> json option) \<Rightarrow> corpus_dir \<Rightarrow> (corpus_error, corpus) result" where
  "load_layer2 yaml dir =
     (case layer2 dir of
        None \<Rightarrow> Inl NoLayer2Dir
      | Some files \<Rightarrow>
          res_bind (load_docs (layer2_entry yaml)
              (sort_key fst (filter (\<lambda>(f, _). suffix ''.md'' f) files)) []) (\<lambda>docs.
            if docs = [] then Inl NoLayer2Docs else Inr docs))"

definition load_corpus ::
  "(string \<Rightarrow> json option) \<Rightarrow> (string \<Rightarrow> json option) \<Rightarrow> corpus_dir
     \<Rightarrow> (corpus_error, corpus) result" where
  "load_corpus loads yaml dir =
     (if \<not> root_is_dir dir then Inl NoRoot
      else res_bind (load_layer1 loads dir) (\<lambda>docs.
           res_bind (load_layer2 yaml dir) (\<lambda>docs2.
             let overlap = filter (\<lambda>k. py_get docs2 k \<noteq> None) (map fst docs)
             in if overlap \<noteq> [] then Inl (Collision overlap) else Inr (docs @ docs2))))"

section \<open>What a loaded corpus guarantees\<close>

definition doc_ok :: "trusted_doc \<Rightarrow> bool" where
  "doc_ok d \<longleftrightarrow>
     hashable (td_doc_id d) \<and> cleared (td_clearance d) \<and> td_text d \<noteq> []
     \<and> str_strip (td_text d) = td_text d
     \<and> (td_layer d = 1 \<and> td_source d = (''financebench:'', td_doc_id d)
        \<or> td_layer d = 2 \<and> td_source d = (''layer2:'', td_doc_id d))"

definition corpus_ok :: "corpus \<Rightarrow> bool" where
  "corpus_ok c \<longleftrightarrow>
     no_duplicates (map fst c)
     \<and> list_all (\<lambda>(k, d). doc_ok d \<and> hashable k \<and> (k = td_doc_id d \<or> py_eq k (td_doc_id d))) c"

text \<open>The text of a document is what a file of the directory holds.\<close>

definition from_file :: "(string \<Rightarrow> json option) \<Rightarrow> corpus_dir \<Rightarrow> trusted_doc \<Rightarrow> bool" where
  "from_file yaml dir d \<longleftrightarrow>
     (td_layer d = 1 \<longrightarrow> (\<exists>f content. layer1_file dir f = Some content \<and> td_text d = str_strip content))
     \<and> (td_layer d = 2 \<longrightarrow> (\<exists>fs f raw meta body. layer2 dir = Some fs \<and> (f, raw) \<in> set fs \<and>
          split_front_matter yaml f raw = Inr (meta, body) \<and> td_text d = str_strip body))"

lemma read_layer1_Inr: "read_layer1 dir f = Inr content \<Longrightarrow> \<exists>name. layer1_file dir name = Some content"
  by (auto simp: read_layer1_def split: json.split_asm option.split_asm)

lemma layer1_doc_ok: "layer1_doc i e content = Inr d \<Longrightarrow>
    doc_ok d \<and> td_layer d = 1 \<and> td_text d = str_strip content"
  by (auto simp: layer1_doc_def doc_ok_def Let_def dropWhile_idem_strip split: if_split_asm)

lemma layer1_entry_ok:
  "layer1_entry dir e = Inr d \<Longrightarrow> doc_ok d \<and> td_layer d = 1 \<and> from_file yaml dir d"
  by (auto simp: layer1_entry_def res_bind_Inr_iff from_file_def
      dest!: layer1_doc_ok read_layer1_Inr)

lemma layer2_entry_ok:
  assumes "layer2_entry yaml md = Inr d" and "layer2 dir = Some fs" and "md \<in> set fs"
  shows "doc_ok d \<and> td_layer d = 2 \<and> from_file yaml dir d"
  using assms by (cases md)
    (auto simp: layer2_entry_def res_bind_Inr_iff doc_ok_def from_file_def Let_def
      dropWhile_idem_strip split: if_splits, blast+)

definition entry_ok :: "json \<times> trusted_doc \<Rightarrow> bool" where
  "entry_ok p = (case p of (k, d) \<Rightarrow>
     doc_ok d \<and> hashable k \<and> (k = td_doc_id d \<or> py_eq k (td_doc_id d)))"

lemma corpus_ok_entries: "corpus_ok c \<longleftrightarrow> no_duplicates (map fst c) \<and> (\<forall>p\<in>set c. entry_ok p)"
  by (simp add: corpus_ok_def entry_ok_def list_all_iff)

lemma put_doc_ok:
  assumes c: "corpus_ok c" and d: "doc_ok d"
  shows "corpus_ok (put_doc d c)"
proof -
  have "entry_ok (k, x)" if "(k, x) \<in> set (put_doc d c)" for k x
    using py_put_mem [OF that [unfolded put_doc_def]]
  proof
    assume "(k, x) \<in> set c"
    then show ?thesis using c by (simp add: corpus_ok_entries)
  next
    assume "x = d \<and> (k = td_doc_id d \<or> py_eq k (td_doc_id d))"
    moreover have "hashable (td_doc_id d)" using d by (simp add: doc_ok_def)
    ultimately show ?thesis using d by (auto simp: entry_ok_def dest: py_eq_hashable)
  qed
  then show ?thesis
    using c by (auto simp: corpus_ok_entries put_doc_def no_duplicates_put)
qed

lemma load_docs_ok:
  assumes "load_docs parse xs docs = Inr c" and "corpus_ok docs"
    and "\<And>x d. x \<in> set xs \<Longrightarrow> parse x = Inr d \<Longrightarrow> doc_ok d"
  shows "corpus_ok c"
  using assms
proof (induction xs arbitrary: docs)
  case (Cons x xs)
  then obtain d where d: "parse x = Inr d" "load_docs parse xs (put_doc d docs) = Inr c"
    by (auto split: sum.splits)
  have "corpus_ok (put_doc d docs)" using Cons.prems d by (intro put_doc_ok) auto
  then show ?case using Cons.IH [OF d(2)] Cons.prems(3) by (meson list.set_intros(2))
qed simp

lemma load_docs_all:
  assumes "load_docs parse xs docs = Inr c" and "list_all (P \<circ> snd) docs"
    and "\<And>x d. x \<in> set xs \<Longrightarrow> parse x = Inr d \<Longrightarrow> P d"
  shows "list_all (P \<circ> snd) c"
  using assms
proof (induction xs arbitrary: docs)
  case (Cons x xs)
  then obtain d where d: "parse x = Inr d" "load_docs parse xs (put_doc d docs) = Inr c"
    by (auto split: sum.splits)
  have "list_all (P \<circ> snd) (put_doc d docs)"
    using Cons.prems(2) Cons.prems(3) [OF _ d(1)]
    by (auto simp: list_all_iff put_doc_def dest!: py_put_mem)
  then show ?case using Cons.IH [OF d(2)] Cons.prems(3) by (meson list.set_intros(2))
qed simp

lemma corpus_ok_Nil [simp]: "corpus_ok []"
  by (simp add: corpus_ok_def no_duplicates_def)

lemma load_layer1_ok:
  assumes "load_layer1 loads dir = Inr c"
  shows "corpus_ok c \<and> c \<noteq> [] \<and> list_all ((\<lambda>d. td_layer d = 1 \<and> from_file yaml dir d) \<circ> snd) c"
proof -
  obtain es where es: "load_docs (layer1_entry dir) es [] = Inr c" "c \<noteq> []"
    using assms by (auto simp: load_layer1_def res_bind_Inr_iff
        split: option.split_asm json.split_asm if_split_asm)
  show ?thesis
    using load_docs_ok [OF es(1)] load_docs_all [OF es(1), of "\<lambda>d. td_layer d = 1 \<and> from_file yaml dir d"]
      layer1_entry_ok es(2) by auto
qed

lemma load_layer2_ok:
  assumes "load_layer2 yaml dir = Inr c"
  shows "corpus_ok c \<and> c \<noteq> [] \<and> list_all ((\<lambda>d. td_layer d = 2 \<and> from_file yaml dir d) \<circ> snd) c"
proof -
  obtain fs where fs: "layer2 dir = Some fs" "c \<noteq> []"
    "load_docs (layer2_entry yaml) (sort_key fst (filter (\<lambda>(f, _). suffix ''.md'' f) fs)) [] = Inr c"
    using assms by (auto simp: load_layer2_def res_bind_Inr_iff split: option.split_asm if_split_asm)
  have e: "doc_ok d \<and> td_layer d = 2 \<and> from_file yaml dir d"
    if "md \<in> set (sort_key fst (filter (\<lambda>(f, _). suffix ''.md'' f) fs))" "layer2_entry yaml md = Inr d"
    for md d
    using layer2_entry_ok [OF that(2) fs(1)] that(1) by auto
  show ?thesis
    using load_docs_ok [OF fs(3)] load_docs_all [OF fs(3), of "\<lambda>d. td_layer d = 2 \<and> from_file yaml dir d"]
      e fs(2) by auto
qed

lemma load_corpus_ok:
  assumes "load_corpus loads yaml dir = Inr c"
  shows "corpus_ok c \<and> list_all ((\<lambda>d. from_file yaml dir d) \<circ> snd) c
    \<and> by_layer c 1 \<noteq> [] \<and> by_layer c 2 \<noteq> []"
proof -
  obtain a b where ab: "load_layer1 loads dir = Inr a" "load_layer2 yaml dir = Inr b" "c = a @ b"
    "filter (\<lambda>k. py_get b k \<noteq> None) (map fst a) = []"
    using assms by (auto simp: load_corpus_def res_bind_Inr_iff Let_def split: if_split_asm)
  note a = load_layer1_ok [OF ab(1), of yaml] and b = load_layer2_ok [OF ab(2)]
  have "\<not> py_eq k' k" if "k \<in> set (map fst a)" "k' \<in> set (map fst b)" for k k'
    using ab(4) that py_get_iff [of b k] by (auto simp: filter_empty_conv)
  then have "\<not> py_eq k k'" if "k \<in> set (map fst a)" "k' \<in> set (map fst b)" for k k'
    using that py_eq_sym by blast
  then have "no_duplicates (map fst (a @ b))"
    using a b by (simp add: corpus_ok_entries no_duplicates_def sorted_wrt_append)
  then have "corpus_ok c" using a b ab(3) by (auto simp: corpus_ok_entries)
  moreover have "filter (\<lambda>d. td_layer d = 1) (map snd a) = map snd a"
    "filter (\<lambda>d. td_layer d = 2) (map snd b) = map snd b"
    using a b by (simp_all add: list_all_iff filter_id_conv)
  ultimately show ?thesis using a b ab(3) by (auto simp: by_layer_def list_all_iff)
qed

lemma resolve_ok:
  assumes "corpus_ok c" and "resolve c i = Inr d"
  shows "doc_ok d \<and> (\<exists>k. (k, d) \<in> set c \<and> py_eq k i)"
proof -
  obtain k where "(k, d) \<in> set c" "py_eq k i"
    using assms(2) by (auto simp: resolve_def split: option.split_asm if_split_asm dest: py_get_mem)
  then show ?thesis using assms(1) by (auto simp: corpus_ok_entries entry_ok_def)
qed

section \<open>Property\<close>

text \<open>
  The trusted corpus only answers with committed documents. If the corpus loads, its
  identifiers are pairwise different, both layers are present, and every document it resolves has
  a known clearance, a non-blank text that is the stripped content of a file of the directory,
  and a source tag that names its layer.
\<close>

theorem loaded_corpus_trusted:
  assumes "load_corpus loads yaml dir = Inr c"
  shows "no_duplicates (corpus_ids c) \<and> by_layer c 1 \<noteq> [] \<and> by_layer c 2 \<noteq> []
    \<and> (\<forall>i d. resolve c i = Inr d \<longrightarrow> doc_ok d \<and> from_file yaml dir d)"
proof -
  note ok = load_corpus_ok [OF assms]
  have "from_file yaml dir d" if "resolve c i = Inr d" for i d
    using resolve_ok [OF _ that] ok by (auto simp: list_all_iff)
  then show ?thesis
    using ok resolve_ok by (auto simp: corpus_ok_def corpus_ids_def)
qed

definition sample_dir :: corpus_dir where
  "sample_dir =
     \<lparr>root_is_dir = True, layer1_manifest = Some ''m'',
      layer1_file = (\<lambda>f. if f = ''a.txt'' then Some '' Capex was $5 '' else None),
      layer2 = Some [(''b.md'', ''---x--- Policy ''), (''notes.txt'', ''n'')]\<rparr>"

definition sample_loads :: "string \<Rightarrow> json option" where
  "sample_loads s = Some (JObj [(''documents'', JList [JObj [(''financebench_id'', JStr ''f1''),
     (''file'', JStr ''a.txt''), (''clearance'', JStr ''public'')]])])"

definition sample_yaml :: "string \<Rightarrow> json option" where
  "sample_yaml s = Some (JObj [(''doc_id'', JStr ''l2-b''), (''clearance'', JStr ''analyst'')])"

lemma sample_corpus_loads:
  "load_corpus sample_loads sample_yaml sample_dir =
     Inr [(JStr ''f1'', \<lparr>td_doc_id = JStr ''f1'', td_layer = 1, td_clearance = JStr ''public'',
             td_text = ''Capex was $5'', td_source = (''financebench:'', JStr ''f1''), td_metadata = []\<rparr>),
          (JStr ''l2-b'', \<lparr>td_doc_id = JStr ''l2-b'', td_layer = 2, td_clearance = JStr ''analyst'',
             td_text = ''Policy'', td_source = (''layer2:'', JStr ''l2-b''), td_metadata = []\<rparr>)]"
  by code_simp

theorem loaded_corpus_trusted_witness:
  "\<exists>c. load_corpus sample_loads sample_yaml sample_dir = Inr c \<and> no_duplicates (corpus_ids c)
     \<and> is_ok (resolve c (JStr ''f1'')) \<and> is_ok (resolve c (JStr ''l2-b''))
     \<and> (\<forall>i d. resolve c i = Inr d \<longrightarrow> doc_ok d \<and> from_file sample_yaml sample_dir d)"
  using loaded_corpus_trusted [OF sample_corpus_loads] sample_corpus_loads
  by (auto simp: resolve_def hashable_def)

end
