(* ===== verification/Train_Manifest.thy ===== *)
theory Train_Manifest
  imports Train_Corpus
begin

text \<open>
  The provenance manifest (\<open>training/atlas_training/data/manifest.py\<close>): the records, the conversion
  to and from dictionaries, and the check that everything listed is in the trusted corpus. The
  dataclasses do not check their fields, so every field is a JSON value and the check performs
  Python's operations on them, with their type errors.
\<close>

section \<open>Operations on values\<close>

text \<open>\<open>a < b\<close>, \<open>min(a, b, c)\<close> and \<open>a + b\<close> on numbers and Booleans; \<open>None\<close> is the \<open>TypeError\<close>.\<close>

definition py_less :: "json \<Rightarrow> json \<Rightarrow> bool option" where
  "py_less a b =
     (case (as_num a, as_num b) of (Some x, Some y) \<Rightarrow> Some (f_lt x y) | _ \<Rightarrow> None)"

definition py_min2 :: "json \<Rightarrow> json \<Rightarrow> json option" where
  "py_min2 a b = map_option (\<lambda>lt. if lt then b else a) (py_less b a)"

definition py_min3 :: "json \<Rightarrow> json \<Rightarrow> json \<Rightarrow> json option" where
  "py_min3 a b c = Option.bind (py_min2 a b) (\<lambda>m. py_min2 m c)"

fun as_int :: "json \<Rightarrow> int option" where
  "as_int (JInt n) = Some n"
| "as_int (JBool b) = Some (if b then 1 else 0)"
| "as_int _ = None"

definition to_float :: "json \<Rightarrow> pyfloat option" where
  "to_float v = (case as_int v of Some n \<Rightarrow> num_float (JInt n) | None \<Rightarrow> num_float v)"

definition py_add :: "json \<Rightarrow> json \<Rightarrow> json option" where
  "py_add a b =
     (case (as_int a, as_int b) of
        (Some m, Some n) \<Rightarrow> Some (JInt (m + n))
      | _ \<Rightarrow> (case (to_float a, to_float b) of
                (Some x, Some y) \<Rightarrow> Some (JFloat (f_add x y)) | _ \<Rightarrow> None))"

lemma as_num_int [simp]: "as_int v = Some n \<Longrightarrow> as_num v = Some (Fin (of_int n))"
  by (cases v) auto

lemma py_less_int [simp]: "py_less (JInt a) (JInt b) = Some (a < b)"
  by (simp add: py_less_def)

lemma py_min3_int [simp]: "py_min3 (JInt a) (JInt b) (JInt c) = Some (JInt (min (min a b) c))"
  by (auto simp: py_min3_def py_min2_def min_def)

lemma py_add_int [simp]: "py_add (JInt a) (JInt b) = Some (JInt (a + b))"
  by (simp add: py_add_def)

lemma py_eq_int [simp]: "py_eq (JInt a) (JInt b) \<longleftrightarrow> a = b"
  by (simp add: py_eq_def f_eq_def)

section \<open>Records\<close>

definition GROUNDED_INVARIANT :: string where
  "GROUNDED_INVARIANT = ''trusted-corpus-only''"

definition DEFAULT_SPLIT_STRATEGY :: string where
  "DEFAULT_SPLIT_STRATEGY = ''deterministic-by-id''"

record source =
  src_kind :: json
  src_license :: json
  src_count :: json
  src_ids :: "json list"
  src_docs :: "json list"

record synthetic_meta =
  sm_generator_model :: json
  sm_generator_provider :: json
  sm_prompt_template_sha :: json
  sm_count :: json
  sm_answer_pairs :: json
  sm_refusal_pairs :: json
  sm_grounded_in :: json

record split_sizes =
  sp_train :: json
  sp_val :: json
  sp_strategy :: json

record manifest =
  mf_dataset_version :: json
  mf_seed :: json
  mf_sources :: "source list"
  mf_synthetic :: synthetic_meta
  mf_split :: split_sizes
  mf_generated_at :: json
  mf_git_sha :: json

definition members :: "source \<Rightarrow> json list" where
  "members s = src_ids s @ src_docs s"

section \<open>Dictionaries\<close>

text \<open>Empty identifier tuples are left out.\<close>

definition source_to_dict :: "source \<Rightarrow> json" where
  "source_to_dict s =
     JObj ([(''kind'', src_kind s), (''license'', src_license s), (''count'', src_count s)]
       @ (if src_ids s = [] then [] else [(''ids'', JList (src_ids s))])
       @ (if src_docs s = [] then [] else [(''docs'', JList (src_docs s))]))"

definition synthetic_to_dict :: "synthetic_meta \<Rightarrow> json" where
  "synthetic_to_dict m =
     JObj [(''generator_model'', sm_generator_model m),
           (''generator_provider'', sm_generator_provider m),
           (''prompt_template_sha'', sm_prompt_template_sha m),
           (''count'', sm_count m), (''answer_pairs'', sm_answer_pairs m),
           (''refusal_pairs'', sm_refusal_pairs m), (''grounded_in'', sm_grounded_in m)]"

definition split_to_dict :: "split_sizes \<Rightarrow> json" where
  "split_to_dict p =
     JObj [(''train'', sp_train p), (''val'', sp_val p), (''strategy'', sp_strategy p)]"

definition manifest_to_dict :: "manifest \<Rightarrow> json" where
  "manifest_to_dict m =
     JObj [(''dataset_version'', mf_dataset_version m), (''seed'', mf_seed m),
           (''sources'', JList (map source_to_dict (mf_sources m))),
           (''synthetic'', synthetic_to_dict (mf_synthetic m)),
           (''split'', split_to_dict (mf_split m)),
           (''generated_at'', mf_generated_at m), (''git_sha'', mf_git_sha m)]"

text \<open>\<open>v[k]\<close>, and \<open>tuple(d.get(k, ()))\<close>; \<open>None\<close> is the \<open>KeyError\<close> or \<open>TypeError\<close> that is caught.\<close>

definition item :: "json \<Rightarrow> string \<Rightarrow> json option" where
  "item v k = (case v of JObj d \<Rightarrow> map_of d k | _ \<Rightarrow> None)"

definition tuple_field :: "json \<Rightarrow> string \<Rightarrow> json list option" where
  "tuple_field v k =
     (case item v k of None \<Rightarrow> Some [] | Some x \<Rightarrow> py_list x)"

definition source_from_dict :: "json \<Rightarrow> source option" where
  "source_from_dict s =
     Option.bind (item s ''kind'') (\<lambda>kind.
     Option.bind (item s ''license'') (\<lambda>lic.
     Option.bind (item s ''count'') (\<lambda>count.
     Option.bind (tuple_field s ''ids'') (\<lambda>ids.
     Option.bind (tuple_field s ''docs'') (\<lambda>docs.
       Some \<lparr>src_kind = kind, src_license = lic, src_count = count, src_ids = ids,
             src_docs = docs\<rparr>)))))"

definition synthetic_from_dict :: "json \<Rightarrow> synthetic_meta option" where
  "synthetic_from_dict v =
     map_option (\<lambda>d.
       \<lparr>sm_generator_model = obj_get d ''generator_model'',
        sm_generator_provider = obj_get d ''generator_provider'',
        sm_prompt_template_sha = obj_get d ''prompt_template_sha'',
        sm_count = obj_get d ''count'', sm_answer_pairs = obj_get d ''answer_pairs'',
        sm_refusal_pairs = obj_get d ''refusal_pairs'',
        sm_grounded_in = obj_get_or d ''grounded_in'' (JStr GROUNDED_INVARIANT)\<rparr>)
     (kwargs [''generator_model'', ''generator_provider'', ''prompt_template_sha'', ''count'',
        ''answer_pairs'', ''refusal_pairs''] [''grounded_in''] v)"

definition split_from_dict :: "json \<Rightarrow> split_sizes option" where
  "split_from_dict v =
     map_option (\<lambda>d.
       \<lparr>sp_train = obj_get d ''train'', sp_val = obj_get d ''val'',
        sp_strategy = obj_get_or d ''strategy'' (JStr DEFAULT_SPLIT_STRATEGY)\<rparr>)
     (kwargs [''train'', ''val''] [''strategy''] v)"

fun opt_map :: "('a \<Rightarrow> 'b option) \<Rightarrow> 'a list \<Rightarrow> 'b list option" where
  "opt_map f [] = Some []"
| "opt_map f (x # xs) = Option.bind (f x) (\<lambda>y. map_option (Cons y) (opt_map f xs))"

definition manifest_from_dict :: "json \<Rightarrow> manifest option" where
  "manifest_from_dict raw =
     Option.bind (Option.bind (item raw ''sources'') py_list) (\<lambda>ss.
     Option.bind (opt_map source_from_dict ss) (\<lambda>sources.
     Option.bind (Option.bind (item raw ''synthetic'') synthetic_from_dict) (\<lambda>syn.
     Option.bind (Option.bind (item raw ''split'') split_from_dict) (\<lambda>sp.
     Option.bind (item raw ''dataset_version'') (\<lambda>dv.
     Option.bind (item raw ''seed'') (\<lambda>sd.
     Option.bind (item raw ''generated_at'') (\<lambda>ga.
     Option.bind (item raw ''git_sha'') (\<lambda>gs.
       Some \<lparr>mf_dataset_version = dv, mf_seed = sd, mf_sources = sources, mf_synthetic = syn,
             mf_split = sp, mf_generated_at = ga, mf_git_sha = gs\<rparr>))))))))"

subsection \<open>Round trip\<close>

lemma source_round_trip: "source_from_dict (source_to_dict s) = Some s"
  by (simp add: source_from_dict_def source_to_dict_def item_def tuple_field_def py_list_def)

lemma sources_round_trip: "opt_map source_from_dict (map source_to_dict ss) = Some ss"
  by (induction ss) (simp_all add: source_round_trip)

lemma synthetic_round_trip: "synthetic_from_dict (synthetic_to_dict m) = Some m"
  by (simp add: synthetic_from_dict_def synthetic_to_dict_def kwargs_def obj_get_def)

lemma split_round_trip: "split_from_dict (split_to_dict p) = Some p"
  by (simp add: split_from_dict_def split_to_dict_def kwargs_def obj_get_def)

lemma manifest_dict_round_trip: "manifest_from_dict (manifest_to_dict m) = Some m"
  by (simp add: manifest_from_dict_def manifest_to_dict_def item_def py_list_def
      sources_round_trip synthetic_round_trip split_round_trip)

section \<open>Files\<close>

datatype manifest_error =
    Malformed
  | ManifestNotFound
  | BadManifestJson
  | SeedNotInt
  | BlankVersion
  | PyError
  | NotGrounded
  | NoSources
  | CountMismatch json
  | NotInCorpus json json
  | NegativeCount
  | SumMismatch
  | NegativeSplit
  | BlankStrategy
  | Ungrounded "json list"

definition load_manifest ::
  "(string \<Rightarrow> json option) \<Rightarrow> string option \<Rightarrow> (manifest_error, manifest) result" where
  "load_manifest loads file =
     (case file of
        None \<Rightarrow> Inl ManifestNotFound
      | Some content \<Rightarrow>
          (case loads content of
             None \<Rightarrow> Inl BadManifestJson
           | Some raw \<Rightarrow>
               (case manifest_from_dict raw of None \<Rightarrow> Inl Malformed | Some m \<Rightarrow> Inr m)))"

definition save_manifest :: "(json \<Rightarrow> string) \<Rightarrow> manifest \<Rightarrow> string" where
  "save_manifest dumps m = dumps (manifest_to_dict m) @ [char_of (10 :: nat)]"

text \<open>\<open>git\<close> is the output of \<open>git rev-parse\<close>, \<open>None\<close> if it could not be run.\<close>

definition current_git_sha :: "string option \<Rightarrow> string" where
  "current_git_sha git =
     (case git of None \<Rightarrow> ''unknown''
      | Some out \<Rightarrow> if str_strip out = [] then ''unknown'' else str_strip out)"

definition or_else :: "string option \<Rightarrow> string \<Rightarrow> json" where
  "or_else v dflt = (case v of None \<Rightarrow> JStr dflt | Some s \<Rightarrow> JStr (if s = [] then dflt else s))"

definition build ::
  "string \<Rightarrow> string option \<Rightarrow> json \<Rightarrow> json \<Rightarrow> source list \<Rightarrow> synthetic_meta \<Rightarrow> split_sizes
     \<Rightarrow> string option \<Rightarrow> string option \<Rightarrow> manifest" where
  "build now git version seed sources synthetic split generated_at git_sha =
     \<lparr>mf_dataset_version = version, mf_seed = seed, mf_sources = sources, mf_synthetic = synthetic,
      mf_split = split, mf_generated_at = or_else generated_at now,
      mf_git_sha = or_else git_sha (current_git_sha git)\<rparr>"

section \<open>The trusted-corpus check\<close>

definition listed_source_ids :: "manifest \<Rightarrow> json list" where
  "listed_source_ids m = concat (map members (mf_sources m))"

definition blank_check :: "json \<Rightarrow> manifest_error \<Rightarrow> (manifest_error, unit) result" where
  "blank_check v e = (case v of JStr s \<Rightarrow> guard (str_strip s \<noteq> []) e | _ \<Rightarrow> Inl PyError)"

fun check_members :: "corpus \<Rightarrow> json \<Rightarrow> json list \<Rightarrow> (manifest_error, unit) result" where
  "check_members c kind [] = Inr ()"
| "check_members c kind (m # ms) =
     (case resolve c m of
        Inl CorpusTypeError \<Rightarrow> Inl PyError
      | Inl _ \<Rightarrow> Inl (NotInCorpus kind m)
      | Inr _ \<Rightarrow> check_members c kind ms)"

fun check_sources :: "corpus \<Rightarrow> source list \<Rightarrow> (manifest_error, unit) result" where
  "check_sources c [] = Inr ()"
| "check_sources c (s # ss) =
     (if \<not> py_eq (src_count s) (JInt (int (length (members s)))) then Inl (CountMismatch (src_kind s))
      else res_bind (check_members c (src_kind s) (members s)) (\<lambda>_. check_sources c ss))"

definition negative :: "json option \<Rightarrow> manifest_error \<Rightarrow> (manifest_error, unit) result" where
  "negative v e =
     (case Option.bind v (\<lambda>x. py_less x (JInt 0)) of
        None \<Rightarrow> Inl PyError | Some b \<Rightarrow> guard (\<not> b) e)"

definition check_refs :: "manifest \<Rightarrow> json list option \<Rightarrow> (manifest_error, unit) result" where
  "check_refs m refs =
     (case refs of
        None \<Rightarrow> Inr ()
      | Some rs \<Rightarrow>
          if \<not> list_all hashable rs then Inl PyError
          else (let ungrounded =
                  filter (\<lambda>r. \<not> list_ex (\<lambda>a. py_eq a r) (listed_source_ids m)) rs
                in guard (ungrounded = []) (Ungrounded ungrounded)))"

definition validate ::
  "manifest \<Rightarrow> corpus \<Rightarrow> json list option \<Rightarrow> (manifest_error, unit) result" where
  "validate m c refs =
     (let syn = mf_synthetic m; sp = mf_split m in
      res_bind (guard (case mf_seed m of JInt _ \<Rightarrow> True | _ \<Rightarrow> False) SeedNotInt) (\<lambda>_.
      res_bind (blank_check (mf_dataset_version m) BlankVersion) (\<lambda>_.
      res_bind (guard (sm_grounded_in syn = JStr GROUNDED_INVARIANT) NotGrounded) (\<lambda>_.
      res_bind (guard (mf_sources m \<noteq> []) NoSources) (\<lambda>_.
      res_bind (check_sources c (mf_sources m)) (\<lambda>_.
      res_bind (negative (py_min3 (sm_count syn) (sm_answer_pairs syn) (sm_refusal_pairs syn))
        NegativeCount) (\<lambda>_.
      res_bind (case py_add (sm_answer_pairs syn) (sm_refusal_pairs syn) of
          None \<Rightarrow> Inl PyError | Some t \<Rightarrow> guard (py_eq (sm_count syn) t) SumMismatch) (\<lambda>_.
      res_bind (negative (Some (sp_train sp)) NegativeSplit) (\<lambda>_.
      res_bind (negative (Some (sp_val sp)) NegativeSplit) (\<lambda>_.
      res_bind (blank_check (sp_strategy sp) BlankStrategy) (\<lambda>_.
        check_refs m refs)))))))))))"

section \<open>What an accepted manifest guarantees\<close>

lemma f_eq_trans: "f_eq x y \<Longrightarrow> f_eq y z \<Longrightarrow> f_eq x z"
  by (auto simp: f_eq_def)

lemma py_eq_trans: "py_eq a b \<Longrightarrow> py_eq b c \<Longrightarrow> py_eq a c"
  by (auto simp: py_eq_def dest: f_eq_trans split: option.split_asm)

lemma resolve_ok_iff: "is_ok (resolve c i) \<longleftrightarrow> hashable i \<and> (\<exists>k\<in>fst ` set c. py_eq k i)"
  using py_get_iff [of c i] by (auto simp: resolve_def split: option.split)

lemma resolve_py_eq: "is_ok (resolve c a) \<Longrightarrow> py_eq a b \<Longrightarrow> is_ok (resolve c b)"
  unfolding resolve_ok_iff by (meson py_eq_hashable py_eq_trans)

lemma check_members_Inr: "check_members c kind ms = Inr () \<longleftrightarrow> (\<forall>i\<in>set ms. is_ok (resolve c i))"
  by (induction ms) (auto split: sum.splits corpus_error.splits)

lemma check_sources_Inr: "check_sources c ss = Inr () \<longleftrightarrow>
    (\<forall>s\<in>set ss. py_eq (src_count s) (JInt (int (length (members s))))
       \<and> (\<forall>i\<in>set (members s). is_ok (resolve c i)))"
  by (induction ss) (auto simp: res_bind_Inr_iff check_members_Inr)

lemma check_refs_Inr: "check_refs m (Some rs) = Inr () \<longleftrightarrow>
    (\<forall>r\<in>set rs. hashable r \<and> (\<exists>a\<in>set (listed_source_ids m). py_eq a r))"
  by (auto simp: check_refs_def Let_def filter_empty_conv list_all_iff list_ex_iff)

definition nonblank :: "json \<Rightarrow> bool" where
  "nonblank v = (case v of JStr s \<Rightarrow> str_strip s \<noteq> [] | _ \<Rightarrow> False)"

lemma blank_check_Inr: "blank_check v e = Inr () \<longleftrightarrow> nonblank v"
  by (auto simp: blank_check_def nonblank_def split: json.split)

lemma negative_int [simp]: "negative (Some (JInt n)) e = guard (0 \<le> n) e"
  by (simp add: negative_def not_less)

lemma validate_iff:
  assumes "sm_count (mf_synthetic m) = JInt n" "sm_answer_pairs (mf_synthetic m) = JInt a"
    "sm_refusal_pairs (mf_synthetic m) = JInt b" "sp_train (mf_split m) = JInt t"
    "sp_val (mf_split m) = JInt v"
  shows "validate m c refs = Inr () \<longleftrightarrow>
    (\<exists>sd. mf_seed m = JInt sd) \<and> nonblank (mf_dataset_version m)
    \<and> sm_grounded_in (mf_synthetic m) = JStr GROUNDED_INVARIANT
    \<and> mf_sources m \<noteq> [] \<and> check_sources c (mf_sources m) = Inr ()
    \<and> 0 \<le> a \<and> 0 \<le> b \<and> n = a + b \<and> 0 \<le> t \<and> 0 \<le> v \<and> nonblank (sp_strategy (mf_split m))
    \<and> check_refs m refs = Inr ()"
  by (auto simp: validate_def Let_def res_bind_Inr_iff assms blank_check_Inr split: json.splits)

lemma validate_sources:
  assumes "validate m c refs = Inr ()"
  shows "mf_sources m \<noteq> [] \<and> sm_grounded_in (mf_synthetic m) = JStr GROUNDED_INVARIANT
    \<and> check_sources c (mf_sources m) = Inr () \<and> check_refs m refs = Inr ()
    \<and> nonblank (mf_dataset_version m)"
  using assms by (auto simp: validate_def Let_def res_bind_Inr_iff blank_check_Inr)

text \<open>
  C17: A manifest that passes the check only describes trusted data: it is marked as grounded in the
  trusted corpus, every identifier its sources list resolves in the corpus, and so does every
  reference of a synthetic pair given to the check.
\<close>

theorem validated_manifest_is_trusted:
  assumes "validate m c (Some refs) = Inr ()"
  shows "sm_grounded_in (mf_synthetic m) = JStr GROUNDED_INVARIANT
    \<and> (\<forall>i\<in>set (listed_source_ids m). is_ok (resolve c i))
    \<and> (\<forall>r\<in>set refs. is_ok (resolve c r))"
proof -
  note v = validate_sources [OF assms]
  have listed: "is_ok (resolve c i)" if "i \<in> set (listed_source_ids m)" for i
    using v that by (auto simp: check_sources_Inr listed_source_ids_def)
  have "is_ok (resolve c r)" if mem: "r \<in> set refs" for r
  proof -
    obtain a where "a \<in> set (listed_source_ids m)" "py_eq a r"
      using v mem by (auto simp: check_refs_Inr)
    then show ?thesis using listed resolve_py_eq by blast
  qed
  with listed v show ?thesis by blast
qed

theorem validated_manifest_is_trusted_witness:
  "\<exists>m c. validate m c (Some [JStr ''f1'']) = Inr () \<and> is_ok (resolve c (JStr ''f1''))"
proof -
  let ?src = "\<lparr>src_kind = JStr ''k'', src_license = JStr ''l'', src_count = JInt 1,
      src_ids = [JStr ''f1''], src_docs = []\<rparr>"
  let ?syn = "\<lparr>sm_generator_model = JStr ''g'', sm_generator_provider = JStr ''p'',
      sm_prompt_template_sha = JStr ''s'', sm_count = JInt 1, sm_answer_pairs = JInt 1,
      sm_refusal_pairs = JInt 0, sm_grounded_in = JStr GROUNDED_INVARIANT\<rparr>"
  let ?m = "\<lparr>mf_dataset_version = JStr ''1'', mf_seed = JInt 42, mf_sources = [?src],
      mf_synthetic = ?syn,
      mf_split = \<lparr>sp_train = JInt 1, sp_val = JInt 0, sp_strategy = JStr ''id''\<rparr>,
      mf_generated_at = JStr ''t'', mf_git_sha = JStr ''g''\<rparr>"
  obtain c where c: "load_corpus sample_loads sample_yaml sample_dir = Inr c"
      "is_ok (resolve c (JStr ''f1''))"
    using sample_corpus_loads by (auto simp: resolve_def hashable_def)
  have "nonblank (JStr ''1'')" "nonblank (JStr ''id'')" by code_simp+
  then have "validate ?m c (Some [JStr ''f1'']) = Inr ()"
    using c(2) by (subst validate_iff)
      (auto simp: check_sources_Inr check_refs_Inr members_def listed_source_ids_def hashable_def
        simp del: check_sources.simps check_members.simps)
  from validated_manifest_is_trusted [OF this] this show ?thesis by auto
qed

text \<open>
  A manifest converted to a dictionary converts back to itself, whatever its fields hold, so a
  file that decodes to the dictionary of a manifest loads as that manifest.
\<close>

theorem manifest_round_trip:
  "manifest_from_dict (manifest_to_dict m) = Some m
   \<and> load_manifest (\<lambda>_. Some (manifest_to_dict m)) (Some content) = Inr m"
  by (simp add: load_manifest_def manifest_dict_round_trip)

end
