(* ===== verification/Train_Synth.thy ===== *)
theory Train_Synth
  imports Train_Manifest Eval_Metrics "HOL-Library.Product_Lexorder"
begin

text \<open>
  Synthetic training pairs (\<open>training/atlas_training/data/synth.py\<close>) and the chat examples built
  from them (\<open>data/builder.py\<close>): prompts, the parsing of a teacher's response, citation
  enforcement, hand-authored and templated pairs, the provenance manifest of a set of pairs and
  the train/validation split. The teacher, the random draws and the hash are arguments. Characters
  beyond Latin-1 (dashes, the ellipsis) are written as their UTF-8 bytes.
\<close>

section \<open>Prompts\<close>

definition utf8 :: "nat list \<Rightarrow> string" where
  "utf8 ns = map char_of ns"

definition EM_DASH :: string where
  "EM_DASH = utf8 [226, 128, 148]"

definition EN_DASH :: string where
  "EN_DASH = utf8 [226, 128, 147]"

definition ELLIPSIS :: string where
  "ELLIPSIS = utf8 [226, 128, 166]"

definition NL :: string where
  "NL = [char_of (10 :: nat)]"

definition CONTEXT_EXCERPT_CHARS :: nat where
  "CONTEXT_EXCERPT_CHARS = 700"

definition one_line :: "string \<Rightarrow> string" where
  "one_line s = str_join '' '' (split_ws s)"

definition excerpt :: "string \<Rightarrow> string" where
  "excerpt body =
     (let t = one_line body
      in if length t \<le> CONTEXT_EXCERPT_CHARS then t
         else rstrip_chars is_space (take CONTEXT_EXCERPT_CHARS t) @ '' '' @ ELLIPSIS)"

text \<open>The text of an identifier in an f-string; \<open>fmt\<close> is \<open>str\<close> on a value that is not a string.\<close>

definition show_id :: "(json \<Rightarrow> string) \<Rightarrow> json \<Rightarrow> string" where
  "show_id fmt i = (case i of JStr s \<Rightarrow> s | _ \<Rightarrow> fmt i)"

text \<open>A template is a function of the texts of its placeholders.\<close>

definition PROMPT_TEMPLATE :: "string \<Rightarrow> string \<Rightarrow> string \<Rightarrow> string" where
  "PROMPT_TEMPLATE doc_id context question =
     ''You are Atlas, an enterprise financial/compliance assistant. Answer the QUESTION using ONLY ''
     @ ''the CONTEXT. Cite every supporting source inline with a [doc:<id>] marker using the id shown ''
     @ ''in the context header. If the context does not contain the answer, refuse and say which ''
     @ ''information is missing '' @ EM_DASH @ '' never guess.'' @ NL @ NL
     @ ''CONTEXT:'' @ NL @ ''[doc:'' @ doc_id @ ''] '' @ context @ NL @ NL
     @ ''QUESTION: '' @ question @ NL @ NL @ ''ANSWER:''"

definition build_prompt :: "(json \<Rightarrow> string) \<Rightarrow> trusted_doc \<Rightarrow> string \<Rightarrow> string" where
  "build_prompt fmt d question =
     PROMPT_TEMPLATE (show_id fmt (td_doc_id d)) (excerpt (td_text d)) question"

definition QA_GEN_PROMPT :: "nat \<Rightarrow> string \<Rightarrow> string \<Rightarrow> string" where
  "QA_GEN_PROMPT n doc_id context =
     (''You are creating training data for Atlas, a financial/compliance assistant. Read the CONTEXT ''
      @ ''and write '' @ str_int (int n) @ '' DIVERSE question/answer pairs.'' @ NL
      @ ''Rules:'' @ NL
      @ ''- Each question must be answerable SOLELY from the CONTEXT.'' @ NL
      @ ''- Each answer is concise, factual, and ends with the citation [doc:'' @ doc_id @ ''].'' @ NL
      @ ''- Vary the angle: specific figures, definitions, yes/no, short comparisons.'' @ NL
      @ ''Return ONLY a JSON array, no prose: ''
      @ ''[{\"question\": \"...\", \"answer\": \"...\"}, ...]'' @ NL @ NL
      @ ''CONTEXT:'' @ NL @ ''[doc:'' @ doc_id @ ''] '' @ context @ NL)"

definition qa_gen_prompt :: "(json \<Rightarrow> string) \<Rightarrow> trusted_doc \<Rightarrow> nat \<Rightarrow> string" where
  "qa_gen_prompt fmt d n = QA_GEN_PROMPT n (show_id fmt (td_doc_id d)) (excerpt (td_text d))"

section \<open>Pairs\<close>

record synthetic_pair =
  sy_question :: string
  sy_context :: string
  sy_answer :: string
  sy_label :: string
  sy_ref :: json
  sy_generator :: string

definition pair_to_dict :: "synthetic_pair \<Rightarrow> json" where
  "pair_to_dict p =
     JObj [(''question'', JStr (sy_question p)), (''context'', JStr (sy_context p)),
           (''answer'', JStr (sy_answer p)), (''label'', JStr (sy_label p)),
           (''provenance_ref'', sy_ref p), (''generator'', JStr (sy_generator p))]"

definition header :: "(json \<Rightarrow> string) \<Rightarrow> trusted_doc \<Rightarrow> string" where
  "header fmt d = ''[doc:'' @ show_id fmt (td_doc_id d) @ ''] '' @ excerpt (td_text d)"

definition mk_pair ::
  "(json \<Rightarrow> string) \<Rightarrow> trusted_doc \<Rightarrow> string \<Rightarrow> string \<Rightarrow> string \<Rightarrow> string \<Rightarrow> synthetic_pair" where
  "mk_pair fmt d question answer label gen =
     \<lparr>sy_question = question, sy_context = header fmt d, sy_answer = answer, sy_label = label,
      sy_ref = td_doc_id d, sy_generator = gen\<rparr>"

text \<open>\<open>teacher\<close> is the generator: \<open>None\<close> is an exception of its client.\<close>

definition generate_answer_pair ::
  "(json \<Rightarrow> string) \<Rightarrow> (string \<Rightarrow> string option) \<Rightarrow> string \<Rightarrow> trusted_doc \<Rightarrow> string
     \<Rightarrow> synthetic_pair option" where
  "generate_answer_pair fmt teacher model_id d question =
     map_option (\<lambda>out. mk_pair fmt d question (str_strip out) ''answer'' model_id)
       (teacher (build_prompt fmt d question))"

section \<open>Citations\<close>

definition ANY_DOC_MARKER :: gpat where
  "ANY_DOC_MARKER = (lit ''[doc:'', plus (Ch doc_char), Ch (\<lambda>c. c = CHR '']''))"

definition enforce_citation :: "string \<Rightarrow> string \<Rightarrow> string" where
  "enforce_citation answer i =
     (let cleaned = rstrip_chars (\<lambda>c. c = CHR ''.'') (str_strip (erase ANY_DOC_MARKER answer))
      in if cleaned = [] then [] else cleaned @ '' [doc:'' @ i @ ''].'')"

section \<open>The teacher's response\<close>

text \<open>
  The greedy search for a bracketed span across lines: from the first opening bracket to the last
  closing one after it.
\<close>

definition json_array_span :: "string \<Rightarrow> string option" where
  "json_array_span s =
     (let a = dropWhile (\<lambda>c. c \<noteq> CHR ''['') s;
          b = rstrip_chars (\<lambda>c. c \<noteq> CHR '']'') a
      in if b = [] then None else Some b)"

definition qa_item :: "json \<Rightarrow> (string \<times> string) option" where
  "qa_item v =
     (case v of
        JObj d \<Rightarrow>
          (case (obj_get d ''question'', obj_get d ''answer'') of
             (JStr q, JStr a) \<Rightarrow> Some (str_strip q, str_strip a) | _ \<Rightarrow> None)
      | _ \<Rightarrow> None)"

definition parse_qa_array :: "(string \<Rightarrow> json option) \<Rightarrow> string \<Rightarrow> (string \<times> string) list" where
  "parse_qa_array loads response =
     (case Option.bind (json_array_span response) loads of
        Some (JList xs) \<Rightarrow> List.map_filter qa_item xs
      | _ \<Rightarrow> [])"

text \<open>The loop keeps the first pair of each normalised question whose cleaned answer is not empty.\<close>

fun keep_pairs ::
  "(string \<Rightarrow> string \<Rightarrow> synthetic_pair) \<Rightarrow> string \<Rightarrow> string list \<Rightarrow> (string \<times> string) list
     \<Rightarrow> synthetic_pair list" where
  "keep_pairs mk i seen [] = []"
| "keep_pairs mk i seen ((q, a) # qas) =
     (let key = one_line (str_lower q); answer = enforce_citation a i in
      if q = [] \<or> key \<in> set seen then keep_pairs mk i seen qas
      else if answer = [] then keep_pairs mk i seen qas
      else mk q answer # keep_pairs mk i (key # seen) qas)"

definition generate_doc_pairs ::
  "(json \<Rightarrow> string) \<Rightarrow> (string \<Rightarrow> json option) \<Rightarrow> (string \<Rightarrow> string option) \<Rightarrow> string \<Rightarrow> nat
     \<Rightarrow> trusted_doc \<Rightarrow> synthetic_pair list option" where
  "generate_doc_pairs fmt loads teacher model_id n d =
     map_option (\<lambda>raw.
         take n (keep_pairs (\<lambda>q a. mk_pair fmt d q a ''answer'' model_id)
                   (show_id fmt (td_doc_id d)) [] (parse_qa_array loads raw)))
       (teacher (qa_gen_prompt fmt d n))"

section \<open>Authored and templated pairs\<close>

definition AUTHORED_ANSWERS :: "(string \<times> string \<times> string) list" where
  "AUTHORED_ANSWERS =
     [(''financebench_id_03029'',
       ''What was 3M's FY2018 capital expenditure (USD millions)?'',
       ''3M's FY2018 capital expenditure (purchases of property, plant and equipment) was '' @
       ''$1,577 million [doc:financebench_id_03029].''),
      (''financebench_id_04672'',
       ''What was 3M's year-end FY2018 net property, plant and equipment (USD billions)?'',
       ''3M's year-end FY2018 net property, plant and equipment was about $8.70 billion '' @
       ''[doc:financebench_id_04672].''),
      (''financebench_id_05718'',
       ''How much did American Water Works pay in cash dividends in FY2020 (USD billions)?'',
       ''American Water Works paid approximately $0.40 billion in cash dividends in '' @
       ''FY2020 [doc:financebench_id_05718].''),
      (''financebench_id_01351'',
       ''How did American Express's effective tax rate change from FY2021 to FY2022?'',
       ''American Express's effective tax rate fell from 24.6% in FY2021 to 21.6% in '' @
       ''FY2022 [doc:financebench_id_01351].''),
      (''l2-aml-policy-overview'',
       ''What is the SAR filing threshold and deadline under the AML policy?'',
       ''A SAR is filed when a transaction or pattern aggregating $5,000 or more is '' @
       ''suspected of involving illegal funds or BSA evasion, and it must be filed within '' @
       ''30 calendar days of initial detection [doc:l2-aml-policy-overview].''),
      (''l2-bsa-regulatory-reference'',
       ''How long must records supporting CTRs and SARs be retained?'',
       ''Records supporting CTRs and SARs must be retained for five years '' @
       ''[doc:l2-bsa-regulatory-reference].'')]"

definition AUTHORED_REFUSALS :: "(string \<times> string \<times> string) list" where
  "AUTHORED_REFUSALS =
     [(''financebench_id_03029'',
       ''What was 3M's net income in FY2021?'',
       ''I can't answer that from the provided sources: the 3M cash-flow context covers FY2016'' @ EN_DASH @ ''FY2018 only and does not contain FY2021 net income.''),
      (''financebench_id_04672'',
       ''What was Activision Blizzard's total revenue in FY2019?'',
       ''I can't answer that from the provided sources: the context is 3M's FY2018 '' @
       ''balance sheet and contains no Activision Blizzard revenue figures.''),
      (''l2-aml-policy-overview'',
       ''What are the open AML exceptions on the Northwind Trading account this quarter?'',
       ''I can't answer that from the provided sources: the AML policy overview defines '' @
       ''thresholds and procedures but contains no account-specific exception data for '' @
       ''Northwind Trading.''),
      (''l2-bsa-regulatory-reference'',
       ''What is the current OFAC sanctions status of Northwind Trading LLC?'',
       ''I can't answer that from the provided sources: the BSA regulatory reference does '' @
       ''not include any OFAC screening results for a specific customer.'')]"

text \<open>A template is the text before and after its placeholder.\<close>

definition OUT_OF_SCOPE :: "(string \<times> string) list" where
  "OUT_OF_SCOPE =
     [(''What was '', '''s net income last year?''),
      (''What is the current share price of '', ''?''),
      (''Summarize '', '''s litigation exposure.''),
      (''What dividend did '', '' pay this quarter?'')]"

definition OTHER_ENTITIES :: "string list" where
  "OTHER_ENTITIES = [''Tesla'', ''Nvidia'', ''JPMorgan'', ''Shell'', ''Pfizer'', ''Boeing'']"

definition authored ::
  "(json \<Rightarrow> string) \<Rightarrow> corpus \<Rightarrow> string \<Rightarrow> (string \<times> string \<times> string) list
     \<Rightarrow> (corpus_error, synthetic_pair list) result" where
  "authored fmt c label rows =
     res_map (\<lambda>(i, question, answer).
       res_bind (resolve c (JStr i)) (\<lambda>d.
         Inr (mk_pair fmt d question answer label ''hand-authored''))) rows"

definition authored_answers ::
  "(json \<Rightarrow> string) \<Rightarrow> corpus \<Rightarrow> (corpus_error, synthetic_pair list) result" where
  "authored_answers fmt c = authored fmt c ''answer'' AUTHORED_ANSWERS"

definition authored_refusals ::
  "(json \<Rightarrow> string) \<Rightarrow> corpus \<Rightarrow> (corpus_error, synthetic_pair list) result" where
  "authored_refusals fmt c = authored fmt c ''refusal'' AUTHORED_REFUSALS"

definition build_seed ::
  "(json \<Rightarrow> string) \<Rightarrow> corpus \<Rightarrow> (corpus_error, synthetic_pair list) result" where
  "build_seed fmt c =
     res_bind (authored_answers fmt c) (\<lambda>xs.
     res_bind (authored_refusals fmt c) (\<lambda>ys. Inr (xs @ ys)))"

text \<open>\<open>rng.choice(xs)\<close>: draw number \<open>k\<close> of the generator picks an element.\<close>

definition pick :: "(nat \<Rightarrow> nat) \<Rightarrow> nat \<Rightarrow> 'a list \<Rightarrow> 'a" where
  "pick rng k xs = xs ! (rng k mod length xs)"

definition templated_pair ::
  "(json \<Rightarrow> string) \<Rightarrow> (nat \<Rightarrow> nat) \<Rightarrow> nat \<Rightarrow> trusted_doc \<Rightarrow> synthetic_pair" where
  "templated_pair fmt rng k d =
     (let (before', after') = pick rng (2 * k) OUT_OF_SCOPE;
          other = pick rng (2 * k + 1) OTHER_ENTITIES
      in mk_pair fmt d (before' @ other @ after')
           (''I can't answer that from the provided sources: the context does not contain '' @
            ''information about '' @ other @ ''.'') ''refusal'' ''templated'')"

definition templated_refusals ::
  "(json \<Rightarrow> string) \<Rightarrow> (nat \<Rightarrow> nat) \<Rightarrow> corpus \<Rightarrow> nat \<Rightarrow> synthetic_pair list" where
  "templated_refusals fmt rng c per_doc =
     map (\<lambda>(k, d). templated_pair fmt rng k d)
       (enumerate 0 (concat (map (\<lambda>d. replicate per_doc d) (map snd c))))"

text \<open>The answers of all documents in order; a failing teacher ends the generation.\<close>

definition build_generated_dataset ::
  "(json \<Rightarrow> string) \<Rightarrow> (string \<Rightarrow> json option) \<Rightarrow> (string \<Rightarrow> string option) \<Rightarrow> string
     \<Rightarrow> (nat \<Rightarrow> nat) \<Rightarrow> corpus \<Rightarrow> nat \<Rightarrow> nat \<Rightarrow> synthetic_pair list option" where
  "build_generated_dataset fmt loads teacher model_id rng c answers_per_doc refusals_per_doc =
     map_option (\<lambda>pss. concat pss @ templated_refusals fmt rng c refusals_per_doc)
       (opt_map (generate_doc_pairs fmt loads teacher model_id answers_per_doc) (map snd c))"

section \<open>Split sizes and the manifest of a set of pairs\<close>

text \<open>
  \<open>round(n * 0.2)\<close> on binary64 numbers. A product that is not finite would raise; it needs a list
  of more than \<open>10\<^sup>3\<^sup>0\<^sup>8\<close> pairs.
\<close>

definition val_share :: "int \<Rightarrow> int" where
  "val_share n = (case f_mul (f_of_int n) (fl (2/10)) of Fin q \<Rightarrow> rnd_even q | _ \<Rightarrow> 0)"

definition planned_split :: "int \<Rightarrow> int \<times> int" where
  "planned_split n =
     (if n \<le> 0 then (0, 0)
      else (let val = max 1 (val_share n);
                val' = (if n > 1 then min val (n - 1) else 0)
            in (n - val', val')))"

definition provenance_refs :: "synthetic_pair list \<Rightarrow> json list" where
  "provenance_refs ps = map sy_ref ps"

text \<open>\<open>dict.fromkeys\<close> on values compared with Python's equality.\<close>

definition from_keys :: "json list \<Rightarrow> json list" where
  "from_keys ks = map fst (fold (\<lambda>k. py_put k ()) ks [])"

definition mk_source :: "string \<Rightarrow> string \<Rightarrow> json list \<Rightarrow> json list \<Rightarrow> source list" where
  "mk_source kind lic ids docs =
     (if ids @ docs = [] then []
      else [\<lparr>src_kind = JStr kind, src_license = JStr lic,
             src_count = JInt (int (length (ids @ docs))), src_ids = ids, src_docs = docs\<rparr>])"

definition count_label :: "string \<Rightarrow> synthetic_pair list \<Rightarrow> json" where
  "count_label l ps = JInt (int (count_if (\<lambda>p. sy_label p = l) ps))"

text \<open>\<open>now\<close>, \<open>git\<close> and \<open>sha\<close> are the clock, the output of git and the hash of the prompt template.\<close>

definition build_manifest ::
  "string \<Rightarrow> string option \<Rightarrow> string \<Rightarrow> synthetic_pair list \<Rightarrow> corpus \<Rightarrow> string \<Rightarrow> int
     \<Rightarrow> string \<Rightarrow> string \<Rightarrow> (corpus_error, manifest) result" where
  "build_manifest now git sha ps c version sd model provider =
     (if \<not> list_all hashable (provenance_refs ps) then Inl CorpusTypeError
      else res_bind (res_map (\<lambda>r. res_bind (resolve c r) (\<lambda>d. Inr (r, td_layer d)))
                       (from_keys (provenance_refs ps))) (\<lambda>rs.
        let fb_ids = map fst (filter (\<lambda>(r, n). n = 1) rs);
            l2_ids = map fst (filter (\<lambda>(r, n). n \<noteq> 1) rs);
            (train, val) = planned_split (int (length ps))
        in Inr (build now git (JStr version) (JInt sd)
             (mk_source ''financebench'' ''CC-BY-NC-4.0'' fb_ids []
                @ mk_source ''layer2_overlay'' ''authored-internal'' [] l2_ids)
             \<lparr>sm_generator_model = JStr model, sm_generator_provider = JStr provider,
              sm_prompt_template_sha = JStr sha, sm_count = JInt (int (length ps)),
              sm_answer_pairs = count_label ''answer'' ps,
              sm_refusal_pairs = count_label ''refusal'' ps,
              sm_grounded_in = JStr GROUNDED_INVARIANT\<rparr>
             \<lparr>sp_train = JInt train, sp_val = JInt val, sp_strategy = JStr DEFAULT_SPLIT_STRATEGY\<rparr>
             None None)))"

section \<open>Chat examples and the split\<close>

definition SYSTEM_PROMPT :: string where
  "SYSTEM_PROMPT =
     ''You are Atlas, an enterprise financial and compliance assistant. Answer the user's question ''
     @ ''using ONLY the provided context. Cite every supporting fact inline with a [doc:<id>] marker, ''
     @ ''using the id from the context's [doc:<id>] header. If the context does not contain the ''
     @ ''answer, refuse: state plainly that you cannot answer from the provided sources and name the ''
     @ ''missing information. Never fabricate facts, citations, or document ids.''"

definition MINIMAL_SYSTEM :: string where
  "MINIMAL_SYSTEM = ''You are Atlas, an enterprise financial and compliance assistant.''"

definition VALID_LABELS :: "string list" where
  "VALID_LABELS = [''answer'', ''refusal'']"

record sft_example =
  ex_messages :: "(string \<times> string) list"
  ex_label :: string
  ex_ref :: json

text \<open>Pairs whose reference is not a string are compared by Python's rules, outside the model.\<close>

datatype builder_error = UnknownLabel string | RefNotString

definition example_to_dict :: "sft_example \<Rightarrow> json" where
  "example_to_dict e =
     JObj [(''messages'', JList (map (\<lambda>(r, c). JObj [(''role'', JStr r), (''content'', JStr c)])
              (ex_messages e))),
           (''label'', JStr (ex_label e)), (''provenance_ref'', ex_ref e)]"

definition example_of :: "string \<Rightarrow> synthetic_pair \<Rightarrow> sft_example" where
  "example_of system p =
     \<lparr>ex_messages = [(''system'', system), (''user'', sy_question p @ NL @ NL @ sy_context p),
                     (''assistant'', sy_answer p)],
      ex_label = sy_label p, ex_ref = sy_ref p\<rparr>"

definition to_example :: "string \<Rightarrow> synthetic_pair \<Rightarrow> (builder_error, sft_example) result" where
  "to_example system p =
     (if sy_label p \<notin> set VALID_LABELS then Inl (UnknownLabel (sy_label p))
      else Inr (example_of system p))"

definition ref_text :: "synthetic_pair \<Rightarrow> string" where
  "ref_text p = (case sy_ref p of JStr s \<Rightarrow> s | _ \<Rightarrow> [])"

definition stable_key :: "synthetic_pair \<Rightarrow> string \<times> string" where
  "stable_key p = (ref_text p, sy_question p)"

text \<open>\<open>shuffle\<close> is the seeded shuffle.\<close>

definition split_dataset ::
  "(synthetic_pair list \<Rightarrow> synthetic_pair list) \<Rightarrow> string \<Rightarrow> synthetic_pair list
     \<Rightarrow> (builder_error, sft_example list \<times> sft_example list) result" where
  "split_dataset shuffle system ps =
     (if \<not> list_all (\<lambda>p. is_str (sy_ref p)) ps then Inl RefNotString
      else (let ordered = shuffle (sort_key stable_key ps);
                n_val = nat (snd (planned_split (int (length ordered))))
            in res_bind (res_map (to_example system) (drop n_val ordered)) (\<lambda>train.
               res_bind (res_map (to_example system) (take n_val ordered)) (\<lambda>val.
                 Inr (train, val)))))"

section \<open>Facts\<close>

lemma planned_split_bounds:
  assumes "planned_split n = (t, v)" and "0 \<le> n"
  shows "t + v = n \<and> 0 \<le> v \<and> 0 \<le> t \<and> (0 < n \<longrightarrow> 0 < t) \<and> (1 < n \<longrightarrow> 0 < v)"
  using assms by (auto simp: planned_split_def Let_def split: if_splits)

lemma to_example_ok: "res_map (to_example system) ps = Inr es \<longleftrightarrow>
    (\<forall>p\<in>set ps. sy_label p \<in> set VALID_LABELS) \<and> es = map (example_of system) ps"
proof (induction ps arbitrary: es)
  case (Cons p ps)
  then show ?case using Cons.IH [of "map (example_of system) ps"]
    by (cases "res_map (to_example system) ps") (auto simp: to_example_def [of system p] split: if_splits)
qed auto

lemma split_dataset_ok:
  assumes "split_dataset shuffle system ps = Inr (train, val)"
    and perm: "\<And>xs. mset (shuffle xs) = mset xs"
  shows "mset train + mset val = image_mset (example_of system) (mset ps)
    \<and> planned_split (int (length ps)) = (int (length train), int (length val))
    \<and> (\<forall>p\<in>set ps. sy_label p \<in> set VALID_LABELS)"
proof -
  define ord' where "ord' = shuffle (sort_key stable_key ps)"
  define k where "k = nat (snd (planned_split (int (length ps))))"
  have m: "mset ord' = mset ps" by (simp add: ord'_def perm)
  then have len: "length ord' = length ps" and st: "set ord' = set ps"
    by (metis size_mset, metis set_mset_mset)
  have r: "res_map (to_example system) (drop k ord') = Inr train"
    "res_map (to_example system) (take k ord') = Inr val"
    using assms(1) len
    by (auto simp: split_dataset_def Let_def ord'_def k_def res_bind_Inr_iff split: if_splits)
  then have e: "train = map (example_of system) (drop k ord')" "val = map (example_of system) (take k ord')"
    and l: "\<forall>p\<in>set (drop k ord') \<union> set (take k ord'). sy_label p \<in> set VALID_LABELS"
    by (auto simp: to_example_ok)
  have "mset (drop k ord') + mset (take k ord') = mset ps"
    using m by (metis append_take_drop_id mset_append union_commute)
  then have "mset train + mset val = image_mset (example_of system) (mset ps)"
    using e by (metis image_mset_union mset_map)
  moreover obtain t v where tv: "planned_split (int (length ps)) = (t, v)" by fastforce
  moreover have "int (length val) = v" "int (length train) = t"
    using planned_split_bounds [OF tv] tv e len by (auto simp: k_def)
  moreover have "set (drop k ord') \<union> set (take k ord') = set ps"
    using st by (metis append_take_drop_id set_append sup_commute)
  ultimately show ?thesis using l by simp
qed

lemma split_dataset_total:
  assumes "\<forall>p\<in>set ps. sy_label p \<in> set VALID_LABELS \<and> is_str (sy_ref p)"
    and perm: "\<And>xs. mset (shuffle xs) = mset xs"
  shows "is_ok (split_dataset shuffle system ps)"
proof -
  define xs where "xs = shuffle (sort_key stable_key ps)"
  have "set xs = set ps" unfolding xs_def by (metis perm set_mset_mset set_sort)
  then have "res_map (to_example system) (drop k xs) = Inr (map (example_of system) (drop k xs))"
    "res_map (to_example system) (take k xs) = Inr (map (example_of system) (take k xs))" for k
    using assms(1) by (auto simp: to_example_ok dest: in_set_takeD in_set_dropD)
  then show ?thesis
    using assms(1) by (simp add: split_dataset_def Let_def list_all_iff flip: xs_def)
qed

definition put_all :: "json list \<Rightarrow> (json \<times> unit) list \<Rightarrow> (json \<times> unit) list" where
  "put_all ks d = fold (\<lambda>k. py_put k ()) ks d"

lemma put_all_Cons: "put_all (k # ks) d = put_all ks (py_put k () d)"
  by (simp add: put_all_def)

lemma put_keys:
  "fst ` set (py_put k () d) = (if py_get d k = None then insert k (fst ` set d) else fst ` set d)"
proof -
  have "set (map fst (py_put k () d)) = (if py_get d k = None then insert k (fst ` set d) else fst ` set d)"
    unfolding py_put_keys by simp
  then show ?thesis by simp
qed

lemma put_all_mono: "fst ` set d \<subseteq> fst ` set (put_all ks d)"
proof (induction ks arbitrary: d)
  case (Cons k ks)
  have "fst ` set d \<subseteq> fst ` set (py_put k () d)" by (auto simp: put_keys)
  then show ?case using Cons.IH [of "py_put k () d"] unfolding put_all_Cons by (rule order.trans)
qed (simp add: put_all_def)

lemma put_all_subset: "fst ` set (put_all ks d) \<subseteq> set ks \<union> fst ` set d"
proof (induction ks arbitrary: d)
  case (Cons k ks)
  have "fst ` set (py_put k () d) \<subseteq> insert k (fst ` set d)" by (auto simp: put_keys)
  then show ?case using Cons.IH [of "py_put k () d"] unfolding put_all_Cons list.set by blast
qed (simp add: put_all_def)

lemma put_all_covers: "k \<in> set ks \<Longrightarrow> py_eq k k \<Longrightarrow> \<exists>a\<in>fst ` set (put_all ks d). py_eq a k"
proof (induction ks arbitrary: d)
  case (Cons j ks)
  show ?case
  proof (cases "k \<in> set ks")
    case True
    then show ?thesis using Cons.IH [of "py_put j () d"] Cons.prems(2) unfolding put_all_Cons by blast
  next
    case False
    then have "j = k" using Cons.prems by simp
    then have "\<exists>a\<in>fst ` set (py_put j () d). py_eq a k"
      using py_get_iff [of d k] Cons.prems(2) unfolding put_keys by (cases "py_get d k = None") auto
    then show ?thesis using put_all_mono [of "py_put j () d" ks] unfolding put_all_Cons by blast
  qed
qed simp

lemma from_keys_set: "set (from_keys ks) = fst ` set (put_all ks [])"
  by (simp add: from_keys_def put_all_def)

lemma from_keys_subset: "set (from_keys ks) \<subseteq> set ks"
  using put_all_subset [of ks "[]"] by (simp add: from_keys_set)

lemma from_keys_covers: "k \<in> set ks \<Longrightarrow> py_eq k k \<Longrightarrow> \<exists>a\<in>set (from_keys ks). py_eq a k"
  unfolding from_keys_set by (rule put_all_covers)

lemma resolved_self_eq: "is_ok (resolve c i) \<Longrightarrow> py_eq i i"
  unfolding resolve_ok_iff by (meson py_eq_sym py_eq_trans)

lemma count_labels:
  "(\<forall>p\<in>set ps. sy_label p \<in> set VALID_LABELS) \<Longrightarrow>
     count_if (\<lambda>p. sy_label p = ''answer'') ps + count_if (\<lambda>p. sy_label p = ''refusal'') ps = length ps"
  by (induction ps) (auto simp: count_if_def VALID_LABELS_def)

lemma layers_resolved:
  assumes "\<forall>r\<in>set rs. is_ok (resolve c r)"
  shows "res_map (\<lambda>r. res_bind (resolve c r) (\<lambda>d. Inr (r, td_layer d))) rs =
    Inr (map (\<lambda>r. (r, td_layer (projr (resolve c r)))) rs)"
  using assms
proof (induction rs)
  case (Cons r rs)
  then obtain d where "resolve c r = Inr d" by (auto simp: is_ok_def split: sum.splits)
  then show ?case using Cons by simp
qed simp

lemma mk_source_members [simp]:
  "concat (map members (mk_source kind lic ids docs)) = ids @ docs"
  by (simp add: mk_source_def members_def)

lemma check_mk_source:
  "\<forall>i\<in>set ids \<union> set docs. is_ok (resolve c i) \<Longrightarrow>
     \<forall>s\<in>set (mk_source kind lic ids docs). py_eq (src_count s) (JInt (int (length (members s))))
       \<and> (\<forall>i\<in>set (members s). is_ok (resolve c i))"
  by (auto simp: mk_source_def members_def)

lemma build_manifest_validates:
  assumes "ps \<noteq> []" and labels: "\<forall>p\<in>set ps. sy_label p \<in> set VALID_LABELS"
    and refs: "\<forall>p\<in>set ps. is_ok (resolve c (sy_ref p))" and "str_strip version \<noteq> []"
  obtains m where "build_manifest now git sha ps c version sd model provider = Inr m"
    and "validate m c (Some (provenance_refs ps)) = Inr ()"
    and "planned_split (int (length ps)) = (t, v) \<Longrightarrow> sp_train (mf_split m) = JInt t \<and> sp_val (mf_split m) = JInt v"
proof -
  define ks where "ks = from_keys (provenance_refs ps)"
  define rs where "rs = map (\<lambda>r. (r, td_layer (projr (resolve c r)))) ks"
  define fb where "fb = map fst (filter (\<lambda>(r, n). n = 1) rs)"
  define l2 where "l2 = map fst (filter (\<lambda>(r, n). n \<noteq> 1) rs)"
  obtain t' v' where tv: "planned_split (int (length ps)) = (t', v')" by fastforce
  have ok: "\<forall>r\<in>set ks. is_ok (resolve c r)"
    using from_keys_subset refs by (fastforce simp: ks_def provenance_refs_def)
  have part: "set fb \<union> set l2 = set ks"
    by (auto simp: fb_def l2_def rs_def) force
  have cov: "\<exists>a\<in>set fb \<union> set l2. py_eq a r" if "r \<in> set (provenance_refs ps)" for r
    using from_keys_covers [OF that] that refs resolved_self_eq
    by (auto simp: part ks_def provenance_refs_def)
  then have ne: "fb @ l2 \<noteq> []"
    using \<open>ps \<noteq> []\<close> by (cases ps) (fastforce simp: provenance_refs_def)+
  have hash: "list_all hashable (provenance_refs ps)"
    using refs by (auto simp: list_all_iff provenance_refs_def resolve_ok_iff)
  obtain m where m: "build_manifest now git sha ps c version sd model provider = Inr m"
    "mf_sources m = mk_source ''financebench'' ''CC-BY-NC-4.0'' fb []
       @ mk_source ''layer2_overlay'' ''authored-internal'' [] l2"
    "mf_dataset_version m = JStr version" "mf_seed m = JInt sd"
    "sm_grounded_in (mf_synthetic m) = JStr GROUNDED_INVARIANT"
    "sm_count (mf_synthetic m) = JInt (int (length ps))"
    "sm_answer_pairs (mf_synthetic m) = count_label ''answer'' ps"
    "sm_refusal_pairs (mf_synthetic m) = count_label ''refusal'' ps"
    "mf_split m = \<lparr>sp_train = JInt t', sp_val = JInt v', sp_strategy = JStr DEFAULT_SPLIT_STRATEGY\<rparr>"
    using hash tv unfolding build_manifest_def ks_def [symmetric] layers_resolved [OF ok]
      rs_def [symmetric]
    by (simp add: build_def Let_def fb_def l2_def)
  have "validate m c (Some (provenance_refs ps)) = Inr ()"
  proof (subst validate_iff)
    show "sm_answer_pairs (mf_synthetic m) = JInt (int (count_if (\<lambda>p. sy_label p = ''answer'') ps))"
      "sm_refusal_pairs (mf_synthetic m) = JInt (int (count_if (\<lambda>p. sy_label p = ''refusal'') ps))"
      using m by (simp_all add: count_label_def)
    have "check_sources c (mf_sources m) = Inr ()"
      unfolding check_sources_Inr m(2) set_append ball_Un
      by (intro conjI check_mk_source) (use ok part in auto)
    moreover have "check_refs m (Some (provenance_refs ps)) = Inr ()"
      using cov hash by (auto simp: check_refs_Inr listed_source_ids_def m(2) list_all_iff)
    moreover have "mf_sources m \<noteq> []" using ne by (auto simp: m(2) mk_source_def)
    moreover have "str_strip DEFAULT_SPLIT_STRATEGY \<noteq> []" by code_simp
    ultimately show "(\<exists>sd. mf_seed m = JInt sd) \<and> nonblank (mf_dataset_version m)
      \<and> sm_grounded_in (mf_synthetic m) = JStr GROUNDED_INVARIANT
      \<and> mf_sources m \<noteq> [] \<and> check_sources c (mf_sources m) = Inr ()
      \<and> 0 \<le> int (count_if (\<lambda>p. sy_label p = ''answer'') ps)
      \<and> 0 \<le> int (count_if (\<lambda>p. sy_label p = ''refusal'') ps)
      \<and> int (length ps) = int (count_if (\<lambda>p. sy_label p = ''answer'') ps)
          + int (count_if (\<lambda>p. sy_label p = ''refusal'') ps)
      \<and> 0 \<le> t' \<and> 0 \<le> v' \<and> nonblank (sp_strategy (mf_split m))
      \<and> check_refs m (Some (provenance_refs ps)) = Inr ()"
      using m assms(4) count_labels [OF labels] planned_split_bounds [OF tv]
      by (simp add: nonblank_def)
  qed (use m in simp_all)
  then show thesis using that m tv by simp
qed

subsection \<open>Pairs refer to their documents\<close>

definition string_ids :: "corpus \<Rightarrow> bool" where
  "string_ids c = list_all (is_str \<circ> fst) c"

definition pair_trusted :: "corpus \<Rightarrow> synthetic_pair \<Rightarrow> bool" where
  "pair_trusted c p \<longleftrightarrow>
     sy_label p \<in> set VALID_LABELS \<and> is_str (sy_ref p) \<and> is_ok (resolve c (sy_ref p))"

lemma py_eq_str: "is_str k \<Longrightarrow> py_eq k v \<Longrightarrow> v = k"
  by (cases k; cases v) (auto simp: is_str_def py_eq_def)

lemma entry_id:
  assumes "corpus_ok c" and "string_ids c" and "(k, d) \<in> set c"
  shows "td_doc_id d = k \<and> is_str k \<and> is_ok (resolve c k)"
proof -
  have e: "entry_ok (k, d)" "is_str k"
    using assms by (auto simp: corpus_ok_entries string_ids_def list_all_iff)
  then have "td_doc_id d = k" using py_eq_str by (auto simp: entry_ok_def)
  moreover have "py_eq k k" using e(2) by (auto simp: is_str_def split: json.split_asm)
  moreover have "k \<in> fst ` set c" using assms(3) by (rule rev_image_eqI) simp
  ultimately show ?thesis
    using e unfolding entry_ok_def resolve_ok_iff by blast
qed

lemma mk_pair_trusted:
  assumes "corpus_ok c" and "string_ids c" and "d \<in> snd ` set c" and "label \<in> set VALID_LABELS"
  shows "pair_trusted c (mk_pair fmt d q a label g)"
  using entry_id [OF assms(1,2)] assms(3,4) by (fastforce simp: pair_trusted_def mk_pair_def)

lemma keep_pairs_mk: "p \<in> set (keep_pairs mk i seen qas) \<Longrightarrow>
    \<exists>q a. p = mk q (enforce_citation a i) \<and> q \<noteq> [] \<and> enforce_citation a i \<noteq> []"
  by (induction mk i seen qas rule: keep_pairs.induct) (auto simp: Let_def split: if_splits)

lemma generate_doc_pairs_trusted:
  assumes "generate_doc_pairs fmt loads teacher model_id n d = Some ps"
    and "corpus_ok c" "string_ids c" "d \<in> snd ` set c" "p \<in> set ps"
  shows "pair_trusted c p"
proof -
  obtain q a where "p = mk_pair fmt d q (enforce_citation a (show_id fmt (td_doc_id d))) ''answer'' model_id"
    using assms(1,5) keep_pairs_mk by (fastforce simp: generate_doc_pairs_def dest: in_set_takeD)
  then show ?thesis using mk_pair_trusted [OF assms(2,3,4)] by (simp add: VALID_LABELS_def)
qed

lemma templated_refusals_trusted:
  assumes "corpus_ok c" "string_ids c" "p \<in> set (templated_refusals fmt rng c n)"
  shows "pair_trusted c p"
proof -
  obtain k d where "p = templated_pair fmt rng k d" "(k, d) \<in> set (enumerate 0 (concat (map (replicate n) (map snd c))))"
    using assms(3) by (auto simp: templated_refusals_def)
  moreover from this(2) have "d \<in> set (concat (map (replicate n) (map snd c)))"
    by (auto dest!: in_set_enumerate_eq [THEN iffD1] simp del: enumerate_eq_zip set_concat)
  then have "d \<in> snd ` set c" by (force split: if_splits)
  ultimately show ?thesis
    using mk_pair_trusted [OF assms(1,2)]
    by (auto simp: templated_pair_def Let_def VALID_LABELS_def split: prod.split)
qed

lemma opt_map_mem: "opt_map f xs = Some ys \<Longrightarrow> y \<in> set ys \<Longrightarrow> \<exists>x\<in>set xs. f x = Some y"
  by (induction xs arbitrary: ys) (auto simp: bind_eq_Some_conv)

lemma generated_dataset_trusted:
  assumes "build_generated_dataset fmt loads teacher model_id rng c a n = Some ps"
    and "corpus_ok c" "string_ids c" "p \<in> set ps"
  shows "pair_trusted c p"
proof -
  obtain pss where pss: "opt_map (generate_doc_pairs fmt loads teacher model_id a) (map snd c) = Some pss"
    "ps = concat pss @ templated_refusals fmt rng c n"
    using assms(1) by (auto simp: build_generated_dataset_def)
  show ?thesis
  proof (cases "p \<in> set (templated_refusals fmt rng c n)")
    case True
    then show ?thesis using templated_refusals_trusted assms(2,3) by blast
  next
    case False
    then obtain xs where "xs \<in> set pss" "p \<in> set xs" using assms(4) pss(2) by auto
    then show ?thesis
      using opt_map_mem [OF pss(1)] generate_doc_pairs_trusted assms(2,3) by fastforce
  qed
qed

text \<open>
  From the committed corpus to the training files. Whatever the teacher answers, the pairs
  generated from a loaded corpus with string identifiers get a provenance manifest that passes the
  trusted-corpus check with all their references, and the split of these pairs has exactly the
  sizes the manifest declares, loses and duplicates no example, and leaves neither side empty when
  there are two pairs or more.
\<close>

theorem generated_dataset_validates:
  assumes "load_corpus cloads yaml dir = Inr c" and "string_ids c"
    and gen: "build_generated_dataset fmt loads teacher model_id rng c a n = Some ps"
    and "ps \<noteq> []" and "str_strip version \<noteq> []" and perm: "\<And>xs. mset (shuffle xs) = mset xs"
  shows "\<exists>m train val.
    build_manifest now git sha ps c version sd model provider = Inr m
    \<and> validate m c (Some (provenance_refs ps)) = Inr ()
    \<and> split_dataset shuffle system ps = Inr (train, val)
    \<and> sp_train (mf_split m) = JInt (int (length train)) \<and> sp_val (mf_split m) = JInt (int (length val))
    \<and> mset train + mset val = image_mset (example_of system) (mset ps)
    \<and> train \<noteq> [] \<and> (1 < length ps \<longrightarrow> val \<noteq> [])"
proof -
  have t: "pair_trusted c p" if "p \<in> set ps" for p
    using generated_dataset_trusted [OF gen _ assms(2) that] load_corpus_ok [OF assms(1)] by blast
  then have l: "\<forall>p\<in>set ps. sy_label p \<in> set VALID_LABELS"
    and r: "\<forall>p\<in>set ps. is_ok (resolve c (sy_ref p))"
    and s: "\<forall>p\<in>set ps. sy_label p \<in> set VALID_LABELS \<and> is_str (sy_ref p)"
    by (auto simp: pair_trusted_def)
  obtain train val where sp: "split_dataset shuffle system ps = Inr (train, val)"
    using split_dataset_total [OF s perm, of system]
    by (cases "split_dataset shuffle system ps") auto
  note so = split_dataset_ok [OF sp perm]
  obtain m where m: "build_manifest now git sha ps c version sd model provider = Inr m"
    "validate m c (Some (provenance_refs ps)) = Inr ()"
    "sp_train (mf_split m) = JInt (int (length train))" "sp_val (mf_split m) = JInt (int (length val))"
    using build_manifest_validates [OF assms(4) l r assms(5)] so by metis
  have "0 < int (length ps) \<longrightarrow> 0 < int (length train)" "1 < int (length ps) \<longrightarrow> 0 < int (length val)"
    using planned_split_bounds [of "int (length ps)"] so by auto
  then show ?thesis using m sp so assms(4) by auto
qed

definition sample_corpus :: corpus where
  "sample_corpus =
     [(JStr ''f1'', \<lparr>td_doc_id = JStr ''f1'', td_layer = 1, td_clearance = JStr ''public'',
         td_text = ''Capex was $5'', td_source = (''financebench:'', JStr ''f1''), td_metadata = []\<rparr>),
      (JStr ''l2-b'', \<lparr>td_doc_id = JStr ''l2-b'', td_layer = 2, td_clearance = JStr ''analyst'',
         td_text = ''Policy'', td_source = (''layer2:'', JStr ''l2-b''), td_metadata = []\<rparr>)]"

theorem generated_dataset_validates_witness:
  "\<exists>ps m train val.
    build_generated_dataset (\<lambda>_. []) (\<lambda>_. None) (\<lambda>_. Some ''no array'') ''t'' (\<lambda>k. k) sample_corpus 6 1
      = Some ps \<and> length ps = 2
    \<and> build_manifest ''now'' None ''sha'' ps sample_corpus ''1'' 42 ''t'' ''o'' = Inr m
    \<and> validate m sample_corpus (Some (provenance_refs ps)) = Inr ()
    \<and> split_dataset (\<lambda>xs. xs) SYSTEM_PROMPT ps = Inr (train, val)
    \<and> train \<noteq> [] \<and> val \<noteq> []"
proof -
  have c: "load_corpus sample_loads sample_yaml sample_dir = Inr sample_corpus"
    unfolding sample_corpus_def by (rule sample_corpus_loads)
  have s: "string_ids sample_corpus" by (simp add: string_ids_def sample_corpus_def is_str_def)
  have "json_array_span ''no array'' = None" by code_simp
  then have "\<exists>ps. length ps = 2 \<and>
      build_generated_dataset (\<lambda>_. []) (\<lambda>_. None) (\<lambda>_. Some ''no array'') ''t'' (\<lambda>k. k) sample_corpus 6 1
      = Some ps"
    by (simp add: build_generated_dataset_def generate_doc_pairs_def parse_qa_array_def
        sample_corpus_def templated_refusals_def)
  then obtain ps where ps: "length ps = 2"
    "build_generated_dataset (\<lambda>_. []) (\<lambda>_. None) (\<lambda>_. Some ''no array'') ''t'' (\<lambda>k. k) sample_corpus 6 1
      = Some ps" by blast
  have v: "str_strip ''1'' \<noteq> []" by code_simp
  have ne: "ps \<noteq> []" using ps(1) by auto
  show ?thesis
    using generated_dataset_validates [OF c s ps(2) ne v, of "\<lambda>xs. xs" "''now''" None "''sha''" 42 "''t''"
      "''o''" SYSTEM_PROMPT] ps by fastforce
qed

subsection \<open>What a generated answer cites\<close>

lemma sublist_across:
  assumes "x \<notin> set w" and "sublist w (a @ x # b)"
  shows "sublist w a \<or> sublist w b"
proof -
  obtain u v where uv: "a @ x # b = u @ w @ v" using assms(2) by (auto simp: sublist_def)
  then obtain z where "a = u @ z \<and> z @ x # b = w @ v \<or> a @ z = u \<and> x # b = z @ w @ v"
    by (auto simp: append_eq_append_conv2)
  then show ?thesis
  proof
    assume "a = u @ z \<and> z @ x # b = w @ v"
    then consider y where "a = u @ w @ y" | y where "a = u @ z" "z @ y = w" "x # b = y @ v"
      by (auto simp: append_eq_append_conv2)
    then show ?thesis
    proof cases
      case 2
      then show ?thesis using assms(1)
        by (cases y) (auto simp: sublist_append_leftI)
    qed (simp add: sublist_appendI)
  next
    assume "a @ z = u \<and> x # b = z @ w @ v"
    then show ?thesis using assms(1)
      by (cases "w = []"; cases z) (auto simp: sublist_def Cons_eq_append_conv)
  qed
qed

lemma marker_in_marker:
  assumes "list_all doc_char i" and "list_all doc_char t"
    and "sublist (''[doc:'' @ t @ '']'') (''[doc:'' @ i @ ''].'')"
  shows "t = i"
proof -
  have no: "CHR ''['' \<notin> set (''doc:'' @ i @ ''].'')"
    using assms(1) by (auto simp: list_all_iff doc_char_def is_ascii_alnum_def ord_def)
  have "prefix (''[doc:'' @ t @ '']'') (''[doc:'' @ i @ ''].'')"
  proof (rule ccontr)
    assume "\<not> prefix (''[doc:'' @ t @ '']'') (''[doc:'' @ i @ ''].'')"
    then have "sublist (''[doc:'' @ t @ '']'') (''doc:'' @ i @ ''].'')"
      using assms(3) by (simp add: sublist_Cons_right)
    then have "CHR ''['' \<in> set (''doc:'' @ i @ ''].'')"
      using set_mono_sublist by fastforce
    with no show False by simp
  qed
  then have p: "prefix (t @ '']'') (i @ ''].'')" by simp
  have nb: "CHR '']'' \<notin> set t" "CHR '']'' \<notin> set i"
    using assms(1,2) by (auto simp: list_all_iff doc_char_def is_ascii_alnum_def ord_def)
  have "takeWhile (\<lambda>c. c \<noteq> CHR '']'') (i @ ''].'') = i"
    using nb(2) by (auto simp: takeWhile_tail takeWhile_append)
  moreover obtain v where "i @ ''].'' = (t @ '']'') @ v" using p by (auto simp: prefix_def)
  then have "takeWhile (\<lambda>c. c \<noteq> CHR '']'') (i @ ''].'') = t"
    using nb(1) by (auto simp: takeWhile_tail takeWhile_append)
  ultimately show ?thesis by simp
qed

lemma strip_sublist: "sublist (str_strip s) s"
  unfolding str_strip_def rstrip_chars_def
  by (metis sublist_dropWhile sublist_order.order.trans sublist_rev rev_rev_ident)

lemma rstrip_sublist: "sublist (rstrip_chars f s) s"
  unfolding rstrip_chars_def by (metis sublist_dropWhile sublist_rev rev_rev_ident)

text \<open>
  Citation enforcement binds an answer to its document when deleting the markers does not
  bring a new one together: if no marker opening is left in the answer after one pass, the
  training answer cites no document but its own, whatever the teacher wrote.
\<close>

theorem enforced_answer_cites_its_document:
  assumes "list_all doc_char i" and "\<not> str_in ''[doc:'' (erase ANY_DOC_MARKER answer)"
  shows "set (cited_doc_ids (enforce_citation answer i)) \<subseteq> {i}"
proof
  fix t
  assume t: "t \<in> set (cited_doc_ids (enforce_citation answer i))"
  define cleaned where
    "cleaned = rstrip_chars (\<lambda>c. c = CHR ''.'') (str_strip (erase ANY_DOC_MARKER answer))"
  have m: "list_all doc_char t" "str_in (''[doc:'' @ t @ '']'') (enforce_citation answer i)"
    using doc_marker_found [OF t] by blast+
  then have "str_in (''[doc:'' @ t @ '']'') (cleaned @ CHR '' '' # ''[doc:'' @ i @ ''].'')"
    by (auto simp: enforce_citation_def Let_def simp flip: cleaned_def split: if_splits)
  note across = sublist_across [OF _ this]
  have "CHR '' '' \<notin> set (''[doc:'' @ t @ '']'')"
    using m(1) by (auto simp: list_all_iff doc_char_def is_ascii_alnum_def ord_def)
  then have "str_in (''[doc:'' @ t @ '']'') cleaned \<or> str_in (''[doc:'' @ t @ '']'') (''[doc:'' @ i @ ''].'')"
    by (rule across)
  moreover have "\<not> str_in (''[doc:'' @ t @ '']'') cleaned"
  proof
    assume "str_in (''[doc:'' @ t @ '']'') cleaned"
    moreover have "str_in ''[doc:'' (''[doc:'' @ t @ '']'')" by (rule sublist_append_rightI)
    moreover have "sublist cleaned (erase ANY_DOC_MARKER answer)"
      unfolding cleaned_def using rstrip_sublist strip_sublist by (rule sublist_order.order.trans)
    ultimately show False using assms(2) by (meson sublist_order.order.trans)
  qed
  ultimately show "t \<in> {i}" using marker_in_marker [OF assms(1) m(1)] by blast
qed

theorem enforced_answer_cites_its_document_witness:
  "set (cited_doc_ids (enforce_citation ''Capex was $5 [doc:other].'' ''f1'')) \<subseteq> {''f1''}
   \<and> enforce_citation ''Capex was $5 [doc:other].'' ''f1'' = ''Capex was $5  [doc:f1].''"
proof -
  have e: "erase ANY_DOC_MARKER ''Capex was $5 [doc:other].'' = ''Capex was $5 .''" by code_simp
  have "list_all doc_char ''f1''" "\<not> str_in ''[doc:'' (erase ANY_DOC_MARKER ''Capex was $5 [doc:other].'')"
    unfolding e by code_simp+
  from enforced_answer_cites_its_document [OF this]
  show ?thesis unfolding enforce_citation_def e by (simp, code_simp)
qed

text \<open>
  Citation enforcement is one pass of deletion, so a nested marker defeats it: whatever the
  document, the generated training pair keeps a citation of a document the teacher chose, next to
  the right one, and the format check of the evaluation rejects it.
\<close>

theorem nested_marker_survives:
  "set (cited_doc_ids (enforce_citation ''Capex [doc:[doc:x]evil]'' ''f1'')) = {''evil'', ''f1''}
   \<and> \<not> format_score (enforce_citation ''Capex [doc:[doc:x]evil]'' ''f1'') (Some [''f1''])"
proof -
  have e: "enforce_citation ''Capex [doc:[doc:x]evil]'' ''f1'' = ''Capex [doc:evil] [doc:f1].''"
    by code_simp
  have c: "cited_doc_ids ''Capex [doc:evil] [doc:f1].'' = [''evil'', ''f1'']" by code_simp
  have "\<not> format_score ''Capex [doc:evil] [doc:f1].'' (Some [''f1''])"
  proof -
    have "str_strip ''Capex [doc:evil] [doc:f1].'' = ''Capex [doc:evil] [doc:f1].''" by code_simp
    with c show ?thesis unfolding format_score_def classify_def Let_def by simp
  qed
  then show ?thesis unfolding e c by simp
qed

end
