(* ===== verification/Train_Cost.thy ===== *)
theory Train_Cost
  imports Py_Sort
begin

text \<open>
  The cost of a training window (\<open>training/atlas_training/cost.py\<close>): the rate from the environment,
  the meter that times a window, and the composition of the two with a GPU session. Both clocks are
  read by the caller of each operation: \<open>now\<close> is the monotonic clock in seconds and \<open>stamp\<close> the
  wall clock as a text; \<open>parse\<close> is \<open>float\<close> on a string.
\<close>

datatype cost_error = RateUnset | RateNotNumber | RateNegative | NegativeInput | NeverEntered

section \<open>The rate and the cost\<close>

definition env_or :: "(string \<times> string) list \<Rightarrow> string \<Rightarrow> string \<Rightarrow> string" where
  "env_or env k d = (case map_of env k of Some v \<Rightarrow> v | None \<Rightarrow> d)"

definition gpu_rate_from_env ::
  "(string \<Rightarrow> pyfloat option) \<Rightarrow> (string \<times> string) list \<Rightarrow> (cost_error, pyfloat \<times> string) result" where
  "gpu_rate_from_env parse env =
     (case map_of env ''ATLAS_GPU_COST_PER_HOUR'' of
        None \<Rightarrow> Inl RateUnset
      | Some raw \<Rightarrow>
          (if str_strip raw = [] then Inl RateUnset
           else case parse raw of
                  None \<Rightarrow> Inl RateNotNumber
                | Some rate \<Rightarrow>
                    (if f_lt rate (Fin 0) then Inl RateNegative
                     else Inr (rate, env_or env ''ATLAS_GPU_COST_CURRENCY'' ''INR''))))"

definition hours :: "pyfloat \<Rightarrow> pyfloat" where
  "hours s = (case f_div s (Fin 3600) of Some h \<Rightarrow> h | None \<Rightarrow> NaN)"

definition compute_cost :: "pyfloat \<Rightarrow> pyfloat \<Rightarrow> (cost_error, pyfloat) result" where
  "compute_cost rate wall =
     (if f_lt rate (Fin 0) \<or> f_lt wall (Fin 0) then Inl NegativeInput
      else Inr (f_round (f_mul rate (hours wall)) 4))"

record cost_record =
  ct_rate :: pyfloat
  ct_currency :: string
  ct_wall :: pyfloat
  ct_cost :: pyfloat
  ct_teardown :: bool
  ct_started :: string
  ct_ended :: string

definition record_json :: "cost_record \<Rightarrow> (string \<times> json) list" where
  "record_json c =
     [(''rate_per_hour'', JFloat (ct_rate c)), (''currency'', JStr (ct_currency c)),
      (''wall_seconds'', JFloat (ct_wall c)), (''cost'', JFloat (ct_cost c)),
      (''teardown_recorded'', JBool (ct_teardown c)), (''started_at'', JStr (ct_started c)),
      (''ended_at'', JStr (ct_ended c))]"

section \<open>The meter\<close>

record meter =
  mt_start :: "pyfloat option"
  mt_end :: "pyfloat option"
  mt_started :: "string option"
  mt_ended :: "string option"

definition new_meter :: meter where
  "new_meter = \<lparr>mt_start = None, mt_end = None, mt_started = None, mt_ended = None\<rparr>"

definition meter_enter :: "pyfloat \<Rightarrow> string \<Rightarrow> meter \<Rightarrow> meter" where
  "meter_enter now stamp m = m\<lparr>mt_start := Some now, mt_started := Some stamp\<rparr>"

definition meter_exit :: "pyfloat \<Rightarrow> string \<Rightarrow> meter \<Rightarrow> meter" where
  "meter_exit now stamp m =
     (if mt_end m = None then m\<lparr>mt_end := Some now, mt_ended := Some stamp\<rparr> else m)"

text \<open>\<open>max(0.0, x)\<close> keeps the zero unless \<open>x\<close> is greater.\<close>

definition wall_seconds :: "pyfloat \<Rightarrow> meter \<Rightarrow> (cost_error, pyfloat) result" where
  "wall_seconds now m =
     (case mt_start m of
        None \<Rightarrow> Inl NeverEntered
      | Some s \<Rightarrow>
          (let e = (case mt_end m of Some e \<Rightarrow> e | None \<Rightarrow> now)
           in Inr (f_max (Fin 0) [f_sub e s])))"

definition text_or :: "string option \<Rightarrow> string \<Rightarrow> string" where
  "text_or v d = (case v of Some (c # cs) \<Rightarrow> c # cs | _ \<Rightarrow> d)"

definition meter_record :: "pyfloat \<Rightarrow> string \<Rightarrow> bool \<Rightarrow> pyfloat \<Rightarrow> string \<Rightarrow> meter \<Rightarrow>
    (cost_error, cost_record) result" where
  "meter_record rate currency teardown now stamp m =
     res_bind (wall_seconds now m) (\<lambda>wall.
     res_bind (compute_cost rate wall) (\<lambda>cost.
       Inr \<lparr>ct_rate = rate, ct_currency = currency, ct_wall = f_round wall 3, ct_cost = cost,
            ct_teardown = teardown, ct_started = text_or (mt_started m) [],
            ct_ended = text_or (mt_ended m) stamp\<rparr>))"

section \<open>A timed window inside a session\<close>

text \<open>
  The session and the body act on a world \<open>'w\<close>; \<open>clock\<close> reads both clocks from it. A session that
  enters is always left, the meter is always stopped, and the last exception wins.
\<close>

record ('w, 'x, 'r) window_ops =
  wo_clock :: "'w \<Rightarrow> pyfloat \<times> string"
  wo_enter :: "'w \<Rightarrow> 'w \<times> ('x, string) result"
  wo_body :: "string \<Rightarrow> 'w \<Rightarrow> 'w \<times> ('x, 'r) result"
  wo_leave :: "'w \<Rightarrow> 'w \<times> 'x option"

definition in_session :: "('w, 'x, 'r) window_ops \<Rightarrow> 'w \<Rightarrow> 'w \<times> ('x, 'r) result" where
  "in_session ops w =
     (case wo_enter ops w of
        (w1, Inl x) \<Rightarrow> (w1, Inl x)
      | (w1, Inr url) \<Rightarrow>
          (case wo_body ops url w1 of
             (w2, out) \<Rightarrow>
               (case wo_leave ops w2 of
                  (w3, Some x) \<Rightarrow> (w3, Inl x)
                | (w3, None) \<Rightarrow> (w3, out))))"

definition costed_gpu_window ::
  "('w, 'x, 'r) window_ops \<Rightarrow> pyfloat \<Rightarrow> string \<Rightarrow> 'w \<Rightarrow> 'w \<times> ('x, (cost_error, 'r \<times> cost_record) result) result" where
  "costed_gpu_window ops rate currency w =
     (let m = meter_enter (fst (wo_clock ops w)) (snd (wo_clock ops w)) new_meter;
          (w', out) = in_session ops w;
          (t, stamp) = wo_clock ops w';
          m' = meter_exit t stamp m
      in (w', case out of
                Inl x \<Rightarrow> Inl x
              | Inr r \<Rightarrow> Inr (res_bind (meter_record rate currency True t stamp m') (\<lambda>c. Inr (r, c)))))"

section \<open>Costs are never negative\<close>

lemma f_max_0: "f_le (Fin 0) (f_max (Fin 0) [x])"
  by (cases x) (auto simp: f_max_def f_lt_def)

lemma hours_nonneg: "f_le (Fin 0) w \<Longrightarrow> f_le (Fin 0) (hours w)"
proof -
  assume w: "f_le (Fin 0) w"
  show ?thesis
  proof (cases w)
    case (Fin a)
    then have "0 \<le> a / 3600" using w by simp
    then have "f_le (fl 0) (fl (a / 3600))" by (rule fl_mono)
    then show ?thesis using Fin by (simp add: hours_def f_div_def)
  qed (use w in \<open>simp_all add: hours_def f_div_def f_sign_def\<close>)
qed

lemma f_round_nonneg: "f_le (Fin 0) x \<Longrightarrow> f_le (Fin 0) (f_round x n)"
proof (cases x)
  case (Fin a)
  assume "f_le (Fin 0) x"
  then have "0 \<le> a * 10 ^ n" using Fin by simp
  then have "0 \<le> rnd_even (a * 10 ^ n)" using rnd_even_mono [of 0 "a * 10 ^ n"] rnd_even_of_int [of 0] by simp
  then have "(0 :: rat) \<le> of_int (rnd_even (a * 10 ^ n)) / 10 ^ n" by simp
  then have "f_le (fl 0) (fl (of_int (rnd_even (a * 10 ^ n)) / 10 ^ n))" by (rule fl_mono)
  then show ?thesis using Fin by (simp add: f_round_def)
qed (simp_all add: f_round_def)

lemma f_mul_nonneg: "is_fin x \<Longrightarrow> is_fin y \<Longrightarrow> f_le (Fin 0) x \<Longrightarrow> f_le (Fin 0) y \<Longrightarrow> f_le (Fin 0) (f_mul x y)"
proof (cases x; cases y)
  fix a b
  assume h: "f_le (Fin 0) x" "f_le (Fin 0) y" and eq: "x = Fin a" "y = Fin b"
  then have "0 \<le> a * b" by simp
  then have "f_le (fl 0) (fl (a * b))" by (rule fl_mono)
  then show ?thesis by (simp add: eq f_mul_def)
qed simp_all

text \<open>A duration of at most \<open>10 ^ 15\<close> seconds is a finite number of hours.\<close>

lemma hours_fin:
  assumes "f_le (Fin 0) w" "f_le w (Fin (10 ^ 15))"
  shows "is_fin (hours w)"
proof -
  obtain a where a: "w = Fin a" "0 \<le> a" "a \<le> 10 ^ 15" using assms f_le_Fin_iff by blast
  have "fl (of_int (10 ^ 15)) = Fin (of_int (10 ^ 15))" by (rule fl_small_int) simp
  then have "f_le (fl (a / 3600)) (Fin (10 ^ 15))" "f_le (Fin 0) (fl (a / 3600))"
    using fl_mono [of "a / 3600" "10 ^ 15"] fl_mono [of 0 "a / 3600"] a by simp_all
  then show ?thesis using a f_le_Fin_iff [of "fl (a / 3600)" "10 ^ 15"]
    by (auto simp: hours_def f_div_def)
qed

lemma compute_cost_nonneg:
  assumes "is_fin rate" "f_le (Fin 0) rate" "f_le (Fin 0) wall" "f_le wall (Fin (10 ^ 15))"
  shows "\<exists>c. compute_cost rate wall = Inr c \<and> f_le (Fin 0) c"
proof -
  have "\<not> f_lt rate (Fin 0)" "\<not> f_lt wall (Fin 0)" using assms(2,3) by (auto simp: f_lt_def)
  moreover have "f_le (Fin 0) (f_round (f_mul rate (hours wall)) 4)"
    using assms by (intro f_round_nonneg f_mul_nonneg hours_nonneg hours_fin)
  ultimately show ?thesis by (simp add: compute_cost_def)
qed

lemma rate_from_env_nonneg:
  "gpu_rate_from_env parse env = Inr (rate, cur) \<Longrightarrow> rate = NaN \<or> f_le (Fin 0) rate"
  by (cases rate) (auto simp: gpu_rate_from_env_def f_lt_def split: option.splits if_splits)

text \<open>The rate check lets NaN through: every comparison with it is false.\<close>

lemma nan_rate_accepted:
  "parse ''nan'' = Some NaN \<Longrightarrow>
     gpu_rate_from_env parse [(''ATLAS_GPU_COST_PER_HOUR'', ''nan'')] = Inr (NaN, ''INR'')
     \<and> compute_cost NaN (Fin 3600) = Inr NaN"
  by (simp add: gpu_rate_from_env_def env_or_def compute_cost_def f_mul_def f_round_def
      str_strip_def rstrip_chars_def is_space_def ord_def f_lt_def split: pyfloat.splits)

lemma window_left:
  assumes "wo_enter ops w = (w1, Inr url)"
  shows "fst (costed_gpu_window ops rate cur w) = fst (wo_leave ops (fst (wo_body ops url w1)))"
  using assms by (auto simp: costed_gpu_window_def in_session_def Let_def split: prod.splits option.splits)

lemma window_failure:
  assumes "wo_enter ops w = (w1, Inl x)"
  shows "costed_gpu_window ops rate cur w = (w1, Inl x)"
  using assms by (auto simp: costed_gpu_window_def in_session_def Let_def split: prod.splits)

text \<open>A costed window always records a cost, and leaves the session. When the body succeeds
  with a finite non-negative rate and clocks that differ by at most 10^15 seconds, the window returns
  the result with a record whose cost and duration are not negative, at the rate and in the
  currency given, even if the clock went backwards; and in every case, body failures included, the
  final state is the one in which the session was left after the body.\<close>

theorem costed_window_records:
  assumes "wo_enter ops w = (w1, Inr url)" "wo_body ops url w1 = (w2, Inr res)"
    and "wo_leave ops w2 = (w3, None)"
    and "fst (wo_clock ops w) = t0" "fst (wo_clock ops w3) = t1"
    and "is_fin rate" "f_le (Fin 0) rate" "f_le (f_sub t1 t0) (Fin (10 ^ 15))"
  shows "\<exists>c. costed_gpu_window ops rate cur w = (w3, Inr (Inr (res, c)))
      \<and> f_le (Fin 0) (ct_cost c) \<and> f_le (Fin 0) (ct_wall c)
      \<and> ct_rate c = rate \<and> ct_currency c = cur \<and> ct_teardown c"
proof -
  let ?wall = "f_max (Fin 0) [f_sub t1 t0]"
  have le: "f_le ?wall (Fin (10 ^ 15))" using assms(8) by (auto simp: f_max_def)
  obtain c where c: "compute_cost rate ?wall = Inr c" "f_le (Fin 0) c"
    using compute_cost_nonneg [OF assms(6,7) f_max_0 le] by blast
  obtain stamp0 stamp1 where clk: "wo_clock ops w = (t0, stamp0)" "wo_clock ops w3 = (t1, stamp1)"
    using assms(4,5) by (metis prod.collapse)
  show ?thesis
    using assms(1-3) clk c f_round_nonneg [OF f_max_0]
    by (simp add: costed_gpu_window_def in_session_def meter_enter_def meter_exit_def new_meter_def
        meter_record_def wall_seconds_def Let_def)
qed

definition demo_ops :: "(nat, unit, nat) window_ops" where
  "demo_ops = \<lparr>wo_clock = (\<lambda>n. (Fin (of_nat n), ''t'')), wo_enter = (\<lambda>n. (n, Inr ''http'')),
     wo_body = (\<lambda>url n. (n + 60, Inr 7)), wo_leave = (\<lambda>n. (n + 1, None))\<rparr>"

theorem costed_window_records_witness:
  "\<exists>c. costed_gpu_window demo_ops (Fin 41) ''INR'' 0 = (61, Inr (Inr (7, c)))
     \<and> f_le (Fin 0) (ct_cost c) \<and> ct_rate c = Fin 41"
proof -
  have "f_le (f_sub (Fin 61) (Fin 0)) (Fin (10 ^ 15))" by (simp add: f_sub_def)
  then show ?thesis
    using costed_window_records [of demo_ops 0 0 "''http''" 60 7 61 "Fin 0" "Fin 61" "Fin 41" "''INR''"]
    by (auto simp: demo_ops_def)
qed

end
