(* ===== verification/Train_Episode.thy ===== *)
theory Train_Episode
  imports Train_Report Train_Synth Train_Cost
begin

text \<open>
  From model outputs to committed evidence: scoring (\<open>training/atlas_training/infer.py\<close>) and the
  evidence part of the episodic driver (\<open>training/scripts/run_episodic.py\<close>). Generation on the GPU,
  the RAGAS judge and the clock are parameters: the outputs, an optional faithfulness and the
  latencies. The result is read by the promotion gate, and the theorems are about that composition.
\<close>

section \<open>Prompts\<close>

definition eval_prompt :: "string \<Rightarrow> string \<Rightarrow> string" where
  "eval_prompt question context = (if context \<noteq> [] then question @ NL @ NL @ context else question)"

record eval_row =
  er_case_id :: json
  er_prompt :: string
  er_allowed :: "json list"
  er_contexts :: "string list"
  er_ground_truth :: json
  er_question :: json

definition context_line :: "(json \<Rightarrow> string) \<Rightarrow> trusted_doc \<Rightarrow> string" where
  "context_line fmt d = ''[doc:'' @ show_id fmt (td_doc_id d) @ ''] '' @ excerpt (td_text d)"

definition golden_row :: "(json \<Rightarrow> string) \<Rightarrow> corpus \<Rightarrow> golden_tuple \<Rightarrow> (corpus_error, eval_row) result" where
  "golden_row fmt corpus t =
     res_bind (res_map (resolve corpus) (gt_expected_docs t)) (\<lambda>docs.
       Inr \<lparr>er_case_id = gt_id t,
            er_prompt = show_id fmt (gt_question t) @ NL @ NL @ str_join NL (map (context_line fmt) docs),
            er_allowed = gt_expected_docs t,
            er_contexts = map td_text docs,
            er_ground_truth = gt_ground_truth t,
            er_question = gt_question t\<rparr>)"

definition golden_prompts ::
  "(json \<Rightarrow> string) \<Rightarrow> corpus \<Rightarrow> golden_tuple list \<Rightarrow> (corpus_error, eval_row list) result" where
  "golden_prompts fmt corpus golden = res_map (golden_row fmt corpus) golden"

text \<open>The user turns of a file of chat rows; \<open>None\<close> is an exception.\<close>

fun first_user :: "json list \<Rightarrow> json option" where
  "first_user [] = None"
| "first_user (m # ms) =
     (case m of
        JObj o1 \<Rightarrow>
          (case map_of o1 ''role'' of
             None \<Rightarrow> None
           | Some role \<Rightarrow> (if role = JStr ''user'' then map_of o1 ''content'' else first_user ms))
      | _ \<Rightarrow> None)"

definition user_turn :: "json \<Rightarrow> json option" where
  "user_turn row =
     (case row of
        JObj d \<Rightarrow> (case map_of d ''messages'' of Some (JList ms) \<Rightarrow> first_user ms | _ \<Rightarrow> None)
      | _ \<Rightarrow> None)"

definition prompts_from_jsonl :: "(string \<Rightarrow> json option) \<Rightarrow> string \<Rightarrow> json list option" where
  "prompts_from_jsonl loads content =
     those (map (\<lambda>l. case loads l of None \<Rightarrow> None | Some v \<Rightarrow> user_turn v)
       (filter (\<lambda>l. l \<noteq> []) (map str_strip (splitlines content))))"

section \<open>Scores\<close>

record candidate =
  ca_case_id :: json
  ca_prompt :: string
  ca_output :: string
  ca_allowed :: "json list"

datatype episode_error =
    LengthsDiffer
  | ScoreFailed metric_error
  | CostFailed
  | ReportFailed report_error

definition candidates :: "eval_row list \<Rightarrow> string list \<Rightarrow> (episode_error, candidate list) result" where
  "candidates rows outputs =
     (if length rows \<noteq> length outputs then Inl LengthsDiffer
      else Inr (map (\<lambda>(r, out). \<lparr>ca_case_id = er_case_id r, ca_prompt = er_prompt r, ca_output = out,
                                  ca_allowed = er_allowed r\<rparr>) (zip rows outputs)))"

text \<open>A cited id is a string, so only the strings among the allowed ids can match.\<close>

definition string_ids_of :: "json list \<Rightarrow> string list" where
  "string_ids_of vs = List.map_filter (\<lambda>v. case v of JStr s \<Rightarrow> Some s | _ \<Rightarrow> None) vs"

definition well_formatted :: "candidate \<Rightarrow> bool" where
  "well_formatted c = format_score (ca_output c) (Some (string_ids_of (ca_allowed c)))"

definition format_rate :: "candidate list \<Rightarrow> pyfloat" where
  "format_rate cs =
     (if cs = [] then Fin 0 else int_div (int (count_if well_formatted cs)) (int (length cs)))"

definition score_outputs ::
  "candidate list \<Rightarrow> refusal_case list \<Rightarrow> string list \<Rightarrow> pyfloat option \<Rightarrow> (episode_error, scores) result" where
  "score_outputs cs cases outputs faithfulness =
     (case refusal_score_rate cases outputs of
        Inl e \<Rightarrow> Inl (ScoreFailed e)
      | Inr rate \<Rightarrow>
          Inr [(''faithfulness'', (case faithfulness of None \<Rightarrow> NaN | Some x \<Rightarrow> f_round x 4)),
               (''format_validity'', f_round (format_rate cs) 4),
               (''refusal_correctness'', f_round rate 4)])"

section \<open>Latencies and cost units\<close>

text \<open>One batched generation: every request gets the mean.\<close>

definition batch_latencies :: "pyfloat \<Rightarrow> pyfloat \<Rightarrow> nat \<Rightarrow> pyfloat list" where
  "batch_latencies start finish n =
     (case f_div (f_mul (f_sub finish start) (Fin 1000)) (f_of_int (int (max 1 n))) of
        Some q \<Rightarrow> replicate n q
      | None \<Rightarrow> [])"

definition per_request_seconds :: "pyfloat list \<Rightarrow> pyfloat option" where
  "per_request_seconds lat =
     (if lat = [] then Some (Fin 0)
      else do { m \<leftarrow> f_div (f_sum lat) (f_of_int (int (length lat))); f_div m (Fin 1000) })"

definition cost_units :: "pyfloat \<Rightarrow> pyfloat list \<Rightarrow> pyfloat option" where
  "cost_units rate lat =
     do {
       per_second \<leftarrow> f_div rate (Fin 3600);
       s \<leftarrow> per_request_seconds lat;
       Some (f_round (f_mul per_second s) 6)
     }"

section \<open>Per-case vectors\<close>

definition bit :: "bool \<Rightarrow> pyfloat" where
  "bit b = Fin (if b then 1 else 0)"

definition format_vector :: "eval_row list \<Rightarrow> string list \<Rightarrow> (episode_error, pyfloat list) result" where
  "format_vector rows outputs = res_bind (candidates rows outputs) (\<lambda>cs. Inr (map (bit \<circ> well_formatted) cs))"

definition refusal_vector :: "refusal_case list \<Rightarrow> string list \<Rightarrow> (episode_error, pyfloat list) result" where
  "refusal_vector cases outputs =
     (if length cases \<noteq> length outputs then Inl LengthsDiffer
      else Inr (map (\<lambda>(c, out). bit (refusal_score c out)) (zip cases outputs)))"

text \<open>The outputs of one side, with its faithfulness: the mean, and per case if there is one.\<close>

record side =
  sd_golden :: "string list"
  sd_refusal :: "string list"
  sd_faith :: "pyfloat option"
  sd_faith_cases :: "pyfloat list"
  sd_latencies :: "pyfloat list"

definition per_case_vectors ::
  "eval_row list \<Rightarrow> refusal_case list \<Rightarrow> side \<Rightarrow> side \<Rightarrow> (episode_error, case_vectors) result" where
  "per_case_vectors rows cases base ft =
     res_bind (format_vector rows (sd_golden base)) (\<lambda>fb.
     res_bind (format_vector rows (sd_golden ft)) (\<lambda>ff.
     res_bind (refusal_vector cases (sd_refusal base)) (\<lambda>rb.
     res_bind (refusal_vector cases (sd_refusal ft)) (\<lambda>rf.
       Inr ([(''format_validity'', (fb, ff)), (''refusal_correctness'', (rb, rf))]
            @ (if sd_faith_cases base \<noteq> [] \<and> sd_faith_cases ft \<noteq> []
               then [(''faithfulness'', (sd_faith_cases base, sd_faith_cases ft))] else []))))))"

section \<open>The evidence\<close>

record episode =
  ep_rows :: "eval_row list"
  ep_cases :: "refusal_case list"
  ep_base :: side
  ep_ft :: side
  ep_rate :: pyfloat
  ep_gpu :: string
  ep_base_model :: string
  ep_ft_model :: string
  ep_cost :: cost_record

definition side_scores :: "eval_row list \<Rightarrow> refusal_case list \<Rightarrow> side \<Rightarrow> (episode_error, scores) result" where
  "side_scores rows cases s =
     res_bind (candidates rows (sd_golden s)) (\<lambda>cs.
       score_outputs cs cases (sd_refusal s) (sd_faith s))"

definition episode_costs :: "episode \<Rightarrow> (string \<times> json) list option" where
  "episode_costs e =
     do {
       b \<leftarrow> cost_units (ep_rate e) (sd_latencies (ep_base e));
       f \<leftarrow> cost_units (ep_rate e) (sd_latencies (ep_ft e));
       build_cost_per_request \<lparr>rc_base_latencies = sd_latencies (ep_base e),
         rc_ft_latencies = sd_latencies (ep_ft e), rc_base_units = b, rc_ft_units = f,
         rc_gpu = ep_gpu e\<rparr>
     }"

definition evidence :: "stats_fun \<Rightarrow> string \<Rightarrow> string \<Rightarrow> episode \<Rightarrow> (episode_error, comparison) result" where
  "evidence stats sha now e =
     res_bind (side_scores (ep_rows e) (ep_cases e) (ep_base e)) (\<lambda>base.
     res_bind (side_scores (ep_rows e) (ep_cases e) (ep_ft e)) (\<lambda>ft.
       (case episode_costs e of
          None \<Rightarrow> Inl CostFailed
        | Some cpr \<Rightarrow>
            res_bind (per_case_vectors (ep_rows e) (ep_cases e) (ep_base e) (ep_ft e)) (\<lambda>pc.
              (case build_comparison stats sha now base ft
                      \<lparr>ra_model_ids = [(''base'', ep_base_model e), (''ft'', ep_ft_model e)],
                       ra_dataset_size = int (length (ep_rows e) + length (ep_cases e)),
                       ra_training_cost = Some (record_json (ep_cost e)), ra_git_sha = None,
                       ra_recorded_at = None, ra_meta = None, ra_cost = Some cpr\<rparr> (Some pc) of
                 Inl x \<Rightarrow> Inl (ReportFailed x)
               | Inr c \<Rightarrow> Inr c)))))"

section \<open>What a promotion rests on\<close>

lemma side_scores_values:
  assumes "side_scores rows cases s = Inr sc"
  shows "\<exists>cs rate. candidates rows (sd_golden s) = Inr cs \<and> refusal_score_rate cases (sd_refusal s) = Inr rate
    \<and> score_of sc ''faithfulness'' = (case sd_faith s of None \<Rightarrow> NaN | Some x \<Rightarrow> f_round x 4)
    \<and> score_of sc ''format_validity'' = f_round (format_rate cs) 4
    \<and> score_of sc ''refusal_correctness'' = f_round rate 4"
  using assms
  by (cases "refusal_score_rate cases (sd_refusal s)")
    (auto simp: side_scores_def score_outputs_def res_bind_Inr_iff score_of_def)

lemma evidence_parts:
  assumes "evidence stats sha now e = Inr c"
  shows "\<exists>base ft a pc. side_scores (ep_rows e) (ep_cases e) (ep_base e) = Inr base
    \<and> side_scores (ep_rows e) (ep_cases e) (ep_ft e) = Inr ft
    \<and> build_comparison stats sha now base ft a pc = Inr c"
proof -
  obtain base ft cpr pc where p: "side_scores (ep_rows e) (ep_cases e) (ep_base e) = Inr base"
    "side_scores (ep_rows e) (ep_cases e) (ep_ft e) = Inr ft" "episode_costs e = Some cpr"
    "per_case_vectors (ep_rows e) (ep_cases e) (ep_base e) (ep_ft e) = Inr pc"
    using assms by (auto simp: evidence_def res_bind_Inr_iff split: option.split_asm)
  let ?a = "\<lparr>ra_model_ids = [(''base'', ep_base_model e), (''ft'', ep_ft_model e)],
    ra_dataset_size = int (length (ep_rows e) + length (ep_cases e)),
    ra_training_cost = Some (record_json (ep_cost e)), ra_git_sha = None,
    ra_recorded_at = None, ra_meta = None, ra_cost = Some cpr\<rparr>"
  have "build_comparison stats sha now base ft ?a (Some pc) = Inr c"
    using assms p
    by (cases "build_comparison stats sha now base ft ?a (Some pc)") (simp_all add: evidence_def)
  then show ?thesis using p by blast
qed

lemma promoted_scores:
  assumes "build_comparison stats sha now base ft a pc = Inr c"
    and "evaluate_promotion_gate parse t (to_json c) fs g = Inr r" "pr_promoted r"
  shows "at_least (f_round (score_of ft ''faithfulness'') 4) (fo_abs_floor fs)
    \<and> at_least (f_round (score_of ft ''format_validity'') 4) (fo_format_floor fs)
    \<and> at_least (metric_delta (score_of base ''refusal_correctness'') (score_of ft ''refusal_correctness''))
         (fo_refusal_min fs)"
proof -
  note view = built_view [OF assms(1)]
  have "promotable parse (to_json c) fs" using promoted_iff [OF assms(2)] assms(3) by simp
  then show ?thesis
    using built_scores(1) [OF view, of "''faithfulness''"] built_scores(1) [OF view, of "''format_validity''"]
      built_refusal_delta [OF view, of parse]
    by (auto simp: promotable_def METRICS_def)
qed

lemma at_least_not_NaN: "at_least x flr \<Longrightarrow> x \<noteq> NaN"
  by (auto simp: at_least_def)

text \<open>C22: No promotion without evidence, from model outputs to verdict. If the gate promotes the
  comparison that an episode wrote, the judge did score the fine-tuned model (a failed or skipped
  scoring is recorded as NaN and blocks) and that score, rounded as it is written, is at least the
  floor; the share of the golden outputs that are well formatted under their allowed ids is at least
  the format floor; and the refusal rates of both models differ by at least the configured minimum.\<close>

theorem promotion_needs_evidence:
  assumes "evidence stats sha now e = Inr c"
    and "evaluate_promotion_gate parse t (to_json c) fs g = Inr r" "pr_promoted r"
  shows "\<exists>x cs rb rf. sd_faith (ep_ft e) = Some x \<and> x \<noteq> NaN
    \<and> candidates (ep_rows e) (sd_golden (ep_ft e)) = Inr cs
    \<and> refusal_score_rate (ep_cases e) (sd_refusal (ep_base e)) = Inr rb
    \<and> refusal_score_rate (ep_cases e) (sd_refusal (ep_ft e)) = Inr rf
    \<and> at_least (f_round (f_round x 4) 4) (fo_abs_floor fs)
    \<and> at_least (f_round (f_round (format_rate cs) 4) 4) (fo_format_floor fs)
    \<and> at_least (metric_delta (f_round rb 4) (f_round rf 4)) (fo_refusal_min fs)"
proof -
  obtain base ft a pc where parts: "side_scores (ep_rows e) (ep_cases e) (ep_base e) = Inr base"
    "side_scores (ep_rows e) (ep_cases e) (ep_ft e) = Inr ft"
    "build_comparison stats sha now base ft a pc = Inr c"
    using evidence_parts [OF assms(1)] by blast
  note ok = promoted_scores [OF parts(3) assms(2,3)]
  have nan: "f_round NaN 4 = NaN" by (simp add: f_round_def)
  have "score_of ft ''faithfulness'' \<noteq> NaN" using ok at_least_not_NaN nan by metis
  then obtain x where x: "sd_faith (ep_ft e) = Some x" "x \<noteq> NaN"
    using side_scores_values [OF parts(2)] nan by (cases "sd_faith (ep_ft e)") fastforce+
  show ?thesis
    using side_scores_values [OF parts(1)] side_scores_values [OF parts(2)] ok x by auto
qed

section \<open>A promoted episode\<close>

definition demo_row :: eval_row where
  "demo_row = \<lparr>er_case_id = JStr ''g1'', er_prompt = ''q'', er_allowed = [JStr ''a''], er_contexts = [],
     er_ground_truth = JStr ''t'', er_question = JStr ''q''\<rparr>"

definition demo_refusal :: refusal_case where
  "demo_refusal = \<lparr>rf_id = JStr ''r1'', rf_question = JStr ''q'', rf_should_refuse = False,
     rf_clearance = JNull, rf_reason = JNull\<rparr>"

definition demo_side :: side where
  "demo_side = \<lparr>sd_golden = [''x [doc:a]''], sd_refusal = [''x [doc:a]''], sd_faith = Some (Fin 1),
     sd_faith_cases = [], sd_latencies = []\<rparr>"

definition demo_episode :: episode where
  "demo_episode = \<lparr>ep_rows = [demo_row], ep_cases = [demo_refusal], ep_base = demo_side, ep_ft = demo_side,
     ep_rate = Fin 41, ep_gpu = ''L4'', ep_base_model = ''b'', ep_ft_model = ''f'',
     ep_cost = \<lparr>ct_rate = Fin 41, ct_currency = ''INR'', ct_wall = Fin 1, ct_cost = Fin 0, ct_teardown = True,
       ct_started = ''s'', ct_ended = ''e''\<rparr>\<rparr>"

definition demo_candidate :: candidate where
  "demo_candidate = \<lparr>ca_case_id = JStr ''g1'', ca_prompt = ''q'', ca_output = ''x [doc:a]'', ca_allowed = [JStr ''a'']\<rparr>"

lemma demo_format: "well_formatted demo_candidate"
proof -
  have "format_score ''x [doc:a]'' (Some [''a''])" by code_simp
  then show ?thesis by (simp add: well_formatted_def demo_candidate_def string_ids_of_def List.map_filter_def)
qed

lemma demo_answers: "refusal_score demo_refusal ''x [doc:a]''"
proof -
  have "\<not> did_refuse ''x [doc:a]''" by code_simp
  then show ?thesis by (simp add: refusal_score_def demo_refusal_def)
qed

lemma demo_candidates: "candidates [demo_row] (sd_golden demo_side) = Inr [demo_candidate]"
  by (simp add: candidates_def demo_row_def demo_side_def demo_candidate_def)

lemma round_one: "f_round (Fin 1) 4 = Fin 1"
  using rnd_even_of_int [of 10000] by (simp add: f_round_def)

lemma demo_side_scores: "side_scores [demo_row] [demo_refusal] demo_side = Inr demo_scores"
proof -
  have "format_rate [demo_candidate] = Fin 1"
    using demo_format by (simp add: format_rate_def count_if_def int_div_def)
  moreover have "refusal_score_rate [demo_refusal] (sd_refusal demo_side) = Inr (Fin 1)"
    using demo_answers by (simp add: refusal_score_rate_def demo_side_def count_if_def int_div_def)
  ultimately show ?thesis
    by (simp add: side_scores_def demo_candidates score_outputs_def round_one demo_scores_def)
      (simp add: demo_side_def round_one)
qed

lemma demo_vectors: "per_case_vectors [demo_row] [demo_refusal] demo_side demo_side =
    Inr [(''format_validity'', ([Fin 1], [Fin 1])), (''refusal_correctness'', ([Fin 1], [Fin 1]))]"
  using demo_format demo_answers
  by (simp add: per_case_vectors_def format_vector_def demo_candidates refusal_vector_def bit_def)
    (simp add: demo_side_def bit_def)

lemma demo_costs: "\<exists>cpr. episode_costs demo_episode = Some cpr \<and> map_of cpr ''delta_pct'' = Some (JFloat (Fin 0))"
proof -
  have "\<exists>q. f_div (Fin 41) (Fin 3600) = Some q" by (simp add: f_div_def)
  moreover have "fl (41 / 3600) \<noteq> NaN" by simp
  moreover have "\<exists>y. fl (41 / 3600) = Fin y"
    using fl_mono [of 0 "41 / 3600"] fl_mono [of "41 / 3600" 1] f_le_Fin_iff [of "fl (41 / 3600)" 1] by auto
  then have "cost_units (Fin 41) [] = Some (Fin 0)"
    using rnd_even_of_int [of 0]
    by (auto simp: cost_units_def per_request_seconds_def f_div_def f_mul_def f_round_def)
  ultimately show ?thesis
    by (simp add: episode_costs_def demo_episode_def demo_side_def build_cost_per_request_def p50_p95_def
        cost_delta_pct_def)
qed

lemma demo_evidence: "\<exists>c a pc. evidence demo_stats [] [] demo_episode = Inr c
    \<and> build_comparison demo_stats [] [] demo_scores demo_scores a pc = Inr c
    \<and> cost_delta (to_json c) = JFloat (Fin 0)"
proof -
  obtain cpr where cpr: "episode_costs demo_episode = Some cpr" "map_of cpr ''delta_pct'' = Some (JFloat (Fin 0))"
    using demo_costs by blast
  let ?pc = "[(''format_validity'', ([Fin 1], [Fin 1])), (''refusal_correctness'', ([Fin 1], [Fin 1]))]"
  let ?a = "\<lparr>ra_model_ids = [(''base'', ''b''), (''ft'', ''f'')], ra_dataset_size = 2,
    ra_training_cost = Some (record_json (ep_cost demo_episode)), ra_git_sha = None,
    ra_recorded_at = None, ra_meta = None, ra_cost = Some cpr\<rparr>"
  obtain sb where sb: "demo_stats [Fin 1] [Fin 1] Binary = Some sb" using demo_stats_value by blast
  obtain c where c: "build_comparison demo_stats [] [] demo_scores demo_scores ?a (Some ?pc) = Inr c"
    using sb by (simp add: build_comparison_def missing_scores_def METRICS_def METRIC_KIND_def build_blocks_def
        block_of_def demo_scores_def)
  then have "cr_cost c = obj_or_empty (Some cpr)"
    by (auto simp: build_comparison_def Let_def split: if_splits option.splits)
  then have "cost_delta (to_json c) = JFloat (Fin 0)"
    using built_cost [of c "Some cpr"] cpr(2) by (simp add: obj_get_def)
  moreover have "evidence demo_stats [] [] demo_episode = Inr c"
    using c cpr(1) demo_side_scores demo_vectors
    by (simp add: evidence_def) (simp add: demo_episode_def)
  ultimately show ?thesis using c by blast
qed

definition demo_episode_floors :: floors where
  "demo_episode_floors = \<lparr>fo_abs_floor = JInt 1, fo_max_regression = JInt 0, fo_mode = JStr ''hybrid'',
     fo_format_floor = JInt 1, fo_refusal_min = JInt 0, fo_cost_band = JInt 10, fo_reason_required = JBool True\<rparr>"

lemma demo_promoted:
  assumes "build_comparison demo_stats [] [] demo_scores demo_scores a pc = Inr c"
    and "cost_delta (to_json c) = JFloat (Fin 0)"
  shows "promotable (\<lambda>_. None) (to_json c) demo_episode_floors"
proof -
  note view = built_view [OF assms(1)]
  obtain e where e: "EPS = Fin e" "0 \<le> e" using EPS_Fin by blast
  have nn: "num_le (JInt 0) (fl e)" "num_le (JInt 1) (fl (1 + e))" "f_le (Fin 1) (fl (1 + e))"
    using fl_mono [of 0 e] fl_mono [of 1 "1 + e"] e(2) by (cases "fl e"; cases "fl (1 + e)"; simp)+
  have ten: "f_le (Fin 0) (fl (10 + e))"
    using fl_mono [of 0 "10 + e"] e(2) by simp
  have sc: "score_of demo_scores m = Fin 1" if "m \<in> set METRICS" for m
    using that by (auto simp: score_of_def demo_scores_def METRICS_def)
  have d: "metric_delta (Fin 1) (Fin 1) = Fin 0"
    using rnd_even_of_int [of 0] by (simp add: metric_delta_def f_sub_def f_round_def)
  show ?thesis
    using built_scores [OF view] built_refusal_delta [OF view] sc assms(2) nn ten
      num_float_int [of 0] num_float_int [of 10]
    by (simp add: promotable_def METRICS_def round_one d at_least_def within_band_def demo_episode_floors_def
        any_float_def e f_sub_def)
qed

theorem promotion_needs_evidence_witness:
  "\<exists>c r. evidence demo_stats [] [] demo_episode = Inr c
     \<and> evaluate_promotion_gate (\<lambda>_. None) [] (to_json c) demo_episode_floors [] = Inr r
     \<and> (\<exists>x. sd_faith (ep_ft demo_episode) = Some x \<and> at_least (f_round (f_round x 4) 4) (JInt 1))"
proof -
  obtain c a pc where c: "evidence demo_stats [] [] demo_episode = Inr c"
    "build_comparison demo_stats [] [] demo_scores demo_scores a pc = Inr c"
    "cost_delta (to_json c) = JFloat (Fin 0)"
    using demo_evidence by blast
  have p: "promotable (\<lambda>_. None) (to_json c) demo_episode_floors" by (rule demo_promoted [OF c(2,3)])
  have num: "num_float (fo_refusal_min demo_episode_floors) \<noteq> None"
    using num_float_int [of 0] by (simp add: demo_episode_floors_def)
  have valid: "valid_floors demo_episode_floors"
    using num_float_int [of 0] num_float_int [of 1] num_float_int [of 10]
    by (auto simp: valid_floors_def demo_episode_floors_def unit_number_def FAITHFULNESS_MODES_def)
  obtain r where r: "evaluate_promotion_gate (\<lambda>_. None) [] (to_json c) demo_episode_floors [] = Inr r"
    using built_decides_cost [OF c(2) valid num c(3)] by blast
  have "pr_promoted r" using promoted_iff [OF r] p by simp
  then show ?thesis
    using promotion_needs_evidence [OF c(1) r] c(1) r by (auto simp: demo_episode_floors_def)
qed

end
