(* ===== verification/Report_Markdown.thy ===== *)
theory Report_Markdown
  imports Eval_Release Eval_Summary Train_Episode
begin

text \<open>
  The Markdown that the gates and the episode write beside their JSON: the promotion summary
  (\<open>evals/atlas_evals/promotion_gate.py\<close>), the summary of the merge gate (\<open>evals/atlas_evals/report.py\<close>) and
  the comparison of an episode (\<open>training/atlas_training/report.py\<close>). Texts are lists of lines that are
  joined at the end; the digits of a number are a parameter, and symbols are held as the bytes of their
  UTF-8 encoding. \<open>None\<close> is the exception of a missing key or of a value that is no number.
\<close>

section \<open>Formatting\<close>

text \<open>Format codes for a fixed number of digits, for one with its sign, and \<open>str\<close>.\<close>

record formats =
  fm_fixed :: "nat \<Rightarrow> pyfloat \<Rightarrow> string"
  fm_signed :: "nat \<Rightarrow> pyfloat \<Rightarrow> string"
  fm_str :: "json \<Rightarrow> string"

definition CHECK_MARK :: string where "CHECK_MARK = utf8 [226, 156, 133]"
definition NO_ENTRY :: string where "NO_ENTRY = utf8 [226, 155, 148]"
definition CROSS_MARK :: string where "CROSS_MARK = utf8 [226, 157, 140]"
definition MIDDLE_DOT :: string where "MIDDLE_DOT = utf8 [194, 183]"
definition DELTA :: string where "DELTA = utf8 [206, 148]"
definition GREATER_EQ :: string where "GREATER_EQ = utf8 [226, 137, 165]"
definition LESS_EQ :: string where "LESS_EQ = utf8 [226, 137, 164]"
definition MINUS_SIGN :: string where "MINUS_SIGN = utf8 [226, 136, 146]"
definition IFF :: string where "IFF = utf8 [226, 135, 148]"

text \<open>A row of a table.\<close>

definition table_row :: "string list \<Rightarrow> string" where
  "table_row cells = ''| '' @ str_join '' | '' cells @ '' |''"

definition or_dash :: "string option \<Rightarrow> string" where
  "or_dash c = (case c of None \<Rightarrow> EM_DASH | Some s \<Rightarrow> s)"

section \<open>The promotion summary\<close>

definition verdict :: "bool \<Rightarrow> string" where
  "verdict promoted = (if promoted then ''PROMOTE '' @ CHECK_MARK else ''BLOCK '' @ NO_ENTRY)"

definition decision_row :: "formats \<Rightarrow> wording \<Rightarrow> gate_decision \<Rightarrow> string" where
  "decision_row fm wo d =
     table_row [wo_metric wo (gd_metric d), or_dash (map_option (fm_fixed fm 3) (gd_value d)),
       or_dash (map_option (fm_fixed fm 3) (gd_base d)),
       (if gd_threshold d = JNull then EM_DASH else fm_str fm (gd_threshold d)),
       wo_rule wo (gd_rule d), (if gd_passed d then CHECK_MARK else NO_ENTRY)]"

definition promotion_lines :: "formats \<Rightarrow> wording \<Rightarrow> promotion_result \<Rightarrow> string list" where
  "promotion_lines fm wo r =
     [''# Model promotion gate'', [], ''**Verdict:** '' @ verdict (pr_promoted r),
      ''**Model version:** `'' @ (if json_truthy (pr_model_version r) then fm_str fm (pr_model_version r) else EM_DASH) @ ''`'',
      ''**Evaluated at:** '' @ pr_evaluated_at r @ ''  '' @ MIDDLE_DOT @ ''  **git sha:** `''
        @ (if json_truthy (pr_git_sha r) then fm_str fm (pr_git_sha r) else EM_DASH) @ ''`'',
      [], ''| Metric | ft | base | threshold | rule | passed |'', ''|---|---|---|---|---|---|'']
     @ map (decision_row fm wo) (pr_decisions r)
     @ (if pr_reasons r = [] then []
        else [[], ''## Blocked reasons''] @ map (\<lambda>x. ''- '' @ wo_reason wo x) (pr_reasons r))"

definition render_promotion :: "formats \<Rightarrow> wording \<Rightarrow> promotion_result \<Rightarrow> string" where
  "render_promotion fm wo r = str_join NL (promotion_lines fm wo r) @ NL"

text \<open>The two files of the report.\<close>

definition write_report :: "formats \<Rightarrow> wording \<Rightarrow> promotion_result \<Rightarrow> (string \<times> json) list \<times> string" where
  "write_report fm wo r = (promotion_json wo r, render_promotion fm wo r)"

lemma promotion_summary_verdict:
  assumes "evaluate_promotion_gate parse now c fs sha = Inr r"
  shows "promotion_lines fm wo r ! 2 = ''**Verdict:** '' @ verdict (promotable parse c fs)"
    and "''## Blocked reasons'' \<in> set (promotion_lines fm wo r) \<longleftrightarrow> \<not> promotable parse c fs"
proof -
  note r = promoted_iff [OF assms]
  show "promotion_lines fm wo r ! 2 = ''**Verdict:** '' @ verdict (promotable parse c fs)"
    using r by (simp add: promotion_lines_def)
  show "''## Blocked reasons'' \<in> set (promotion_lines fm wo r) \<longleftrightarrow> \<not> promotable parse c fs"
    using r by (auto simp: promotion_lines_def decision_row_def table_row_def)
qed

section \<open>The summary of the merge gate\<close>

definition fixed_cell :: "formats \<Rightarrow> nat \<Rightarrow> json \<Rightarrow> string option" where
  "fixed_cell fm n v = map_option (fm_fixed fm n) (num_float v)"

definition dash_cell :: "formats \<Rightarrow> nat \<Rightarrow> json \<Rightarrow> string option" where
  "dash_cell fm n v = (if v = JNull then Some EM_DASH else fixed_cell fm n v)"

definition score_row :: "formats \<Rightarrow> (string \<times> json) list \<Rightarrow> string \<times> json \<Rightarrow> string option" where
  "score_row fm thresholds = (\<lambda>(name, score).
     (case obj_get_or thresholds name (JObj []) of
        JObj t \<Rightarrow>
          do {
            floor_cell \<leftarrow> dash_cell fm 3 (obj_get t ''floor'');
            base_cell \<leftarrow> dash_cell fm 3 (obj_get t ''baseline'');
            score_cell \<leftarrow> fixed_cell fm 3 score;
            Some (table_row [name, score_cell, floor_cell, base_cell,
              (if json_truthy (obj_get_or t ''report_only'' (JBool True)) then ''no'' else ''**yes**'')])
          }
      | _ \<Rightarrow> None))"

definition list_of :: "json \<Rightarrow> json list option" where
  "list_of v = (case v of JList xs \<Rightarrow> Some xs | _ \<Rightarrow> None)"

definition summary_lines :: "formats \<Rightarrow> (string \<times> json) list \<Rightarrow> string list option" where
  "summary_lines fm m =
     (case (obj_get m ''gate'', obj_get m ''thresholds'', obj_get m ''scores'', obj_get m ''adversarial'') of
        (JObj g, JObj thr, JObj scores, JObj adv) \<Rightarrow>
          do {
            passed \<leftarrow> map_of g ''passed'';
            n \<leftarrow> map_of m ''n_samples'';
            judge \<leftarrow> map_of m ''judge_model'';
            temp \<leftarrow> map_of m ''judge_temperature'';
            rows \<leftarrow> those (map (score_row fm thr) scores);
            share \<leftarrow> fixed_cell fm 3 (obj_get adv ''pass_rate'');
            ok \<leftarrow> map_of adv ''passed'';
            vs \<leftarrow> list_of (obj_get adv ''violations'');
            fails \<leftarrow> (if json_truthy passed then Some [] else list_of (obj_get g ''failures''));
            Some ([''## Atlas eval gate '' @ EM_DASH @ '' ''
                     @ (if json_truthy passed then CHECK_MARK @ '' PASS'' else CROSS_MARK @ '' FAIL''), [],
                   ''Golden samples: '' @ fm_str fm n @ '' '' @ MIDDLE_DOT @ '' judge: `'' @ fm_str fm judge @ ''` (temp ''
                     @ fm_str fm temp @ '')'', [],
                   ''| Metric | Score | Floor | Baseline | Gating |'', ''|---|---|---|---|---|'']
                  @ rows
                  @ [[], ''Adversarial pass-rate: **'' @ share @ ''** (''
                       @ (if json_truthy ok then ''PASS'' else ''FAIL'') @ '', 0-tolerance) '' @ EM_DASH @ '' ''
                       @ fm_str fm (JInt (int (length vs))) @ '' violation(s)'']
                  @ (if json_truthy passed then []
                     else [[], ''### Gate failures''] @ map (\<lambda>f. ''- '' @ fm_str fm f) fails))
          }
      | _ \<Rightarrow> None)"

definition build_summary :: "formats \<Rightarrow> (string \<times> json) list \<Rightarrow> string option" where
  "build_summary fm m = map_option (\<lambda>ls. str_join NL ls @ NL) (summary_lines fm m)"

lemma those_total: "\<forall>x\<in>set xs. f x \<noteq> None \<Longrightarrow> \<exists>ys. those (map f xs) = Some ys"
  by (induction xs) auto

lemma score_rows_built:
  "score_row fm (map (\<lambda>(k, t). (k, gate_threshold_json t)) ts) (name, JFloat x) \<noteq> None"
proof (cases "map_of ts name")
  case None
  then have "map_of (map (\<lambda>(k, t). (k, gate_threshold_json t)) ts) name = None" by (simp add: map_of_map)
  then show ?thesis
    by (simp add: score_row_def obj_get_or_def dash_cell_def fixed_cell_def obj_get_def)
next
  case (Some t)
  then have "map_of (map (\<lambda>(k, t). (k, gate_threshold_json t)) ts) name = Some (gate_threshold_json t)"
    by (simp add: map_of_map)
  then show ?thesis
    by (simp add: score_row_def obj_get_or_def gate_threshold_json_def dash_cell_def fixed_cell_def obj_get_def
        float_or_null_def split: option.split)
qed

text \<open>The report object always has a summary, and its headline is the verdict of the gate.\<close>

lemma built_summary_verdict:
  "\<exists>ls. summary_lines fm (build_metrics wo describe report adv b) = Some ls
    \<and> (hd ls = ''## Atlas eval gate '' @ EM_DASH @ '' '' @ CHECK_MARK @ '' PASS''
        \<longleftrightarrow> evaluate_gate (mr_scores report) adv (fb_gate b) = [])"
proof -
  let ?thr = "map (\<lambda>(k, t). (k, gate_threshold_json t)) (bl_metrics (fb_gate b))"
  let ?scores = "map (\<lambda>(k, v). (k, JFloat (f_round v 4))) (mr_scores report)"
  have "\<forall>s\<in>set ?scores. score_row fm ?thr s \<noteq> None" using score_rows_built by auto
  then obtain rows where rows: "those (map (score_row fm ?thr) ?scores) = Some rows" using those_total by blast
  show ?thesis
    using rows by (simp add: summary_lines_def build_metrics_def obj_get_def gate_json_def violations_json_def list_of_def
      fixed_cell_def CHECK_MARK_def CROSS_MARK_def utf8_def)
qed

section \<open>The comparison of an episode\<close>

definition TARGETS :: "string \<Rightarrow> string" where
  "TARGETS m =
     (if m = ''faithfulness'' then ''FT '' @ GREATER_EQ @ '' base '' @ MINUS_SIGN @ '' 0.05 (no-regression band, baseline floor 0.656)''
      else if m = ''format_validity'' then ''FT '' @ GREATER_EQ @ '' 0.95''
      else ''FT '' @ GREATER_EQ @ '' base'')"

text \<open>\<open>_fmt\<close>: what is false as a truth value, also null, is shown as zero.\<close>

definition signed_cell :: "formats \<Rightarrow> json \<Rightarrow> string option" where
  "signed_cell fm v =
     (if json_truthy v then map_option (fm_signed fm 4) (num_float v) else Some ''+0.0000'')"

definition metric_row :: "(string \<times> json) list \<Rightarrow> string \<Rightarrow> (string \<times> json) list option" where
  "metric_row metrics m = (case map_of metrics m of Some (JObj d) \<Rightarrow> Some d | _ \<Rightarrow> None)"

definition score_line :: "formats \<Rightarrow> string \<Rightarrow> (string \<times> json) list \<Rightarrow> string option" where
  "score_line fm m row =
     do {
       b \<leftarrow> fixed_cell fm 4 (obj_get row ''base'');
       f \<leftarrow> fixed_cell fm 4 (obj_get row ''ft'');
       d \<leftarrow> Option.bind (map_of row ''delta'') (signed_cell fm);
       Some (table_row [m, b, f, d, TARGETS m])
     }"

text \<open>The row of the statistics of a metric, if its block has them.\<close>

definition stats_line :: "formats \<Rightarrow> string \<Rightarrow> (string \<times> json) list \<Rightarrow> string option" where
  "stats_line fm m row =
     (case obj_get row ''ci95_delta'' of
        JList [lo, hi] \<Rightarrow>
          do {
            d \<leftarrow> Option.bind (map_of row ''delta'') (signed_cell fm);
            l \<leftarrow> map_option (fm_signed fm 4) (num_float lo);
            h \<leftarrow> map_option (fm_signed fm 4) (num_float hi);
            t \<leftarrow> map_of row ''test'';
            p \<leftarrow> fixed_cell fm 4 (obj_get row ''p_value'');
            s \<leftarrow> map_of row ''significant'';
            Some (table_row [m, d, ''['' @ l @ '', '' @ h @ '']'', fm_str fm t, p, (if json_truthy s then ''yes'' else ''no'')])
          }
      | _ \<Rightarrow> None)"

definition has_stats :: "(string \<times> json) list \<Rightarrow> bool" where
  "has_stats row \<longleftrightarrow> map_of row ''ci95_delta'' \<noteq> None"

definition stats_section :: "formats \<Rightarrow> comparison \<Rightarrow> (string \<times> (string \<times> json) list) list \<Rightarrow> string list option" where
  "stats_section fm c rows =
     (if \<not> list_ex (has_stats \<circ> snd) rows then Some []
      else map_option (\<lambda>ls.
          [NL @ ''### Statistical rigor (report-only, not gated '' @ EM_DASH @ '' D8/ADR-0082)'' @ NL,
           ''Method: **'' @ fm_str fm (cr_ci_method c) @ ''** CIs; significance **'' @ fm_str fm (cr_sig_test c)
             @ ''** (Wilcoxon = continuous faithfulness, McNemar = binary format/refusal). `significant` '' @ IFF
             @ '' the 95% CI excludes 0.'' @ NL,
           ''| Metric | '' @ DELTA @ '' | 95% CI ('' @ DELTA @ '') | test | p-value | significant |'',
           ''|---|---|---|---|---|---|''] @ ls)
        (those (map (\<lambda>(m, row). stats_line fm m row) (filter (has_stats \<circ> snd) rows))))"

definition str_or_mark :: "formats \<Rightarrow> (string \<times> json) list \<Rightarrow> string \<Rightarrow> string" where
  "str_or_mark fm d k = fm_str fm (obj_get_or d k (JStr ''?''))"

definition side_line :: "formats \<Rightarrow> string \<Rightarrow> json \<Rightarrow> string option" where
  "side_line fm name v =
     (case v of
        JObj d \<Rightarrow> Some (table_row [name, str_or_mark fm d ''cost_units_per_req'', str_or_mark fm d ''latency_ms_p50'',
                               str_or_mark fm d ''latency_ms_p95''])
      | _ \<Rightarrow> None)"

definition request_section :: "formats \<Rightarrow> json \<Rightarrow> string list option" where
  "request_section fm v =
     (if \<not> json_truthy v then Some []
      else case v of
        JObj cpr \<Rightarrow>
          do {
            b \<leftarrow> side_line fm ''base'' (obj_get_or cpr ''base'' (JObj []));
            f \<leftarrow> side_line fm ''ft'' (obj_get_or cpr ''ft'' (JObj []));
            d \<leftarrow> map_option (fm_signed fm 2) (num_float (obj_get_or cpr ''delta_pct'' (JFloat (Fin 0))));
            Some [NL @ ''### Serving cost/latency per request (same GPU: '' @ str_or_mark fm cpr ''same_gpu'' @ '')'' @ NL,
              ''| Side | cost_units/req | latency p50 (ms) | latency p95 (ms) |'', ''|---|---|---|---|'', b, f,
              NL @ ''**Cost/req '' @ DELTA @ '':** '' @ d @ ''% vs base (promotion band '' @ LESS_EQ
                @ '' 10%, ADR-0077; p95 latency report-only).'']
          }
      | _ \<Rightarrow> None)"

definition training_section :: "formats \<Rightarrow> json \<Rightarrow> string list option" where
  "training_section fm v =
     (if \<not> json_truthy v then Some []
      else case v of
        JObj cost \<Rightarrow>
          Some [NL @ ''**Training cost:** '' @ str_or_mark fm cost ''cost'' @ '' ''
            @ fm_str fm (obj_get_or cost ''currency'' (JStr [])) @ '' ('' @ str_or_mark fm cost ''wall_seconds''
            @ ''s wall-clock @ '' @ str_or_mark fm cost ''rate_per_hour'' @ ''/hr).'']
      | _ \<Rightarrow> None)"

definition score_section :: "formats \<Rightarrow> (string \<times> (string \<times> json) list) list \<Rightarrow> string list option" where
  "score_section fm rows = those (map (\<lambda>(m, row). score_line fm m row) rows)"

definition metric_rows :: "json \<Rightarrow> (string \<times> (string \<times> json) list) list option" where
  "metric_rows v =
     (case v of JObj metrics \<Rightarrow> those (map (\<lambda>m. map_option (Pair m) (metric_row metrics m)) METRICS) | _ \<Rightarrow> None)"

definition comparison_lines :: "formats \<Rightarrow> comparison \<Rightarrow> string list option" where
  "comparison_lines fm c =
     (case cr_model_ids c of
        JObj ids \<Rightarrow>
          do {
            rows \<leftarrow> metric_rows (cr_metrics c);
            scored \<leftarrow> score_section fm rows;
            stats \<leftarrow> stats_section fm c rows;
            requests \<leftarrow> request_section fm (cr_cost c);
            training \<leftarrow> training_section fm (cr_training_cost c);
            Some ([''# Atlas P6 '' @ EM_DASH @ '' base vs fine-tuned (QLoRA) comparison'' @ NL,
                   ''Candidate **'' @ fm_str fm (obj_get_or ids ''ft'' (JStr ''ft'')) @ ''** vs base **''
                     @ fm_str fm (obj_get_or ids ''base'' (JStr ''base'')) @ ''** over '' @ fm_str fm (cr_dataset_size c)
                     @ '' eval cases.'' @ NL,
                   ''### Metrics (candidate '' @ DELTA @ '' vs base)'' @ NL,
                   ''| Metric | base | ft | '' @ DELTA @ '' | P7 target (reported, not gated in P6) |'', ''|---|---|---|---|---|'']
                  @ scored @ stats @ requests @ training
                  @ [NL @ ''### Provenance'' @ NL, ''- dataset size: '' @ fm_str fm (cr_dataset_size c),
                     ''- base model: '' @ str_or_mark fm ids ''base'', ''- ft adapter: '' @ str_or_mark fm ids ''ft'',
                     ''- git: '' @ fm_str fm (cr_git_sha c), ''- recorded: '' @ fm_str fm (cr_recorded_at c), []])
          }
      | _ \<Rightarrow> None)"

definition comparison_markdown :: "formats \<Rightarrow> comparison \<Rightarrow> string option" where
  "comparison_markdown fm c = map_option (str_join NL) (comparison_lines fm c)"

text \<open>\<open>write_comparison\<close>: the JSON is written first; the Markdown is missing if it cannot be rendered.\<close>

definition write_comparison :: "formats \<Rightarrow> comparison \<Rightarrow> (string \<times> json) list \<times> string option" where
  "write_comparison fm c = (to_json c, comparison_markdown fm c)"

section \<open>Every evidence can be rendered\<close>

lemma block_of_parts:
  "block_of stats pc m b f = Some blk \<Longrightarrow> blk = plain_block b f \<or> (\<exists>sb. blk = plain_block b f @ stats_json sb)"
  by (auto simp: block_of_def split: option.splits)

text \<open>A block of a built comparison has a score line, and if it has statistics a line for them.\<close>

lemma built_block_lines:
  assumes "block_of stats pc m b f = Some blk"
  shows "score_line fm m blk = Some (table_row [m, fm_fixed fm 4 (f_round b 4), fm_fixed fm 4 (f_round f 4),
      (if metric_delta b f = Fin 0 then ''+0.0000'' else fm_signed fm 4 (metric_delta b f)), TARGETS m])"
    and "has_stats blk \<Longrightarrow> \<exists>l. stats_line fm m blk = Some l"
  using block_of_parts [OF assms]
  by (auto simp: score_line_def plain_block_def stats_json_def fixed_cell_def obj_get_def signed_cell_def
      has_stats_def stats_line_def)

lemma built_metric_rows:
  assumes "build_blocks stats pc base ft = Some bs"
  shows "\<exists>rows. metric_rows (JObj bs) = Some rows \<and> map fst rows = METRICS
    \<and> (\<forall>(m, blk)\<in>set rows. block_of stats pc m (score_of base m) (score_of ft m) = Some blk
         \<and> map_of bs m = Some (JObj blk))"
  using assms by (auto simp: build_blocks_def METRICS_def metric_rows_def metric_row_def split: option.splits)

lemma those_mem: "those (map f xs) = Some ys \<Longrightarrow> x \<in> set xs \<Longrightarrow> f x = Some y \<Longrightarrow> y \<in> set ys"
  by (induction xs arbitrary: ys) (auto split: option.splits)

lemma built_sections:
  assumes "\<forall>(m, blk)\<in>set rows. block_of stats pc m (score_of base m) (score_of ft m) = Some blk"
  shows "\<exists>ls. score_section fm rows = Some ls" and "\<exists>ls. stats_section fm c rows = Some ls"
proof -
  have "score_line fm m blk \<noteq> None" if "(m, blk) \<in> set rows" for m blk
    using built_block_lines(1) assms that by fastforce
  then show "\<exists>ls. score_section fm rows = Some ls"
    unfolding score_section_def by (intro those_total) auto
  have "stats_line fm m blk \<noteq> None" if "(m, blk) \<in> set rows" "has_stats blk" for m blk
    using built_block_lines(2) [of stats pc m] assms that by fastforce
  then have "\<exists>ls. those (map (\<lambda>(m, row). stats_line fm m row) (filter (has_stats \<circ> snd) rows)) = Some ls"
    by (intro those_total) auto
  then show "\<exists>ls. stats_section fm c rows = Some ls" by (auto simp: stats_section_def)
qed

lemma request_section_built: "build_cost_per_request rc = Some cpr \<Longrightarrow> \<exists>ls. request_section fm (JObj cpr) = Some ls"
  by (auto simp: build_cost_per_request_def request_section_def side_line_def cost_side_def obj_get_or_def
      split: bind_splits prod.splits)

lemma training_section_obj: "\<exists>ls. training_section fm (JObj d) = Some ls"
  by (simp add: training_section_def)

lemma evidence_built:
  assumes "evidence stats sha now e = Inr c"
  shows "\<exists>base ft a pc rc cpr. build_comparison stats sha now base ft a pc = Inr c
    \<and> ra_cost a = Some cpr \<and> build_cost_per_request rc = Some cpr"
proof -
  obtain base ft cpr pc where p: "side_scores (ep_rows e) (ep_cases e) (ep_base e) = Inr base"
    "side_scores (ep_rows e) (ep_cases e) (ep_ft e) = Inr ft" "episode_costs e = Some cpr"
    "per_case_vectors (ep_rows e) (ep_cases e) (ep_base e) (ep_ft e) = Inr pc"
    using assms by (auto simp: evidence_def res_bind_Inr_iff split: option.split_asm)
  let ?a = "\<lparr>ra_model_ids = [(''base'', ep_base_model e), (''ft'', ep_ft_model e)],
    ra_dataset_size = int (length (ep_rows e) + length (ep_cases e)),
    ra_training_cost = Some (record_json (ep_cost e)), ra_git_sha = None,
    ra_recorded_at = None, ra_meta = None, ra_cost = Some cpr\<rparr>"
  have "build_comparison stats sha now base ft ?a (Some pc) = Inr c"
    using assms p
    by (cases "build_comparison stats sha now base ft ?a (Some pc)") (simp_all add: evidence_def)
  moreover have "\<exists>rc. build_cost_per_request rc = Some cpr"
    using p(3) by (auto simp: episode_costs_def split: bind_splits)
  ultimately show ?thesis by (metis report_args.select_convs(7))
qed

text \<open>What a built comparison shows.\<close>

lemma built_renders:
  assumes c: "build_comparison stats sha now base ft a pc = Inr c"
    and cost: "ra_cost a = Some cpr" "build_cost_per_request rc = Some cpr"
  shows "\<exists>ls. comparison_lines fm c = Some ls
    \<and> (\<forall>m\<in>set METRICS. \<exists>row b f d. metric_block (to_json c) m = Inr row
         \<and> obj_get row ''base'' = JFloat b \<and> obj_get row ''ft'' = JFloat f \<and> obj_get row ''delta'' = JFloat d
         \<and> table_row [m, fm_fixed fm 4 b, fm_fixed fm 4 f, (if d = Fin 0 then ''+0.0000'' else fm_signed fm 4 d),
             TARGETS m] \<in> set ls)"
proof -
  let ?pc = "case pc of Some v \<Rightarrow> v | None \<Rightarrow> []"
  obtain bs where bs: "build_blocks stats ?pc base ft = Some bs" "cr_metrics c = JObj bs" "cr_cost c = JObj cpr"
    "\<exists>d. cr_training_cost c = JObj d" "\<exists>d. cr_model_ids c = JObj d"
    using c cost(1) by (auto simp: build_comparison_def Let_def obj_or_empty_def split: if_splits option.splits)
  obtain rows where rows: "metric_rows (JObj bs) = Some rows" "map fst rows = METRICS"
    "\<forall>(m, blk)\<in>set rows. block_of stats ?pc m (score_of base m) (score_of ft m) = Some blk \<and> map_of bs m = Some (JObj blk)"
    using built_metric_rows [OF bs(1)] by blast
  then have blocks: "\<forall>(m, blk)\<in>set rows. block_of stats ?pc m (score_of base m) (score_of ft m) = Some blk" by auto
  obtain ls1 where ls1: "score_section fm rows = Some ls1" using built_sections(1) [OF blocks] by blast
  obtain ls2 where ls2: "stats_section fm c rows = Some ls2" using built_sections(2) [OF blocks] by blast
  obtain ls3 ls4 where ls34: "request_section fm (cr_cost c) = Some ls3" "training_section fm (cr_training_cost c) = Some ls4"
    using request_section_built [OF cost(2)] training_section_obj bs(3,4) by metis
  obtain ids where ids: "cr_model_ids c = JObj ids" using bs(5) by blast
  have "\<exists>ls. comparison_lines fm c = Some ls \<and> set ls1 \<subseteq> set ls"
    by (simp add: comparison_lines_def ids bs(2) rows(1) ls1 ls2 ls34 subset_iff)
  then obtain ls where ls: "comparison_lines fm c = Some ls" "set ls1 \<subseteq> set ls" by blast
  have "\<exists>row b f d. metric_block (to_json c) m = Inr row
      \<and> obj_get row ''base'' = JFloat b \<and> obj_get row ''ft'' = JFloat f \<and> obj_get row ''delta'' = JFloat d
      \<and> table_row [m, fm_fixed fm 4 b, fm_fixed fm 4 f, (if d = Fin 0 then ''+0.0000'' else fm_signed fm 4 d),
          TARGETS m] \<in> set ls" if m: "m \<in> set METRICS" for m
  proof -
    obtain blk where blk: "(m, blk) \<in> set rows" using m rows(2) by (metis in_set_impl_in_set_zip1 imageE list.set_map prod.collapse)
    have b: "block_of stats ?pc m (score_of base m) (score_of ft m) = Some blk" "map_of bs m = Some (JObj blk)"
      using rows(3) blk by auto
    note line = built_block_lines(1) [OF b(1), of fm]
    have shape: "obj_get blk ''base'' = JFloat (f_round (score_of base m) 4)" "obj_get blk ''ft'' = JFloat (f_round (score_of ft m) 4)"
      "obj_get blk ''delta'' = JFloat (metric_delta (score_of base m) (score_of ft m))"
      using block_of_parts [OF b(1)] by (auto simp: plain_block_def obj_get_def)
    then have "metric_block (to_json c) m = Inr blk"
      using b(2) bs(2) by (simp add: metric_block_def to_json_get)
    moreover have "the (score_line fm m blk) \<in> set ls"
      using those_mem [of _ rows ls1 "(m, blk)"] ls1 blk line ls(2) by (auto simp: score_section_def)
    ultimately show ?thesis using line shape by auto
  qed
  then show ?thesis using ls(1) by blast
qed

text \<open>C39: The evidence of an episode can always be rendered, and what a person reads is what the gate reads: the
  Markdown of a comparison that an episode assembled has, for every metric, the table row with the base
  score, the fine-tuned score and the difference of the block that the promotion gate looks up under
  that metric.\<close>

theorem evidence_renders:
  assumes "evidence stats sha now e = Inr c"
  shows "\<exists>ls. comparison_lines fm c = Some ls \<and> comparison_markdown fm c = Some (str_join NL ls)
    \<and> (\<forall>m\<in>set METRICS. \<exists>row b f d. metric_block (to_json c) m = Inr row
         \<and> obj_get row ''base'' = JFloat b \<and> obj_get row ''ft'' = JFloat f \<and> obj_get row ''delta'' = JFloat d
         \<and> table_row [m, fm_fixed fm 4 b, fm_fixed fm 4 f, (if d = Fin 0 then ''+0.0000'' else fm_signed fm 4 d),
             TARGETS m] \<in> set ls)"
  using evidence_built [OF assms] built_renders [of stats sha now _ _ _ _ c _ _ fm]
  by (fastforce simp: comparison_markdown_def)

definition demo_formats :: formats where
  "demo_formats = \<lparr>fm_fixed = (\<lambda>_ x. if x = Fin 1 then ''1.0000'' else ''0.5000''), fm_signed = (\<lambda>_ _. ''+0.5000''),
     fm_str = (\<lambda>_. ''x'')\<rparr>"

theorem evidence_renders_witness:
  "\<exists>c ls. evidence demo_stats [] [] demo_episode = Inr c \<and> comparison_lines demo_formats c = Some ls
    \<and> comparison_markdown demo_formats c = Some (str_join NL ls) \<and> is_ok (metric_block (to_json c) ''faithfulness'')"
proof -
  obtain c where c: "evidence demo_stats [] [] demo_episode = Inr c" using demo_evidence by blast
  show ?thesis using evidence_renders [OF c, of demo_formats] c by (auto simp: METRICS_def is_ok_def)
qed

end
