(* ===== verification/Bench_Load.thy ===== *)
theory Bench_Load
  imports Py_Sort
begin

text \<open>
  The load generator of the serving benchmark (\<open>infra/bench/atlas_bench/runner.py\<close>): workers that
  share one counter keep a number of requests in flight until a total has been issued or a
  deadline has passed. The code of a worker between two suspension points is one step, and the
  order in which requests are answered is arbitrary, so the model is a step relation; the theorems
  hold for every interleaving. A request that raises ends the run and is outside the model (the
  live client turns its errors into failed samples).
\<close>

section \<open>Samples and configuration\<close>

record request_result =
  rq_ok :: bool
  rq_latency :: pyfloat
  rq_ttft :: "pyfloat option"
  rq_tokens :: int
  rq_error :: "string option"

record load_config =
  lc_prompts :: "string list"
  lc_concurrency :: int
  lc_total :: "int option"
  lc_duration :: "pyfloat option"
  lc_warmup :: int

datatype load_error = NoPrompts | StopCondition

definition load_guard :: "load_config \<Rightarrow> (load_error, unit) result" where
  "load_guard c =
     (if lc_prompts c = [] then Inl NoPrompts
      else if (lc_total c = None) = (lc_duration c = None) then Inl StopCondition
      else Inr ())"

definition prompt_at :: "load_config \<Rightarrow> nat \<Rightarrow> string" where
  "prompt_at c i = lc_prompts c ! (i mod length (lc_prompts c))"

text \<open>The prompts of the warm-up, sent and discarded before the clock starts.\<close>

definition warmup_prompts :: "load_config \<Rightarrow> string list" where
  "warmup_prompts c = map (prompt_at c) [0..<nat (lc_warmup c)]"

section \<open>Workers\<close>

datatype worker = Ready | Waiting | Finished

record load_state =
  ld_workers :: "worker list"
  ld_issued :: nat
  ld_sent :: "string list"
  ld_results :: "request_result list"

definition load_init :: "load_config \<Rightarrow> load_state" where
  "load_init c =
     \<lparr>ld_workers = replicate (nat (lc_concurrency c)) Ready, ld_issued = 0, ld_sent = [], ld_results = []\<rparr>"

text \<open>\<open>t\<close> is the clock when a worker asks, \<open>start\<close> the clock when the run began.\<close>

definition should_issue :: "load_config \<Rightarrow> pyfloat \<Rightarrow> pyfloat \<Rightarrow> load_state \<Rightarrow> bool" where
  "should_issue c start t s =
     (case lc_total c of
        Some n \<Rightarrow> int (ld_issued s) < n
      | None \<Rightarrow> (case lc_duration c of
                  Some d \<Rightarrow> f_lt t (f_add start d) | None \<Rightarrow> False))"

definition issue :: "load_config \<Rightarrow> nat \<Rightarrow> load_state \<Rightarrow> load_state" where
  "issue c w s =
     s\<lparr>ld_workers := (ld_workers s)[w := Waiting], ld_issued := ld_issued s + 1,
       ld_sent := ld_sent s @ [prompt_at c (ld_issued s)]\<rparr>"

definition answer :: "nat \<Rightarrow> request_result \<Rightarrow> load_state \<Rightarrow> load_state" where
  "answer w r s =
     s\<lparr>ld_workers := (ld_workers s)[w := Ready], ld_results := ld_results s @ [r]\<rparr>"

definition stop :: "nat \<Rightarrow> load_state \<Rightarrow> load_state" where
  "stop w s = s\<lparr>ld_workers := (ld_workers s)[w := Finished]\<rparr>"

definition worker_is :: "load_state \<Rightarrow> nat \<Rightarrow> worker \<Rightarrow> bool" where
  "worker_is s w x \<longleftrightarrow> w < length (ld_workers s) \<and> ld_workers s ! w = x"

inductive load_step :: "load_config \<Rightarrow> pyfloat \<Rightarrow> load_state \<Rightarrow> load_state \<Rightarrow> bool"
  for c :: load_config and start :: pyfloat where
  issue: "worker_is s w Ready \<Longrightarrow> should_issue c start t s \<Longrightarrow> load_step c start s (issue c w s)"
| stop: "worker_is s w Ready \<Longrightarrow> \<not> should_issue c start t s \<Longrightarrow> load_step c start s (stop w s)"
| answer: "worker_is s w Waiting \<Longrightarrow> load_step c start s (answer w r s)"

inductive_cases load_stepE: "load_step c start s s'"

definition load_reach :: "load_config \<Rightarrow> pyfloat \<Rightarrow> load_state \<Rightarrow> bool" where
  "load_reach c start s = (load_step c start)\<^sup>*\<^sup>* (load_init c) s"

definition all_finished :: "load_state \<Rightarrow> bool" where
  "all_finished s = list_all (\<lambda>w. w = Finished) (ld_workers s)"

definition in_flight :: "load_state \<Rightarrow> nat" where
  "in_flight s = count_if (\<lambda>w. w = Waiting) (ld_workers s)"

section \<open>Invariant\<close>

definition load_inv :: "load_config \<Rightarrow> load_state \<Rightarrow> bool" where
  "load_inv c s \<longleftrightarrow>
     length (ld_workers s) = nat (lc_concurrency c)
     \<and> ld_sent s = map (prompt_at c) [0..<ld_issued s]
     \<and> ld_issued s = length (ld_results s) + in_flight s
     \<and> (\<forall>n. lc_total c = Some n \<longrightarrow> ld_issued s \<le> nat n
          \<and> (Finished \<in> set (ld_workers s) \<longrightarrow> ld_issued s = nat n))"

lemma count_if_update:
  "w < length xs \<Longrightarrow> count_if p (xs[w := x]) + (if p (xs ! w) then 1 else 0) =
     count_if p xs + (if p x then 1 else 0)"
proof (induction xs arbitrary: w)
  case (Cons y ys)
  then show ?case by (cases w) (auto simp: count_if_def)
qed simp

lemma set_update_worker: "w < length xs \<Longrightarrow> Finished \<in> set (xs[w := x]) \<Longrightarrow>
    x = Finished \<or> Finished \<in> set xs"
  using set_update_subset_insert [of xs w x] by auto

lemma load_inv_init: "load_inv c (load_init c)"
  by (auto simp: load_inv_def load_init_def in_flight_def count_if_0)

lemma should_issue_total:
  "lc_total c = Some n \<Longrightarrow> should_issue c start t s \<longleftrightarrow> int (ld_issued s) < n"
  by (simp add: should_issue_def)

lemma load_inv_step:
  assumes "load_step c start s s'" and "load_inv c s"
  shows "load_inv c s'"
  using assms(1)
proof cases
  case (issue w t)
  have w: "w < length (ld_workers s)" "ld_workers s ! w = Ready"
    using issue(2) by (simp_all add: worker_is_def)
  have flight: "in_flight (issue c w s) = in_flight s + 1"
    using count_if_update [OF w(1), of "\<lambda>w. w = Waiting" Waiting] w(2)
    by (simp add: in_flight_def issue_def)
  have total: "ld_issued s + 1 \<le> nat n
      \<and> (Finished \<in> set ((ld_workers s)[w := Waiting]) \<longrightarrow> ld_issued s + 1 = nat n)"
    if n: "lc_total c = Some n" for n
  proof -
    have lt: "ld_issued s < nat n" using issue(3) should_issue_total [OF n] by simp
    then have "Finished \<notin> set (ld_workers s)" using assms(2) n by (auto simp: load_inv_def)
    then show ?thesis using lt set_update_worker [OF w(1), of Waiting] by auto
  qed
  show ?thesis
    using assms(2) flight total by (simp add: load_inv_def issue(1) issue_def)
next
  case (stop w t)
  have w: "w < length (ld_workers s)" "ld_workers s ! w = Ready"
    using stop(2) by (simp_all add: worker_is_def)
  have flight: "in_flight (stop w s) = in_flight s"
    using count_if_update [OF w(1), of "\<lambda>w. w = Waiting" Finished] w(2)
    by (simp add: in_flight_def stop_def)
  have total: "ld_issued s = nat n" if n: "lc_total c = Some n" for n
  proof -
    have "\<not> int (ld_issued s) < n" using stop(3) should_issue_total [OF n] by simp
    moreover have "ld_issued s \<le> nat n" using assms(2) n by (simp add: load_inv_def)
    ultimately show ?thesis by simp
  qed
  show ?thesis
    using assms(2) flight total by (simp add: load_inv_def stop(1) stop_def)
next
  case (answer w r)
  have w: "w < length (ld_workers s)" "ld_workers s ! w = Waiting"
    using answer(2) by (simp_all add: worker_is_def)
  have flight: "in_flight (answer w r s) + 1 = in_flight s"
    using count_if_update [OF w(1), of "\<lambda>w. w = Waiting" Ready] w(2)
    by (simp add: in_flight_def answer_def)
  have "Finished \<in> set ((ld_workers s)[w := Ready]) \<Longrightarrow> Finished \<in> set (ld_workers s)"
    using set_update_worker [OF w(1), of Ready] by auto
  then show ?thesis
    using assms(2) flight by (auto simp: load_inv_def answer(1) answer_def)
qed

lemma load_reach_inv: "load_reach c start s \<Longrightarrow> load_inv c s"
  unfolding load_reach_def
  by (induction rule: rtranclp_induct) (auto intro: load_inv_init load_inv_step)

section \<open>Termination and progress\<close>

fun weight :: "worker \<Rightarrow> nat" where
  "weight Ready = 1"
| "weight Waiting = 2"
| "weight Finished = 0"

definition remaining :: "load_config \<Rightarrow> load_state \<Rightarrow> nat" where
  "remaining c s =
     2 * (case lc_total c of Some n \<Rightarrow> nat n - ld_issued s | None \<Rightarrow> 0)
     + sum_list (map weight (ld_workers s))"

lemma weight_update: "w < length xs \<Longrightarrow>
    sum_list (map weight (xs[w := x])) + weight (xs ! w) = sum_list (map weight xs) + weight x"
proof (induction xs arbitrary: w)
  case (Cons y ys)
  then show ?case by (cases w) auto
qed simp

lemma remaining_step:
  assumes "load_step c start s s'" and "lc_total c = Some n"
  shows "remaining c s' < remaining c s"
  using assms(1)
proof cases
  case (issue w t)
  then show ?thesis using weight_update [of w "ld_workers s" Waiting] assms(2)
    by (auto simp: remaining_def issue_def worker_is_def should_issue_def)
next
  case (stop w t)
  then show ?thesis using weight_update [of w "ld_workers s" Finished] assms(2)
    by (auto simp: remaining_def stop_def worker_is_def)
next
  case (answer w r)
  then show ?thesis using weight_update [of w "ld_workers s" Ready] assms(2)
    by (auto simp: remaining_def answer_def worker_is_def)
qed

lemma load_progress:
  assumes "\<not> all_finished s"
  shows "\<exists>s'. load_step c start s s'"
proof -
  obtain x where x: "x \<in> set (ld_workers s)" "x \<noteq> Finished"
    using assms by (auto simp: all_finished_def list_all_iff)
  then obtain w where w: "w < length (ld_workers s)" "ld_workers s ! w = x"
    by (auto simp: in_set_conv_nth)
  show ?thesis
  proof (cases x)
    case Ready
    then have "worker_is s w Ready" using w by (simp add: worker_is_def)
    then show ?thesis using load_step.issue load_step.stop by blast
  next
    case Waiting
    then have "worker_is s w Waiting" using w by (simp add: worker_is_def)
    then show ?thesis using load_step.answer by blast
  qed (use x in simp)
qed

lemma finished_stuck:
  assumes "all_finished s"
  shows "\<not> load_step c start s s'"
proof
  have fin: "ld_workers s ! w = Finished" if "w < length (ld_workers s)" for w
    using assms that by (simp add: all_finished_def list_all_length)
  assume "load_step c start s s'"
  then show False by cases (auto simp: worker_is_def fin)
qed

lemma steps_bounded:
  assumes "(load_step c start ^^ k) s s'" and "lc_total c = Some n"
  shows "k + remaining c s' \<le> remaining c s"
  using assms(1)
proof (induction k arbitrary: s')
  case (Suc k)
  then obtain m where "(load_step c start ^^ k) s m" "load_step c start m s'" by auto
  then show ?case using Suc.IH [of m] remaining_step [OF _ assms(2)] by force
qed simp

lemma remaining_init: "lc_total c = Some n \<Longrightarrow> remaining c (load_init c) = 2 * nat n + nat (lc_concurrency c)"
  by (simp add: remaining_def load_init_def sum_list_replicate)

lemma all_finished_counts:
  assumes "load_inv c s" "all_finished s" "lc_total c = Some n" "0 < lc_concurrency c"
  shows "ld_issued s = nat n" and "in_flight s = 0"
proof -
  have "ld_workers s \<noteq> []" using assms(1,4) by (auto simp: load_inv_def)
  then have "hd (ld_workers s) \<in> set (ld_workers s)" by simp
  then have "Finished \<in> set (ld_workers s)"
    using assms(2) by (metis (full_types) all_finished_def list_all_iff)
  then show "ld_issued s = nat n" using assms(1,3) by (auto simp: load_inv_def)
  show "in_flight s = 0"
    using assms(2) by (auto simp: in_flight_def count_if_0 all_finished_def list_all_iff)
qed

text \<open>C18: Running one concurrency level terminates and does exactly the requested work under every
  interleaving. With a request total \<open>n\<close> and at least one worker, any execution of \<open>k\<close> steps has
  \<open>k \<le> 2 n + concurrency\<close>; at most \<open>concurrency\<close> requests are ever in flight; and an execution that
  can go no further has sent the prompts \<open>0 .. n-1\<close> round robin, each once and in order, and holds
  exactly \<open>n\<close> samples.\<close>

theorem load_run_complete:
  assumes "lc_total c = Some n" "0 < lc_concurrency c"
    and "(load_step c start ^^ k) (load_init c) s"
  shows "k \<le> 2 * nat n + nat (lc_concurrency c) \<and> in_flight s \<le> nat (lc_concurrency c)
    \<and> ((\<nexists>s'. load_step c start s s') \<longrightarrow>
         ld_sent s = map (prompt_at c) [0..<nat n] \<and> length (ld_results s) = nat n)"
proof -
  have inv: "load_inv c s"
    using load_reach_inv assms(3) by (auto simp: load_reach_def intro: relpowp_imp_rtranclp)
  have k: "k \<le> 2 * nat n + nat (lc_concurrency c)"
    using steps_bounded [OF assms(3,1)] remaining_init [OF assms(1)] by simp
  have flight: "in_flight s \<le> nat (lc_concurrency c)"
    using inv count_if_le by (metis in_flight_def load_inv_def)
  have final: "ld_sent s = map (prompt_at c) [0..<nat n] \<and> length (ld_results s) = nat n"
    if "\<nexists>s'. load_step c start s s'"
  proof -
    have "all_finished s" using that load_progress by blast
    then show ?thesis using all_finished_counts [OF inv _ assms(1,2)] inv
      by (simp add: load_inv_def)
  qed
  show ?thesis using k flight final by blast
qed

definition demo_load :: load_config where
  "demo_load = \<lparr>lc_prompts = [''a'', ''b''], lc_concurrency = 1, lc_total = Some 1,
     lc_duration = None, lc_warmup = 0\<rparr>"

definition demo_sample :: request_result where
  "demo_sample = \<lparr>rq_ok = True, rq_latency = Fin (1 / 2), rq_ttft = None, rq_tokens = 7, rq_error = None\<rparr>"

definition demo_end :: load_state where
  "demo_end = stop 0 (answer 0 demo_sample (issue demo_load 0 (load_init demo_load)))"

lemmas demo_defs = demo_load_def demo_sample_def demo_end_def load_init_def issue_def answer_def
  stop_def worker_is_def should_issue_def all_finished_def

lemma demo_run: "(load_step demo_load (Fin 0) ^^ 3) (load_init demo_load) demo_end"
proof -
  let ?s1 = "issue demo_load 0 (load_init demo_load)" and ?R = "load_step demo_load (Fin 0)"
  have "?R (load_init demo_load) ?s1" by (rule load_step.issue) (simp_all add: demo_defs)
  moreover have "?R ?s1 (answer 0 demo_sample ?s1)"
    by (rule load_step.answer) (simp add: demo_defs)
  moreover have "?R (answer 0 demo_sample ?s1) demo_end" unfolding demo_end_def
    by (rule load_step.stop) (simp_all add: demo_defs)
  ultimately show ?thesis by (auto simp: eval_nat_numeral)
qed

theorem load_run_complete_witness:
  "ld_sent demo_end = [''a''] \<and> length (ld_results demo_end) = 1 \<and> in_flight demo_end \<le> 1"
proof -
  have "all_finished demo_end" by (simp add: demo_defs)
  then have "\<nexists>s'. load_step demo_load (Fin 0) demo_end s'" using finished_stuck by blast
  then show ?thesis
    using load_run_complete [of demo_load 1 3 "Fin 0" demo_end] demo_run
    by (simp add: demo_load_def prompt_at_def)
qed

end
