(* ===== verification/Bench_Metrics.thy ===== *)
theory Bench_Metrics
  imports Bench_Load "HOL-Library.Monad_Syntax"
begin

text \<open>
  The arithmetic of the serving benchmark (\<open>infra/bench/atlas_bench/metrics.py\<close>): interpolated
  percentiles, the summary of one concurrency level, and the cost per million tokens. An error of
  Python (a floor of NaN, a division by zero) is \<open>None\<close>.
\<close>

section \<open>Percentiles\<close>

definition interpolate :: "pyfloat list \<Rightarrow> pyfloat \<Rightarrow> pyfloat option" where
  "interpolate ordered rank =
     do {
       lo \<leftarrow> f_floor rank;
       hi \<leftarrow> f_ceil rank;
       a \<leftarrow> py_index ordered lo;
       if lo = hi then Some a
       else do {
         b \<leftarrow> py_index ordered hi;
         Some (f_add a (f_mul (f_sub b a) (f_sub rank (f_of_int lo))))
       }
     }"

definition percentile :: "pyfloat list \<Rightarrow> pyfloat \<Rightarrow> pyfloat option" where
  "percentile xs p =
     (if xs = [] then Some (Fin 0)
      else if f_le p (Fin 0) then Some (list_min xs)
      else if f_le (Fin 100) p then Some (list_max xs)
      else do {
        q \<leftarrow> f_div p (Fin 100);
        interpolate (sort xs) (f_mul q (f_of_int (int (length xs) - 1)))
      })"

section \<open>The summary of one level\<close>

record bench_point =
  bp_concurrency :: int
  bp_requests :: nat
  bp_errors :: nat
  bp_error_rate :: pyfloat
  bp_wall_s :: pyfloat
  bp_requests_per_s :: pyfloat
  bp_output_tokens :: int
  bp_output_tokens_per_s :: pyfloat
  bp_ttft_p50_ms :: pyfloat
  bp_ttft_p90_ms :: pyfloat
  bp_ttft_p99_ms :: pyfloat
  bp_e2e_p50_ms :: pyfloat
  bp_e2e_p90_ms :: pyfloat
  bp_e2e_p99_ms :: pyfloat

definition ok_samples :: "request_result list \<Rightarrow> request_result list" where
  "ok_samples rs = filter rq_ok rs"

definition e2e_ms :: "request_result list \<Rightarrow> pyfloat list" where
  "e2e_ms rs = map (\<lambda>r. f_mul (rq_latency r) (Fin 1000)) (ok_samples rs)"

definition ttft_ms :: "request_result list \<Rightarrow> pyfloat list" where
  "ttft_ms rs = map (\<lambda>t. f_mul t (Fin 1000)) (List.map_filter rq_ttft (ok_samples rs))"

definition out_tokens :: "request_result list \<Rightarrow> int" where
  "out_tokens rs = sum_list (map rq_tokens (ok_samples rs))"

definition wall_window :: "pyfloat \<Rightarrow> pyfloat" where
  "wall_window w = (if f_lt (Fin 0) w then w else fl (1 / 10 ^ 9))"

definition rounded :: "nat \<Rightarrow> pyfloat option \<Rightarrow> pyfloat option" where
  "rounded n = map_option (\<lambda>x. f_round x n)"

definition summarize :: "int \<Rightarrow> pyfloat \<Rightarrow> request_result list \<Rightarrow> bench_point option" where
  "summarize c wall_s rs =
     do {
       rps \<leftarrow> f_div (f_of_int (int (length (ok_samples rs)))) (wall_window wall_s);
       tps \<leftarrow> f_div (f_of_int (out_tokens rs)) (wall_window wall_s);
       t50 \<leftarrow> rounded 1 (percentile (ttft_ms rs) (Fin 50));
       t90 \<leftarrow> rounded 1 (percentile (ttft_ms rs) (Fin 90));
       t99 \<leftarrow> rounded 1 (percentile (ttft_ms rs) (Fin 99));
       e50 \<leftarrow> rounded 1 (percentile (e2e_ms rs) (Fin 50));
       e90 \<leftarrow> rounded 1 (percentile (e2e_ms rs) (Fin 90));
       e99 \<leftarrow> rounded 1 (percentile (e2e_ms rs) (Fin 99));
       Some \<lparr>bp_concurrency = c,
             bp_requests = length rs,
             bp_errors = length rs - length (ok_samples rs),
             bp_error_rate =
               (if rs = [] then Fin 0
                else int_div (int (length rs - length (ok_samples rs))) (int (length rs))),
             bp_wall_s = f_round wall_s 4,
             bp_requests_per_s = f_round rps 3,
             bp_output_tokens = out_tokens rs,
             bp_output_tokens_per_s = f_round tps 2,
             bp_ttft_p50_ms = t50, bp_ttft_p90_ms = t90, bp_ttft_p99_ms = t99,
             bp_e2e_p50_ms = e50, bp_e2e_p90_ms = e90, bp_e2e_p99_ms = e99\<rparr>
     }"

text \<open>The point of a run whose workers have finished, \<open>t0\<close> and \<open>t1\<close> the clock around it.\<close>

definition run_point :: "load_config \<Rightarrow> pyfloat \<Rightarrow> pyfloat \<Rightarrow> load_state \<Rightarrow> bench_point option" where
  "run_point c t0 t1 s = summarize (lc_concurrency c) (f_sub t1 t0) (ld_results s)"

definition cost_per_million_tokens :: "pyfloat \<Rightarrow> pyfloat \<Rightarrow> pyfloat option" where
  "cost_per_million_tokens rate tps =
     (if f_le tps (Fin 0) then Some PInf
      else do {
        m \<leftarrow> f_div (f_mul tps (Fin 3600)) (Fin 1000000);
        c \<leftarrow> f_div rate m;
        Some (f_round c 4)
      })"

section \<open>Percentiles of finite samples\<close>

definition all_fin :: "pyfloat list \<Rightarrow> bool" where
  "all_fin xs = list_all is_fin xs"

lemma all_fin_no_NaN: "all_fin xs \<Longrightarrow> NaN \<notin> set xs"
  by (auto simp: all_fin_def list_all_iff)

lemma is_fin_iff: "is_fin x \<longleftrightarrow> (\<exists>r. x = Fin r)"
  by (cases x) auto

text \<open>The rank lies between two positions of the list, for a percentage strictly between 0 and 100.\<close>

lemma percent_rank:
  assumes "0 < p" "p < 100" "xs \<noteq> []" "length xs < 2 ^ 53"
  shows "\<exists>q r. f_div (Fin p) (Fin 100) = Some q
    \<and> f_mul q (f_of_int (int (length xs) - 1)) = Fin r \<and> 0 \<le> r \<and> r \<le> of_int (int (length xs) - 1)"
proof -
  have "0 \<le> p / 100" "p / 100 \<le> 1" using assms by simp_all
  then have "f_le (fl 0) (fl (p / 100)) \<and> f_le (fl (p / 100)) (fl 1)"
    using fl_mono by blast
  then obtain q where q: "fl (p / 100) = Fin q" "0 \<le> q" "q \<le> 1"
    using f_le_Fin_iff [of "fl (p / 100)" 1] by auto
  have n: "\<bar>int (length xs) - 1\<bar> < 2 ^ 53" "0 \<le> int (length xs) - 1"
    using assms(3,4) by (cases xs; simp)+
  then have "f_of_int (int (length xs) - 1) = Fin (of_int (int (length xs) - 1))"
    by (simp only: f_of_int_def fl_small_int)
  then show ?thesis
    using scaled_rank [OF q(2,3) n] q(1) by (simp add: f_div_def)
qed

text \<open>Samples are binary64 numbers that are finite and not negative.\<close>

definition sample_ok :: "pyfloat \<Rightarrow> bool" where
  "sample_ok x = (is_f64 x \<and> f_le (Fin 0) x \<and> is_fin x)"

lemma sample_okE:
  assumes "sample_ok x"
  obtains a where "x = Fin a" "0 \<le> a" "fl a = Fin a"
  using assms by (cases x) (auto simp: sample_ok_def fl_Fin)

lemma fl_between:
  assumes "0 \<le> x" "x \<le> b" "fl b = Fin b"
  shows "\<exists>y. fl x = Fin y \<and> 0 \<le> y \<and> y \<le> b \<and> fl y = Fin y"
proof -
  have "f_le (fl 0) (fl x)" "f_le (fl x) (fl b)" using assms fl_mono by blast+
  then obtain y where y: "fl x = Fin y" "0 \<le> y" "y \<le> b"
    using f_le_Fin_iff [of "fl x" b] assms(3) by auto
  then show ?thesis using is_f64_fl [of x] fl_Fin [of y] by simp
qed

lemma interpolation_step:
  assumes "sample_ok a" "sample_ok b" "f_le a b" "0 \<le> f" "f \<le> 1"
  shows "\<exists>v. f_add a (f_mul (f_sub b a) (fl f)) = v \<and> f_le a v"
proof -
  obtain a' where a: "a = Fin a'" "0 \<le> a'" "fl a' = Fin a'" using assms(1) by (rule sample_okE)
  obtain b' where b: "b = Fin b'" "0 \<le> b'" "fl b' = Fin b'" using assms(2) by (rule sample_okE)
  have "0 \<le> b' - a'" "b' - a' \<le> b'" using assms(3) a b by simp_all
  then obtain d where d: "fl (b' - a') = Fin d" "0 \<le> d" "fl d = Fin d"
    using fl_between [OF _ _ b(3)] by blast
  obtain g where g: "fl f = Fin g" "0 \<le> g" "g \<le> 1"
    using fl_between [OF assms(4,5)] by auto
  have "0 \<le> d * g" "d * g \<le> d" using d g by (simp_all add: mult_left_le)
  then obtain m where m: "fl (d * g) = Fin m" "0 \<le> m"
    using fl_between [OF _ _ d(3)] by blast
  have "f_le (Fin a') (f_add (Fin a') (Fin m))"
    using f_add_ge [OF _ m(2)] a(3) is_f64_fl [of a'] by simp
  then show ?thesis
    using a b d g m by (simp add: f_sub_def f_mul_def)
qed

lemma rank_positions:
  assumes "0 \<le> r" "r \<le> of_int (int n - 1)"
  obtains i j where "\<lfloor>r\<rfloor> = int i" "\<lceil>r\<rceil> = int j" "i \<le> j" "j < n"
proof
  have nn: "0 \<le> \<lfloor>r\<rfloor>" "\<lceil>r\<rceil> \<le> int n - 1"
    using assms by (simp, simp only: ceiling_le_iff)
  moreover have "\<lfloor>r\<rfloor> \<le> \<lceil>r\<rceil>" by (rule floor_le_ceiling)
  ultimately show "\<lfloor>r\<rfloor> = int (nat \<lfloor>r\<rfloor>)" "\<lceil>r\<rceil> = int (nat \<lceil>r\<rceil>)" "nat \<lfloor>r\<rfloor> \<le> nat \<lceil>r\<rceil>" "nat \<lceil>r\<rceil> < n"
    by linarith+
qed

lemma sort_nth_mem: "i < length xs \<Longrightarrow> sort xs ! i \<in> set xs"
  by (metis length_sort nth_mem set_sort)

lemma interpolate_ge:
  assumes ok: "\<forall>x\<in>set xs. sample_ok x" and r: "0 \<le> r" "r \<le> of_int (int (length xs) - 1)"
    and len: "length xs < 2 ^ 53"
  shows "\<exists>v. interpolate (sort xs) (Fin r) = Some v \<and> f_le (list_min xs) v"
proof -
  obtain i j where ij: "\<lfloor>r\<rfloor> = int i" "\<lceil>r\<rceil> = int j" "i \<le> j" "j < length xs"
    by (rule rank_positions [OF r])
  have nn: "NaN \<notin> set xs" using ok by (auto simp: sample_ok_def)
  have mem: "sort xs ! i \<in> set xs" "sort xs ! j \<in> set xs" 
    using ij by (simp_all add: sort_nth_mem)
  have idx: "py_index (sort xs) (int i) = Some (sort xs ! i)"
    "py_index (sort xs) (int j) = Some (sort xs ! j)"
    using ij by (simp_all add: py_index_Some)
  have lo_f: "f_of_int (int i) = Fin (of_int (int i))"
    unfolding f_of_int_def using ij len by (intro fl_small_int) simp
  have "0 \<le> r - of_int \<lfloor>r\<rfloor>" "r - of_int \<lfloor>r\<rfloor> \<le> 1" by linarith+
  then have frac: "0 \<le> r - of_int (int i)" "r - of_int (int i) \<le> 1" using ij(1) by simp_all
  have lo: "sample_ok (sort xs ! i)" and hi: "sample_ok (sort xs ! j)" using ok mem by auto
  obtain v where v: "f_add (sort xs ! i) (f_mul (f_sub (sort xs ! j) (sort xs ! i))
      (fl (r - of_int (int i)))) = v" "f_le (sort xs ! i) v"
    using interpolation_step [OF lo hi sorted_nth_le [OF ij(3,4) nn] frac] by blast
  have le: "f_le (list_min xs) (sort xs ! i)" by (rule list_min_le [OF nn mem(1)])
  show ?thesis
    using idx ij(1,2) lo_f v le f_le_trans [OF le v(2)]
    by (auto simp: interpolate_def f_floor_def f_ceil_def f_sub_def)
qed

lemma percentile_total:
  assumes "\<forall>x\<in>set xs. sample_ok x" "length xs < 2 ^ 53" "xs \<noteq> []" "0 < p" "p < 100"
  shows "\<exists>v. percentile xs (Fin p) = Some v \<and> f_le (list_min xs) v"
proof -
  obtain q r where q: "f_div (Fin p) (Fin 100) = Some q"
    "f_mul q (f_of_int (int (length xs) - 1)) = Fin r" "0 \<le> r" "r \<le> of_int (int (length xs) - 1)"
    using percent_rank [OF assms(4,5,3,2)] by blast
  obtain v where v: "interpolate (sort xs) (Fin r) = Some v" "f_le (list_min xs) v"
    using interpolate_ge [OF assms(1) q(3,4) assms(2)] by blast
  have "percentile xs (Fin p) = Some v"
    using assms(3-5) q v(1) by (simp add: percentile_def del: of_nat_diff)
  then show ?thesis using v(2) by blast
qed

section \<open>The summary accounts for every sample\<close>

lemma fl_nano: "fl (1 / 10 ^ 9) \<noteq> Fin 0"
  by code_simp

lemma wall_window_nonzero: "wall_window w \<noteq> Fin 0"
  using fl_nano by (auto simp: wall_window_def)

lemma f_div_defined: "y \<noteq> Fin 0 \<Longrightarrow> \<exists>z. f_div x y = Some z"
  by (cases x; cases y) (auto simp: f_div_def)

text \<open>Latencies of at most \<open>10 ^ 12\<close> seconds are samples in milliseconds as well.\<close>

definition timing_ok :: "pyfloat \<Rightarrow> bool" where
  "timing_ok x = (sample_ok x \<and> f_le x (Fin (10 ^ 12)))"

lemma timing_ok_ms: "timing_ok x \<Longrightarrow> sample_ok (f_mul x (Fin 1000))"
proof -
  assume x: "timing_ok x"
  then obtain a where a: "x = Fin a" "0 \<le> a" "a \<le> 10 ^ 12"
    by (cases x) (auto simp: timing_ok_def sample_ok_def)
  have "fl (of_int (10 ^ 15)) = Fin (of_int (10 ^ 15))" by (rule fl_small_int) simp
  then have "fl (10 ^ 15) = Fin (10 ^ 15)" by simp
  then obtain y where "fl (a * 1000) = Fin y" "0 \<le> y" "fl y = Fin y"
    using fl_between [of "a * 1000" "10 ^ 15"] a by auto
  then show ?thesis using a is_f64_fl [of y] by (simp add: f_mul_def sample_ok_def)
qed

definition timed :: "request_result \<Rightarrow> bool" where
  "timed r = (timing_ok (rq_latency r) \<and> (case rq_ttft r of None \<Rightarrow> True | Some t \<Rightarrow> timing_ok t))"

lemma e2e_ms_ok: "\<forall>r\<in>set rs. timed r \<Longrightarrow> x \<in> set (e2e_ms rs) \<Longrightarrow> sample_ok x"
  by (auto simp: e2e_ms_def ok_samples_def timed_def timing_ok_ms)

lemma ttft_ms_ok: "\<forall>r\<in>set rs. timed r \<Longrightarrow> x \<in> set (ttft_ms rs) \<Longrightarrow> sample_ok x"
  by (auto simp: ttft_ms_def ok_samples_def timed_def timing_ok_ms List.map_filter_def
      split: option.splits)

lemma length_ms: "length (e2e_ms rs) \<le> length rs" "length (ttft_ms rs) \<le> length rs"
proof -
  show "length (e2e_ms rs) \<le> length rs" by (simp add: e2e_ms_def ok_samples_def)
  have "length (ttft_ms rs) \<le> length (ok_samples rs)"
    by (simp add: ttft_ms_def List.map_filter_def)
  also have "\<dots> \<le> length rs" by (simp add: ok_samples_def)
  finally show "length (ttft_ms rs) \<le> length rs" .
qed

lemma percentile_defined:
  assumes "\<forall>x\<in>set xs. sample_ok x" "length xs < 2 ^ 53" "0 < p" "p < 100"
  shows "\<exists>v. percentile xs (Fin p) = Some v"
  using percentile_total [OF assms(1,2) _ assms(3,4)]
  by (cases "xs = []") (auto simp: percentile_def)

text \<open>Order of arrival is irrelevant.\<close>

lemma percentile_perm:
  assumes "mset xs = mset ys" "0 < p" "p < 100"
  shows "percentile xs (Fin p) = percentile ys (Fin p)"
proof -
  have "length xs = length ys" "xs = [] \<longleftrightarrow> ys = []" "sort xs = sort ys"
    using assms(1) by (auto intro: sort_mset_cong dest: mset_eq_length)
  then show ?thesis using assms(2,3) by (simp add: percentile_def)
qed

lemma mset_map_filter: "mset (List.map_filter f xs) = image_mset (the \<circ> f) (filter_mset (\<lambda>x. f x \<noteq> None) (mset xs))"
  by (simp add: List.map_filter_def mset_filter)

lemma samples_perm:
  assumes "mset rs = mset rs'"
  shows "mset (e2e_ms rs) = mset (e2e_ms rs')" "mset (ttft_ms rs) = mset (ttft_ms rs')"
    "out_tokens rs = out_tokens rs'" "length (ok_samples rs) = length (ok_samples rs')"
    "length rs = length rs'" "rs = [] \<longleftrightarrow> rs' = []"
proof -
  have ok: "mset (ok_samples rs) = mset (ok_samples rs')"
    using assms by (simp add: ok_samples_def)
  show "mset (e2e_ms rs) = mset (e2e_ms rs')" using ok by (simp add: e2e_ms_def)
  show "mset (ttft_ms rs) = mset (ttft_ms rs')" using ok by (simp add: ttft_ms_def mset_map_filter)
  have "out_tokens xs = sum_mset (image_mset rq_tokens (mset (ok_samples xs)))" for xs
    by (metis mset_map out_tokens_def sum_mset_sum_list)
  then show "out_tokens rs = out_tokens rs'" using ok by simp
  show "length (ok_samples rs) = length (ok_samples rs')" using ok by (rule mset_eq_length)
  show "length rs = length rs'" using assms by (rule mset_eq_length)
  show "rs = [] \<longleftrightarrow> rs' = []" using assms by auto
qed

lemma summarize_perm:
  assumes "mset rs = mset rs'"
  shows "summarize c w rs = summarize c w rs'"
  unfolding summarize_def
  using samples_perm [OF assms] percentile_perm [OF samples_perm(1) [OF assms]]
    percentile_perm [OF samples_perm(2) [OF assms]]
  by simp

lemma summarize_defined:
  assumes "\<forall>r\<in>set rs. timed r" "length rs < 2 ^ 53"
  shows "\<exists>bp. summarize c w rs = Some bp \<and> bp_requests bp = length rs
    \<and> bp_errors bp + length (ok_samples rs) = length rs \<and> bp_output_tokens bp = out_tokens rs"
proof -
  have len: "length (e2e_ms rs) < 2 ^ 53" "length (ttft_ms rs) < 2 ^ 53"
    using length_ms [of rs] assms(2) by linarith+
  have e: "\<exists>v. percentile (e2e_ms rs) (Fin p) = Some v" if "0 < p" "p < 100" for p
    using percentile_defined [OF _ len(1) that] e2e_ms_ok [OF assms(1)] by blast
  have t: "\<exists>v. percentile (ttft_ms rs) (Fin p) = Some v" if "0 < p" "p < 100" for p
    using percentile_defined [OF _ len(2) that] ttft_ms_ok [OF assms(1)] by blast
  have le: "length (ok_samples rs) \<le> length rs" by (simp add: ok_samples_def)
  show ?thesis
    using e [of 50] e [of 90] e [of 99] t [of 50] t [of 90] t [of 99] le
      f_div_defined [OF wall_window_nonzero, of "f_of_int (int (length (ok_samples rs)))" w]
      f_div_defined [OF wall_window_nonzero, of "f_of_int (out_tokens rs)" w]
    by (auto simp: summarize_def rounded_def)
qed

text \<open>The summary of a level does not depend on the interleaving. For samples with finite
  non-negative timings, two finished runs that hold the same samples in any order give the same
  point; the point exists (no percentile is taken out of range, nothing divides by zero), counts
  every sample once, as an error or as a success, and adds up the tokens of the successes only.\<close>

theorem summary_order_free:
  assumes "mset (ld_results s) = mset (ld_results s')"
    and "\<forall>r\<in>set (ld_results s). timed r" and "length (ld_results s) < 2 ^ 53"
  shows "run_point c t0 t1 s' = run_point c t0 t1 s
    \<and> (\<exists>bp. run_point c t0 t1 s = Some bp
          \<and> bp_requests bp = length (ld_results s)
          \<and> bp_errors bp + count_if rq_ok (ld_results s) = length (ld_results s)
          \<and> bp_output_tokens bp = sum_list (map rq_tokens (filter rq_ok (ld_results s))))"
  using summarize_perm [OF assms(1)] summarize_defined [OF assms(2,3)]
  by (simp add: run_point_def count_if_def ok_samples_def out_tokens_def)

lemma demo_timed: "timed demo_sample"
  by (simp add: timed_def demo_sample_def timing_ok_def sample_ok_def) code_simp

theorem summary_order_free_witness:
  "\<exists>bp. run_point demo_load (Fin 0) (Fin 1) demo_end = Some bp
     \<and> bp_requests bp = 1 \<and> bp_errors bp = 0 \<and> bp_output_tokens bp = 7"
  using summary_order_free [of demo_end demo_end demo_load "Fin 0" "Fin 1"] demo_timed
  by (simp add: demo_defs count_if_def)

end
