(* ===== verification/Bench_Report.thy ===== *)
theory Bench_Report
  imports Bench_Metrics Py_Num
begin

text \<open>
  The benchmark's report and command line (\<open>report.py\<close>, \<open>__main__.py\<close> and \<open>run_sweep\<close> of
  \<open>runner.py\<close> in \<open>infra/bench/atlas_bench\<close>): a run per backend, its JSON form, and the comparison
  of runs by concurrency. The digits of a table cell are not modelled, only the number it shows;
  \<open>None\<close> in a cell is the dash.
\<close>

section \<open>Sweeps\<close>

datatype sweep_event = Connect int | Measured bench_point | Settle

text \<open>\<open>level c\<close> is the result of one level, \<open>None\<close> its exception, which ends the sweep.\<close>

fun run_sweep :: "(int \<Rightarrow> bench_point option) \<Rightarrow> bool \<Rightarrow> int list \<Rightarrow>
    sweep_event list \<times> bench_point list option" where
  "run_sweep level settle [] = ([], Some [])"
| "run_sweep level settle (c # cs) =
     (case level c of
        None \<Rightarrow> ([Connect c], None)
      | Some p \<Rightarrow>
          (let (ev, ps) = run_sweep level settle cs
           in (Connect c # Measured p # (if settle then [Settle] else []) @ ev,
               map_option (Cons p) ps)))"

section \<open>Runs\<close>

record bench_run =
  br_backend :: string
  br_model :: string
  br_gpu :: string
  br_rate :: pyfloat
  br_points :: "bench_point list"
  br_accounting :: string
  br_notes :: string
  br_meta :: "(string \<times> json) list"

definition point_json :: "bench_point \<Rightarrow> (string \<times> json) list" where
  "point_json p =
     [(''concurrency'', JInt (bp_concurrency p)),
      (''requests'', JInt (int (bp_requests p))),
      (''errors'', JInt (int (bp_errors p))),
      (''error_rate'', JFloat (bp_error_rate p)),
      (''wall_s'', JFloat (bp_wall_s p)),
      (''requests_per_s'', JFloat (bp_requests_per_s p)),
      (''output_tokens'', JInt (bp_output_tokens p)),
      (''output_tokens_per_s'', JFloat (bp_output_tokens_per_s p)),
      (''ttft_p50_ms'', JFloat (bp_ttft_p50_ms p)),
      (''ttft_p90_ms'', JFloat (bp_ttft_p90_ms p)),
      (''ttft_p99_ms'', JFloat (bp_ttft_p99_ms p)),
      (''e2e_p50_ms'', JFloat (bp_e2e_p50_ms p)),
      (''e2e_p90_ms'', JFloat (bp_e2e_p90_ms p)),
      (''e2e_p99_ms'', JFloat (bp_e2e_p99_ms p))]"

definition run_json :: "bench_run \<Rightarrow> json" where
  "run_json r =
     JObj [(''backend'', JStr (br_backend r)),
           (''model'', JStr (br_model r)),
           (''gpu'', JStr (br_gpu r)),
           (''gpu_cost_per_hour'', JFloat (br_rate r)),
           (''token_accounting'', JStr (br_accounting r)),
           (''notes'', JStr (br_notes r)),
           (''meta'', JObj (br_meta r)),
           (''points'', JList (map (\<lambda>p. JObj (point_json p)) (br_points r)))]"

text \<open>
  Reading a result file back. The code keeps whatever values the file has; the model reads files
  with the types that the writer produces, and everything else is \<open>None\<close>.
\<close>

definition point_keys :: "string list" where
  "point_keys =
     [''concurrency'', ''requests'', ''errors'', ''error_rate'', ''wall_s'', ''requests_per_s'',
      ''output_tokens'', ''output_tokens_per_s'', ''ttft_p50_ms'', ''ttft_p90_ms'', ''ttft_p99_ms'',
      ''e2e_p50_ms'', ''e2e_p90_ms'', ''e2e_p99_ms'']"

fun get_int :: "json option \<Rightarrow> int option" where
  "get_int (Some (JInt n)) = Some n"
| "get_int _ = None"

fun get_float :: "json option \<Rightarrow> pyfloat option" where
  "get_float (Some (JFloat x)) = Some x"
| "get_float _ = None"

fun get_str :: "json option \<Rightarrow> string option" where
  "get_str (Some (JStr s)) = Some s"
| "get_str _ = None"

definition read_point :: "json \<Rightarrow> bench_point option" where
  "read_point v =
     do {
       d \<leftarrow> kwargs point_keys [] v;
       c \<leftarrow> get_int (map_of d ''concurrency'');
       n \<leftarrow> get_int (map_of d ''requests'');
       e \<leftarrow> get_int (map_of d ''errors'');
       er \<leftarrow> get_float (map_of d ''error_rate'');
       w \<leftarrow> get_float (map_of d ''wall_s'');
       rps \<leftarrow> get_float (map_of d ''requests_per_s'');
       ot \<leftarrow> get_int (map_of d ''output_tokens'');
       tps \<leftarrow> get_float (map_of d ''output_tokens_per_s'');
       t50 \<leftarrow> get_float (map_of d ''ttft_p50_ms'');
       t90 \<leftarrow> get_float (map_of d ''ttft_p90_ms'');
       t99 \<leftarrow> get_float (map_of d ''ttft_p99_ms'');
       e50 \<leftarrow> get_float (map_of d ''e2e_p50_ms'');
       e90 \<leftarrow> get_float (map_of d ''e2e_p90_ms'');
       e99 \<leftarrow> get_float (map_of d ''e2e_p99_ms'');
       Some \<lparr>bp_concurrency = c, bp_requests = nat n, bp_errors = nat e, bp_error_rate = er,
             bp_wall_s = w, bp_requests_per_s = rps, bp_output_tokens = ot,
             bp_output_tokens_per_s = tps, bp_ttft_p50_ms = t50, bp_ttft_p90_ms = t90,
             bp_ttft_p99_ms = t99, bp_e2e_p50_ms = e50, bp_e2e_p90_ms = e90, bp_e2e_p99_ms = e99\<rparr>
     }"

definition read_run :: "json \<Rightarrow> bench_run option" where
  "read_run v =
     (case v of
        JObj d \<Rightarrow>
          do {
            ps \<leftarrow> (case map_of d ''points'' of
                     Some (JList vs) \<Rightarrow> those (map read_point vs) | _ \<Rightarrow> None);
            b \<leftarrow> get_str (map_of d ''backend'');
            m \<leftarrow> get_str (map_of d ''model'');
            g \<leftarrow> get_str (map_of d ''gpu'');
            rate \<leftarrow> get_float (Some (obj_get_or d ''gpu_cost_per_hour'' (JFloat (Fin 0))));
            acc \<leftarrow> get_str (Some (obj_get_or d ''token_accounting'' (JStr ''server-reported'')));
            notes \<leftarrow> get_str (Some (obj_get_or d ''notes'' (JStr [])));
            Some \<lparr>br_backend = b, br_model = m, br_gpu = g, br_rate = rate, br_points = ps,
                  br_accounting = acc, br_notes = notes, br_meta = []\<rparr>
          }
      | _ \<Rightarrow> None)"

lemma read_point_json: "read_point (JObj (point_json p)) = Some p"
  by (simp add: read_point_def kwargs_def point_json_def point_keys_def)

lemma those_map_Some: "(\<And>x. x \<in> set xs \<Longrightarrow> f (g x) = Some x) \<Longrightarrow> those (map (f \<circ> g) xs) = Some xs"
  by (induction xs) auto

lemma read_run_json: "read_run (run_json r) = Some (r\<lparr>br_meta := []\<rparr>)"
proof -
  have "those (map (\<lambda>p. read_point (JObj (point_json p))) (br_points r)) = Some (br_points r)"
    using those_map_Some [of "br_points r" read_point "\<lambda>p. JObj (point_json p)"] read_point_json
    by (simp add: comp_def)
  then show ?thesis by (cases r) (simp add: read_run_def run_json_def obj_get_or_def comp_def)
qed

section \<open>Comparison\<close>

text \<open>\<open>max(points, key=tok/s, default=None)\<close>: the first point with the highest throughput.\<close>

definition peak_throughput :: "bench_run \<Rightarrow> bench_point option" where
  "peak_throughput r =
     (case br_points r of
        [] \<Rightarrow> None
      | p # ps \<Rightarrow>
          Some (fold (\<lambda>q best. if f_lt (bp_output_tokens_per_s best) (bp_output_tokens_per_s q)
                               then q else best) ps p))"

definition levels :: "bench_run list \<Rightarrow> int list" where
  "levels runs = sort (nub (concat (map (\<lambda>r. map bp_concurrency (br_points r)) runs)))"

text \<open>\<open>by_level\<close> is a dict keyed by the backend's name, and each entry a dict keyed by the level.\<close>

definition by_level :: "bench_run list \<Rightarrow> string \<Rightarrow> (int \<Rightarrow> bench_point option) option" where
  "by_level runs =
     map_of (rev (map (\<lambda>r. (br_backend r,
       map_of (rev (map (\<lambda>p. (bp_concurrency p, p)) (br_points r))))) runs))"

definition cell :: "bench_run list \<Rightarrow> bench_run \<Rightarrow> int \<Rightarrow> bench_point option" where
  "cell runs r lvl = (case by_level runs (br_backend r) of Some m \<Rightarrow> m lvl | None \<Rightarrow> None)"

definition table :: "(bench_point \<Rightarrow> pyfloat) \<Rightarrow> bench_run list \<Rightarrow> (int \<times> pyfloat option list) list" where
  "table col runs =
     map (\<lambda>lvl. (lvl, map (\<lambda>r. map_option col (cell runs r lvl)) runs)) (levels runs)"

record peak_row =
  pr_backend :: string
  pr_model :: string
  pr_peak :: pyfloat
  pr_concurrency :: int
  pr_cost :: pyfloat
  pr_accounting :: string

definition peak_row :: "bench_run \<Rightarrow> peak_row option option" where
  "peak_row r =
     (case peak_throughput r of
        None \<Rightarrow> Some None
      | Some p \<Rightarrow>
          map_option (\<lambda>c. Some \<lparr>pr_backend = br_backend r, pr_model = br_model r,
             pr_peak = bp_output_tokens_per_s p, pr_concurrency = bp_concurrency p,
             pr_cost = c, pr_accounting = br_accounting r\<rparr>)
            (cost_per_million_tokens (br_rate r) (bp_output_tokens_per_s p)))"

definition headline_ratio :: "bench_run list \<Rightarrow> pyfloat option" where
  "headline_ratio runs =
     (case runs of
        [r1, r2] \<Rightarrow>
          (case (peak_throughput r1, peak_throughput r2) of
             (Some a, Some b) \<Rightarrow>
               (if f_lt (Fin 0) (bp_output_tokens_per_s a)
                then f_div (bp_output_tokens_per_s b) (bp_output_tokens_per_s a) else None)
           | _ \<Rightarrow> None)
      | _ \<Rightarrow> None)"

record comparison_view =
  cv_throughput :: "(int \<times> pyfloat option list) list"
  cv_latency :: "(int \<times> pyfloat option list) list"
  cv_peaks :: "peak_row list"
  cv_ratio :: "pyfloat option"

definition compare_runs :: "bench_run list \<Rightarrow> comparison_view option" where
  "compare_runs runs =
     map_option (\<lambda>rows. \<lparr>cv_throughput = table bp_output_tokens_per_s runs,
        cv_latency = table bp_e2e_p99_ms runs,
        cv_peaks = List.map_filter (\<lambda>x. x) rows,
        cv_ratio = headline_ratio runs\<rparr>) (those (map peak_row runs))"

text \<open>\<open>compare\<close> of the command line: read the files, then render.\<close>

definition cmd_compare :: "json list \<Rightarrow> comparison_view option" where
  "cmd_compare files = do { runs \<leftarrow> those (map read_run files); compare_runs runs }"

definition parse_levels :: "string \<Rightarrow> int list option" where
  "parse_levels raw = those (map py_int (filter (\<lambda>x. str_strip x \<noteq> []) (split_on (CHR '','') raw)))"

definition prompt_lines :: "string \<Rightarrow> string list" where
  "prompt_lines t = filter (\<lambda>l. str_strip l \<noteq> []) (splitlines t)"

section \<open>What the comparison shows\<close>

lemma by_level_mem:
  assumes "distinct (map br_backend runs)" "r \<in> set runs"
  shows "by_level runs (br_backend r) = Some (map_of (rev (map (\<lambda>p. (bp_concurrency p, p)) (br_points r))))"
  unfolding by_level_def using assms
  by (intro map_of_is_SomeI) (auto simp: rev_map [symmetric] comp_def)

lemma cell_mem:
  assumes "distinct (map br_backend runs)" "r \<in> set runs"
    and "distinct (map bp_concurrency (br_points r))" "p \<in> set (br_points r)"
  shows "cell runs r (bp_concurrency p) = Some p"
proof -
  have "map_of (rev (map (\<lambda>p. (bp_concurrency p, p)) (br_points r))) (bp_concurrency p) = Some p"
    using assms(3,4) by (intro map_of_is_SomeI) (auto simp: rev_map [symmetric] comp_def)
  then show ?thesis using by_level_mem [OF assms(1,2)] by (simp add: cell_def)
qed

lemma cell_sound: "distinct (map br_backend runs) \<Longrightarrow> r \<in> set runs \<Longrightarrow> cell runs r lvl = Some p \<Longrightarrow>
    p \<in> set (br_points r) \<and> bp_concurrency p = lvl"
  using by_level_mem [of runs r] by (auto simp: cell_def dest!: map_of_SomeD)

lemma set_levels: "set (levels runs) = (\<Union>r\<in>set runs. bp_concurrency ` set (br_points r))"
  by (auto simp: levels_def)

lemma levels_sorted: "sorted_wrt (<) (levels runs)"
  unfolding levels_def by (simp add: strict_sorted_iff)

text \<open>Two runs of one backend: the first column shows the points of the second run.\<close>

lemma same_backend_columns_collapse:
  assumes "br_backend r1 = br_backend r2"
  shows "cell [r1, r2] r1 lvl = cell [r1, r2] r2 lvl"
  using assms by (simp add: cell_def)

lemma same_backend_shows_last:
  assumes "br_backend r1 = br_backend r2" "distinct (map bp_concurrency (br_points r2))"
    "p \<in> set (br_points r2)"
  shows "cell [r1, r2] r1 (bp_concurrency p) = Some p"
proof -
  have "map_of (rev (map (\<lambda>p. (bp_concurrency p, p)) (br_points r2))) (bp_concurrency p) = Some p"
    using assms(2,3) by (intro map_of_is_SomeI) (auto simp: rev_map [symmetric] comp_def)
  then show ?thesis using assms(1) by (simp add: cell_def by_level_def)
qed

text \<open>The peak is a point of the run that no other point beats.\<close>

lemma peak_fold:
  assumes "key p \<noteq> NaN" "\<forall>q\<in>set ps. key q \<noteq> NaN"
  shows "fold (\<lambda>q best. if f_lt (key best) (key q) then q else best) ps p \<in> set (p # ps)
    \<and> (\<forall>q\<in>set (p # ps). f_le (key q) (key (fold (\<lambda>q best. if f_lt (key best) (key q) then q else best) ps p)))"
  using assms
proof (induction ps arbitrary: p)
  case (Cons x xs)
  define m where "m = (if f_lt (key p) (key x) then x else p)"
  have m: "key m \<noteq> NaN" "f_le (key p) (key m)" "f_le (key x) (key m)" "m \<in> {p, x}"
    using Cons.prems by (auto simp: m_def not_f_lt f_lt_imp_le)
  show ?case
    using Cons.IH [OF m(1)] Cons.prems m by (auto simp flip: m_def intro: f_le_trans)
qed simp

lemma peak_is_best:
  assumes "\<forall>p\<in>set (br_points r). bp_output_tokens_per_s p \<noteq> NaN" "br_points r \<noteq> []"
  shows "\<exists>b. peak_throughput r = Some b \<and> b \<in> set (br_points r)
    \<and> (\<forall>p\<in>set (br_points r). f_le (bp_output_tokens_per_s p) (bp_output_tokens_per_s b))"
proof -
  obtain p ps where ps: "br_points r = p # ps" using assms(2) by (cases "br_points r") auto
  then show ?thesis
    using peak_fold [of bp_output_tokens_per_s p ps] assms(1) by (simp add: peak_throughput_def)
qed

text \<open>The reference table looks every cell up in the run of its own column.\<close>

definition point_at :: "bench_run \<Rightarrow> int \<Rightarrow> bench_point option" where
  "point_at r lvl = find (\<lambda>p. bp_concurrency p = lvl) (br_points r)"

definition comparable :: "bench_run list \<Rightarrow> bool" where
  "comparable runs =
     (distinct (map br_backend runs) \<and> list_all (\<lambda>r. distinct (map bp_concurrency (br_points r))) runs)"

lemma cell_point_at:
  assumes "comparable runs" "r \<in> set runs"
  shows "cell runs r lvl = point_at r lvl"
proof (cases "cell runs r lvl")
  case None
  have "bp_concurrency p \<noteq> lvl" if "p \<in> set (br_points r)" for p
    using cell_mem [OF _ assms(2) _ that] None assms by (auto simp: comparable_def list_all_iff)
  then have "point_at r lvl = None" by (auto simp: point_at_def find_None_iff)
  then show ?thesis using None by simp
next
  case (Some p)
  then have p: "p \<in> set (br_points r)" "bp_concurrency p = lvl"
    using cell_sound assms by (auto simp: comparable_def)
  then obtain q where q: "point_at r lvl = Some q"
    by (cases "point_at r lvl") (auto simp: point_at_def find_None_iff)
  then have "q \<in> set (br_points r)" "bp_concurrency q = lvl"
    by (auto simp: point_at_def find_Some_iff)
  then have "cell runs r lvl = Some q"
    using cell_mem [OF _ assms(2), of q] assms by (auto simp: comparable_def list_all_iff)
  then show ?thesis using q by simp
qed

lemma table_point_at: "comparable runs \<Longrightarrow>
    table col runs = map (\<lambda>lvl. (lvl, map (\<lambda>r. map_option col (point_at r lvl)) runs)) (levels runs)"
  by (simp add: table_def cell_point_at)

lemma compare_ignores_meta: "compare_runs (map (\<lambda>r. r\<lparr>br_meta := []\<rparr>) runs) = compare_runs runs"
proof -
  let ?m = "\<lambda>r. r\<lparr>br_meta := []\<rparr>"
  have lev: "levels (map ?m runs) = levels runs" by (simp add: levels_def comp_def)
  have "by_level (map ?m runs) = by_level runs" by (simp add: by_level_def comp_def)
  then have "cell (map ?m runs) (?m r) lvl = cell runs r lvl" for r lvl by (simp add: cell_def)
  then have tab: "table col (map ?m runs) = table col runs" for col
    by (simp add: table_def lev comp_def)
  have peak: "peak_throughput (?m r) = peak_throughput r" for r by (simp add: peak_throughput_def)
  have row: "peak_row (?m r) = peak_row r" for r by (cases "peak_throughput r") (simp_all add: peak_row_def peak)
  have ratio: "headline_ratio (map ?m runs) = headline_ratio runs"
    unfolding headline_ratio_def by (cases runs rule: remdups_adj.cases) (auto simp: peak split: list.splits option.splits)
  show ?thesis by (simp add: compare_runs_def tab row ratio comp_def)
qed

lemma read_runs_json: "those (map read_run (map run_json runs)) = Some (map (\<lambda>r. r\<lparr>br_meta := []\<rparr>) runs)"
  by (induction runs) (simp_all add: read_run_json)

text \<open>C19: Comparing result files is comparing the runs that were measured. Every run that the
  benchmark writes is read back with all its points, so \<open>compare\<close> on the written files gives the
  comparison of the runs themselves; and when the runs have different backends and no run repeats a
  level, every cell of both tables is the measured point of that run at that level, with one row
  per level in increasing order.\<close>

theorem compare_written_runs:
  "cmd_compare (map run_json runs) = compare_runs runs
    \<and> sorted_wrt (<) (levels runs)
    \<and> (comparable runs \<longrightarrow> (\<forall>col. table col runs =
         map (\<lambda>lvl. (lvl, map (\<lambda>r. map_option col (point_at r lvl)) runs)) (levels runs)))"
  using table_point_at [of runs]
  by (auto simp: cmd_compare_def read_runs_json compare_ignores_meta levels_sorted simp del: map_map)

definition demo_point :: "int \<Rightarrow> pyfloat \<Rightarrow> bench_point" where
  "demo_point c tps =
     \<lparr>bp_concurrency = c, bp_requests = 1, bp_errors = 0, bp_error_rate = Fin 0, bp_wall_s = Fin 1,
      bp_requests_per_s = Fin 1, bp_output_tokens = 7, bp_output_tokens_per_s = tps,
      bp_ttft_p50_ms = Fin 0, bp_ttft_p90_ms = Fin 0, bp_ttft_p99_ms = Fin 0,
      bp_e2e_p50_ms = Fin 500, bp_e2e_p90_ms = Fin 500, bp_e2e_p99_ms = Fin 500\<rparr>"

definition demo_runs :: "bench_run list" where
  "demo_runs =
     [\<lparr>br_backend = ''ollama'', br_model = ''m'', br_gpu = ''L4'', br_rate = Fin 41,
       br_points = [demo_point 1 (Fin 7), demo_point 4 (Fin 9)], br_accounting = ''proxy'',
       br_notes = [], br_meta = []\<rparr>,
      \<lparr>br_backend = ''vllm'', br_model = ''m'', br_gpu = ''L4'', br_rate = Fin 41,
       br_points = [demo_point 4 (Fin 30)], br_accounting = ''server-reported'',
       br_notes = [], br_meta = []\<rparr>]"

theorem compare_written_runs_witness:
  "table bp_output_tokens_per_s demo_runs =
     [(1, [Some (Fin 7), None]), (4, [Some (Fin 9), Some (Fin 30)])]"
proof -
  have "comparable demo_runs" by (simp add: comparable_def demo_runs_def demo_point_def)
  then have "table bp_output_tokens_per_s demo_runs =
      map (\<lambda>lvl. (lvl, map (\<lambda>r. map_option bp_output_tokens_per_s (point_at r lvl)) demo_runs))
        (levels demo_runs)"
    using compare_written_runs [of demo_runs] by blast
  also have "levels demo_runs = [1, 4]"
    by (simp add: levels_def demo_runs_def demo_point_def)
  finally show ?thesis by (simp add: demo_runs_def demo_point_def point_at_def)
qed

end
