(* ===== verification/Bench_Client.thy ===== *)
theory Bench_Client
  imports Bench_Report
begin

text \<open>
  The live client of the benchmark (\<open>infra/bench/atlas_bench/client.py\<close>): one streamed chat
  completion, read line by line. \<open>decode\<close> is the JSON decoder, \<open>None\<close> its error; every line comes
  with the clock at which it was read. A response of an unexpected shape raises an exception that
  the code does not catch, \<open>Inl\<close>; an error of the transport is a failed sample.
\<close>

section \<open>The request\<close>

record chat_config =
  cc_model :: string
  cc_max_tokens :: int
  cc_temperature :: pyfloat

definition request_body :: "chat_config \<Rightarrow> string \<Rightarrow> json" where
  "request_body cfg prompt =
     JObj [(''model'', JStr (cc_model cfg)),
           (''messages'', JList [JObj [(''role'', JStr ''user''), (''content'', JStr prompt)]]),
           (''max_tokens'', JInt (cc_max_tokens cfg)),
           (''temperature'', JFloat (cc_temperature cfg)),
           (''stream'', JBool True),
           (''stream_options'', JObj [(''include_usage'', JBool True)])]"

definition count_delta_tokens :: "string \<Rightarrow> int" where
  "count_delta_tokens t = int (length (split_ws t))"

section \<open>Reading the stream\<close>

record stream_state =
  ss_ttft :: "pyfloat option"
  ss_reported :: "int option"
  ss_proxy :: int

definition stream_start :: stream_state where
  "stream_start = \<lparr>ss_ttft = None, ss_reported = None, ss_proxy = 0\<rparr>"

text \<open>\<open>(choices[0].get("delta") or {}).get("content") or ""\<close>; \<open>None\<close> is an exception.\<close>

definition or_else :: "json \<Rightarrow> json \<Rightarrow> json" where
  "or_else v w = (if json_truthy v then v else w)"

definition get_key :: "json \<Rightarrow> string \<Rightarrow> json option" where
  "get_key v k = (case v of JObj d \<Rightarrow> Some (obj_get d k) | _ \<Rightarrow> None)"

definition first_of :: "json \<Rightarrow> json option" where
  "first_of v =
     (case v of JList (x # xs) \<Rightarrow> Some x | JStr (x # xs) \<Rightarrow> Some (JStr [x]) | _ \<Rightarrow> None)"

definition delta_of :: "json \<Rightarrow> json option" where
  "delta_of choices =
     do {
       c \<leftarrow> first_of choices;
       d \<leftarrow> get_key c ''delta'';
       x \<leftarrow> get_key (or_else d (JObj [])) ''content'';
       Some (or_else x (JStr []))
     }"

text \<open>\<open>int(v)\<close> of a JSON value; \<open>None\<close> is an exception.\<close>

definition json_to_int :: "json \<Rightarrow> int option" where
  "json_to_int v =
     (case v of
        JInt n \<Rightarrow> Some n
      | JBool b \<Rightarrow> Some (if b then 1 else 0)
      | JFloat (Fin r) \<Rightarrow> Some (if 0 \<le> r then \<lfloor>r\<rfloor> else \<lceil>r\<rceil>)
      | JStr s \<Rightarrow> py_int s
      | _ \<Rightarrow> None)"

definition add_delta :: "pyfloat \<Rightarrow> json \<Rightarrow> stream_state \<Rightarrow> stream_state option" where
  "add_delta elapsed choices s =
     (if \<not> json_truthy choices then Some s
      else do {
        delta \<leftarrow> delta_of choices;
        if \<not> json_truthy delta then Some s
        else (case delta of
                JStr t \<Rightarrow>
                  Some (s\<lparr>ss_ttft := (case ss_ttft s of None \<Rightarrow> Some elapsed | Some x \<Rightarrow> Some x),
                          ss_proxy := ss_proxy s + count_delta_tokens t\<rparr>)
              | _ \<Rightarrow> None)
      })"

definition add_usage :: "json \<Rightarrow> stream_state \<Rightarrow> stream_state option" where
  "add_usage usage s =
     (case usage of
        JObj d \<Rightarrow>
          (if obj_get d ''completion_tokens'' = JNull then Some s
           else map_option (\<lambda>n. s\<lparr>ss_reported := Some n\<rparr>)
                  (json_to_int (obj_get d ''completion_tokens'')))
      | _ \<Rightarrow> Some s)"

definition add_chunk :: "pyfloat \<Rightarrow> json \<Rightarrow> stream_state \<Rightarrow> stream_state option" where
  "add_chunk elapsed chunk s =
     do {
       choices \<leftarrow> get_key chunk ''choices'';
       s1 \<leftarrow> add_delta elapsed choices s;
       usage \<leftarrow> get_key chunk ''usage'';
       add_usage usage s1
     }"

text \<open>The flag of the result tells that the end marker was read, after which nothing is read.\<close>

fun read_lines :: "(string \<Rightarrow> json option) \<Rightarrow> pyfloat \<Rightarrow> (pyfloat \<times> string) list \<Rightarrow>
    stream_state \<Rightarrow> (bool \<times> stream_state) option" where
  "read_lines decode start [] s = Some (False, s)"
| "read_lines decode start ((t, line) # rest) s =
     (if \<not> prefix ''data:'' line then read_lines decode start rest s
      else (let payload = str_strip (drop 5 line)
            in if payload = ''[DONE]'' then Some (True, s)
               else case decode payload of
                      None \<Rightarrow> read_lines decode start rest s
                    | Some chunk \<Rightarrow>
                        (case add_chunk (f_sub t start) chunk s of
                           None \<Rightarrow> None
                         | Some s' \<Rightarrow> read_lines decode start rest s')))"

text \<open>The three outcomes of the connection: a status, or an error of the transport with its name.
  \<open>t1\<close> is the clock when the request is over.\<close>

datatype connection =
    Answered int "(pyfloat \<times> string) list" "string option"
  | Unreachable string

definition failed_sample :: "pyfloat \<Rightarrow> string \<Rightarrow> request_result" where
  "failed_sample dt msg =
     \<lparr>rq_ok = False, rq_latency = dt, rq_ttft = None, rq_tokens = 0, rq_error = Some msg\<rparr>"

text \<open>\<open>Answered status lines broken\<close>: the lines that arrived, and the transport's error if the
  stream broke after them.\<close>

definition stream_one :: "(string \<Rightarrow> json option) \<Rightarrow> pyfloat \<Rightarrow> pyfloat \<Rightarrow> connection \<Rightarrow>
    (unit, request_result) result" where
  "stream_one decode start t1 conn =
     (case conn of
        Unreachable e \<Rightarrow> Inr (failed_sample (f_sub t1 start) e)
      | Answered status lines broken \<Rightarrow>
          (if status \<noteq> 200 then Inr (failed_sample (f_sub t1 start) (''HTTP '' @ str_int status))
           else case read_lines decode start lines stream_start of
                  None \<Rightarrow> Inl ()
                | Some (ended, s) \<Rightarrow>
                    (case (if ended then None else broken) of
                       Some e \<Rightarrow> Inr (failed_sample (f_sub t1 start) e)
                     | None \<Rightarrow>
                         Inr \<lparr>rq_ok = True, rq_latency = f_sub t1 start, rq_ttft = ss_ttft s,
                              rq_tokens = (case ss_reported s of Some n \<Rightarrow> n | None \<Rightarrow> ss_proxy s),
                              rq_error = None\<rparr>)))"

section \<open>The samples\<close>

text \<open>The chunks of a stream: the decodable data lines before the end marker.\<close>

fun chunks :: "(string \<Rightarrow> json option) \<Rightarrow> (pyfloat \<times> string) list \<Rightarrow> (pyfloat \<times> json) list" where
  "chunks decode [] = []"
| "chunks decode ((t, line) # rest) =
     (if \<not> prefix ''data:'' line then chunks decode rest
      else (let payload = str_strip (drop 5 line)
            in if payload = ''[DONE]'' then []
               else case decode payload of
                      None \<Rightarrow> chunks decode rest
                    | Some chunk \<Rightarrow> (t, chunk) # chunks decode rest))"

fun fold_chunks :: "pyfloat \<Rightarrow> (pyfloat \<times> json) list \<Rightarrow> stream_state \<Rightarrow> stream_state option" where
  "fold_chunks start [] s = Some s"
| "fold_chunks start ((t, c) # rest) s =
     (case add_chunk (f_sub t start) c s of None \<Rightarrow> None | Some s' \<Rightarrow> fold_chunks start rest s')"

text \<open>Keep-alive lines, other fields of the event stream and undecodable data do not count.\<close>

lemma read_lines_chunks:
  "map_option snd (read_lines decode start lines s) = fold_chunks start (chunks decode lines) s"
  by (induction decode start lines s rule: read_lines.induct)
    (auto simp: Let_def split: option.splits)

text \<open>Only a completed stream counts as a success, and a failed sample reports no tokens.\<close>

lemma failed_samples_empty:
  "stream_one decode start t1 conn = Inr r \<Longrightarrow> \<not> rq_ok r \<Longrightarrow>
     rq_tokens r = 0 \<and> rq_ttft r = None \<and> rq_error r \<noteq> None"
  by (auto simp: stream_one_def failed_sample_def split: connection.splits if_splits option.splits prod.splits)

lemma ok_sample_stream:
  "stream_one decode start t1 conn = Inr r \<Longrightarrow> rq_ok r \<Longrightarrow>
     \<exists>lines broken s. conn = Answered 200 lines broken
       \<and> fold_chunks start (chunks decode lines) stream_start = Some s
       \<and> rq_ttft r = ss_ttft s \<and> rq_error r = None
       \<and> rq_tokens r = (case ss_reported s of Some n \<Rightarrow> n | None \<Rightarrow> ss_proxy s)"
  by (auto simp: stream_one_def failed_sample_def read_lines_chunks [symmetric]
      split: connection.splits if_splits option.splits prod.splits)

end
