(* ===== verification/Bench_Sweep.thy ===== *)
theory Bench_Sweep
  imports Bench_Client Bench_Report
begin

text \<open>
  The benchmark command \<open>run\<close> (\<open>infra/bench/atlas_bench/__main__.py\<close>, \<open>cmd_run\<close>) over the sweep of
  \<open>runner.py\<close>: prompts and levels, one HTTP client per level, the closing of the clients however the sweep
  ends, and the result file. What a level does to the endpoint is an execution of \<open>Bench_Load\<close>.
\<close>

section \<open>Arguments\<close>

definition DEFAULT_PROMPTS :: "string list" where
  "DEFAULT_PROMPTS =
     [''Summarize the key obligations in a standard NDA in three bullet points.'',
      ''Explain what a SOC 2 Type II report attests to, in two sentences.'',
      ''List three controls that mitigate insider trading risk at a brokerage.'',
      ''What is the difference between data residency and data sovereignty?'']"

text \<open>\<open>read\<close> is the content of a file, \<open>None\<close> if it cannot be read.\<close>

definition load_prompts :: "(string \<Rightarrow> string option) \<Rightarrow> string option \<Rightarrow> string list option" where
  "load_prompts read path =
     (case path of
        Some (c # cs) \<Rightarrow> map_option prompt_lines (read (c # cs))
      | _ \<Rightarrow> Some DEFAULT_PROMPTS)"

record run_args =
  ra_backend :: string
  ra_base_url :: string
  ra_model :: string
  ra_gpu :: string
  ra_rate :: pyfloat
  ra_levels :: string
  ra_requests :: int
  ra_warmup :: int
  ra_max_tokens :: int
  ra_prompts :: "string option"
  ra_accounting :: string
  ra_notes :: string

text \<open>The settings of one client: its address and the size of its connection pool.\<close>

record http_client =
  hc_base_url :: string
  hc_connections :: int

definition make_send :: "run_args \<Rightarrow> int \<Rightarrow> http_client" where
  "make_send a level =
     \<lparr>hc_base_url = rstrip_chars (\<lambda>c. c = CHR ''/'') (ra_base_url a), hc_connections = level\<rparr>"

definition level_config :: "run_args \<Rightarrow> string list \<Rightarrow> int \<Rightarrow> load_config" where
  "level_config a prompts level =
     \<lparr>lc_prompts = prompts, lc_concurrency = level, lc_total = Some (ra_requests a), lc_duration = None,
      lc_warmup = ra_warmup a\<rparr>"

section \<open>The sweep\<close>

text \<open>
  The \<open>k\<close>-th level: the clock around it and the state its workers end in, \<open>None\<close> if an exception ends it.
  The clients opened are listed in order.
\<close>

type_synonym level_run = "nat \<Rightarrow> load_config \<Rightarrow> (pyfloat \<times> pyfloat \<times> load_state) option"

definition measure_level :: "level_run \<Rightarrow> nat \<Rightarrow> load_config \<Rightarrow> bench_point option" where
  "measure_level run k c =
     (case load_guard c of
        Inl _ \<Rightarrow> None
      | Inr _ \<Rightarrow> (case run k c of None \<Rightarrow> None | Some (t0, t1, s) \<Rightarrow> run_point c t0 t1 s))"

fun sweep_levels ::
  "run_args \<Rightarrow> string list \<Rightarrow> level_run \<Rightarrow> nat \<Rightarrow> int list \<Rightarrow> http_client list \<times> bench_point list option" where
  "sweep_levels a prompts run k [] = ([], Some [])"
| "sweep_levels a prompts run k (c # cs) =
     (case measure_level run k (level_config a prompts c) of
        None \<Rightarrow> ([make_send a c], None)
      | Some p \<Rightarrow>
          (case sweep_levels a prompts run (k + 1) cs of
             (opened, ps) \<Rightarrow> (make_send a c # opened, map_option (Cons p) ps)))"

text \<open>The \<open>finally\<close>: the clients are closed in order; one that fails leaves the rest open.\<close>

fun close_all :: "(nat \<Rightarrow> bool) \<Rightarrow> nat \<Rightarrow> http_client list \<Rightarrow> nat \<times> bool" where
  "close_all closes k [] = (k, True)"
| "close_all closes k (h # hs) = (if closes k then close_all closes (k + 1) hs else (k, False))"

record bench_outcome =
  bo_code :: int
  bo_opened :: "http_client list"
  bo_closed :: nat
  bo_file :: "json option"

definition written_run :: "run_args \<Rightarrow> string list \<Rightarrow> bench_point list \<Rightarrow> bench_run" where
  "written_run a prompts ps =
     \<lparr>br_backend = ra_backend a, br_model = ra_model a, br_gpu = ra_gpu a, br_rate = ra_rate a, br_points = ps,
      br_accounting = ra_accounting a, br_notes = ra_notes a,
      br_meta = [(''max_tokens'', JInt (ra_max_tokens a)), (''requests_per_level'', JInt (ra_requests a)),
        (''warmup'', JInt (ra_warmup a)), (''prompts'', JInt (int (length prompts)))]\<rparr>"

definition cmd_run :: "run_args \<Rightarrow> (string \<Rightarrow> string option) \<Rightarrow> level_run \<Rightarrow> (nat \<Rightarrow> bool) \<Rightarrow> bench_outcome" where
  "cmd_run a read run closes =
     (case (load_prompts read (ra_prompts a), parse_levels (ra_levels a)) of
        (Some prompts, Some ls) \<Rightarrow>
          (case sweep_levels a prompts run 0 ls of
             (opened, points) \<Rightarrow>
               (case (close_all closes 0 opened, points) of
                  ((shut, True), Some ps) \<Rightarrow>
                    \<lparr>bo_code = 0, bo_opened = opened, bo_closed = shut,
                     bo_file = Some (run_json (written_run a prompts ps))\<rparr>
                | ((shut, _), _) \<Rightarrow> \<lparr>bo_code = 1, bo_opened = opened, bo_closed = shut, bo_file = None\<rparr>))
      | _ \<Rightarrow> \<lparr>bo_code = 1, bo_opened = [], bo_closed = 0, bo_file = None\<rparr>)"

section \<open>What a result file stands for\<close>

text \<open>A run of a level that ended: its workers have all finished.\<close>

definition complete_runs :: "level_run \<Rightarrow> bool" where
  "complete_runs run \<longleftrightarrow>
     (\<forall>k c t0 t1 s. run k c = Some (t0, t1, s) \<longrightarrow> load_reach c t0 s \<and> all_finished s)"

lemma summarize_requests: "summarize c w rs = Some p \<Longrightarrow> bp_requests p = length rs \<and> bp_concurrency p = c"
  by (auto simp: summarize_def split: option.splits bind_splits)

lemma measured_level:
  assumes "complete_runs run" "measure_level run k (level_config a prompts c) = Some p"
  shows "prompts \<noteq> [] \<and> bp_concurrency p = c \<and> (0 < c \<longrightarrow> bp_requests p = nat (ra_requests a))"
proof -
  let ?c = "level_config a prompts c"
  obtain t0 t1 s where s: "run k ?c = Some (t0, t1, s)" "run_point ?c t0 t1 s = Some p" "load_guard ?c = Inr ()"
    using assms(2) by (auto simp: measure_level_def split: sum.splits option.splits)
  then have "load_reach ?c t0 s" "all_finished s" using assms(1) by (auto simp: complete_runs_def)
  then have "0 < c \<longrightarrow> length (ld_results s) = nat (ra_requests a)"
    using all_finished_counts [OF load_reach_inv] load_reach_inv
    by (fastforce simp: level_config_def load_inv_def)
  then show ?thesis
    using s(2,3) summarize_requests by (auto simp: run_point_def level_config_def load_guard_def split: if_splits)
qed

lemma swept_levels:
  assumes "complete_runs run" "sweep_levels a prompts run k cs = (opened, Some ps)"
  shows "opened = map (make_send a) cs \<and> map bp_concurrency ps = cs \<and> (cs \<noteq> [] \<longrightarrow> prompts \<noteq> [])
    \<and> (\<forall>p\<in>set ps. 0 < bp_concurrency p \<longrightarrow> bp_requests p = nat (ra_requests a))"
  using assms(2)
proof (induction cs arbitrary: k opened ps)
  case (Cons c cs)
  obtain p where p: "measure_level run k (level_config a prompts c) = Some p"
    using Cons.prems by (auto split: option.splits)
  obtain os qs where r: "sweep_levels a prompts run (k + 1) cs = (os, qs)" by (metis surj_pair)
  show ?case
    using Cons.prems Cons.IH [of "k + 1"] p r measured_level [OF assms(1) p] by (cases qs) auto
qed simp

lemma close_all_closes: "close_all closes k hs = (n, True) \<Longrightarrow> n = k + length hs"
proof (induction hs arbitrary: k)
  case (Cons h hs)
  then show ?case using Cons.IH [of "Suc k"] by (auto split: if_splits)
qed simp

lemma close_all_reliable: "\<forall>k. closes k \<Longrightarrow> close_all closes k hs = (k + length hs, True)"
  by (induction hs arbitrary: k) auto

text \<open>C38: A result file stands for a complete sweep. The command exits with 0 exactly if it writes a file; and
  the file, read back by the comparison, is a run with one point per requested level, in the requested
  order, each from a client of its own whose pool has the size of the level, and each with exactly the
  requested number of requests; and all the clients were closed. And however the sweep ends, no client
  stays open unless closing one fails.\<close>

theorem written_sweep_complete:
  assumes "complete_runs run" "out = cmd_run a read run closes"
  shows "(bo_code out = 0 \<longleftrightarrow> bo_file out \<noteq> None)
    \<and> (\<forall>v. bo_file out = Some v \<longrightarrow> (\<exists>r ls. read_run v = Some r \<and> parse_levels (ra_levels a) = Some ls
         \<and> map bp_concurrency (br_points r) = ls \<and> bo_opened out = map (make_send a) ls
         \<and> (\<forall>p\<in>set (br_points r). 0 < bp_concurrency p \<longrightarrow> bp_requests p = nat (ra_requests a))
         \<and> bo_closed out = length ls))
    \<and> ((\<forall>k. closes k) \<longrightarrow> bo_closed out = length (bo_opened out))"
proof (cases "load_prompts read (ra_prompts a) = None \<or> parse_levels (ra_levels a) = None")
  case True
  then show ?thesis unfolding assms(2) by (auto simp: cmd_run_def split: option.split)
next
  case False
  then obtain prompts ls where args: "load_prompts read (ra_prompts a) = Some prompts" "parse_levels (ra_levels a) = Some ls"
    by auto
  obtain opened points where sw: "sweep_levels a prompts run 0 ls = (opened, points)" by (metis surj_pair)
  obtain shut ok where cl: "close_all closes 0 opened = (shut, ok)" by (metis surj_pair)
  have out: "out = (case points of
      Some ps \<Rightarrow> if ok then \<lparr>bo_code = 0, bo_opened = opened, bo_closed = shut,
                     bo_file = Some (run_json (written_run a prompts ps))\<rparr>
                 else \<lparr>bo_code = 1, bo_opened = opened, bo_closed = shut, bo_file = None\<rparr>
    | None \<Rightarrow> \<lparr>bo_code = 1, bo_opened = opened, bo_closed = shut, bo_file = None\<rparr>)"
    unfolding assms(2) by (simp add: cmd_run_def args sw cl split: option.split bool.split)
  have "(\<forall>k. closes k) \<longrightarrow> shut = length opened" using close_all_reliable [of closes 0 opened] cl by auto
  moreover have "opened = map (make_send a) ls \<and> map bp_concurrency ps = ls
      \<and> (\<forall>p\<in>set ps. 0 < bp_concurrency p \<longrightarrow> bp_requests p = nat (ra_requests a))" if "points = Some ps" for ps
    using swept_levels [OF assms(1)] sw that by blast
  moreover have "shut = length opened" if ok using close_all_closes [of closes 0 opened shut] cl that by simp
  ultimately show ?thesis
    unfolding out by (cases points; cases ok) (auto simp: read_run_json written_run_def args)
qed

text \<open>One level with one worker, as in \<open>demo_run\<close>.\<close>

definition demo_bench :: run_args where
  "demo_bench = \<lparr>ra_backend = ''vllm'', ra_base_url = ''http://h/'', ra_model = ''m'', ra_gpu = ''L4'', ra_rate = Fin 1,
     ra_levels = ''1'', ra_requests = 1, ra_warmup = 0, ra_max_tokens = 8, ra_prompts = Some ''p'',
     ra_accounting = ''proxy'', ra_notes = []\<rparr>"

definition demo_level :: level_run where
  "demo_level = (\<lambda>k c. if c = demo_load then Some (Fin 0, Fin 1, demo_end) else None)"

definition demo_read :: "string \<Rightarrow> string option" where
  "demo_read path = Some (''a'' @ [char_of (10 :: nat)] @ ''b'')"

lemma demo_complete: "complete_runs demo_level"
proof -
  have "load_reach demo_load (Fin 0) demo_end"
    using demo_run by (auto simp: load_reach_def intro: relpowp_imp_rtranclp)
  moreover have "all_finished demo_end" by (simp add: demo_defs)
  ultimately show ?thesis by (simp add: complete_runs_def demo_level_def)
qed

theorem written_sweep_complete_witness:
  "\<exists>v r. bo_file (cmd_run demo_bench demo_read demo_level (\<lambda>_. True)) = Some v \<and> read_run v = Some r
     \<and> map bp_concurrency (br_points r) = [1] \<and> (\<forall>p\<in>set (br_points r). bp_requests p = 1)
     \<and> bo_closed (cmd_run demo_bench demo_read demo_level (\<lambda>_. True)) = 1"
proof -
  let ?out = "cmd_run demo_bench demo_read demo_level (\<lambda>_. True)"
  have args: "prompt_lines (''a'' @ [char_of (10 :: nat)] @ ''b'') = [''a'', ''b'']" "parse_levels ''1'' = Some [1]"
    by code_simp+
  have c: "level_config demo_bench [''a'', ''b''] 1 = demo_load"
    by (simp add: level_config_def demo_bench_def demo_load_def)
  obtain p where p: "run_point demo_load (Fin 0) (Fin 1) demo_end = Some p"
    using summarize_defined [of "[demo_sample]" "lc_concurrency demo_load" "f_sub (Fin 1) (Fin 0)"] demo_timed
    by (auto simp: run_point_def demo_defs)
  have "measure_level demo_level 0 demo_load = Some p"
    by (simp add: measure_level_def demo_level_def load_guard_def p) (simp add: demo_load_def)
  then have "bo_file ?out = Some (run_json (written_run demo_bench [''a'', ''b''] [p]))"
  proof -
    have "load_prompts demo_read (ra_prompts demo_bench) = Some [''a'', ''b'']" "parse_levels (ra_levels demo_bench) = Some [1]"
      using args by (simp_all add: load_prompts_def demo_bench_def demo_read_def)
    then show ?thesis using \<open>measure_level demo_level 0 demo_load = Some p\<close> by (simp add: cmd_run_def c)
  qed
  then show ?thesis
    using written_sweep_complete [OF demo_complete, of ?out demo_bench demo_read "\<lambda>_. True"] args(2)
    by (auto simp: demo_bench_def)
qed

end
