(* ===== verification/Train_Wilcoxon.thy ===== *)
theory Train_Wilcoxon
  imports Train_Stats
begin

text \<open>
  Correctness of the significance tests of \<open>training/atlas_training/stats.py\<close>: the ranks of the
  Wilcoxon test with ties add up exactly although they are floats, its two rank sums partition that
  total, and neither test depends on which of the two models is called the base.
\<close>

section \<open>Half integers as floats\<close>

definition half :: "int \<Rightarrow> pyfloat" where
  "half m = Fin (of_int m / 2)"

lemma half_inj [simp]: "half a = half b \<longleftrightarrow> a = b"
  by (simp add: half_def)

lemma fl_half: "\<bar>m\<bar> < 2 ^ 53 \<Longrightarrow> fl (of_int m / 2) = half m"
proof -
  assume m: "\<bar>m\<bar> < 2 ^ 53"
  have eq: "(of_int m / 2 :: rat) = of_int m * 2 powi (- 1)" by (simp add: power_int_minus)
  have "\<bar>of_int m :: rat\<bar> < of_int (2 ^ 53)"
    using m by (metis of_int_abs of_int_less_iff)
  also have "\<dots> \<le> (2::rat) ^ 1024"
    using power_increasing [of 53 1024 "2::rat"] by simp
  finally have "\<bar>of_int m / 2 :: rat\<bar> < 2 ^ 1024" by simp
  moreover have "round64 (of_int m / 2) = of_int m / 2"
    unfolding eq by (rule round64_dyadic [OF m]) simp
  ultimately show ?thesis by (simp add: half_def fl_Fin)
qed

lemma half_0: "Fin 0 = half 0"
  by (simp add: half_def)

lemma half_add: "\<bar>a + b\<bar> < 2 ^ 53 \<Longrightarrow> f_add (half a) (half b) = half (a + b)"
  using fl_half [of "a + b"] by (simp add: half_def add_divide_distrib)

lemma half_sub: "\<bar>a - b\<bar> < 2 ^ 53 \<Longrightarrow> f_sub (half a) (half b) = half (a - b)"
  using fl_half [of "a - b"] by (simp add: half_def f_sub_def diff_divide_distrib)

lemma sum_step_half:
  assumes "0 \<le> s" "0 \<le> x" "s + x < 2 ^ 53"
  shows "sum_step (half x) (half s, half 0) = (half (s + x), half 0)"
proof -
  have t: "f_add (half s) (half x) = half (s + x)" using assms by (intro half_add) simp
  have a: "f_add (f_sub (half s) (half (s + x))) (half x) = half 0"
    using half_sub [of s "s + x"] half_add [of "- x" x] assms by simp
  have b: "f_add (f_sub (half x) (half (s + x))) (half s) = half 0"
    using half_sub [of x "s + x"] half_add [of "- s" s] assms by simp
  show ?thesis using t a b half_add [of 0 0] by (simp add: Let_def)
qed

lemma fold_sum_half:
  assumes "0 \<le> s" "\<forall>x\<in>set ms. 0 \<le> x" "s + sum_list ms < 2 ^ 53"
  shows "fold sum_step (map half ms) (half s, half 0) = (half (s + sum_list ms), half 0)"
  using assms
proof (induction ms arbitrary: s)
  case (Cons m ms)
  have "0 \<le> sum_list ms" using Cons.prems(2) by (intro sum_list_nonneg) auto
  then have "sum_step (half m) (half s, half 0) = (half (s + m), half 0)"
    using Cons.prems by (intro sum_step_half) auto
  then show ?case using Cons.IH [of "s + m"] Cons.prems by (simp add: add.assoc del: sum_step.simps)
qed simp

lemma f_sum_half:
  assumes "\<forall>x\<in>set ms. 0 \<le> x" "sum_list ms < 2 ^ 53"
  shows "f_sum (map half ms) = half (sum_list ms)"
proof (cases ms)
  case (Cons m ns)
  then have "0 \<le> m" "\<forall>x\<in>set ns. 0 \<le> x" "m + sum_list ns < 2 ^ 53" using assms by auto
  moreover from this have "0 \<le> sum_list ns" by (intro sum_list_nonneg) auto
  ultimately show ?thesis
    using fold_sum_half [of m ns] half_add [of "m + sum_list ns" 0] Cons half_0
    by (simp add: f_sum_def)
qed (simp add: f_sum_def half_def)

section \<open>Ranks\<close>

lemma fold_update_nth:
  assumes "distinct order" "\<forall>k\<in>set ks. k < length order" "m < length order"
    and "\<forall>x\<in>set order. x < length r"
  shows "fold (\<lambda>k r. r[order ! k := a]) ks r ! (order ! m) = (if m \<in> set ks then a else r ! (order ! m))"
  using assms(2,4)
proof (induction ks arbitrary: r)
  case (Cons k ks)
  have "order ! m < length r" "order ! k < length r" using Cons.prems assms(3) by simp_all
  moreover have "order ! k = order ! m \<longleftrightarrow> k = m"
    using assms(1,3) Cons.prems(1) by (simp add: nth_eq_iff_index_eq)
  ultimately show ?case using Cons.IH [of "r[order ! k := a]"] Cons.prems by auto
qed simp

lemma length_fold_update [simp]: "length (fold (\<lambda>k r. r[order ! k := a]) ks r) = length r"
  by (induction ks arbitrary: r) auto

lemma sum_ranks: "i \<le> m \<Longrightarrow> (\<Sum>k=i..<m. 2 * (int k + 1)) = int m * (int m + 1) - int i * (int i + 1)"
  by (induction m rule: dec_induct) (auto simp: algebra_simps)

lemma group_total:
  assumes "i \<le> j"
  shows "(\<Sum>k=i..<j + 1. int (i + j + 2)) = (\<Sum>k=i..<j + 1. 2 * (int k + 1))"
proof -
  have "int (j + 1 - i) = int j + 1 - int i" using assms by simp
  then have "(\<Sum>k=i..<j + 1. int (i + j + 2)) = (int j + 1 - int i) * (int i + int j + 2)" by simp
  also have "\<dots> = int (j + 1) * (int (j + 1) + 1) - int i * (int i + 1)" by (simp add: algebra_simps)
  finally show ?thesis using sum_ranks [of i "j + 1"] assms by simp
qed

text \<open>The doubled ranks of the positions from \<open>i\<close> on: in range, and with the total of distinct ranks.\<close>

definition ranked_from :: "nat \<Rightarrow> nat list \<Rightarrow> pyfloat list \<Rightarrow> pyfloat list \<Rightarrow> (nat \<Rightarrow> int) \<Rightarrow> bool" where
  "ranked_from i order old new f \<longleftrightarrow>
     length new = length order
     \<and> (\<forall>k<length order. new ! (order ! k) = (if k < i then old ! (order ! k) else half (f k)))
     \<and> (\<forall>k. i \<le> k \<and> k < length order \<longrightarrow> 2 \<le> f k \<and> f k \<le> 2 * int (length order))
     \<and> (\<Sum>k=i..<length order. f k) = (\<Sum>k=i..<length order. 2 * (int k + 1))"

lemma assign_ranks_from:
  assumes "distinct order" "set order = {..<length xs}" "length order = length xs"
    "length ranks = length xs" "i \<le> length xs" "length xs < 2 ^ 40"
  shows "\<exists>f. ranked_from i order ranks (assign_ranks xs order i ranks) f"
  using assms
proof (induction xs order i ranks rule: assign_ranks.induct)
  case (1 xs order i ranks)
  show ?case
  proof (cases "i < length xs")
    case False
    then show ?thesis using "1.prems" by (auto simp: assign_ranks.simps ranked_from_def)
  next
    case True
    define j where "j = tie_end xs i i"
    define avg where "avg = int_div (int (i + 1 + j + 1)) 2"
    define r1 where "r1 = fold (\<lambda>k r. r[order ! k := avg]) [i..<j + 1] ranks"
    have j: "i \<le> j" "j < length xs" using True by (simp_all add: j_def tie_end_ge tie_end_less)
    have avg: "avg = half (int (i + j + 2))"
      unfolding avg_def int_div_def using j "1.prems"(6) fl_half [of "int (i + j + 2)"] by simp
    have ok: "\<forall>x\<in>set order. x < length ranks" using "1.prems"(2,4) by simp
    have ks: "\<forall>k\<in>set [i..<j + 1]. k < length order" using j "1.prems"(3) by simp
    have r1: "r1 ! (order ! k) = (if i \<le> k \<and> k \<le> j then avg else ranks ! (order ! k))"
      if "k < length xs" for k
      unfolding r1_def
      using fold_update_nth [OF "1.prems"(1) ks _ ok, of k avg] "1.prems"(3) that
      by (simp only: set_upt atLeastLessThan_iff less_Suc_eq_le Suc_eq_plus1 [symmetric])
    have step: "assign_ranks xs order i ranks = assign_ranks xs order (j + 1) r1"
      using True by (simp add: assign_ranks.simps [of xs order i] j_def avg_def r1_def Let_def)
    obtain f where f: "ranked_from (j + 1) order r1 (assign_ranks xs order (j + 1) r1) f"
      using "1.IH" [OF True j_def avg_def] "1.prems" j unfolding r1_def by auto
    define g where "g k = (if k \<le> j then int (i + j + 2) else f k)" for k
    have len: "length order = length xs" by (rule "1.prems")
    have split: "(\<Sum>k=i..<length xs. h k) = (\<Sum>k=i..<j + 1. h k) + (\<Sum>k=j + 1..<length xs. h k)"
      for h :: "nat \<Rightarrow> int" using sum.atLeastLessThan_concat [of i "j + 1" "length xs" h] j by simp
    have "(\<Sum>k=i..<j + 1. g k) = (\<Sum>k=i..<j + 1. int (i + j + 2))"
      by (rule sum.cong) (auto simp: g_def)
    moreover have "(\<Sum>k=j + 1..<length xs. g k) = (\<Sum>k=j + 1..<length xs. f k)"
      by (rule sum.cong) (auto simp: g_def)
    ultimately have total: "(\<Sum>k=i..<length xs. g k) = (\<Sum>k=i..<length xs. 2 * (int k + 1))"
      using f group_total [OF j(1)] unfolding split ranked_from_def len by simp
    let ?r = "assign_ranks xs order (j + 1) r1"
    have r: "length ?r = length xs"
      "\<And>k. k < length xs \<Longrightarrow> ?r ! (order ! k) = (if k < j + 1 then r1 ! (order ! k) else half (f k))"
      "\<And>k. j + 1 \<le> k \<Longrightarrow> k < length xs \<Longrightarrow> 2 \<le> f k \<and> f k \<le> 2 * int (length xs)"
      using f unfolding ranked_from_def len by blast+
    have "?r ! (order ! k) = (if k < i then ranks ! (order ! k) else half (g k))"
      if "k < length xs" for k
      using r(2) [OF that] r1 [OF that] avg j(1) by (cases "k < i"; cases "k \<le> j") (simp_all add: g_def)
    moreover have "2 \<le> g k \<and> g k \<le> 2 * int (length xs)" if "i \<le> k" "k < length xs" for k
      using r(3) [of k] that j by (cases "k \<le> j") (simp_all add: g_def)
    ultimately have "ranked_from i order ranks ?r g"
      unfolding ranked_from_def len using r(1) total by blast
    then show ?thesis unfolding step by blast
  qed
qed

lemma rank_order_perm:
  "distinct (rank_order dv)" "set (rank_order dv) = {..<length dv}" "length (rank_order dv) = length dv"
  by (simp_all add: rank_order_def lessThan_atLeast0)

lemma signed_ranks_half:
  assumes "length dv < 2 ^ 40"
  shows "\<exists>ms. signed_ranks dv = map half ms \<and> length ms = length dv
    \<and> (\<forall>m\<in>set ms. 2 \<le> m \<and> m \<le> 2 * int (length dv))
    \<and> sum_list ms = int (length dv) * (int (length dv) + 1)"
proof -
  let ?o = "rank_order dv" and ?n = "length dv"
  note perm = rank_order_perm [of dv]
  obtain f where "ranked_from 0 ?o (replicate ?n (Fin 0)) (signed_ranks dv) f"
    using assign_ranks_from [of ?o "map (\<lambda>i. f_abs (dv ! i)) ?o" "replicate ?n (Fin 0)" 0] perm assms
    by (auto simp: signed_ranks_def Let_def)
  then have len: "length (signed_ranks dv) = ?n"
    and nth: "\<And>k. k < ?n \<Longrightarrow> signed_ranks dv ! (?o ! k) = half (f k)"
    and range: "\<And>k. k < ?n \<Longrightarrow> 2 \<le> f k \<and> f k \<le> 2 * int ?n"
    and total: "(\<Sum>k=0..<?n. f k) = (\<Sum>k=0..<?n. 2 * (int k + 1))"
    unfolding ranked_from_def perm(3) by auto
  have ex: "\<exists>k<?n. ?o ! k = i" if "i < ?n" for i
    using that perm by (metis in_set_conv_nth lessThan_iff)
  define g where "g i = (SOME v. signed_ranks dv ! i = half v)" for i
  have g: "g (?o ! k) = f k" if "k < ?n" for k
    unfolding g_def nth [OF that] by simp
  have vals: "signed_ranks dv ! i = half (g i)" if "i < ?n" for i
    using ex [OF that] g nth by metis
  define ms where "ms = map g [0..<?n]"
  have "signed_ranks dv = map half ms"
    using vals len by (intro nth_equalityI) (simp_all add: ms_def)
  moreover have "\<forall>m\<in>set ms. 2 \<le> m \<and> m \<le> 2 * int ?n"
  proof
    fix m assume "m \<in> set ms"
    then obtain i where i: "i < ?n" "m = g i" by (auto simp: ms_def)
    then obtain k where "k < ?n" "?o ! k = i" using ex by blast
    then show "2 \<le> m \<and> m \<le> 2 * int ?n" using i g range by metis
  qed
  moreover have "sum_list ms = int ?n * (int ?n + 1)"
  proof -
    have "sum_list ms = sum g (set ?o)"
      unfolding ms_def perm(2) by (simp add: interv_sum_list_conv_sum_set_nat lessThan_atLeast0)
    also have "\<dots> = sum_list (map g ?o)"
      using perm(1) by (simp add: sum_list_distinct_conv_sum_set)
    also have "\<dots> = (\<Sum>k=0..<?n. f k)"
      using g perm(3) by (simp add: sum_list_sum_nth)
    finally show ?thesis using total sum_ranks [of 0 ?n] by simp
  qed
  moreover have "length ms = ?n" by (simp add: ms_def)
  ultimately show ?thesis by blast
qed

section \<open>Rank sums\<close>

lemma filter_zip_half:
  "map snd (filter (\<lambda>(d, r). p d) (zip dv (map half ms))) =
     map half (map snd (filter (\<lambda>(d, m). p d) (zip dv ms)))"
  by (induction dv ms rule: list_induct2') auto

lemma sum_split:
  assumes "length dv = length ms" "\<forall>d\<in>set dv. p d \<longleftrightarrow> \<not> q d"
  shows "sum_list (map snd (filter (\<lambda>(d, m). p d) (zip dv ms)))
    + sum_list (map snd (filter (\<lambda>(d, m). q d) (zip dv ms))) = (sum_list ms :: int)"
  using assms by (induction dv ms rule: list_induct2) auto

lemma sum_filter_nonneg:
  fixes ms :: "int list"
  assumes "\<forall>m\<in>set ms. 0 \<le> m"
  shows "0 \<le> sum_list (map snd (filter (\<lambda>(d, m). p d) (zip dv ms)))"
  using assms by (intro sum_list_nonneg) (auto dest: set_zip_rightD)

definition signed :: "pyfloat \<Rightarrow> bool" where
  "signed d \<longleftrightarrow> d \<noteq> NaN \<and> d \<noteq> Fin 0"

lemma signed_cases: "signed d \<Longrightarrow> f_lt (Fin 0) d \<longleftrightarrow> \<not> f_lt d (Fin 0)"
  by (cases d) (auto simp: signed_def f_lt_def)

lemma rank_sums:
  assumes "length dv < 2 ^ 25" "\<forall>d\<in>set dv. signed d"
  shows "\<exists>a b. rank_sum (\<lambda>d. f_lt (Fin 0) d) dv = half a \<and> rank_sum (\<lambda>d. f_lt d (Fin 0)) dv = half b
    \<and> 0 \<le> a \<and> 0 \<le> b \<and> a + b = int (length dv) * (int (length dv) + 1)"
proof -
  obtain ms where ms: "signed_ranks dv = map half ms" "length dv = length ms"
    "\<forall>m\<in>set ms. 0 \<le> m" "sum_list ms = int (length dv) * (int (length dv) + 1)"
    using signed_ranks_half [of dv] assms(1) by fastforce
  define part where "part p = sum_list (map snd (filter (\<lambda>(d, m). p d) (zip dv ms)))" for p
  have ab: "part (\<lambda>d. f_lt (Fin 0) d) + part (\<lambda>d. f_lt d (Fin 0)) = sum_list ms"
    unfolding part_def by (rule sum_split [OF ms(2)]) (use assms(2) signed_cases in blast)
  have nn: "0 \<le> part p" for p unfolding part_def by (rule sum_filter_nonneg [OF ms(3)])
  have "int (length dv) * (int (length dv) + 1) \<le> 2 ^ 25 * 2 ^ 25"
    using assms(1) by (intro mult_mono) auto
  then have small: "part (\<lambda>d. f_lt (Fin 0) d) < 2 ^ 53" "part (\<lambda>d. f_lt d (Fin 0)) < 2 ^ 53"
    using ab nn [of "\<lambda>d. f_lt (Fin 0) d"] nn [of "\<lambda>d. f_lt d (Fin 0)"] ms(4) by simp_all
  have "rank_sum p dv = half (part p)" if "part p < 2 ^ 53" for p
    unfolding rank_sum_def ms(1) filter_zip_half
    using f_sum_half [of "map snd (filter (\<lambda>(d, m). p d) (zip dv ms))"] ms(3) that
    by (auto simp: part_def dest: set_zip_rightD)
  then show ?thesis using small nn ab ms(4) by metis
qed

section \<open>Differences of distinct scores\<close>

text \<open>The difference of two distinct floats never rounds to zero.\<close>

lemma f64_multiple: "round64 r = r \<Longrightarrow> \<exists>m. r = of_int m * 2 powi (- 1074)"
proof (cases "r = 0")
  case False
  assume "round64 r = r"
  moreover define e where "e = ulp_exp r"
  moreover define k where "k = rnd_even (r / 2 powi e)"
  ultimately have r: "r = of_int k * 2 powi e" using False by (simp add: round64_at)
  have "- 1074 \<le> e" by (simp add: e_def ulp_exp_def)
  then have "(2::rat) powi e = of_int (2 ^ nat (e + 1074)) * 2 powi (- 1074)"
    using pow2_div [of "- 1074" e] by (simp add: field_simps)
  then have "r = of_int (k * 2 ^ nat (e + 1074)) * 2 powi (- 1074)" using r by simp
  then show ?thesis by blast
qed (auto intro: exI [of _ 0])

lemma round64_diff_nonzero:
  assumes "round64 r = r" "round64 s = s" "r \<noteq> s"
  shows "round64 (r - s) \<noteq> 0"
proof -
  have pos: "0 < round64 (a - b)" if "round64 a = a" "round64 b = b" "b < a" for a b
  proof -
    note h = that
    obtain m n where mn: "a = of_int m * 2 powi (- 1074)" "b = of_int n * 2 powi (- 1074)"
      using f64_multiple [OF h(1)] f64_multiple [OF h(2)] by blast
    then have eq: "a - b = of_int (m - n) * 2 powi (- 1074)" by (simp add: left_diff_distrib)
    define x where "x = a - b"
    have x: "0 < x" using h(3) by (simp add: x_def)
    show ?thesis
    proof (cases "ulp_exp x = - 1074")
      case True
      then have "ulp_exp x \<le> - 1074" by (rule eq_refl)
      then have "round64 x = x" by (rule round64_exact [OF _ eq [folded x_def]])
      then show ?thesis using x by (simp add: x_def)
    next
      case False
      then have "ulp_exp x \<le> expo x" using x by (simp add: ulp_exp_def split: if_splits)
      then have "2 powi expo x \<le> round64 x"
        using expo_bounds [OF x] x by (intro pow2_le_round64) simp_all
      moreover have "(0::rat) < 2 powi expo x" by (rule zero_less_power_int) simp
      ultimately have "0 < round64 x" by (rule less_le_trans [rotated])
      then show ?thesis by (simp add: x_def)
    qed
  qed
  consider "s < r" | "r < s" using assms(3) by linarith
  then show ?thesis
  proof cases
    case 2
    then have "0 < round64 (s - r)" by (rule pos [OF assms(2,1)])
    then show ?thesis using round64_uminus [of "s - r"] by simp
  qed (use pos [OF assms(1,2)] in simp)
qed

definition score_ok :: "pyfloat \<Rightarrow> bool" where
  "score_ok x = (is_f64 x \<and> is_fin x)"

lemma diff_signed:
  assumes "score_ok b" "score_ok f" "\<not> f_eq f b"
  shows "signed (f_sub f b)"
proof -
  obtain r s where rs: "f = Fin r" "b = Fin s" "round64 r = r" "round64 s = s"
    using assms by (cases b; cases f) (auto simp: score_ok_def)
  then have "r \<noteq> s" using assms(3) by (auto simp: f_eq_def)
  then have "round64 (r - s) \<noteq> 0" using rs by (intro round64_diff_nonzero)
  then show ?thesis using rs by (auto simp: signed_def f_sub_def fl_def Let_def)
qed

lemma nonzero_diffs_signed:
  assumes "\<forall>x\<in>set base \<union> set ft. score_ok x" "d \<in> set (nonzero_diffs base ft)"
  shows "signed d"
proof -
  obtain b f where "(b, f) \<in> set (zip base ft)" "\<not> f_eq f b" "d = f_sub f b"
    using assms(2) by (auto simp: nonzero_diffs_def)
  then show ?thesis using assms(1) by (auto intro!: diff_signed dest: set_zip_leftD set_zip_rightD)
qed

lemma length_nonzero_diffs: "length (nonzero_diffs base ft) \<le> length base"
proof -
  have "length (nonzero_diffs base ft) \<le> length (zip base ft)"
    unfolding nonzero_diffs_def length_map by (rule length_filter_le)
  then show ?thesis by simp
qed

section \<open>The tests do not depend on the side\<close>

lemma fl_uminus: "fl (- x) = f_neg (fl x)"
  by (auto simp: fl_def Let_def round64_uminus)

lemma f_sub_swap: "is_fin x \<Longrightarrow> is_fin y \<Longrightarrow> f_sub y x = f_neg (f_sub x y)"
  using fl_uminus [of "a - b" for a b] by (cases x; cases y) (auto simp: f_sub_def simp flip: fl_uminus)

lemma f_abs_neg [simp]: "f_abs (f_neg x) = f_abs x"
  by (cases x) (simp_all add: f_abs_def)

lemma f_lt_neg: "f_lt (Fin 0) (f_neg x) \<longleftrightarrow> f_lt x (Fin 0)" "f_lt (f_neg x) (Fin 0) \<longleftrightarrow> f_lt (Fin 0) x"
  by (cases x; simp add: f_lt_def)+

lemma nonzero_diffs_swap:
  assumes "\<forall>x\<in>set base \<union> set ft. score_ok x"
  shows "nonzero_diffs ft base = map f_neg (nonzero_diffs base ft)"
  using assms
proof (induction base ft rule: list_induct2')
  case (4 b bs f fs)
  then have "is_fin b" "is_fin f" by (simp_all add: score_ok_def)
  then have "f_sub b f = f_neg (f_sub f b)" by (intro f_sub_swap)
  moreover have "f_eq b f \<longleftrightarrow> f_eq f b" by (auto simp: f_eq_def)
  ultimately show ?case using 4 by (simp add: nonzero_diffs_def)
qed (simp_all add: nonzero_diffs_def)

lemma insort_key_cong': "\<forall>y\<in>insert x (set ys). f y = g y \<Longrightarrow> insort_key f x ys = insort_key g x ys"
  by (induction ys) auto

lemma sort_key_cong': "\<forall>y\<in>set ys. f y = g y \<Longrightarrow> sort_key f ys = sort_key g ys"
  by (induction ys) (auto intro!: insort_key_cong')

lemma signed_ranks_neg: "signed_ranks (map f_neg dv) = signed_ranks dv"
proof -
  have abs: "f_abs (map f_neg dv ! i) = f_abs (dv ! i)" if "i < length dv" for i
    using that by simp
  then have "rank_order (map f_neg dv) = rank_order dv"
    unfolding rank_order_def length_map by (intro sort_key_cong') simp
  moreover have "map (\<lambda>i. f_abs (map f_neg dv ! i)) (rank_order dv) = map (\<lambda>i. f_abs (dv ! i)) (rank_order dv)"
    using abs rank_order_perm(2) [of dv] by simp
  ultimately show ?thesis by (simp only: signed_ranks_def Let_def length_map)
qed

lemma rank_sum_neg: "rank_sum p (map f_neg dv) = rank_sum (p \<circ> f_neg) dv"
proof -
  have "map snd (filter (\<lambda>(d, r). p d) (zip (map f_neg dv) rs)) =
      map snd (filter (\<lambda>(d, r). (p \<circ> f_neg) d) (zip dv rs))" for rs :: "pyfloat list"
    by (induction dv rs rule: list_induct2') auto
  then show ?thesis by (simp add: rank_sum_def signed_ranks_neg)
qed

lemma f_min2_half: "f_min2 (half a) (half b) = half (min a b)"
  by (auto simp: f_min2_def half_def min_def)

text \<open>Everything the p-value uses is the same from either side.\<close>

lemma wilcoxon_swap:
  assumes ok: "\<forall>x\<in>set base \<union> set ft. score_ok x" and len: "length base < 2 ^ 25"
  shows "wilcoxon_signed_rank_p sq erfc ft base = wilcoxon_signed_rank_p sq erfc base ft"
proof -
  let ?d = "nonzero_diffs base ft"
  let ?up = "\<lambda>d. f_lt (Fin 0) d" and ?dn = "\<lambda>d. f_lt d (Fin 0)"
  have n: "length ?d < 2 ^ 25" using length_nonzero_diffs [of base ft] len by linarith
  obtain a b where ab: "rank_sum ?up ?d = half a" "rank_sum ?dn ?d = half b"
    using rank_sums [OF n] nonzero_diffs_signed [OF ok] by blast
  have "?up \<circ> f_neg = ?dn" "?dn \<circ> f_neg = ?up" by (auto simp: f_lt_neg)
  then have swap: "rank_sum ?up (map f_neg ?d) = half b" "rank_sum ?dn (map f_neg ?d) = half a"
    using ab rank_sum_neg by simp_all
  have w: "f_min2 (half b) (half a) = f_min2 (half a) (half b)"
    by (simp add: f_min2_half min.commute)
  have abs: "map f_abs (map f_neg ?d) = map f_abs ?d" by simp
  show ?thesis
    unfolding wilcoxon_signed_rank_p_def nonzero_diffs_swap [OF ok] Let_def length_map ab swap w abs
    by auto
qed

lemma mcnemar_swap: "mcnemar_p ft base = mcnemar_p base ft"
  by (auto simp: mcnemar_p_def Let_def min.commute add.commute)

text \<open>C20: The Wilcoxon ranks are exact. For any paired finite binary64 scores (ties included,
  up to 2^25 cases) the float rank sums of the positive and of the negative differences are
  non-negative half integers that add up to exactly \<open>n (n + 1) / 2\<close> over the \<open>n\<close> cases that differ;
  and neither this test nor the McNemar test depends on which model is called the base.\<close>

theorem rank_sums_partition:
  assumes "\<forall>x\<in>set base \<union> set ft. score_ok x" "length base < 2 ^ 25"
  shows "let dv = nonzero_diffs base ft; n = length dv in
    (\<exists>a b. rank_sum (\<lambda>d. f_lt (Fin 0) d) dv = Fin (of_int a / 2)
       \<and> rank_sum (\<lambda>d. f_lt d (Fin 0)) dv = Fin (of_int b / 2)
       \<and> 0 \<le> a \<and> 0 \<le> b \<and> a + b = int n * (int n + 1))
    \<and> wilcoxon_signed_rank_p sq erfc ft base = wilcoxon_signed_rank_p sq erfc base ft
    \<and> mcnemar_p ft base = mcnemar_p base ft"
proof -
  have "length (nonzero_diffs base ft) < 2 ^ 25"
    using length_nonzero_diffs [of base ft] assms(2) by linarith
  then show ?thesis
    using rank_sums [of "nonzero_diffs base ft"] nonzero_diffs_signed [OF assms(1)]
      wilcoxon_swap [OF assms] mcnemar_swap
    unfolding Let_def half_def by blast
qed

theorem rank_sums_partition_witness:
  "\<exists>a b. rank_sum (\<lambda>d. f_lt (Fin 0) d) (nonzero_diffs [Fin 0, Fin 1, Fin 0] [Fin 1, Fin 0, Fin 0]) = Fin (of_int a / 2)
     \<and> rank_sum (\<lambda>d. f_lt d (Fin 0)) (nonzero_diffs [Fin 0, Fin 1, Fin 0] [Fin 1, Fin 0, Fin 0]) = Fin (of_int b / 2)
     \<and> a + b = 6"
proof -
  have n: "length (nonzero_diffs [Fin 0, Fin 1, Fin 0] [Fin 1, Fin 0, Fin 0]) = 2"
    by (simp add: nonzero_diffs_def f_eq_def)
  show ?thesis
    using rank_sums_partition [of "[Fin 0, Fin 1, Fin 0]" "[Fin 1, Fin 0, Fin 0]" id id]
    unfolding Let_def n by (auto simp: score_ok_def)
qed

end
