(* ===== verification/Train_Window.thy ===== *)
theory Train_Window
  imports Gpu_Jarvis Eval_Datasets
begin

text \<open>
  The unattended GPU run: the boot script of \<open>training/scripts/launch_gpu_run.py\<close> and the
  orchestrator \<open>training/scripts/p7_episodic_run.py\<close>, which creates an instance through the provider
  of \<open>infra/gpu\<close>, polls the model hub for fresh results and destroys the instance in a \<open>finally\<close>.
  The hub, the clock and an interruption of a sleep are parameters; the SDK is the one of
  \<open>Gpu_Jarvis\<close>, whose history of calls tells which instances may be billing.
\<close>

section \<open>The boot script\<close>

text \<open>\<open>s.replace(key, val)\<close> for a non-empty key.\<close>

function str_replace :: "string \<Rightarrow> string \<Rightarrow> string \<Rightarrow> string" where
  "str_replace key val [] = []"
| "str_replace key val (c # cs) =
     (if key \<noteq> [] \<and> prefix key (c # cs) then val @ str_replace key val (drop (length key) (c # cs))
      else c # str_replace key val cs)"
  by pat_completeness auto
termination by (relation "measure (\<lambda>(key, val, s). length s)") (auto simp: prefix_def)

definition REPO_URL :: string where
  "REPO_URL = ''https://github.com/venkathub/atlas-compliance-copilot.git''"

record launch_args =
  la_config :: string
  la_branch :: string
  la_timeout :: int
  la_generate :: int
  la_teacher :: string
  la_faithfulness :: int
  la_benchmark_only :: string
  la_bake_in :: bool

definition extra_args :: "launch_args \<Rightarrow> string" where
  "extra_args a =
     str_join '' ''
       ((if la_benchmark_only a \<noteq> [] then [''--benchmark-only '' @ la_benchmark_only a]
         else if 0 < la_generate a then [''--generate-data '' @ str_int (la_generate a)] else [])
        @ (if la_faithfulness a \<noteq> 0 then [''--faithfulness-samples '' @ str_int (la_faithfulness a)] else [])
        @ (if la_bake_in a then [''--bake-in''] else []))"

text \<open>An unset or empty variable ends the program with status 2.\<close>

definition require_env :: "(string, string) dict \<Rightarrow> string \<Rightarrow> (string, string) result" where
  "require_env env name = (case dict_get env name of Some (c # cs) \<Rightarrow> Inr (c # cs) | _ \<Rightarrow> Inl name)"

definition boot_replacements ::
  "(string, string) dict \<Rightarrow> launch_args \<Rightarrow> (string, (string \<times> string) list) result" where
  "boot_replacements env a =
     res_bind (require_env env ''HF_TOKEN'') (\<lambda>token.
     res_bind (require_env env ''ATLAS_HF_ADAPTER_REPO'') (\<lambda>repo.
     res_bind (require_env env ''ATLAS_GPU_COST_PER_HOUR'') (\<lambda>rate.
       Inr [(''@@BRANCH@@'', la_branch a),
            (''@@REPO_URL@@'', REPO_URL),
            (''@@CONFIG@@'', la_config a),
            (''@@TIMEOUT@@'', str_int (la_timeout a)),
            (''@@EXTRA_ARGS@@'', extra_args a),
            (''@@HF_ONLY@@'', if la_benchmark_only a \<noteq> [] then [] else ''--hf-only''),
            (''@@TEACHER_MODEL@@'', la_teacher a),
            (''@@HF_TOKEN@@'', token),
            (''@@HF_REPO@@'', repo),
            (''@@HF_PRIVATE@@'', env_get env ''HF_PRIVATE'' ''true''),
            (''@@COST_RATE@@'', rate),
            (''@@COST_CCY@@'', env_get env ''ATLAS_GPU_COST_CURRENCY'' ''INR''),
            (''@@JUDGE_MODEL@@'', env_get env ''ATLAS_EVAL_JUDGE_MODEL'' ''llama3.1:8b'')])))"

text \<open>The template is an argument, the constant \<open>_BOOT\<close> in the program.\<close>

definition build_boot_script ::
  "string \<Rightarrow> (string, string) dict \<Rightarrow> launch_args \<Rightarrow> (string, string) result" where
  "build_boot_script boot env a =
     res_bind (boot_replacements env a) (\<lambda>repl. Inr (fold (\<lambda>(k, v) s. str_replace k v s) repl boot))"

section \<open>Creating the instance\<close>

definition launch_instance ::
  "sdk \<Rightarrow> string \<Rightarrow> string \<Rightarrow> jarvis \<Rightarrow> jarvis \<times> (gpu_exc, instance_info) result" where
  "launch_instance c name boot p =
     (case sdk_script c (j_log p) boot name of
        Inl e \<Rightarrow> (note_call (EScript name False) p, Inl e)
      | Inr script_id \<Rightarrow>
          (let p1 = note_call (EScript name True) p
           in case sdk_create c (j_log p1) ((j_spec p1)\<lparr>cs_name := name\<rparr>) ''11434'' script_id of
                Inl e \<Rightarrow> (note_call (ECreate None) p1, Inl e)
              | Inr info \<Rightarrow> (note_call (ECreate (Some (i_machine_id info))) p1, Inr info)))"

text \<open>\<open>launch_gpu_run.main\<close>: destroy the given instance, or create one and leave it running.\<close>

definition launch_main ::
  "sdk \<Rightarrow> string \<Rightarrow> (string, string) dict \<Rightarrow> launch_args \<Rightarrow> string \<Rightarrow> jarvis \<Rightarrow> jarvis \<times> (gpu_exc, int) result" where
  "launch_main c boot env a to_destroy p =
     (if to_destroy \<noteq> []
      then (case jl_destroy c (p\<lparr>j_instance_id := to_destroy\<rparr>) of
              (p1, Inl e) \<Rightarrow> (p1, Inl e) | (p1, Inr u) \<Rightarrow> (p1, Inr 0))
      else (case build_boot_script boot env a of
              Inl missing \<Rightarrow> (p, Inl (BaseOnly ''SystemExit 2''))
            | Inr script \<Rightarrow>
                (case launch_instance c ''atlas-p6-train'' script p of
                   (p1, Inl e) \<Rightarrow> (p1, Inl e) | (p1, Inr info) \<Rightarrow> (p1, Inr 0))))"

section \<open>Polling for results\<close>

text \<open>
  \<open>wi_recorded k\<close> is the \<open>recorded_at\<close> read from the hub at the \<open>k\<close>-th time, \<open>JNull\<close> when it is absent
  or could not be read; reading 0 is the baseline. \<open>wi_clock k\<close> is the clock at the \<open>k\<close>-th check.
\<close>

record window_env =
  wi_recorded :: "nat \<Rightarrow> json"
  wi_clock :: "nat \<Rightarrow> pyfloat"
  wi_deadline :: pyfloat
  wi_sleep :: "nat \<Rightarrow> gpu_exc option"
  wi_download :: "nat \<Rightarrow> (gpu_exc, unit) result"

definition fresh :: "json \<Rightarrow> json \<Rightarrow> bool" where
  "fresh baseline recorded = (json_truthy recorded \<and> \<not> py_eq recorded baseline)"

text \<open>The value is whether fresh results were downloaded.\<close>

partial_function (option) poll_results ::
  "window_env \<Rightarrow> nat \<Rightarrow> (gpu_exc, bool) result option" where
  [code]: "poll_results env k =
     (if \<not> f_lt (wi_clock env k) (wi_deadline env) then Some (Inr False)
      else (case wi_sleep env k of
              Some e \<Rightarrow> Some (Inl e)
            | None \<Rightarrow>
                (if fresh (wi_recorded env 0) (wi_recorded env (k + 1))
                 then (case wi_download env (k + 1) of Inl e \<Rightarrow> Some (Inl e) | Inr u \<Rightarrow> Some (Inr True))
                 else poll_results env (k + 1))))"

section \<open>The window\<close>

definition teardown ::
  "sdk \<Rightarrow> bool \<Rightarrow> (gpu_exc, bool) result \<Rightarrow> jarvis \<Rightarrow> jarvis \<times> (gpu_exc, int) result" where
  "teardown c keep out p =
     (let code = (case out of Inl e \<Rightarrow> Inl e | Inr ok \<Rightarrow> Inr (if ok then 0 else 1)) in
      if keep then (p, code)
      else (case jl_destroy c p of
              (p1, Inl e) \<Rightarrow> (p1, Inl e)
            | (p1, Inr u) \<Rightarrow> (p1, code)))"

definition run_window ::
  "sdk \<Rightarrow> window_env \<Rightarrow> bool \<Rightarrow> string \<Rightarrow> jarvis \<Rightarrow> (jarvis \<times> (gpu_exc, int) result) option" where
  "run_window c env keep boot p =
     (case launch_instance c ''atlas-p7-bench'' boot p of
        (p1, Inl e) \<Rightarrow> Some (p1, Inl e)
      | (p1, Inr info) \<Rightarrow>
          (let p2 = p1\<lparr>j_instance_id := i_machine_id info\<rparr>
           in map_option (\<lambda>out. teardown c keep out p2) (poll_results env 0)))"

section \<open>The window ends\<close>

lemma poll_results_bound:
  assumes "\<not> f_lt (wi_clock env (k + n)) (wi_deadline env)"
  shows "\<exists>r. poll_results env k = Some r"
  using assms
proof (induction n arbitrary: k)
  case 0
  then show ?case by (subst poll_results.simps) simp
next
  case (Suc n)
  then obtain r where "poll_results env (k + 1) = Some r" by force
  then show ?case by (subst poll_results.simps) (auto split: option.splits sum.splits)
qed

lemma poll_results_fresh:
  assumes "poll_results env k = Some r"
  shows "r = Inr True \<longrightarrow> (\<exists>j>k. fresh (wi_recorded env 0) (wi_recorded env j) \<and> wi_download env j = Inr ())"
  using assms
proof (induction rule: poll_results.raw_induct [rotated, consumes 1, case_names step])
  case (step poll env k r)
  consider "r = Inr False" | "isl r"
    | "fresh (wi_recorded env 0) (wi_recorded env (k + 1))" "wi_download env (k + 1) = Inr ()"
    | "poll env (k + 1) = Some r"
    using step(2)
    by (cases "f_lt (wi_clock env k) (wi_deadline env)"; cases "wi_sleep env k";
        cases "fresh (wi_recorded env 0) (wi_recorded env (k + 1))"; cases "wi_download env (k + 1)")
      auto
  then show ?case
  proof cases
    case 3
    then show ?thesis by (intro impI exI [of _ "k + 1"]) simp
  next
    case 4
    then show ?thesis using step(1) by (metis Suc_eq_plus1 Suc_lessD)
  qed auto
qed

section \<open>The instance does not survive the window\<close>

lemma live_append: "live (es @ fs) = fold live_step fs (live es)"
  by (simp add: live_def)

lemma launch_instance_live:
  assumes "launch_instance c name boot p = (p1, out)"
  shows "case out of
      Inr info \<Rightarrow> live (j_log p1) = insert (i_machine_id info) (live (j_log p))
        \<and> last (j_log p1) = ECreate (Some (i_machine_id info))
    | Inl e \<Rightarrow> live (j_log p1) = live (j_log p) \<or> last (j_log p1) = ECreate None"
  using assms by (auto simp: launch_instance_def note_call_def Let_def live_append split: sum.splits)

text \<open>The calls after which an instance may be left: a create without an answer, or with an empty id,
  and a destroy that raised.\<close>

fun unresolved :: "sdk_event \<Rightarrow> bool" where
  "unresolved (ECreate None) = True"
| "unresolved (ECreate (Some i)) = (i = [])"
| "unresolved (EDestroy i ok) = (\<not> ok)"
| "unresolved _ = False"

lemma teardown_live:
  assumes "teardown c False out p = (p', res)" "live (j_log p) = {j_instance_id p}"
    and "j_instance_id p = [] \<Longrightarrow> unresolved (last (j_log p))"
  shows "live (j_log p') = {} \<and> (\<forall>code. res = Inr code \<longrightarrow> (\<exists>ok. out = Inr ok \<and> code = (if ok then 0 else 1)))
    \<or> unresolved (last (j_log p')) \<and> (\<exists>e. res = Inl e)"
proof (cases "j_instance_id p = []")
  case True
  then show ?thesis using assms by (auto simp: teardown_def jl_destroy_def Let_def)
next
  case False
  show ?thesis
  proof (cases "sdk_destroy c (j_log p) (j_instance_id p)")
    case (Inl e)
    then have "p' = note_call (EDestroy (j_instance_id p) False) p" "res = Inl e"
      using assms(1) False by (simp_all add: teardown_def jl_destroy_def Let_def)
    then show ?thesis by (simp add: note_call_def)
  next
    case (Inr u)
    then have "p' = note_call (EDestroy (j_instance_id p) True) p"
      "res = (case out of Inl e \<Rightarrow> Inl e | Inr ok \<Rightarrow> Inr (if ok then 0 else 1))"
      using assms(1) False by (simp_all add: teardown_def jl_destroy_def Let_def)
    then show ?thesis using assms(2) by (cases out) (simp_all add: note_call_def)
  qed
qed

lemma run_window_result:
  assumes run: "run_window c env False boot p = Some (p', res)" and "live (j_log p) = {}"
  shows "case res of
      Inr code \<Rightarrow> live (j_log p') = {} \<and> (code = 0 \<or> code = 1)
        \<and> (code = 0 \<longrightarrow> (\<exists>j>0. fresh (wi_recorded env 0) (wi_recorded env j) \<and> wi_download env j = Inr ()))
    | Inl e \<Rightarrow> live (j_log p') = {} \<or> unresolved (last (j_log p'))"
proof -
  obtain p1 out where l: "launch_instance c ''atlas-p7-bench'' boot p = (p1, out)" by fastforce
  note live = launch_instance_live [OF l]
  show ?thesis
  proof (cases out)
    case (Inl e)
    then show ?thesis using run l live assms(2) by (auto simp: run_window_def)
  next
    case (Inr info)
    let ?p2 = "p1\<lparr>j_instance_id := i_machine_id info\<rparr>"
    obtain r where r: "poll_results env 0 = Some r" "teardown c False r ?p2 = (p', res)"
      using run l Inr by (auto simp: run_window_def Let_def)
    have "live (j_log ?p2) = {j_instance_id ?p2}" using live Inr assms(2) by simp
    moreover have "j_instance_id ?p2 = [] \<Longrightarrow> unresolved (last (j_log ?p2))" using live Inr by simp
    ultimately have t: "live (j_log p') = {} \<and> (\<forall>code. res = Inr code \<longrightarrow> (\<exists>ok. r = Inr ok \<and> code = (if ok then 0 else 1)))
        \<or> unresolved (last (j_log p')) \<and> (\<exists>e. res = Inl e)"
      by (rule teardown_live [OF r(2)])
    note fresh = poll_results_fresh [OF r(1)]
    show ?thesis
    proof (cases res)
      case (Inr code)
      then obtain ok where "live (j_log p') = {}" "r = Inr ok" "code = (if ok then 0 else 1)"
        using t by blast
      then show ?thesis using fresh Inr by simp
    qed (use t in auto)
  qed
qed


text \<open>A baseline that could not be read makes the old results look fresh.\<close>

lemma stale_results_accepted:
  assumes "wi_recorded env 0 = JNull" "wi_recorded env 1 = JStr (c # cs)"
    and "f_lt (wi_clock env 0) (wi_deadline env)" "wi_sleep env 0 = None" "wi_download env 1 = Inr ()"
  shows "poll_results env 0 = Some (Inr True)"
proof -
  have "fresh JNull (JStr (c # cs))" by (simp add: fresh_def py_eq_def)
  then show ?thesis using assms by (subst poll_results.simps) simp
qed

definition demo_window :: window_env where
  "demo_window = \<lparr>wi_recorded = (\<lambda>k. JStr (if k = 0 then ''old'' else ''new'')),
     wi_clock = (\<lambda>k. Fin (of_nat k)), wi_deadline = Fin 5, wi_sleep = (\<lambda>k. None),
     wi_download = (\<lambda>k. Inr ())\<rparr>"

lemma demo_poll: "poll_results demo_window 0 = Some (Inr True)"
  by (subst poll_results.simps) (simp add: demo_window_def fresh_def py_eq_def)


end
