(* ===== verification/Train_Boot.thy ===== *)
theory Train_Boot
  imports Train_Window Train_Synth
begin

text \<open>
  The template of the boot script (\<open>_BOOT\<close> in \<open>training/scripts/launch_gpu_run.py\<close>) and what the chain of
  replacements makes of it. The template is a list of pieces, literal texts and slots; the program holds
  it as one string and replaces the placeholders one after the other.
\<close>

section \<open>Templates\<close>

datatype piece = Lit string | Slot string

definition placeholder :: "string \<Rightarrow> string" where
  "placeholder n = ''@@'' @ n @ ''@@''"

fun piece_text :: "piece \<Rightarrow> string" where
  "piece_text (Lit s) = s"
| "piece_text (Slot n) = placeholder n"

definition template_text :: "piece list \<Rightarrow> string" where
  "template_text ps = concat (map piece_text ps)"

definition BOOT_PIECES :: "piece list" where
  \<open>BOOT_PIECES = [
     Lit (''#!/bin/bash'' @ NL),
     Lit (''set -u'' @ NL),
     Lit (''export HOME=/root'' @ NL),
     Lit (''export PATH=/usr/local/bin:/usr/bin:/bin:/opt/conda/bin:$HOME/.local/bin:$HOME/.cargo/bin:$PATH'' @ NL),
     Lit (''cat > /root/atlas_run.sh <<'' @ [CHR 0x27] @ ''RUNEOF'' @ [CHR 0x27] @ NL),
     Lit (''#!/bin/bash'' @ NL),
     Lit (''set -x'' @ NL),
     Lit (''exec > /var/log/atlas-train.log 2>&1'' @ NL),
     Lit (''export HOME=/root'' @ NL),
     Lit (''export PATH=/usr/local/bin:/usr/bin:/bin:/opt/conda/bin:$HOME/.local/bin:$HOME/.cargo/bin:$PATH'' @ NL),
     Lit (''export OLLAMA_HOST=127.0.0.1:11434'' @ NL),
     Lit (''ensure_ollama() {'' @ NL),
     Lit (''  command -v lspci >/dev/null 2>&1 || (apt-get update -y && apt-get install -y pciutils lshw) >/dev/null 2>&1 || true'' @ NL),
     Lit (''  command -v ollama >/dev/null 2>&1 || (curl -fsSL https://ollama.com/install.sh | sh)'' @ NL),
     Lit (''  if ! curl -sf http://127.0.0.1:11434/api/tags >/dev/null 2>&1; then'' @ NL),
     Lit (''    pkill -x ollama 2>/dev/null; sleep 2'' @ NL),
     Lit (''    setsid ollama serve >/var/log/ollama.log 2>&1 < /dev/null &'' @ NL),
     Lit (''  fi'' @ NL),
     Lit (''  for i in $(seq 1 90); do curl -sf http://127.0.0.1:11434/api/tags >/dev/null 2>&1 && return 0; sleep 2; done'' @ NL),
     Lit (''  echo "[atlas] ERROR: ollama not reachable on :11434"; return 1'' @ NL),
     Lit (''}'' @ NL),
     Lit (''ensure_ollama'' @ NL),
     Lit (''command -v uv >/dev/null 2>&1 || (curl -LsSf https://astral.sh/uv/install.sh | sh)'' @ NL),
     Lit (''rm -rf /root/atlas'' @ NL),
     Lit (''git clone --branch ''), Slot ''BRANCH'', Lit ('' --depth 1 ''), Slot ''REPO_URL'', Lit ('' /root/atlas'' @ NL),
     Lit (''cd /root/atlas/training'' @ NL),
     Lit (''cat > .env <<'' @ [CHR 0x27] @ ''ENVEOF'' @ [CHR 0x27] @ NL),
     Lit (''HF_TOKEN=''), Slot ''HF_TOKEN'', Lit NL,
     Lit (''ATLAS_HF_ADAPTER_REPO=''), Slot ''HF_REPO'', Lit NL,
     Lit (''HF_PRIVATE=''), Slot ''HF_PRIVATE'', Lit NL,
     Lit (''ATLAS_GPU_COST_PER_HOUR=''), Slot ''COST_RATE'', Lit NL,
     Lit (''ATLAS_GPU_COST_CURRENCY=''), Slot ''COST_CCY'', Lit NL,
     Lit (''ATLAS_EVAL_JUDGE_MODEL=''), Slot ''JUDGE_MODEL'', Lit NL,
     Lit (''ATLAS_EVAL_JUDGE_BASE_URL=http://localhost:11434'' @ NL),
     Lit (''OLLAMA_BASE_URL=http://localhost:11434'' @ NL),
     Lit (''OLLAMA_EMBED_MODEL=nomic-embed-text'' @ NL),
     Lit (''ATLAS_SYNTH_GENERATOR_MODEL=''), Slot ''TEACHER_MODEL'', Lit NL,
     Lit (''ATLAS_SYNTH_BASE_URL=http://localhost:11434'' @ NL),
     Lit (''ENVEOF'' @ NL),
     Lit (''uv sync --group train'' @ NL),
     Lit (''ensure_ollama   # re-ensure after the long uv sync (serve may have died / not been ready)'' @ NL),
     Lit (''# pull AFTER the final ensure so the models land in the serve that handles generation/judging'' @ NL),
     Lit (''ollama pull ''), Slot ''TEACHER_MODEL'', Lit NL,
     Lit (''ollama pull ''), Slot ''JUDGE_MODEL'', Lit NL,
     Lit (''ollama pull nomic-embed-text'' @ NL),
     Lit (''ollama list || true'' @ NL),
     Lit (''timeout ''), Slot ''TIMEOUT'', Lit ('' uv run --env-file .env --group train python scripts/run_episodic.py '' @ [CHR 0x5C] @ NL),
     Lit (''    --config ''), Slot ''CONFIG'', Lit ('' ''), Slot ''EXTRA_ARGS'', Lit ('' ''), Slot ''HF_ONLY'', Lit ('' --upload-results "''), Slot ''HF_REPO'', Lit (''"'' @ NL),
     Lit (''echo "[atlas] pipeline finished rc=$?"'' @ NL),
     Lit (''RUNEOF'' @ NL),
     Lit (''chmod +x /root/atlas_run.sh'' @ NL),
     Lit (''nohup bash /root/atlas_run.sh >/var/log/atlas-boot.log 2>&1 &'' @ NL),
     Lit (''echo "[atlas] P6 training launched in background; results -> HF repo ''), Slot ''HF_REPO'', Lit (''"'' @ NL)]\<close>

definition BOOT :: string where
  "BOOT = template_text BOOT_PIECES"

text \<open>Filling all slots at once.\<close>

definition fill_slots :: "(string \<times> string) list \<Rightarrow> piece list \<Rightarrow> string" where
  "fill_slots repl ps =
     concat (map (\<lambda>p. case p of Lit s \<Rightarrow> s
                 | Slot n \<Rightarrow> (case map_of repl (placeholder n) of Some v \<Rightarrow> v | None \<Rightarrow> placeholder n)) ps)"

section \<open>One replacement\<close>

definition name_char :: "char \<Rightarrow> bool" where
  "name_char c \<longleftrightarrow> c \<in> set ''ABCDEFGHIJKLMNOPQRSTUVWXYZ_''"

definition slot_name :: "string \<Rightarrow> bool" where
  "slot_name n \<longleftrightarrow> n \<noteq> [] \<and> list_all name_char n"

text \<open>The text after a slot is a literal that cannot continue a name.\<close>

fun separated :: "piece list \<Rightarrow> bool" where
  "separated (Lit (c # s) # ps) = (\<not> name_char c \<and> c \<noteq> CHR ''@'')"
| "separated [] = True"
| "separated _ = False"

fun clean_template :: "piece list \<Rightarrow> bool" where
  "clean_template [] = True"
| "clean_template (Lit s # ps) = (CHR ''@'' \<notin> set s \<and> clean_template ps)"
| "clean_template (Slot n # ps) = (slot_name n \<and> separated ps \<and> clean_template ps)"

definition put_value :: "string \<Rightarrow> string \<Rightarrow> piece list \<Rightarrow> piece list" where
  "put_value n v = map (\<lambda>p. if p = Slot n then Lit v else p)"

lemma at_no_name_char [simp]: "\<not> name_char CHR ''@''"
  by (simp add: name_char_def)

lemma slot_name_at: "slot_name n \<Longrightarrow> CHR ''@'' \<notin> set n"
  by (auto simp: slot_name_def list_all_iff)

lemma str_replace_skip: "CHR ''@'' \<notin> set s \<Longrightarrow> str_replace (placeholder n) v (s @ t) = s @ str_replace (placeholder n) v t"
  by (induction s) (auto simp: placeholder_def)

lemma str_replace_here: "str_replace (placeholder n) v (placeholder n @ t) = v @ str_replace (placeholder n) v t"
  by (simp add: placeholder_def)

lemma same_name:
  "CHR ''@'' \<notin> set n \<Longrightarrow> CHR ''@'' \<notin> set m \<Longrightarrow> prefix (n @ CHR ''@'' # xs) (m @ CHR ''@'' # ys) \<Longrightarrow> n = m"
proof (induction n arbitrary: m)
  case Nil
  then show ?case by (cases m) auto
next
  case (Cons c n)
  then show ?case by (cases m) auto
qed

lemma no_name_here:
  assumes "slot_name n" "separated ps"
  shows "\<not> prefix (n @ xs) (template_text ps)"
  using assms by (cases ps rule: separated.cases) (auto simp: template_text_def slot_name_def neq_Nil_conv prefix_def)

lemma str_replace_other:
  assumes "slot_name n" "slot_name m" "n \<noteq> m" "separated ps"
  shows "str_replace (placeholder n) v (placeholder m @ template_text ps)
    = placeholder m @ str_replace (placeholder n) v (template_text ps)"
proof -
  let ?k = "placeholder n"
  obtain c m' where m: "m = c # m'" "c \<noteq> CHR ''@''" "CHR ''@'' \<notin> set m'"
    using slot_name_at [OF assms(2)] assms(2) by (cases m) (auto simp: slot_name_def)
  obtain d n' where n: "n = d # n'" "d \<noteq> CHR ''@''"
    using slot_name_at [OF assms(1)] assms(1) by (cases n) (auto simp: slot_name_def)
  have differ: "\<not> prefix (n @ CHR ''@'' # xs) (m @ CHR ''@'' # ys)" for xs ys
    using same_name [of n m xs ys] slot_name_at assms(1-3) by blast
  have "str_replace ?k v (placeholder m @ template_text ps)
      = ''@@'' @ str_replace ?k v (m @ ''@@'' @ template_text ps)"
    using differ m(2) by (simp add: placeholder_def m(1))
  also have "\<dots> = ''@@'' @ m @ str_replace ?k v (''@@'' @ template_text ps)"
    using str_replace_skip [of m n v "''@@'' @ template_text ps"] m by simp
  also have "str_replace ?k v (''@@'' @ template_text ps) = ''@@'' @ str_replace ?k v (template_text ps)"
  proof -
    have "\<not> prefix (n @ ''@@'') (template_text ps)" by (rule no_name_here [OF assms(1,4)])
    moreover have "\<not> prefix (CHR ''@'' # n @ ''@@'') (template_text ps)"
      using assms(4) by (cases ps rule: separated.cases) (auto simp: template_text_def slot_name_def)
    ultimately show ?thesis by (simp add: placeholder_def)
  qed
  finally show ?thesis by (simp add: placeholder_def)
qed

lemma separated_put: "separated ps \<Longrightarrow> separated (put_value n v ps)"
  by (cases ps rule: separated.cases) (auto simp: put_value_def)

lemma clean_put: "clean_template ps \<Longrightarrow> CHR ''@'' \<notin> set v \<Longrightarrow> clean_template (put_value n v ps)"
  by (induction ps rule: clean_template.induct) (auto simp: put_value_def separated_put [unfolded put_value_def])

text \<open>Replacing one placeholder in the text is filling one slot of the template.\<close>

lemma replace_is_put:
  "slot_name n \<Longrightarrow> clean_template ps \<Longrightarrow>
    str_replace (placeholder n) v (template_text ps) = template_text (put_value n v ps)"
proof (induction ps rule: clean_template.induct)
  case (2 s ps)
  then show ?case by (simp add: template_text_def put_value_def str_replace_skip)
next
  case (3 m ps)
  have IH: "str_replace (placeholder n) v (template_text ps) = template_text (put_value n v ps)" using 3 by simp
  show ?case
  proof (cases "n = m")
    case True
    have "template_text (Slot m # ps) = placeholder n @ template_text ps" by (simp add: template_text_def True)
    then have "str_replace (placeholder n) v (template_text (Slot m # ps)) = v @ template_text (put_value n v ps)"
      using str_replace_here IH by simp
    then show ?thesis by (simp add: template_text_def put_value_def True)
  next
    case False
    have "template_text (Slot m # ps) = placeholder m @ template_text ps" by (simp add: template_text_def)
    then have "str_replace (placeholder n) v (template_text (Slot m # ps))
        = placeholder m @ template_text (put_value n v ps)"
      using str_replace_other [of n m ps v] IH 3 False by simp
    then show ?thesis using False by (simp add: template_text_def put_value_def)
  qed
qed (simp add: template_text_def put_value_def)

section \<open>The chain of replacements\<close>

lemma fill_put:
  "fill_slots repl (put_value n v ps) = fill_slots ((placeholder n, v) # repl) ps"
  by (induction ps) (auto simp: fill_slots_def put_value_def placeholder_def split: piece.split)

lemma replacements_fill:
  assumes "clean_template ps" "\<forall>(n, v)\<in>set vals. slot_name n \<and> CHR ''@'' \<notin> set v"
  shows "fold (\<lambda>(k, v) s. str_replace k v s) (map (\<lambda>(n, v). (placeholder n, v)) vals) (template_text ps)
    = fill_slots (map (\<lambda>(n, v). (placeholder n, v)) vals) ps"
  using assms
proof (induction vals arbitrary: ps)
  case Nil
  show ?case by (induction ps) (auto simp: fill_slots_def template_text_def split: piece.split)
next
  case (Cons nv vals)
  obtain n v where nv: "nv = (n, v)" by (cases nv)
  with Cons.prems have "slot_name n" "CHR ''@'' \<notin> set v" by auto
  then show ?case
    using Cons.IH [OF clean_put [OF Cons.prems(1), of v n]] Cons.prems
    by (simp add: nv replace_is_put fill_put)
qed

section \<open>The boot script of a run\<close>

definition SLOT_NAMES :: "string list" where
  "SLOT_NAMES = [''BRANCH'', ''REPO_URL'', ''CONFIG'', ''TIMEOUT'', ''EXTRA_ARGS'', ''HF_ONLY'', ''TEACHER_MODEL'', ''HF_TOKEN'',
     ''HF_REPO'', ''HF_PRIVATE'', ''COST_RATE'', ''COST_CCY'', ''JUDGE_MODEL'']"

lemma boot_clean: "clean_template BOOT_PIECES"
  by code_simp

lemma boot_slots: "list_all (\<lambda>p. case p of Slot n \<Rightarrow> n \<in> set SLOT_NAMES | Lit s \<Rightarrow> CHR ''@'' \<notin> set s) BOOT_PIECES"
  by code_simp

lemma slot_names: "list_all slot_name SLOT_NAMES"
  by code_simp

lemma boot_keys: "boot_replacements env a = Inr repl \<Longrightarrow> map fst repl = map placeholder SLOT_NAMES"
  by (auto simp: boot_replacements_def SLOT_NAMES_def placeholder_def res_bind_Inr_iff)

text \<open>C40: The boot script is the template with every slot filled. Although the program replaces the placeholders
  one after the other in one string, so that an earlier value could change what a later replacement finds,
  the result is the template with all slots filled at once from the arguments and the environment, whenever
  no value contains an at sign; and then no placeholder is left in the script.\<close>

theorem boot_script_rendered:
  assumes "boot_replacements env a = Inr repl" "\<forall>(k, v)\<in>set repl. CHR ''@'' \<notin> set v"
  shows "build_boot_script BOOT env a = Inr (fill_slots repl BOOT_PIECES)
    \<and> CHR ''@'' \<notin> set (fill_slots repl BOOT_PIECES)"
proof -
  note keys = boot_keys [OF assms(1)]
  define vals where "vals = zip SLOT_NAMES (map snd repl)"
  have "length repl = length SLOT_NAMES" using keys by (metis length_map)
  then have "repl = zip (map placeholder SLOT_NAMES) (map snd repl)" using keys by (metis zip_map_fst_snd)
  then have repl: "repl = map (\<lambda>(n, v). (placeholder n, v)) vals"
    unfolding vals_def by (simp add: zip_map1)
  have "\<forall>(n, v)\<in>set vals. slot_name n \<and> CHR ''@'' \<notin> set v"
  proof safe
    fix n v assume nv: "(n, v) \<in> set vals"
    then show "slot_name n" using slot_names by (auto simp: vals_def list_all_iff dest: set_zip_leftD)
    have "(placeholder n, v) \<in> set repl" unfolding repl using nv by force
    then show "CHR ''@'' \<in> set v \<Longrightarrow> False" using assms(2) by blast
  qed
  then have "fold (\<lambda>(k, v) s. str_replace k v s) repl BOOT = fill_slots repl BOOT_PIECES"
    unfolding BOOT_def repl by (intro replacements_fill [OF boot_clean])
  moreover have "CHR ''@'' \<notin> set (fill_slots repl BOOT_PIECES)"
  proof -
    have "CHR ''@'' \<notin> set (case p of Lit s \<Rightarrow> s
        | Slot n \<Rightarrow> (case map_of repl (placeholder n) of Some v \<Rightarrow> v | None \<Rightarrow> placeholder n))" if "p \<in> set BOOT_PIECES" for p
    proof (cases p)
      case (Slot n)
      then have "n \<in> set SLOT_NAMES" using bspec [OF boot_slots [unfolded list_all_iff] that] by simp
      then have "placeholder n \<in> fst ` set repl" using arg_cong [OF keys, of set] by auto
      then obtain v where "map_of repl (placeholder n) = Some v" by (metis map_of_eq_None_iff not_None_eq)
      then show ?thesis using assms(2) map_of_SomeD Slot by fastforce
    qed (use boot_slots that in \<open>auto simp: list_all_iff split: piece.splits\<close>)
    then show ?thesis by (auto simp: fill_slots_def)
  qed
  ultimately show ?thesis using assms(1) by (simp add: build_boot_script_def)
qed

definition boot_env :: "(string, string) dict" where
  "boot_env = [(''HF_TOKEN'', ''t''), (''ATLAS_HF_ADAPTER_REPO'', ''u/r''), (''ATLAS_GPU_COST_PER_HOUR'', ''41'')]"

definition boot_args :: launch_args where
  "boot_args = \<lparr>la_config = ''c.yaml'', la_branch = ''main'', la_timeout = 1, la_generate = 0, la_teacher = ''m'',
     la_faithfulness = 0, la_benchmark_only = [], la_bake_in = True\<rparr>"

theorem boot_script_rendered_witness:
  "\<exists>repl. boot_replacements boot_env boot_args = Inr repl \<and> build_boot_script BOOT boot_env boot_args = Inr (fill_slots repl BOOT_PIECES)
    \<and> map_of repl (placeholder ''EXTRA_ARGS'') = Some ''--bake-in''"
proof -
  have ok: "case boot_replacements boot_env boot_args of Inr repl \<Rightarrow>
      (\<forall>(k, v)\<in>set repl. CHR ''@'' \<notin> set v) \<and> map_of repl (placeholder ''EXTRA_ARGS'') = Some ''--bake-in'' | Inl _ \<Rightarrow> False"
    by code_simp
  then obtain repl where "boot_replacements boot_env boot_args = Inr repl" by (cases "boot_replacements boot_env boot_args") auto
  with ok boot_script_rendered [OF this] show ?thesis by auto
qed

text \<open>A value with an at sign is substituted again: a branch named like a placeholder receives the token.\<close>

lemma value_replaced_again:
  "fold (\<lambda>(k, v) s. str_replace k v s) [(''@@BRANCH@@'', ''@@HF_TOKEN@@''), (''@@HF_TOKEN@@'', ''t'')] ''git clone --branch @@BRANCH@@'' = ''git clone --branch t''"
  by code_simp

end
