(* ===== verification/Train_Files.thy ===== *)
theory Train_Files
  imports Train_Synth
begin

text \<open>
  The JSON lines files of the training data (\<open>write_jsonl\<close> and \<open>read_jsonl\<close> of
  \<open>training/atlas_training/data/synth.py\<close>). Strings are written by \<open>json.dumps\<close> without escaping
  characters beyond ASCII; decoding a line is an argument. The reader splits the file at every
  Unicode line break, so the round trip holds for texts without the break that the encoder leaves
  as it is.
\<close>

section \<open>Writing\<close>

definition hex_digit :: "nat \<Rightarrow> char" where
  "hex_digit n = char_of (if n < 10 then 48 + n else 87 + n)"

definition esc_char :: "char \<Rightarrow> string" where
  "esc_char c =
     (let n = ord c; bs = char_of (92 :: nat) in
      if n = 34 \<or> n = 92 then [bs, c]
      else if n = 8 then [bs, CHR ''b'']
      else if n = 9 then [bs, CHR ''t'']
      else if n = 10 then [bs, CHR ''n'']
      else if n = 12 then [bs, CHR ''f'']
      else if n = 13 then [bs, CHR ''r'']
      else if n < 32 then [bs, CHR ''u'', CHR ''0'', CHR ''0'', hex_digit (n div 16), hex_digit (n mod 16)]
      else [c])"

definition quote_char :: char where
  "quote_char = char_of (34 :: nat)"

definition json_str :: "string \<Rightarrow> string" where
  "json_str s = [quote_char] @ concat (map esc_char s) @ [quote_char]"

fun dump_fields :: "(string \<times> string) list \<Rightarrow> string list" where
  "dump_fields [] = []"
| "dump_fields ((k, v) # kvs) = (json_str k @ '': '' @ json_str v) # dump_fields kvs"

text \<open>\<open>json.dumps(p.to_dict(), ensure_ascii=False)\<close> for a pair whose reference is a string.\<close>

definition pair_line :: "synthetic_pair \<Rightarrow> string" where
  "pair_line p =
     ''{'' @ str_join '', '' (dump_fields
       [(''question'', sy_question p), (''context'', sy_context p), (''answer'', sy_answer p),
        (''label'', sy_label p), (''provenance_ref'', ref_text p), (''generator'', sy_generator p)])
     @ ''}''"

definition write_jsonl :: "synthetic_pair list \<Rightarrow> string" where
  "write_jsonl ps = concat (map (\<lambda>p. pair_line p @ NL) ps)"

section \<open>Reading\<close>

datatype read_error = BadLine | BadFields | NotText

definition json_text :: "json \<Rightarrow> (read_error, string) result" where
  "json_text v = (case v of JStr s \<Rightarrow> Inr s | _ \<Rightarrow> Inl NotText)"

text \<open>Fields that are not strings are kept by Python; they are outside the model (\<open>NotText\<close>).\<close>

definition pair_from_dict :: "json \<Rightarrow> (read_error, synthetic_pair) result" where
  "pair_from_dict v =
     (case kwargs [''question'', ''context'', ''answer'', ''label'', ''provenance_ref'', ''generator''] [] v of
        None \<Rightarrow> Inl BadFields
      | Some d \<Rightarrow>
          res_bind (json_text (obj_get d ''question'')) (\<lambda>q.
          res_bind (json_text (obj_get d ''context'')) (\<lambda>c.
          res_bind (json_text (obj_get d ''answer'')) (\<lambda>a.
          res_bind (json_text (obj_get d ''label'')) (\<lambda>l.
          res_bind (json_text (obj_get d ''generator'')) (\<lambda>g.
            Inr \<lparr>sy_question = q, sy_context = c, sy_answer = a, sy_label = l,
                 sy_ref = obj_get d ''provenance_ref'', sy_generator = g\<rparr>))))))"

definition read_line :: "(string \<Rightarrow> json option) \<Rightarrow> string \<Rightarrow> (read_error, synthetic_pair) result" where
  "read_line loads l =
     (case loads l of None \<Rightarrow> Inl BadLine | Some v \<Rightarrow> pair_from_dict v)"

definition read_jsonl ::
  "(string \<Rightarrow> json option) \<Rightarrow> string \<Rightarrow> (read_error, synthetic_pair list) result" where
  "read_jsonl loads content =
     res_map (read_line loads) (filter (\<lambda>l. l \<noteq> []) (map str_strip (splitlines content)))"

section \<open>Lines\<close>

lemma splitlines_acc_line:
  "list_all (\<lambda>c. \<not> is_line_break c) l \<Longrightarrow>
     splitlines_acc acc (l @ NL @ rest) = (rev acc @ l) # splitlines_acc [] rest"
  by (induction l arbitrary: acc) (auto simp: NL_def is_line_break_def ord_def)

lemma splitlines_concat:
  "list_all (list_all (\<lambda>c. \<not> is_line_break c)) ls \<Longrightarrow>
     splitlines (concat (map (\<lambda>l. l @ NL) ls)) = ls"
proof (induction ls)
  case (Cons l ls)
  then show ?case
    using splitlines_acc_line [of l "[]" "concat (map (\<lambda>l. l @ NL) ls)"] by (simp add: splitlines_def)
qed (simp add: splitlines_def)

lemma strip_id: "l \<noteq> [] \<Longrightarrow> \<not> is_space (hd l) \<Longrightarrow> \<not> is_space (last l) \<Longrightarrow> str_strip l = l"
proof -
  assume a: "l \<noteq> []" "\<not> is_space (hd l)" "\<not> is_space (last l)"
  have "dropWhile is_space l = l" using a(1,2) by (cases l) auto
  moreover have "dropWhile is_space (rev l) = rev l"
    using a(1,3) by (cases "rev l") (auto simp: last_conv_nth hd_rev [symmetric])
  ultimately show ?thesis by (simp add: str_strip_def rstrip_chars_def)
qed

definition nel_free :: "string \<Rightarrow> bool" where
  "nel_free s = list_all (\<lambda>c. ord c \<noteq> 133) s"

lemma ord_char_of [simp]: "n < 256 \<Longrightarrow> ord (char_of (n :: nat)) = n"
  by (simp add: ord_def)

lemma hex_digit_no_break: "n < 16 \<Longrightarrow> \<not> is_line_break (hex_digit n)"
  by (simp add: hex_digit_def is_line_break_def)

lemma esc_char_no_break: "ord c \<noteq> 133 \<Longrightarrow> list_all (\<lambda>c. \<not> is_line_break c) (esc_char c)"
  using hex_digit_no_break [of "ord c div 16"] hex_digit_no_break [of "ord c mod 16"]
  by (auto simp: esc_char_def Let_def is_line_break_def ord_def)

lemma json_str_no_break: "nel_free s \<Longrightarrow> list_all (\<lambda>c. \<not> is_line_break c) (json_str s)"
  using esc_char_no_break
  by (auto simp: json_str_def nel_free_def quote_char_def list_all_iff is_line_break_def)

lemma join_no_break:
  "list_all (list_all P) xs \<Longrightarrow> list_all P sep \<Longrightarrow> list_all P (str_join sep xs)"
  by (induction sep xs rule: str_join.induct) auto

definition pair_nel_free :: "synthetic_pair \<Rightarrow> bool" where
  "pair_nel_free p \<longleftrightarrow>
     list_all nel_free [sy_question p, sy_context p, sy_answer p, sy_label p, ref_text p, sy_generator p]"

lemma pair_line_no_break:
  assumes "pair_nel_free p"
  shows "list_all (\<lambda>c. \<not> is_line_break c) (pair_line p)"
proof -
  have k: "list_all (\<lambda>c. \<not> is_line_break c) (json_str k)"
    if "k \<in> {''question'', ''context'', ''answer'', ''label'', ''provenance_ref'', ''generator''}" for k
    by (rule json_str_no_break) (use that in \<open>auto simp: nel_free_def ord_def\<close>)
  have l: "list_all (\<lambda>c. \<not> is_line_break c) '': ''" "list_all (\<lambda>c. \<not> is_line_break c) '', ''"
    "\<not> is_line_break (CHR ''{'')" "\<not> is_line_break (CHR ''}'')"
    by code_simp+
  have "list_all (list_all (\<lambda>c. \<not> is_line_break c)) (dump_fields
       [(''question'', sy_question p), (''context'', sy_context p), (''answer'', sy_answer p),
        (''label'', sy_label p), (''provenance_ref'', ref_text p), (''generator'', sy_generator p)])"
    using assms k l by (simp add: pair_nel_free_def json_str_no_break)
  then show ?thesis
    using join_no_break [of "\<lambda>c. \<not> is_line_break c", OF _ l(2)] l by (simp add: pair_line_def)
qed

lemma pair_line_nonempty: "pair_line p \<noteq> []"
  by (simp add: pair_line_def)

lemma pair_line_strip: "str_strip (pair_line p) = pair_line p"
proof -
  have "\<not> is_space (CHR ''{'')" "\<not> is_space (CHR ''}'')" by code_simp+
  then show ?thesis by (intro strip_id) (simp_all add: pair_line_def)
qed

lemma pair_from_to_dict: "pair_from_dict (pair_to_dict p) = Inr p"
  by (simp add: pair_from_dict_def pair_to_dict_def kwargs_def obj_get_def json_text_def)

lemma jsonl_round_trip_lines:
  assumes "\<forall>p\<in>set ps. pair_nel_free p \<and> loads (pair_line p) = Some (pair_to_dict p)"
  shows "read_jsonl loads (write_jsonl ps) = Inr ps"
proof -
  have "splitlines (write_jsonl ps) = map pair_line ps"
    using splitlines_concat [of "map pair_line ps"] assms pair_line_no_break
    by (auto simp: write_jsonl_def list_all_iff o_def)
  moreover have "filter (\<lambda>l. l \<noteq> []) (map str_strip (map pair_line ps)) = map pair_line ps"
    by (simp add: pair_line_strip o_def pair_line_nonempty)
  moreover have "res_map (read_line loads) (map pair_line ps) = Inr ps"
    using assms by (induction ps) (simp_all add: read_line_def pair_from_to_dict)
  ultimately show ?thesis unfolding read_jsonl_def by simp
qed

section \<open>Properties\<close>

text \<open>
  Training pairs survive the file: reading back the lines that were written gives the same
  pairs in the same order, for a JSON decoder that inverts the encoder on each line, provided no
  text contains the next-line character, which the encoder does not escape.
\<close>

theorem jsonl_round_trip:
  assumes "\<forall>p\<in>set ps. pair_nel_free p \<and> loads (pair_line p) = Some (pair_to_dict p)"
  shows "read_jsonl loads (write_jsonl ps) = Inr ps"
  by (rule jsonl_round_trip_lines [OF assms])

theorem jsonl_round_trip_witness:
  "\<exists>p loads. sy_question p = [CHR ''a'', char_of (10 :: nat), CHR ''b''] \<and> pair_nel_free p
     \<and> read_jsonl loads (write_jsonl [p, p]) = Inr [p, p]"
proof -
  define p where "p = \<lparr>sy_question = [CHR ''a'', char_of (10 :: nat), CHR ''b''], sy_context = ''c'',
    sy_answer = ''x'', sy_label = ''answer'', sy_ref = JStr ''f1'', sy_generator = ''t''\<rparr>"
  have n: "pair_nel_free p" by (simp add: p_def pair_nel_free_def nel_free_def ref_text_def ord_def)
  have "read_jsonl (\<lambda>_. Some (pair_to_dict p)) (write_jsonl [p, p]) = Inr [p, p]"
    by (rule jsonl_round_trip) (simp add: n)
  then show ?thesis using n by (intro exI [of _ p]) (auto simp: p_def)
qed

text \<open>
  The next-line character: the one line of a pair that contains it is read as two, the first of
  them not a JSON object.
\<close>

lemma nel_splits_a_line:
  "splitlines (json_str [CHR ''a'', char_of (133 :: nat), CHR ''b''] @ NL) =
     [[quote_char, CHR ''a''], [CHR ''b'', quote_char]]"
  by (simp add: json_str_def esc_char_def NL_def splitlines_def is_line_break_def quote_char_def Let_def
      ord_def)

end
