(* ===== verification/Train_Wiring.thy ===== *)
theory Train_Wiring
  imports Train_Synth
begin

text \<open>
  From the pinned configuration to the trainer (\<open>training/atlas_training/train.py\<close>): the keyword
  arguments of the quantisation, the adapter, the trainer and early stopping, the chat rows, the
  losses streamed to the tracker and the registration of the result; the choice of the system prompt
  in \<open>training/scripts/run_episodic.py\<close>; and the registry scripts. The trainer itself is a
  parameter: what it logs, its step count and its history.
\<close>

section \<open>Keyword arguments\<close>

definition quantization_kwargs :: "run_config \<Rightarrow> (string, json) dict" where
  "quantization_kwargs c =
     [(''load_in_4bit'', q_load_in_4bit (cfg_quant c)),
      (''bnb_4bit_quant_type'', q_quant_type (cfg_quant c)),
      (''bnb_4bit_compute_dtype'', q_compute_dtype (cfg_quant c)),
      (''bnb_4bit_use_double_quant'', q_double_quant (cfg_quant c))]"

definition lora_kwargs :: "run_config \<Rightarrow> (string, json) dict" where
  "lora_kwargs c =
     [(''r'', lora_r (cfg_lora c)),
      (''lora_alpha'', lora_alpha (cfg_lora c)),
      (''lora_dropout'', lora_dropout (cfg_lora c)),
      (''target_modules'', JList (lora_modules (cfg_lora c))),
      (''bias'', JStr ''none''),
      (''task_type'', JStr ''CAUSAL_LM'')]"

definition sft_kwargs :: "run_config \<Rightarrow> string \<Rightarrow> (string, json) dict" where
  "sft_kwargs c output_dir =
     [(''output_dir'', JStr output_dir),
      (''num_train_epochs'', tr_epochs (cfg_train c)),
      (''learning_rate'', tr_lr (cfg_train c)),
      (''per_device_train_batch_size'', tr_batch_size (cfg_train c)),
      (''per_device_eval_batch_size'', tr_batch_size (cfg_train c)),
      (''gradient_accumulation_steps'', tr_grad_accum (cfg_train c)),
      (''max_length'', tr_max_seq_len (cfg_train c)),
      (''seed'', tr_seed (cfg_train c)),
      (''eval_strategy'', JStr ''epoch''),
      (''save_strategy'', JStr ''epoch''),
      (''logging_steps'', JInt 1),
      (''load_best_model_at_end'', JBool True),
      (''metric_for_best_model'', JStr ''eval_loss''),
      (''greater_is_better'', JBool False),
      (''report_to'', JList [])]"

definition early_stopping_kwargs :: "run_config \<Rightarrow> (string, json) dict" where
  "early_stopping_kwargs c =
     [(''early_stopping_patience'', es_patience (cfg_early c)),
      (''early_stopping_threshold'', es_min_delta (cfg_early c))]"

section \<open>Chat rows\<close>

definition dict_of :: "json \<Rightarrow> json option" where
  "dict_of m = (case m of JObj d \<Rightarrow> Some (JObj d) | _ \<Rightarrow> None)"

text \<open>\<open>None\<close> is an exception.\<close>

definition example_to_messages :: "json \<Rightarrow> json option" where
  "example_to_messages e =
     (case e of
        JObj d \<Rightarrow>
          (case map_of d ''messages'' of
             Some (JList ms) \<Rightarrow> map_option (\<lambda>rows. JObj [(''messages'', JList rows)]) (those (map dict_of ms))
           | _ \<Rightarrow> None)
      | _ \<Rightarrow> None)"

definition load_chat_rows :: "(string \<Rightarrow> json option) \<Rightarrow> string \<Rightarrow> json list option" where
  "load_chat_rows loads content =
     those (map (\<lambda>l. case loads l of None \<Rightarrow> None | Some v \<Rightarrow> example_to_messages v)
       (filter (\<lambda>l. l \<noteq> []) (map str_strip (splitlines content))))"

section \<open>Losses\<close>

text \<open>\<open>Inl\<close> is an exception of \<open>float\<close>.\<close>

definition loss_of :: "(string \<Rightarrow> pyfloat option) \<Rightarrow> json \<Rightarrow> (unit, pyfloat option) result" where
  "loss_of parse v =
     (if v = JNull then Inr None
      else case any_float parse v of None \<Rightarrow> Inl () | Some x \<Rightarrow> Inr (Some x))"

definition extract_losses ::
  "(string \<Rightarrow> pyfloat option) \<Rightarrow> (string \<times> json) list \<Rightarrow> (unit, pyfloat option \<times> pyfloat option) result" where
  "extract_losses parse logs =
     res_bind (loss_of parse (obj_get logs ''loss'')) (\<lambda>t.
     res_bind (loss_of parse (obj_get logs ''eval_loss'')) (\<lambda>e. Inr (t, e)))"

text \<open>The callback of the trainer, with a tracker; an evaluation without a training loss logs NaN.\<close>

definition on_log ::
  "(string \<Rightarrow> pyfloat option) \<Rightarrow> int \<Rightarrow> (string \<times> json) list \<Rightarrow> (unit, call list) result" where
  "on_log parse step logs =
     (if logs = [] then Inr []
      else res_bind (extract_losses parse logs) (\<lambda>(t, e).
        Inr (if t \<noteq> None \<or> e \<noteq> None
             then log_loss step (case t of Some x \<Rightarrow> x | None \<Rightarrow> NaN) e else [])))"

text \<open>\<open>next((h[key] for h in reversed(history) if key in h), None)\<close>\<close>

definition last_logged :: "string \<Rightarrow> (string \<times> json) list list \<Rightarrow> json option" where
  "last_logged key history =
     (case find (\<lambda>h. map_of h key \<noteq> None) (rev history) of
        Some h \<Rightarrow> map_of h key | None \<Rightarrow> None)"

section \<open>A training run\<close>

record train_result =
  tn_path :: string
  tn_train_loss :: "json option"
  tn_eval_loss :: "json option"
  tn_steps :: int
  tn_run_id :: "string option"

text \<open>What the trainer does: the logs of each step, in order, and its final history and step.\<close>

record trainer =
  tq_logs :: "(int \<times> (string \<times> json) list) list"
  tq_history :: "(string \<times> json) list list"
  tq_steps :: int

text \<open>With \<open>tracking = Some run_id\<close> the registry starts a run before training and gets every loss.\<close>

definition run_training ::
  "(string \<Rightarrow> pyfloat option) \<Rightarrow> trainer \<Rightarrow> string option \<Rightarrow> run_config \<Rightarrow> string
     \<Rightarrow> (unit, call list \<times> train_result) result" where
  "run_training parse tq tracking c output_dir =
     (let res = \<lparr>tn_path = output_dir, tn_train_loss = last_logged ''loss'' (tq_history tq),
                 tn_eval_loss = last_logged ''eval_loss'' (tq_history tq), tn_steps = tq_steps tq,
                 tn_run_id = tracking\<rparr>
      in case tracking of
           None \<Rightarrow> Inr ([], res)
         | Some run_id \<Rightarrow>
             res_bind (res_map (\<lambda>(step, logs). on_log parse step logs) (tq_logs tq)) (\<lambda>losses.
               Inr (fst (log_run run_id c None) @ concat losses, res)))"

text \<open>\<open>train.py --register\<close>: train, then push and register; without \<open>--register\<close> nothing is called.\<close>

definition train_main ::
  "(string \<Rightarrow> pyfloat option) \<Rightarrow> trainer \<Rightarrow> (tracker \<times> string) option \<Rightarrow> (tracking_error, string) result
     \<Rightarrow> (tracking_error, string) result \<Rightarrow> string \<Rightarrow> run_config \<Rightarrow> string
     \<Rightarrow> (unit, call list \<times> (tracking_error, model_version option) result) result" where
  "train_main parse tq reg push create name c output_dir =
     res_bind (run_training parse tq (map_option snd reg) c output_dir) (\<lambda>(calls, res).
       (case reg of
          None \<Rightarrow> Inr (calls, Inr None)
        | Some (t, run_id) \<Rightarrow>
            (case register_adapter push create t run_id (tn_path res) name of
               (rest, Inl e) \<Rightarrow> Inr (calls @ rest, Inl e)
             | (rest, Inr mv) \<Rightarrow> Inr (calls @ rest, Inr (Some mv)))))"

section \<open>The system prompt of an episode\<close>

text \<open>The prompt under which the episode evaluates, and the one under which its data was built:
  generated data uses the evaluation prompt, a rebuild uses the builder's default, and otherwise the
  committed files stay as they are.\<close>

definition train_system :: "bool \<Rightarrow> string" where
  "train_system bake_in = (if bake_in then MINIMAL_SYSTEM else SYSTEM_PROMPT)"

definition data_system :: "bool \<Rightarrow> bool \<Rightarrow> bool \<Rightarrow> string \<Rightarrow> string" where
  "data_system bake_in generate rebuild committed =
     (if rebuild then SYSTEM_PROMPT
      else if generate then train_system bake_in
      else committed)"

lemma rebuilt_data_breaks_parity: "data_system True generate True committed \<noteq> train_system True"
  by (simp add: data_system_def train_system_def SYSTEM_PROMPT_def MINIMAL_SYSTEM_def)

lemma generated_data_keeps_parity: "data_system bake_in True False committed = train_system bake_in"
  by (simp add: data_system_def)

section \<open>Registry scripts\<close>

definition REGISTERED_NAME :: string where
  "REGISTERED_NAME = ''atlas-citation-adapter''"

definition promote_main ::
  "('s \<Rightarrow> string \<Rightarrow> string \<Rightarrow> string option) \<Rightarrow> (string \<Rightarrow> string \<Rightarrow> string \<Rightarrow> 's \<Rightarrow> 's)
     \<Rightarrow> string option \<Rightarrow> string \<Rightarrow> 's \<Rightarrow> 's \<times> int" where
  "promote_main get set_alias name version s =
     (fst (promote get set_alias (case name of Some n \<Rightarrow> n | None \<Rightarrow> REGISTERED_NAME) version s), 0)"

definition rollback_main ::
  "('s \<Rightarrow> string \<Rightarrow> string \<Rightarrow> string option) \<Rightarrow> (string \<Rightarrow> string \<Rightarrow> string \<Rightarrow> 's \<Rightarrow> 's)
     \<Rightarrow> string option \<Rightarrow> 's \<Rightarrow> 's \<times> int" where
  "rollback_main get set_alias name s =
     (case rollback get set_alias (case name of Some n \<Rightarrow> n | None \<Rightarrow> REGISTERED_NAME) s of
        (s1, Inl e) \<Rightarrow> (s1, 1)
      | (s1, Inr outcome) \<Rightarrow> (s1, 0))"

text \<open>\<open>register_adapter.py\<close>: the parameters logged for a committed comparison. Absent keys are the
  \<open>KeyError\<close>, and a source that is not on the hub ends the program.\<close>

datatype register_error = RegisterCrash | NotHub string

definition metric_params :: "string \<Rightarrow> (string \<times> json) list \<Rightarrow> ((string \<times> json) list) option" where
  "metric_params fld metrics =
     those (map (\<lambda>(k, v). case v of
         JObj d \<Rightarrow> map_option (\<lambda>x. (''metric.'' @ k @ ''.'' @ fld, x)) (map_of d fld)
       | _ \<Rightarrow> None) metrics)"

definition register_main ::
  "(tracking_error, string) result \<Rightarrow> string \<Rightarrow> (string \<times> json) list
     \<Rightarrow> call list \<times> (register_error + tracking_error, string) result" where
  "register_main create run_id doc =
     (case (obj_get doc ''model_ids'', map_of doc ''dataset_size'', map_of doc ''git_sha'',
            obj_get doc ''metrics'') of
        (JObj ids, dsize, sha, metrics) \<Rightarrow>
          (case map_of ids ''ft'' of
             Some (JStr source) \<Rightarrow>
               (if \<not> is_hf_source source then ([], Inl (Inl (NotHub source)))
                else
                  (let opened = [SetExperiment (JStr ''atlas-citation-ft''), StartRun (JStr ''p6-register-adapter'')]
                   in case (map_of ids ''base'', dsize, sha, metrics) of
                        (Some base, Some n, Some g, JObj ms) \<Rightarrow>
                          (case (metric_params ''ft'' ms, metric_params ''delta'' ms) of
                             (Some fts, Some deltas) \<Rightarrow>
                               (let calls = opened @ [LogParams ([(''base_model'', base), (''dataset_size'', n),
                                      (''git_sha'', g)] @ fts @ deltas), CreateVersion REGISTERED_NAME source run_id]
                                in case create of
                                     Inl e \<Rightarrow> (calls, Inl (Inr e))
                                   | Inr version \<Rightarrow> (calls @ [EndRun], Inr version))
                           | _ \<Rightarrow> (opened, Inl (Inl RegisterCrash)))
                      | _ \<Rightarrow> (opened, Inl (Inl RegisterCrash))))
           | _ \<Rightarrow> ([], Inl (Inl RegisterCrash)))
      | _ \<Rightarrow> ([], Inl (Inl RegisterCrash)))"

section \<open>The trainer gets the values of the file\<close>

definition trainer_args :: "run_config \<Rightarrow> string \<Rightarrow> (string, json) dict" where
  "trainer_args c output_dir =
     quantization_kwargs c @ lora_kwargs c @ sft_kwargs c output_dir @ early_stopping_kwargs c"

text \<open>The arguments with the field of the file that each of them carries, and the logged parameters.\<close>

definition WIRING :: "(string \<times> string \<times> string) list" where
  "WIRING =
     [(''load_in_4bit'', ''quant'', ''load_in_4bit''),
      (''bnb_4bit_quant_type'', ''quant'', ''bnb_4bit_quant_type''),
      (''bnb_4bit_compute_dtype'', ''quant'', ''bnb_4bit_compute_dtype''),
      (''bnb_4bit_use_double_quant'', ''quant'', ''double_quant''),
      (''r'', ''lora'', ''r''), (''lora_alpha'', ''lora'', ''alpha''), (''lora_dropout'', ''lora'', ''dropout''),
      (''target_modules'', ''lora'', ''target_modules''),
      (''num_train_epochs'', ''train'', ''epochs''), (''learning_rate'', ''train'', ''lr''),
      (''per_device_train_batch_size'', ''train'', ''batch_size''),
      (''per_device_eval_batch_size'', ''train'', ''batch_size''),
      (''gradient_accumulation_steps'', ''train'', ''grad_accum''),
      (''max_length'', ''train'', ''max_seq_len''), (''seed'', ''train'', ''seed''),
      (''early_stopping_patience'', ''early_stopping'', ''patience''),
      (''early_stopping_threshold'', ''early_stopping'', ''min_delta'')]"

definition LOGGED :: "(string \<times> string \<times> string) list" where
  "LOGGED =
     [(''base_model'', [], ''base_model''), (''seed'', ''train'', ''seed''),
      (''quant.load_in_4bit'', ''quant'', ''load_in_4bit''),
      (''quant.bnb_4bit_quant_type'', ''quant'', ''bnb_4bit_quant_type''),
      (''quant.bnb_4bit_compute_dtype'', ''quant'', ''bnb_4bit_compute_dtype''),
      (''lora.r'', ''lora'', ''r''), (''lora.alpha'', ''lora'', ''alpha''), (''lora.dropout'', ''lora'', ''dropout''),
      (''train.epochs'', ''train'', ''epochs''), (''train.lr'', ''train'', ''lr''),
      (''train.batch_size'', ''train'', ''batch_size''), (''train.grad_accum'', ''train'', ''grad_accum''),
      (''train.max_seq_len'', ''train'', ''max_seq_len''),
      (''dataset.manifest'', ''dataset'', ''manifest''), (''dataset.train'', ''dataset'', ''train''),
      (''dataset.val'', ''dataset'', ''val'')]"

definition carries :: "(string, json) dict \<Rightarrow> json \<Rightarrow> (string \<times> string \<times> string) list \<Rightarrow> bool" where
  "carries args raw wires = list_all (\<lambda>(k, sec, key). dict_get args k = Some (field raw sec key)) wires"

lemma target_modules_field:
  assumes "pinned raw"
  shows "JList (lora_modules (cfg_lora (config_of raw))) = field raw ''lora'' ''target_modules''"
proof -
  have "field_ok FModules (field raw ''lora'' ''target_modules'')"
    using assms by (auto simp: pinned_def PINNED_def)
  then show ?thesis
    by (auto simp: config_of_def lora_of_def field_secs string_list_def split: json.splits if_splits)
qed

lemmas config_parts = config_of_def quant_of_def lora_of_def train_of_def early_of_def dataset_of_def
  mlflow_of_def config_seed_def

lemma trainer_args_carry: "pinned raw \<Longrightarrow> carries (trainer_args (config_of raw) out) raw WIRING"
  using target_modules_field [of raw]
  by (simp add: carries_def WIRING_def trainer_args_def quantization_kwargs_def lora_kwargs_def
      sft_kwargs_def early_stopping_kwargs_def)
    (simp add: config_parts field_secs)

lemma run_params_carry: "carries (run_params (config_of raw) sha) raw LOGGED"
  by (simp add: carries_def LOGGED_def run_params_def) (simp add: config_parts field_secs)



text \<open>The pinned metric of early stopping is not among them: the trainer always uses the evaluation loss.\<close>

lemma early_stopping_metric_unused:
  "trainer_args (c\<lparr>cfg_early := (cfg_early c)\<lparr>es_metric := v\<rparr>\<rparr>) out = trainer_args c out
   \<and> dict_get (sft_kwargs c out) ''metric_for_best_model'' = Some (JStr ''eval_loss'')"
  by (simp add: trainer_args_def quantization_kwargs_def lora_kwargs_def sft_kwargs_def early_stopping_kwargs_def)

end
