(* ===== verification/Train_Examples.thy ===== *)
theory Train_Examples
  imports Train_Files Train_Wiring Train_Episode
begin

text \<open>
  The files of training examples, from the committed pairs to what the trainer reads
  (\<open>training/atlas_training/data/builder.py\<close>, \<open>write_jsonl\<close>, \<open>read_jsonl\<close>, \<open>build_and_write\<close>,
  \<open>load_pairs\<close>), and the configuration of the generators (\<open>data/synth.py\<close>, \<open>from_env\<close>, and the retries of
  the local teacher). Decoding a line, the shuffle and the teacher are parameters.
\<close>

section \<open>Writing and reading examples\<close>

definition example_ref_text :: "sft_example \<Rightarrow> string" where
  "example_ref_text e = (case ex_ref e of JStr s \<Rightarrow> s | _ \<Rightarrow> [])"

definition braced :: "string list \<Rightarrow> string" where
  "braced parts = ''{'' @ str_join '', '' parts @ ''}''"

definition message_text :: "string \<times> string \<Rightarrow> string" where
  "message_text = (\<lambda>(r, c). braced (dump_fields [(''role'', r), (''content'', c)]))"

text \<open>\<open>json.dumps(ex.to_dict(), ensure_ascii=False)\<close> for an example whose reference is a string.\<close>

definition example_line :: "sft_example \<Rightarrow> string" where
  "example_line e =
     braced ((json_str ''messages'' @ '': ['' @ str_join '', '' (map message_text (ex_messages e)) @ '']'')
       # dump_fields [(''label'', ex_label e), (''provenance_ref'', example_ref_text e)])"

definition write_examples :: "sft_example list \<Rightarrow> string" where
  "write_examples es = concat (map (\<lambda>e. example_line e @ NL) es)"

text \<open>Messages whose parts are not strings are kept by Python; they are outside the model (\<open>NotText\<close>).\<close>

definition message_of :: "json \<Rightarrow> (read_error, string \<times> string) result" where
  "message_of v =
     (case v of
        JObj d \<Rightarrow>
          res_bind (json_text (obj_get d ''role'')) (\<lambda>r.
          res_bind (json_text (obj_get d ''content'')) (\<lambda>c. Inr (r, c)))
      | _ \<Rightarrow> Inl NotText)"

definition example_from_dict :: "json \<Rightarrow> (read_error, sft_example) result" where
  "example_from_dict v =
     (case v of
        JObj d \<Rightarrow>
          (case (map_of d ''messages'', map_of d ''label'', map_of d ''provenance_ref'') of
             (Some (JList ms), Some l, Some r) \<Rightarrow>
               res_bind (res_map message_of ms) (\<lambda>xs.
               res_bind (json_text l) (\<lambda>lab. Inr \<lparr>ex_messages = xs, ex_label = lab, ex_ref = r\<rparr>))
           | _ \<Rightarrow> Inl BadFields)
      | _ \<Rightarrow> Inl BadFields)"

text \<open>The lines a reader sees: split at every line break, stripped, and not empty.\<close>

definition file_lines :: "string \<Rightarrow> string list" where
  "file_lines content = filter (\<lambda>l. l \<noteq> []) (map str_strip (splitlines content))"

definition read_examples :: "(string \<Rightarrow> json option) \<Rightarrow> string \<Rightarrow> (read_error, sft_example list) result" where
  "read_examples loads content =
     res_map (\<lambda>l. case loads l of None \<Rightarrow> Inl BadLine | Some v \<Rightarrow> example_from_dict v) (file_lines content)"

section \<open>Building the files\<close>

definition build_and_write ::
  "(synthetic_pair list \<Rightarrow> synthetic_pair list) \<Rightarrow> string \<Rightarrow> synthetic_pair list \<Rightarrow> (builder_error, string \<times> string) result" where
  "build_and_write shuffle system ps =
     res_bind (split_dataset shuffle system ps) (\<lambda>(train, val). Inr (write_examples train, write_examples val))"

datatype rebuild_error = PairsUnreadable read_error | SplitFailed builder_error

text \<open>\<open>--build-data\<close>: read the committed pairs, split and write.\<close>

definition rebuild ::
  "(string \<Rightarrow> json option) \<Rightarrow> (synthetic_pair list \<Rightarrow> synthetic_pair list) \<Rightarrow> string \<Rightarrow> string
     \<Rightarrow> (rebuild_error, string \<times> string) result" where
  "rebuild loads shuffle system content =
     (case read_jsonl loads content of
        Inl e \<Rightarrow> Inl (PairsUnreadable e)
      | Inr ps \<Rightarrow>
          (case build_and_write shuffle system ps of Inl e \<Rightarrow> Inl (SplitFailed e) | Inr files \<Rightarrow> Inr files))"

section \<open>Generators\<close>

record generator =
  gn_model :: string
  gn_base_url :: "string option"
  gn_api_key :: "string option"
  gn_provider :: string
  gn_temperature :: pyfloat

definition frontier_from_env :: "(string, string) dict \<Rightarrow> (unit, generator) result" where
  "frontier_from_env env =
     (case dict_get env ''ATLAS_SYNTH_GENERATOR_MODEL'' of
        None \<Rightarrow> Inl ()
      | Some m \<Rightarrow>
          Inr \<lparr>gn_model = m, gn_base_url = dict_get env ''ATLAS_SYNTH_BASE_URL'',
               gn_api_key = dict_get env ''ATLAS_SYNTH_API_KEY'',
               gn_provider = (case dict_get env ''ATLAS_SYNTH_GENERATOR_PROVIDER'' of Some p \<Rightarrow> p | None \<Rightarrow> ''openai-compatible''),
               gn_temperature = fl (2 / 10)\<rparr>)"

text \<open>\<open>env.get(a) or env.get(b)\<close>: an empty value falls through too.\<close>

definition first_set :: "(string, string) dict \<Rightarrow> string \<Rightarrow> string \<Rightarrow> string option" where
  "first_set env a b =
     (case dict_get env a of Some (c # cs) \<Rightarrow> Some (c # cs) | _ \<Rightarrow> dict_get env b)"

definition ollama_from_env :: "(string, string) dict \<Rightarrow> (unit, generator) result" where
  "ollama_from_env env =
     (case (first_set env ''ATLAS_SYNTH_GENERATOR_MODEL'' ''ATLAS_EVAL_JUDGE_MODEL'',
            first_set env ''ATLAS_SYNTH_BASE_URL'' ''OLLAMA_BASE_URL'') of
        (Some (m # ms), Some (b # bs)) \<Rightarrow>
          Inr \<lparr>gn_model = m # ms, gn_base_url = Some (rstrip_chars (\<lambda>c. c = CHR ''/'') (b # bs)), gn_api_key = None,
               gn_provider = [], gn_temperature = fl (5 / 10)\<rparr>
      | _ \<Rightarrow> Inl ())"

text \<open>
  One call of the local teacher: \<open>answer k\<close> is what the \<open>k\<close>-th attempt gets, \<open>None\<close> a \<open>URLError\<close>, after
  which it sleeps \<open>5 (k + 1)\<close> seconds; the second component lists the sleeps.
\<close>

fun ask_teacher :: "(nat \<Rightarrow> string option) \<Rightarrow> nat list \<Rightarrow> (unit, string) result \<times> nat list" where
  "ask_teacher answer [] = (Inl (), [])"
| "ask_teacher answer (k # ks) =
     (case answer k of
        Some text \<Rightarrow> (Inr (str_strip text), [])
      | None \<Rightarrow> (case ask_teacher answer ks of (r, sleeps) \<Rightarrow> (r, 5 * (k + 1) # sleeps)))"

definition teacher_call :: "(nat \<Rightarrow> string option) \<Rightarrow> (unit, string) result \<times> nat list" where
  "teacher_call answer = ask_teacher answer [0..<6]"

lemma teacher_gives_up:
  "teacher_call (\<lambda>_. None) = (Inl (), [5, 10, 15, 20, 25, 30])"
  by code_simp

lemma ask_teacher_answers:
  "(\<exists>k\<in>set ks. answer k \<noteq> None) \<Longrightarrow> \<exists>t. fst (ask_teacher answer ks) = Inr t"
  by (induction ks) (fastforce split: option.splits prod.splits)+

lemma ask_teacher_sleeps: "sum_list (snd (ask_teacher answer ks)) \<le> sum_list (map (\<lambda>k. 5 * (k + 1)) ks)"
  by (induction ks) (auto split: option.splits prod.splits)

lemma teacher_sleeps: "sum_list (snd (teacher_call answer)) \<le> 105"
proof -
  have "sum_list (map (\<lambda>k. 5 * (k + 1)) [0..<6 :: nat]) = 105" by code_simp
  then show ?thesis using ask_teacher_sleeps [of answer "[0..<6]"] by (simp add: teacher_call_def)
qed


section \<open>The files hold the pairs\<close>

definition example_nel_free :: "sft_example \<Rightarrow> bool" where
  "example_nel_free e \<longleftrightarrow>
     list_all (\<lambda>(r, c). nel_free r \<and> nel_free c) (ex_messages e) \<and> nel_free (ex_label e) \<and> nel_free (example_ref_text e)"

abbreviation unbroken :: "string \<Rightarrow> bool" where
  "unbroken \<equiv> list_all (\<lambda>c. \<not> is_line_break c)"

lemma unbroken_literals:
  "unbroken '': ''" "unbroken '', ''" "unbroken '': [''" "unbroken '']''" "\<not> is_line_break (CHR ''{'')" "\<not> is_line_break (CHR ''}'')"
  "\<not> is_line_break (CHR '':'')" "\<not> is_line_break (CHR '' '')" "\<not> is_line_break (CHR '','')"
  "\<not> is_line_break (CHR ''['')" "\<not> is_line_break (CHR '']'')"
  by code_simp+

lemma unbroken_braced: "list_all unbroken parts \<Longrightarrow> unbroken (braced parts)"
  using join_no_break [OF _ unbroken_literals(2)] by (simp add: braced_def unbroken_literals)

lemma unbroken_fields:
  "list_all (\<lambda>(k, v). nel_free k \<and> nel_free v) kvs \<Longrightarrow> list_all unbroken (dump_fields kvs)"
  by (induction kvs) (auto simp: json_str_no_break unbroken_literals)

lemma nel_free_keys:
  "nel_free ''role''" "nel_free ''content''" "nel_free ''label''" "nel_free ''provenance_ref''" "nel_free ''messages''"
  by code_simp+

lemma unbroken_message: "nel_free (fst m) \<Longrightarrow> nel_free (snd m) \<Longrightarrow> unbroken (message_text m)"
  unfolding message_text_def
  by (cases m) (auto intro!: unbroken_braced unbroken_fields simp: nel_free_keys simp del: dump_fields.simps)

lemma unbroken_example:
  assumes "example_nel_free e"
  shows "unbroken (example_line e)"
proof -
  have "list_all unbroken (map message_text (ex_messages e))"
    unfolding list_all_length using assms unbroken_message
    by (auto simp: example_nel_free_def list_all_length case_prod_beta)
  then have "unbroken (str_join '', '' (map message_text (ex_messages e)))"
    using join_no_break unbroken_literals(2) by blast
  moreover have "list_all unbroken (dump_fields [(''label'', ex_label e), (''provenance_ref'', example_ref_text e)])"
    by (rule unbroken_fields) (use assms in \<open>simp add: example_nel_free_def nel_free_keys\<close>)
  ultimately show ?thesis
    unfolding example_line_def
    by (intro unbroken_braced) (simp add: json_str_no_break nel_free_keys unbroken_literals del: dump_fields.simps)
qed

lemma example_line_strip: "str_strip (example_line e) = example_line e" "example_line e \<noteq> []"
proof -
  have "\<not> is_space (CHR ''{'')" "\<not> is_space (CHR ''}'')" by code_simp+
  then show "str_strip (example_line e) = example_line e"
    by (intro strip_id) (simp_all add: example_line_def braced_def)
qed (simp add: example_line_def braced_def)

lemma written_lines:
  assumes "\<forall>e\<in>set es. example_nel_free e"
  shows "file_lines (write_examples es) = map example_line es"
proof -
  have "splitlines (write_examples es) = map example_line es"
    using splitlines_concat [of "map example_line es"] assms unbroken_example
    by (auto simp: write_examples_def list_all_iff o_def)
  then show ?thesis by (simp add: file_lines_def example_line_strip o_def)
qed

definition message_json :: "string \<times> string \<Rightarrow> json" where
  "message_json = (\<lambda>(r, c). JObj [(''role'', JStr r), (''content'', JStr c)])"

lemma example_from_to_dict: "example_from_dict (example_to_dict e) = Inr e"
proof -
  have "res_map message_of (map message_json ms) = Inr ms" for ms
    by (induction ms) (auto simp: message_of_def message_json_def obj_get_def json_text_def)
  then show ?thesis
    by (cases e) (simp add: example_from_dict_def example_to_dict_def json_text_def message_json_def [symmetric, abs_def])
qed

definition chat_row :: "sft_example \<Rightarrow> json" where
  "chat_row e = JObj [(''messages'', JList (map message_json (ex_messages e)))]"

lemma example_chat_row: "example_to_messages (example_to_dict e) = Some (chat_row e)"
proof -
  have "those (map dict_of (map message_json ms)) = Some (map message_json ms)" for ms
    by (induction ms) (auto simp: dict_of_def message_json_def)
  then show ?thesis
    by (simp add: example_to_messages_def example_to_dict_def chat_row_def message_json_def [symmetric, abs_def])
qed

lemma those_map: "(\<And>x. x \<in> set xs \<Longrightarrow> f x = Some (g x)) \<Longrightarrow> those (map f xs) = Some (map g xs)"
  by (induction xs) auto

lemma written_rows:
  assumes "\<forall>e\<in>set es. example_nel_free e \<and> loads (example_line e) = Some (example_to_dict e)"
  shows "load_chat_rows loads (write_examples es) = Some (map chat_row es)"
    "read_examples loads (write_examples es) = Inr es"
proof -
  have l: "file_lines (write_examples es) = map example_line es" by (rule written_lines) (use assms in blast)
  have "those (map (\<lambda>e. case loads (example_line e) of None \<Rightarrow> None | Some v \<Rightarrow> example_to_messages v) es)
      = Some (map chat_row es)"
    by (rule those_map) (use assms in \<open>simp add: example_chat_row\<close>)
  then show "load_chat_rows loads (write_examples es) = Some (map chat_row es)"
    unfolding load_chat_rows_def file_lines_def [symmetric] l by (simp add: comp_def)
  have "res_map (\<lambda>e. case loads (example_line e) of None \<Rightarrow> Inl BadLine | Some v \<Rightarrow> example_from_dict v) es = Inr es"
    using assms by (induction es) (simp_all add: example_from_to_dict)
  then show "read_examples loads (write_examples es) = Inr es"
    unfolding read_examples_def l res_map_Inr_iff by (simp add: list_all2_map1)
qed


definition user_text :: "sft_example \<Rightarrow> string" where
  "user_text e = (case map_of (ex_messages e) ''user'' of Some t \<Rightarrow> t | None \<Rightarrow> [])"

lemma user_turn_example: "user_turn (example_to_dict (example_of system p)) = Some (JStr (user_text (example_of system p)))"
  by (simp add: user_turn_def example_to_dict_def example_of_def user_text_def)

lemma written_prompts:
  assumes "\<forall>p\<in>set ps. example_nel_free (example_of system p)
    \<and> loads (example_line (example_of system p)) = Some (example_to_dict (example_of system p))"
    and "set es \<subseteq> example_of system ` set ps"
  shows "prompts_from_jsonl loads (write_examples es) = Some (map (JStr \<circ> user_text) es)"
proof -
  have l: "file_lines (write_examples es) = map example_line es"
    by (rule written_lines) (use assms in blast)
  have "those (map (\<lambda>e. case loads (example_line e) of None \<Rightarrow> None | Some v \<Rightarrow> user_turn v) es)
      = Some (map (JStr \<circ> user_text) es)"
    by (rule those_map) (use assms user_turn_example in fastforce)
  then show ?thesis unfolding prompts_from_jsonl_def file_lines_def [symmetric] l by (simp add: comp_def)
qed


definition demo_train_pair :: synthetic_pair where
  "demo_train_pair = \<lparr>sy_question = ''q'', sy_context = ''c'', sy_answer = ''a [doc:d1]'', sy_label = ''answer'',
     sy_ref = JStr ''d1'', sy_generator = ''t''\<rparr>"

text \<open>A decoder for the two lines of the demonstration, told apart by their first key.\<close>

definition demo_decode :: "string \<Rightarrow> json option" where
  "demo_decode l =
     Some (if l ! 2 = CHR ''q'' then pair_to_dict demo_train_pair
           else example_to_dict (example_of MINIMAL_SYSTEM demo_train_pair))"


end
