(* ===== verification/Train_Mlflow.thy ===== *)
theory Train_Mlflow
  imports Train_Wiring
begin

text \<open>
  The production clients of the registry and the hub (\<open>training/atlas_training/tracking.py\<close>,
  \<open>MlflowRegistry\<close> and \<open>HfHubClient\<close>) over services that can fail at any call, the promotion and rollback
  scripts on top of them (\<open>training/scripts/promote.py\<close>, \<open>rollback.py\<close>), and the model an episode compares
  (\<open>training/scripts/run_episodic.py\<close>). A call of a service returns an exception or a value, with the state
  it leaves.
\<close>

section \<open>The registry client\<close>

record 's mlflow =
  fl_get_alias :: "string \<Rightarrow> string \<Rightarrow> 's \<Rightarrow> (string, string) result \<times> 's"
  fl_set_alias :: "string \<Rightarrow> string \<Rightarrow> string \<Rightarrow> 's \<Rightarrow> (string, unit) result \<times> 's"
  fl_create_model :: "string \<Rightarrow> 's \<Rightarrow> (string, unit) result \<times> 's"
  fl_create_version :: "string \<Rightarrow> string \<Rightarrow> string \<Rightarrow> 's \<Rightarrow> (string, string) result \<times> 's"
  fl_start_run :: "string \<Rightarrow> 's \<Rightarrow> (string, string) result \<times> 's"
  fl_end_run :: "'s \<Rightarrow> (string, unit) result \<times> 's"

text \<open>Any exception of the lookup reads as "no such alias".\<close>

definition get_version_by_alias :: "'s mlflow \<Rightarrow> string \<Rightarrow> string \<Rightarrow> 's \<Rightarrow> string option \<times> 's" where
  "get_version_by_alias sv name a s =
     (case fl_get_alias sv name a s of (Inl e, s') \<Rightarrow> (None, s') | (Inr v, s') \<Rightarrow> (Some v, s'))"

text \<open>Creating the model fails when it exists, which is ignored.\<close>

definition create_model_version :: "'s mlflow \<Rightarrow> string \<Rightarrow> string \<Rightarrow> string \<Rightarrow> 's \<Rightarrow> (string, string) result \<times> 's" where
  "create_model_version sv name source run_id s =
     fl_create_version sv name source run_id (snd (fl_create_model sv name s))"

text \<open>The client remembers the run it has open.\<close>

definition start_run_mlflow :: "'s mlflow \<Rightarrow> string \<Rightarrow> string option \<times> 's \<Rightarrow> (string, string) result \<times> string option \<times> 's" where
  "start_run_mlflow sv name = (\<lambda>(active, s).
     case fl_start_run sv name s of
       (Inl e, s') \<Rightarrow> (Inl e, active, s')
     | (Inr i, s') \<Rightarrow> (Inr i, Some i, s'))"

definition end_run_mlflow :: "'s mlflow \<Rightarrow> string option \<times> 's \<Rightarrow> (string, unit) result \<times> string option \<times> 's" where
  "end_run_mlflow sv = (\<lambda>(active, s).
     case fl_end_run sv s of
       (Inl e, s') \<Rightarrow> (Inl e, active, s')
     | (Inr u, s') \<Rightarrow> (Inr u, None, s'))"

text \<open>\<open>promote\<close> and \<open>rollback\<close> with this client: every write can raise.\<close>

definition promote_live :: "'s mlflow \<Rightarrow> string \<Rightarrow> string \<Rightarrow> 's \<Rightarrow> (string, promotion_outcome) result \<times> 's" where
  "promote_live sv name version s =
     (case get_version_by_alias sv name CHAMPION s of
        (current, s1) \<Rightarrow>
          (if current = Some version
           then (Inr \<lparr>po_name = name, po_champion = version, po_previous = None, po_action = NoOp\<rparr>, s1)
           else
             (case (case current of None \<Rightarrow> (Inr (), s1) | Some c \<Rightarrow> fl_set_alias sv name PREVIOUS c s1) of
                (Inl e, s2) \<Rightarrow> (Inl e, s2)
              | (Inr _, s2) \<Rightarrow>
                  (case fl_set_alias sv name CHAMPION version s2 of
                     (Inl e, s3) \<Rightarrow> (Inl e, s3)
                   | (Inr _, s3) \<Rightarrow>
                       (Inr \<lparr>po_name = name, po_champion = version, po_previous = current, po_action = Promoted\<rparr>, s3)))))"

datatype rollback_error = NoPrevious | RegistryDown string

definition rollback_live :: "'s mlflow \<Rightarrow> string \<Rightarrow> 's \<Rightarrow> (rollback_error, promotion_outcome) result \<times> 's" where
  "rollback_live sv name s =
     (case get_version_by_alias sv name PREVIOUS s of
        (None, s1) \<Rightarrow> (Inl NoPrevious, s1)
      | (Some p, s1) \<Rightarrow>
          (case get_version_by_alias sv name CHAMPION s1 of
             (current, s2) \<Rightarrow>
               (case fl_set_alias sv name CHAMPION p s2 of
                  (Inl e, s3) \<Rightarrow> (Inl (RegistryDown e), s3)
                | (Inr _, s3) \<Rightarrow>
                    (case (if current \<noteq> None \<and> current \<noteq> Some p then fl_set_alias sv name PREVIOUS (the current) s3
                           else (Inr (), s3)) of
                       (Inl e, s4) \<Rightarrow> (Inl (RegistryDown e), s4)
                     | (Inr _, s4) \<Rightarrow>
                         (Inr \<lparr>po_name = name, po_champion = p, po_previous = current, po_action = RolledBack\<rparr>, s4)))))"

section \<open>The hub client\<close>

record commit =
  cm_oid :: "string option"
  cm_commit_id :: "string option"

record 's hub =
  hb_create_repo :: "string \<Rightarrow> bool \<Rightarrow> 's \<Rightarrow> (string, unit) result \<times> 's"
  hb_upload :: "string \<Rightarrow> string \<Rightarrow> 's \<Rightarrow> (string, commit) result \<times> 's"

text \<open>The revision of a commit: the first of its two identifiers that is set, or else the branch.\<close>

definition revision_of :: "commit \<Rightarrow> string" where
  "revision_of c =
     (case filter (\<lambda>x. x \<noteq> []) (List.map_filter id [cm_oid c, cm_commit_id c]) of [] \<Rightarrow> ''main'' | x # _ \<Rightarrow> x)"

definition hub_push :: "'s hub \<Rightarrow> string \<Rightarrow> string \<Rightarrow> bool \<Rightarrow> 's \<Rightarrow> (string, string) result \<times> 's" where
  "hub_push hb path repo private s =
     (case hb_create_repo hb repo private s of
        (Inl e, s1) \<Rightarrow> (Inl e, s1)
      | (Inr _, s1) \<Rightarrow>
          (case hb_upload hb repo path s1 of
             (Inl e, s2) \<Rightarrow> (Inl e, s2)
           | (Inr c, s2) \<Rightarrow> (Inr (revision_of c), s2)))"

section \<open>The model of an episode\<close>

record episode_flags =
  ef_benchmark_only :: "string option"
  ef_no_register :: bool
  ef_hf_only :: bool
  ef_out :: string

datatype model_error = ModelTracking tracking_error | MissingVariable string

text \<open>
  What the flags do with the trained adapter (an empty \<open>--benchmark-only\<close> is \<open>None\<close>): its reference for generation, its name in the comparison and
  the calls to hub and registry. \<open>adapter\<close> is the path training returned, with the id of its run; \<open>push\<close> and
  \<open>create\<close> are what hub and registry answer.
\<close>

definition use_tracker :: "episode_flags \<Rightarrow> bool" where
  "use_tracker sv \<longleftrightarrow> \<not> ef_no_register sv \<and> \<not> ef_hf_only sv"

definition episode_model ::
  "episode_flags \<Rightarrow> (string \<Rightarrow> string option) \<Rightarrow> string \<Rightarrow> string \<Rightarrow> string
     \<Rightarrow> (tracking_error, string) result \<Rightarrow> (tracking_error, string) result
     \<Rightarrow> call list \<times> (model_error, string \<times> string) result" where
  "episode_model sv env adapter run_id register_as push create =
     (case ef_benchmark_only sv of
        Some repo \<Rightarrow> ([], Inr (repo, ''hf://'' @ repo))
      | None \<Rightarrow>
          (if use_tracker sv then
             (case tracker_from_env env of
                Inl e \<Rightarrow> ([], Inl (ModelTracking e))
              | Inr t \<Rightarrow>
                  (case register_adapter push create t run_id adapter register_as of
                     (calls, Inl e) \<Rightarrow> (calls, Inl (ModelTracking e))
                   | (calls, Inr mv) \<Rightarrow> (calls, Inr (adapter, mv_source mv))))
           else if ef_hf_only sv then
             (case (env ''ATLAS_HF_ADAPTER_REPO'', env ''HF_TOKEN'') of
                (None, _) \<Rightarrow> ([], Inl (MissingVariable ''ATLAS_HF_ADAPTER_REPO''))
              | (_, None) \<Rightarrow> ([], Inl (MissingVariable ''HF_TOKEN''))
              | (Some repo, Some token) \<Rightarrow>
                  ([Push adapter repo (env_private env) token],
                   case res_bind push (hf_source_uri repo) of
                     Inl e \<Rightarrow> Inl (ModelTracking e)
                   | Inr source \<Rightarrow> Inr (adapter, source)))
           else ([], Inr (adapter, ef_out sv))))"

text \<open>A comparison names a hub revision exactly if the episode pushed its adapter.\<close>

lemma model_is_hub_iff_pushed:
  assumes "episode_model sv env adapter run_id register_as push create = (calls, Inr (r, model))"
    and "ef_benchmark_only sv = None" "\<not> is_hf_source (ef_out sv)"
  shows "is_hf_source model \<longleftrightarrow> (\<exists>a repo p t. Push a repo p t \<in> set calls)"
proof (cases "use_tracker sv")
  case True
  then obtain t mv where t: "tracker_from_env env = Inr t"
    "register_adapter push create t run_id adapter register_as = (calls, Inr mv)" "model = mv_source mv"
    using assms(1,2) by (auto simp: episode_model_def split: sum.splits prod.splits)
  show ?thesis
    using t(2,3) is_hf_source_uri [of "hf_repo t"]
    by (cases push; cases create) (auto simp: register_adapter_cases Let_def split: if_splits)
next
  case False
  then show ?thesis using assms hf_source_uri_ok
    by (cases push) (auto simp: episode_model_def split: if_splits option.splits sum.splits)
qed

section \<open>Promotion over a registry that fails\<close>

text \<open>
  What MLflow documents: a lookup answers the version of an alias, and fails if there is none; a write
  sets one alias. A write that fails may or may not have been carried out.
\<close>

definition steady :: "'s mlflow \<Rightarrow> ('s \<Rightarrow> string \<Rightarrow> string \<Rightarrow> string option) \<Rightarrow> bool" where
  "steady sv read \<longleftrightarrow>
     (\<forall>n a s. case read s n a of
        None \<Rightarrow> \<exists>e. fl_get_alias sv n a s = (Inl e, s)
      | Some v \<Rightarrow> fl_get_alias sv n a s = (Inr v, s))
     \<and> (\<forall>n a v s r s'. fl_set_alias sv n a v s = (r, s') \<longrightarrow>
          (\<forall>m b. read s' m b = (if m = n \<and> b = a then Some v else read s m b))
          \<or> ((\<exists>e. r = Inl e) \<and> (\<forall>m b. read s' m b = read s m b)))"

lemma steady_get:
  assumes "steady sv read"
  shows "get_version_by_alias sv n a s = (read s n a, s)"
proof -
  have "case read s n a of
      None \<Rightarrow> \<exists>e. fl_get_alias sv n a s = (Inl e, s)
    | Some v \<Rightarrow> fl_get_alias sv n a s = (Inr v, s)"
    using assms unfolding steady_def by blast
  then show ?thesis by (cases "read s n a") (auto simp: get_version_by_alias_def)
qed

lemma steady_set:
  assumes "steady sv read" "fl_set_alias sv n a v s = (r, s')"
  shows "(\<forall>m b. read s' m b = (if m = n \<and> b = a then Some v else read s m b))
    \<or> ((\<exists>e. r = Inl e) \<and> (\<forall>m b. read s' m b = read s m b))"
  using assms unfolding steady_def by blast

text \<open>Where an interrupted promotion can leave the two aliases.\<close>

fun interrupted :: "string \<Rightarrow> alias_pair \<Rightarrow> alias_pair set" where
  "interrupted v (champ, prv) =
     (if champ = Some v then {(champ, prv)}
      else {(champ, prv), (champ, case champ of None \<Rightarrow> prv | Some c \<Rightarrow> Some c), promote_spec v (champ, prv)})"

lemma interrupted_again:
  "q \<in> interrupted v p \<Longrightarrow> promote_spec v q = promote_spec v p \<and> interrupted v q \<subseteq> interrupted v p"
  by (cases p; cases q; cases "fst p") (auto split: if_splits)

lemma promote_live_pair:
  assumes "steady sv read" "promote_live sv name v s = (r, s')"
  shows "aliases read name s' \<in> interrupted v (aliases read name s)
    \<and> (is_ok r \<longrightarrow> aliases read name s' = promote_spec v (aliases read name s))
    \<and> (\<forall>m. m \<noteq> name \<longrightarrow> aliases read m s' = aliases read m s)"
proof (cases "read s name CHAMPION = Some v")
  case True
  then show ?thesis using assms by (simp add: promote_live_def steady_get aliases_def)
next
  case False
  define start where "start = (case read s name CHAMPION of None \<Rightarrow> (Inr (), s) | Some c \<Rightarrow> fl_set_alias sv name PREVIOUS c s)"
  obtain r2 s2 where s2: "start = (r2, s2)" by fastforce
  have prev: "(\<forall>m b. read s2 m b = (if m = name \<and> b = PREVIOUS \<and> read s name CHAMPION \<noteq> None then read s name CHAMPION else read s m b))
      \<or> ((\<exists>e. r2 = Inl e) \<and> (\<forall>m b. read s2 m b = read s m b))"
  proof (cases "read s name CHAMPION")
    case (Some c)
    with s2 have "fl_set_alias sv name PREVIOUS c s = (r2, s2)" by (simp add: start_def)
    from steady_set [OF assms(1) this] Some show ?thesis by auto
  qed (use s2 in \<open>auto simp: start_def\<close>)
  have live: "promote_live sv name v s =
      (case r2 of Inl e \<Rightarrow> (Inl e, s2)
       | Inr _ \<Rightarrow>
           (case fl_set_alias sv name CHAMPION v s2 of
              (Inl e, s3) \<Rightarrow> (Inl e, s3)
            | (Inr _, s3) \<Rightarrow>
                (Inr \<lparr>po_name = name, po_champion = v, po_previous = read s name CHAMPION, po_action = Promoted\<rparr>, s3)))"
    using False s2 by (cases r2) (simp_all add: promote_live_def steady_get [OF assms(1)] start_def)
  show ?thesis
  proof (cases r2)
    case (Inl e)
    then have "s' = s2" "\<not> is_ok r" using assms(2) live by (auto simp: is_ok_def)
    then show ?thesis using prev False by (cases "read s name CHAMPION") (auto simp: aliases_def)
  next
    case (Inr u)
    obtain r3 s3 where s3: "fl_set_alias sv name CHAMPION v s2 = (r3, s3)" by fastforce
    have r: "s' = s3" "is_ok r = is_ok r3"
      using assms(2) live Inr s3 by (cases r3; auto simp: is_ok_def)+
    have "\<not> is_ok r" if "r3 = Inl e" for e using r(2) that by (simp add: is_ok_def)
    with steady_set [OF assms(1) s3] show ?thesis
      using prev Inr False unfolding r(1) by (auto simp: aliases_def split: option.splits)
  qed
qed

text \<open>Running the promotion again after a failure, at most \<open>k\<close> more times.\<close>

fun retry_promote :: "nat \<Rightarrow> 's mlflow \<Rightarrow> string \<Rightarrow> string \<Rightarrow> 's \<Rightarrow> (string, promotion_outcome) result \<times> 's" where
  "retry_promote 0 sv name v s = promote_live sv name v s"
| "retry_promote (Suc k) sv name v s =
     (case promote_live sv name v s of
        (Inl e, s1) \<Rightarrow> retry_promote k sv name v s1
      | (Inr out, s1) \<Rightarrow> (Inr out, s1))"

lemma retry_promote_pair:
  assumes "steady sv read" "retry_promote k sv name v s = (r, s')"
  shows "aliases read name s' \<in> interrupted v (aliases read name s)
    \<and> (is_ok r \<longrightarrow> aliases read name s' = promote_spec v (aliases read name s))
    \<and> (\<forall>m. m \<noteq> name \<longrightarrow> aliases read m s' = aliases read m s)"
  using assms(2)
proof (induction k arbitrary: s)
  case 0
  then show ?case using promote_live_pair [OF assms(1)] by simp
next
  case (Suc k)
  obtain r1 s1 where one: "promote_live sv name v s = (r1, s1)" by fastforce
  note step = promote_live_pair [OF assms(1) one]
  show ?case
  proof (cases r1)
    case (Inl e)
    then have "retry_promote k sv name v s1 = (r, s')" using Suc.prems one by simp
    from Suc.IH [OF this] step interrupted_again [of "aliases read name s1" v "aliases read name s"]
    show ?thesis by auto
  next
    case (Inr out)
    then show ?thesis using Suc.prems one step by simp
  qed
qed

text \<open>C32: Promotion can be interrupted and repeated. Over a registry that behaves as documented but may fail
  at any write, carried out or not, every attempt leaves the champion of the model either the old or the
  new version, and as rollback target the old target or the old champion; whenever an attempt succeeds,
  after any number of failed ones, the aliases are exactly what one undisturbed promotion gives, so no
  retry loses the outgoing champion; and the aliases of other models never change.\<close>

theorem promotion_retries_exactly:
  assumes "steady sv read" "retry_promote k sv name v s = (r, s')"
  shows "fst (aliases read name s') \<in> {fst (aliases read name s), Some v}
    \<and> aliases read name s' \<in> interrupted v (aliases read name s)
    \<and> (is_ok r \<longrightarrow> aliases read name s' = promote_spec v (aliases read name s))
    \<and> (\<forall>m. m \<noteq> name \<longrightarrow> aliases read m s' = aliases read m s)"
  using retry_promote_pair [OF assms] by (cases "aliases read name s") (auto split: if_splits)

text \<open>A registry that loses the acknowledgement of planned writes, and one that refuses them.\<close>

type_synonym flaky = "(string \<times> string, string) dict \<times> bool option list"

definition flaky_read :: "flaky \<Rightarrow> string \<Rightarrow> string \<Rightarrow> string option" where
  "flaky_read s n a = dict_get (fst s) (n, a)"

definition flaky_mlflow :: "flaky mlflow" where
  "flaky_mlflow =
     \<lparr>fl_get_alias = (\<lambda>n a s. (case flaky_read s n a of None \<Rightarrow> Inl ''MlflowException'' | Some v \<Rightarrow> Inr v, s)),
      fl_set_alias = (\<lambda>n a v (d, plan). case plan of
          [] \<Rightarrow> (Inr (), dict_set (n, a) v d, [])
        | None # rest \<Rightarrow> (Inr (), dict_set (n, a) v d, rest)
        | Some kept # rest \<Rightarrow> (Inl ''timeout'', if kept then dict_set (n, a) v d else d, rest)),
      fl_create_model = (\<lambda>n s. (Inl ''exists'', s)), fl_create_version = (\<lambda>n src i s. (Inr ''1'', s)),
      fl_start_run = (\<lambda>n s. (Inr ''r'', s)), fl_end_run = (\<lambda>s. (Inr (), s))\<rparr>"

lemma flaky_steady: "steady flaky_mlflow flaky_read"
  unfolding steady_def flaky_mlflow_def flaky_read_def
  by (auto split: option.splits list.splits if_splits)

definition two_versions :: "(string \<times> string, string) dict" where
  "two_versions = [((''m'', CHAMPION), ''2''), ((''m'', PREVIOUS), ''1'')]"

text \<open>The first write is refused, the second is carried out but not acknowledged, then all is well.\<close>

lemma promotion_retries_exactly_witness:
  "let (r, s') = retry_promote 2 flaky_mlflow ''m'' ''3'' (two_versions, [Some False, Some True])
   in is_ok r \<and> aliases flaky_read ''m'' s' = (Some ''3'', Some ''2'')"
proof -
  let ?s = "(two_versions, [Some False, Some True])"
  obtain r s' where run: "retry_promote 2 flaky_mlflow ''m'' ''3'' ?s = (r, s')" by (metis surj_pair)
  have "is_ok (fst (retry_promote 2 flaky_mlflow ''m'' ''3'' ?s))" by code_simp
  then have ok: "is_ok r" by (simp add: run)
  have "aliases flaky_read ''m'' ?s = (Some ''2'', Some ''1'')" by code_simp
  with promotion_retries_exactly [OF flaky_steady run] ok show ?thesis by (simp add: run)
qed

text \<open>
  A rollback is not repeatable in this way: it writes the champion first, so when its second write fails, the
  outgoing champion is lost and a repeated rollback succeeds without restoring it as the target.
\<close>

lemma rollback_retry_loses_champion:
  "case rollback_live flaky_mlflow ''m'' (two_versions, [None, Some False]) of
     (r1, s1) \<Rightarrow> \<not> is_ok r1 \<and>
       (case rollback_live flaky_mlflow ''m'' s1 of
          (r2, s2) \<Rightarrow> is_ok r2 \<and> aliases flaky_read ''m'' s2 = (Some ''1'', Some ''1''))"
  by code_simp

text \<open>A failed lookup of the champion reads as "no champion": the promotion goes through and drops it.\<close>

lemma failed_lookup_drops_champion:
  assumes "fl_get_alias sv name CHAMPION s = (Inl e, s)" "fl_set_alias sv name CHAMPION v s = (Inr (), s')"
  shows "promote_live sv name v s =
    (Inr \<lparr>po_name = name, po_champion = v, po_previous = None, po_action = Promoted\<rparr>, s')"
  using assms by (simp add: promote_live_def get_version_by_alias_def)

text \<open>Where nothing fails, the scripts are those of the abstract registry.\<close>

lemma promote_live_reliable:
  assumes "steady sv read" "promote_live sv name v s = (Inr out, s')"
  shows "aliases read name s' = spec_step (Promote v) (aliases read name s)"
  using promote_live_pair [OF assms] by simp

end
