(* ===== verification/Train_Driver.thy ===== *)
theory Train_Driver
  imports Train_Examples Train_Mlflow Train_Cost
begin

text \<open>
  One episode from end to end (\<open>training/scripts/run_episodic.py\<close>, \<open>main\<close>): generating or rebuilding the
  data files, the training job and its run (\<open>training/atlas_training/train.py\<close>, \<open>run_training\<close>),
  generation of the outputs of both models (\<open>training/atlas_training/infer.py\<close>, \<open>generate\<close>), the scores
  and the evidence files. The teacher, the trainer, the language model, the judge, hub, registry and the
  clocks are parameters; an exception ends the episode where it is raised and keeps what was done.
\<close>

section \<open>Generation\<close>

text \<open>The conversation of one prompt; an empty system prompt adds no turn.\<close>

definition chat_messages :: "string \<Rightarrow> string \<Rightarrow> (string \<times> string) list" where
  "chat_messages system prompt =
     (if system \<noteq> [] then [(''system'', system)] else []) @ [(''user'', prompt)]"

definition GEN_KWARGS :: "(string, json) dict" where
  "GEN_KWARGS = [(''max_new_tokens'', JInt 320), (''do_sample'', JBool False)]"

text \<open>A model with an adapter or without, asked greedily; \<open>None\<close> is an exception.\<close>

type_synonym lm = "json \<Rightarrow> string option \<Rightarrow> (string \<times> string) list \<Rightarrow> (string, json) dict \<Rightarrow> string option"

record gen_request =
  gr_model :: json
  gr_adapter :: "string option"
  gr_system :: string
  gr_prompts :: "string list"

definition generate :: "lm \<Rightarrow> gen_request \<Rightarrow> string list option" where
  "generate lm g =
     opt_map (\<lambda>p. map_option str_strip
         (lm (gr_model g) (case gr_adapter g of Some (c # cs) \<Rightarrow> Some (c # cs) | _ \<Rightarrow> None)
            (chat_messages (gr_system g) p) GEN_KWARGS))
       (gr_prompts g)"

section \<open>The data files\<close>

record data_files =
  fl_pairs :: "string option"
  fl_manifest :: "string option"
  fl_train :: "string option"
  fl_val :: "string option"

record teaching =
  tc_env :: "(string, string) dict"
  tc_corpus :: "(corpus_error, corpus) result"
  tc_ask :: "string \<Rightarrow> string option"
  tc_rng :: "nat \<Rightarrow> nat"
  tc_shuffle :: "synthetic_pair list \<Rightarrow> synthetic_pair list"
  tc_fmt :: "json \<Rightarrow> string"
  tc_loads :: "string \<Rightarrow> json option"
  tc_dumps :: "json \<Rightarrow> string"
  tc_now :: string
  tc_git :: "string option"
  tc_sha :: string

datatype data_error =
    CorpusBroken corpus_error
  | NoTeacher
  | TeacherFailed
  | ManifestRejected manifest_error
  | NotSplit builder_error
  | NoPairsFile
  | NotRebuilt rebuild_error

text \<open>What the teacher named by the environment makes of the corpus.\<close>

definition generated_pairs :: "teaching \<Rightarrow> corpus \<Rightarrow> string \<Rightarrow> nat \<Rightarrow> synthetic_pair list option" where
  "generated_pairs w c model n =
     build_generated_dataset (tc_fmt w) (tc_loads w) (tc_ask w) model (tc_rng w) c n 1"

text \<open>\<open>--generate-data n\<close>. The seed of the configuration enters the manifest, and the shuffle.\<close>

definition generate_data ::
  "teaching \<Rightarrow> string \<Rightarrow> int \<Rightarrow> nat \<Rightarrow> data_files \<Rightarrow> data_files \<times> (data_error, unit) result" where
  "generate_data w system sd n fs =
     (case tc_corpus w of
        Inl e \<Rightarrow> (fs, Inl (CorpusBroken e))
      | Inr c \<Rightarrow>
          (case ollama_from_env (tc_env w) of
             Inl _ \<Rightarrow> (fs, Inl NoTeacher)
           | Inr g \<Rightarrow>
               (case generated_pairs w c (gn_model g) n of
                  None \<Rightarrow> (fs, Inl TeacherFailed)
                | Some ps \<Rightarrow>
                    (let fs1 = fs\<lparr>fl_pairs := Some (write_jsonl ps)\<rparr>
                     in case build_manifest (tc_now w) (tc_git w) (tc_sha w) ps c ''p6-gen'' sd (gn_model g)
                               ''ollama-selfhosted'' of
                          Inl e \<Rightarrow> (fs1, Inl (CorpusBroken e))
                        | Inr m \<Rightarrow>
                            (case validate m c (Some (provenance_refs ps)) of
                               Inl e \<Rightarrow> (fs1, Inl (ManifestRejected e))
                             | Inr _ \<Rightarrow>
                                 (let fs2 = fs1\<lparr>fl_manifest := Some (save_manifest (tc_dumps w) m)\<rparr>
                                  in case build_and_write (tc_shuffle w) system ps of
                                       Inl e \<Rightarrow> (fs2, Inl (NotSplit e))
                                     | Inr (t, v) \<Rightarrow> (fs2\<lparr>fl_train := Some t, fl_val := Some v\<rparr>, Inr ())))))))"

text \<open>\<open>--build-data\<close> splits the committed pairs under the default prompt.\<close>

definition rebuild_data :: "teaching \<Rightarrow> data_files \<Rightarrow> data_files \<times> (data_error, unit) result" where
  "rebuild_data w fs =
     (case fl_pairs fs of
        None \<Rightarrow> (fs, Inl NoPairsFile)
      | Some content \<Rightarrow>
          (case rebuild (tc_loads w) (tc_shuffle w) SYSTEM_PROMPT content of
             Inl e \<Rightarrow> (fs, Inl (NotRebuilt e))
           | Inr (t, v) \<Rightarrow> (fs\<lparr>fl_train := Some t, fl_val := Some v\<rparr>, Inr ())))"

definition prepare_data ::
  "teaching \<Rightarrow> string \<Rightarrow> int \<Rightarrow> int \<Rightarrow> bool \<Rightarrow> data_files \<Rightarrow> data_files \<times> (data_error, unit) result" where
  "prepare_data w system sd n again fs =
     (case (if n > 0 then generate_data w system sd (nat n) fs else (fs, Inr ())) of
        (fs1, Inl e) \<Rightarrow> (fs1, Inl e)
      | (fs1, Inr _) \<Rightarrow> if again then rebuild_data w fs1 else (fs1, Inr ()))"

text \<open>The files after a step that succeeded: they belong together.\<close>

definition files_agree :: "teaching \<Rightarrow> corpus \<Rightarrow> string \<Rightarrow> synthetic_pair list \<Rightarrow> data_files \<Rightarrow> bool" where
  "files_agree w c system ps fs \<longleftrightarrow>
     (\<exists>m train val.
        validate m c (Some (provenance_refs ps)) = Inr ()
        \<and> sp_train (mf_split m) = JInt (int (length train)) \<and> sp_val (mf_split m) = JInt (int (length val))
        \<and> mset train + mset val = image_mset (example_of system) (mset ps) \<and> train \<noteq> []
        \<and> fl_pairs fs = Some (write_jsonl ps) \<and> fl_manifest fs = Some (save_manifest (tc_dumps w) m)
        \<and> fl_train fs = Some (write_examples train) \<and> fl_val fs = Some (write_examples val))"

lemma generated_version: "str_strip ''p6-gen'' \<noteq> []"
  by code_simp

lemma generated_nonempty:
  assumes "generated_pairs w c model n = Some ps" "c \<noteq> []"
  shows "ps \<noteq> []"
  using assms by (cases c) (auto simp: generated_pairs_def build_generated_dataset_def templated_refusals_def enumerate_eq_zip)

text \<open>Over a loaded corpus, generated pairs always become a consistent set of files.\<close>

lemma generated_files_agree:
  assumes "load_corpus cloads yaml dir = Inr c" "string_ids c" "tc_corpus w = Inr c"
    and perm: "\<And>xs. mset (tc_shuffle w xs) = mset xs"
    and g: "ollama_from_env (tc_env w) = Inr g" and ps: "generated_pairs w c (gn_model g) n = Some ps"
  shows "\<exists>fs'. generate_data w system sd n fs = (fs', Inr ()) \<and> files_agree w c system ps fs'"
proof -
  have "c \<noteq> []" using load_corpus_ok [OF assms(1)] by (auto simp: by_layer_def)
  then have "ps \<noteq> []" by (rule generated_nonempty [OF ps])
  then obtain m train val where out:
    "build_manifest (tc_now w) (tc_git w) (tc_sha w) ps c ''p6-gen'' sd (gn_model g) ''ollama-selfhosted'' = Inr m"
    "validate m c (Some (provenance_refs ps)) = Inr ()" "split_dataset (tc_shuffle w) system ps = Inr (train, val)"
    "sp_train (mf_split m) = JInt (int (length train))" "sp_val (mf_split m) = JInt (int (length val))"
    "mset train + mset val = image_mset (example_of system) (mset ps)" "train \<noteq> []"
    using generated_dataset_validates [OF assms(1,2) ps [unfolded generated_pairs_def] \<open>ps \<noteq> []\<close> generated_version perm]
    by metis
  let ?fs' = "fs\<lparr>fl_pairs := Some (write_jsonl ps), fl_manifest := Some (save_manifest (tc_dumps w) m),
      fl_train := Some (write_examples train), fl_val := Some (write_examples val)\<rparr>"
  have "files_agree w c system ps ?fs'"
    unfolding files_agree_def by (rule exI [of _ m], rule exI [of _ train], rule exI [of _ val]) (simp add: out)
  moreover have "generate_data w system sd n fs = (?fs', Inr ())"
    using g ps out(1-3) by (simp add: generate_data_def assms(3) build_and_write_def)
  ultimately show ?thesis by blast
qed

text \<open>C36: Generating a data set is all or nothing. Over a corpus loaded from its directory, the step fails only
  before it writes (no teacher configured, or the teacher fails), and then no file has changed; otherwise
  all four files are replaced and agree: the pairs file holds the generated pairs, the manifest written
  validates for exactly these pairs and declares the sizes of the two chat files, and these partition the
  pairs under the system prompt of the episode.\<close>

theorem generation_all_or_nothing:
  assumes "load_corpus cloads yaml dir = Inr c" "string_ids c" "tc_corpus w = Inr c"
    and perm: "\<And>xs. mset (tc_shuffle w xs) = mset xs"
    and run: "generate_data w system sd n fs = (fs', r)"
  shows "(r = Inl NoTeacher \<and> ollama_from_env (tc_env w) = Inl () \<and> fs' = fs)
    \<or> (r = Inl TeacherFailed \<and> fs' = fs)
    \<or> (r = Inr () \<and> (\<exists>g ps. ollama_from_env (tc_env w) = Inr g
         \<and> generated_pairs w c (gn_model g) n = Some ps
         \<and> files_agree w c system ps fs'))"
proof (cases "ollama_from_env (tc_env w)")
  case (Inl u)
  then show ?thesis using run by (simp add: generate_data_def assms(3))
next
  case g: (Inr g)
  show ?thesis
  proof (cases "generated_pairs w c (gn_model g) n")
    case None
    then show ?thesis using run g by (simp add: generate_data_def assms(3))
  next
    case (Some ps)
    then show ?thesis
      using generated_files_agree [OF assms(1-4) g Some, of system sd fs] run g by auto
  qed
qed

section \<open>The training job\<close>

text \<open>What the trainer is built from.\<close>

record job =
  jb_model :: json
  jb_quant :: "(string, json) dict"
  jb_lora :: "(string, json) dict"
  jb_sft :: "(string, json) dict"
  jb_stop :: "(string, json) dict"
  jb_train :: "json list"
  jb_val :: "json list"

datatype job_error = UnknownDtype | NoChatRows | LossUnreadable | TrainerFailed

text \<open>The element type of torch with that name; any other name is a \<open>KeyError\<close>.\<close>

definition resolve_dtype :: "json \<Rightarrow> json option" where
  "resolve_dtype name =
     (case name of
        JStr s \<Rightarrow> (if s \<in> {''bfloat16'', ''float16'', ''float32''} then Some (JStr (''torch.'' @ s)) else None)
      | _ \<Rightarrow> None)"

definition chat_file :: "(string \<Rightarrow> json option) \<Rightarrow> string option \<Rightarrow> json list option" where
  "chat_file loads file = (case file of None \<Rightarrow> None | Some content \<Rightarrow> load_chat_rows loads content)"

definition training_job ::
  "(string \<Rightarrow> json option) \<Rightarrow> run_config \<Rightarrow> data_files \<Rightarrow> string \<Rightarrow> (job_error, job) result" where
  "training_job loads c fs out =
     (case resolve_dtype (q_compute_dtype (cfg_quant c)) of
        None \<Rightarrow> Inl UnknownDtype
      | Some dtype \<Rightarrow>
          (case (chat_file loads (fl_train fs), chat_file loads (fl_val fs)) of
             (Some train, Some val) \<Rightarrow>
               Inr \<lparr>jb_model = cfg_base_model c,
                    jb_quant = dict_set ''bnb_4bit_compute_dtype'' dtype (quantization_kwargs c),
                    jb_lora = lora_kwargs c, jb_sft = sft_kwargs c out, jb_stop = early_stopping_kwargs c,
                    jb_train = train, jb_val = val\<rparr>
           | _ \<Rightarrow> Inl NoChatRows))"

text \<open>What fitting does: the logs of its steps, and its history and last step unless it fails.\<close>

record fit =
  ft_logs :: "(int \<times> (string \<times> json) list) list"
  ft_end :: "((string \<times> json) list list \<times> int) option"

text \<open>The calls of the loss callback; a loss that is no number ends the run.\<close>

fun log_steps :: "(string \<Rightarrow> pyfloat option) \<Rightarrow> (int \<times> (string \<times> json) list) list \<Rightarrow> call list \<times> bool" where
  "log_steps parse [] = ([], True)"
| "log_steps parse ((step, logs) # rest) =
     (case on_log parse step logs of
        Inl _ \<Rightarrow> ([], False)
      | Inr calls \<Rightarrow> (case log_steps parse rest of (later, ok) \<Rightarrow> (calls @ later, ok)))"

text \<open>\<open>run_training\<close> with its failures: with \<open>tracking = Some run_id\<close> a run is opened before fitting.\<close>

definition train_job ::
  "(string \<Rightarrow> pyfloat option) \<Rightarrow> (string \<Rightarrow> json option) \<Rightarrow> (job \<Rightarrow> fit) \<Rightarrow> string option \<Rightarrow> run_config
     \<Rightarrow> data_files \<Rightarrow> string \<Rightarrow> call list \<times> (job_error, job \<times> train_result) result" where
  "train_job parse loads trainer tracking c fs out =
     (case training_job loads c fs out of
        Inl e \<Rightarrow> ([], Inl e)
      | Inr j \<Rightarrow>
          (let f = trainer j;
               opened = (case tracking of None \<Rightarrow> [] | Some run_id \<Rightarrow> fst (log_run run_id c None));
               (losses, ok) = (case tracking of None \<Rightarrow> ([], True) | Some _ \<Rightarrow> log_steps parse (ft_logs f))
           in (opened @ losses,
               if \<not> ok then Inl LossUnreadable
               else case ft_end f of
                      None \<Rightarrow> Inl TrainerFailed
                    | Some (history, steps) \<Rightarrow>
                        Inr (j, \<lparr>tn_path = out, tn_train_loss = last_logged ''loss'' history,
                               tn_eval_loss = last_logged ''eval_loss'' history, tn_steps = steps,
                               tn_run_id = tracking\<rparr>))))"

lemma log_steps_all:
  "log_steps parse xs = (losses, True) \<Longrightarrow>
    \<exists>css. res_map (\<lambda>(step, logs). on_log parse step logs) xs = Inr css \<and> concat css = losses"
proof (induction xs arbitrary: losses)
  case (Cons x xs)
  then show ?case by (cases x) (fastforce split: sum.splits prod.splits)
qed simp

text \<open>A run that completes is the run of \<open>run_training\<close> over what the trainer did.\<close>

lemma completed_run:
  assumes "train_job parse loads trainer tracking c fs out = (calls, Inr (j, res))"
  shows "\<exists>history steps. ft_end (trainer j) = Some (history, steps)
    \<and> run_training parse \<lparr>tq_logs = ft_logs (trainer j), tq_history = history, tq_steps = steps\<rparr> tracking c out = Inr (calls, res)"
proof (cases "training_job loads c fs out")
  case (Inr i)
  show ?thesis
  proof (cases tracking)
    case None
    then show ?thesis using assms Inr
      by (auto simp: train_job_def run_training_def Let_def split: option.split_asm)
  next
    case (Some run_id)
    obtain losses ok where l: "log_steps parse (ft_logs (trainer i)) = (losses, ok)" by (metis surj_pair)
    then have ok: "ok" using assms Inr Some by (auto simp: train_job_def Let_def split: if_splits)
    obtain css where "res_map (\<lambda>(step, logs). on_log parse step logs) (ft_logs (trainer i)) = Inr css" "concat css = losses"
      using log_steps_all [of parse "ft_logs (trainer i)" losses] l ok by auto
    then show ?thesis using assms Inr Some l ok
      by (auto simp: train_job_def run_training_def Let_def split: option.split_asm)
  qed
qed (use assms in \<open>simp add: train_job_def\<close>)

section \<open>The episode\<close>

record opts =
  op_flags :: episode_flags
  op_generate :: int
  op_build :: bool
  op_bake :: bool
  op_upload :: "string option"
  op_faith :: int

text \<open>The judge: its model, its embedding model and its address score samples; \<open>None\<close> is an exception.\<close>

type_synonym judge = "string \<Rightarrow> string \<Rightarrow> string \<Rightarrow> eval_sample list \<Rightarrow> (string \<times> pyfloat) list option"

record world =
  ew_config :: "(config_error, run_config) result"
  ew_vars :: "(string, string) dict"
  ew_parse :: "string \<Rightarrow> pyfloat option"
  ew_teaching :: teaching
  ew_trainer :: "job \<Rightarrow> fit"
  ew_run_id :: string
  ew_push :: "(tracking_error, string) result"
  ew_create :: "(tracking_error, string) result"
  ew_golden :: "golden_tuple list"
  ew_refusals :: "refusal_case list"
  ew_lm :: lm
  ew_judge :: judge
  ew_base_time :: "pyfloat \<times> pyfloat"
  ew_ft_time :: "pyfloat \<times> pyfloat"
  ew_window :: "(pyfloat \<times> string) \<times> (pyfloat \<times> string)"
  ew_stats :: stats_fun
  ew_sha :: string
  ew_now :: string

datatype driver_error =
    ConfigBroken config_error
  | DataBroken data_error
  | RateBroken cost_error
  | TrackerBroken tracking_error
  | JobFailed job_error
  | ModelBroken model_error
  | GoldenBroken corpus_error
  | GenerationFailed
  | EvidenceFailed episode_error
  | MeterBroken cost_error
  | NoUploadToken

text \<open>Everything an episode leaves behind.\<close>

record outcome =
  oc_files :: data_files
  oc_calls :: "call list"
  oc_job :: "job option"
  oc_requests :: "gen_request list"
  oc_results :: "(string \<times> json) list"
  oc_uploads :: "string list"
  oc_end :: "(driver_error, cost_record) result"

text \<open>Training and registering, or the adapter named on the command line: its reference and its name.\<close>

definition adapter_stage ::
  "world \<Rightarrow> opts \<Rightarrow> run_config \<Rightarrow> data_files
     \<Rightarrow> call list \<times> job option \<times> (driver_error, string \<times> string) result" where
  "adapter_stage w q c fs =
     (let env = dict_get (ew_vars w);
          model = (\<lambda>path. episode_model (op_flags q) env path (ew_run_id w) (show_id (tc_fmt (ew_teaching w)) (ml_register_as (cfg_mlflow c)))
                     (ew_push w) (ew_create w));
          lift = (\<lambda>r. case r of Inl e \<Rightarrow> Inl (ModelBroken e) | Inr x \<Rightarrow> Inr x)
      in if ef_benchmark_only (op_flags q) \<noteq> None then (case model [] of (calls, r) \<Rightarrow> (calls, None, lift r))
         else case (if use_tracker (op_flags q) then map_sum id (\<lambda>_. ()) (tracker_from_env env) else Inr ()) of
                Inl e \<Rightarrow> ([], None, Inl (TrackerBroken e))
              | Inr _ \<Rightarrow>
                  (case train_job (ew_parse w) (tc_loads (ew_teaching w)) (ew_trainer w)
                          (if use_tracker (op_flags q) then Some (ew_run_id w) else None) c fs (ef_out (op_flags q)) of
                     (calls, Inl e) \<Rightarrow> (calls, None, Inl (JobFailed e))
                   | (calls, Inr (j, res)) \<Rightarrow>
                       (case model (tn_path res) of (later, r) \<Rightarrow> (calls @ later, Some j, lift r))))"

text \<open>Both models get the same prompts under the same system turn, the base model first.\<close>

definition the_requests :: "(json \<Rightarrow> string) \<Rightarrow> run_config \<Rightarrow> string \<Rightarrow> string \<Rightarrow> eval_row list \<Rightarrow> refusal_case list \<Rightarrow> gen_request list" where
  "the_requests fmt c system adapter rows cases =
     [\<lparr>gr_model = cfg_base_model c, gr_adapter = a, gr_system = system, gr_prompts = ps\<rparr>.
        a \<leftarrow> [None, Some adapter], ps \<leftarrow> [map er_prompt rows, map (show_id fmt \<circ> rf_question) cases]]"

text \<open>The requests made, in order up to the first that fails, and the outputs.\<close>

fun run_requests :: "lm \<Rightarrow> gen_request list \<Rightarrow> gen_request list \<times> string list list option" where
  "run_requests lm [] = ([], Some [])"
| "run_requests lm (g # gs) =
     (case generate lm g of
        None \<Rightarrow> ([g], None)
      | Some xs \<Rightarrow> (case run_requests lm gs of (made, out) \<Rightarrow> (g # made, map_option ((#) xs) out)))"

text \<open>
  \<open>_faithfulness\<close>: any failure is \<open>None\<close>. The default of the judge's address is looked up even if the
  address is set.
\<close>

definition faithfulness ::
  "(string, string) dict \<Rightarrow> judge \<Rightarrow> eval_row list \<Rightarrow> string list \<Rightarrow> pyfloat option" where
  "faithfulness vars judge rows outputs =
     (if length rows \<noteq> length outputs then None
      else case (dict_get vars ''ATLAS_EVAL_JUDGE_MODEL'', dict_get vars ''OLLAMA_BASE_URL'') of
             (Some model, Some fallback) \<Rightarrow>
               map_option (\<lambda>means. case map_of means ''faithfulness'' of Some x \<Rightarrow> x | None \<Rightarrow> NaN)
                 (judge model
                   (case dict_get vars ''OLLAMA_EMBED_MODEL'' of Some m \<Rightarrow> m | None \<Rightarrow> ''nomic-embed-text'')
                   (case dict_get vars ''ATLAS_EVAL_JUDGE_BASE_URL'' of Some u \<Rightarrow> u | None \<Rightarrow> fallback)
                   (map2 (\<lambda>r out. \<lparr>es_id = er_case_id r, es_question = er_question r, es_answer = out,
                            es_contexts = er_contexts r, es_ground_truth = er_ground_truth r\<rparr>) rows outputs))
           | _ \<Rightarrow> None)"

lemma judge_address_needs_fallback:
  assumes "dict_get vars ''ATLAS_EVAL_JUDGE_BASE_URL'' = Some u" "dict_get vars ''OLLAMA_BASE_URL'' = None"
  shows "faithfulness vars judge rows outputs = None"
  using assms by (simp add: faithfulness_def split: option.splits)

text \<open>How many samples are judged: \<open>-1\<close> is all, \<open>0\<close> none.\<close>

definition judged :: "world \<Rightarrow> opts \<Rightarrow> eval_row list \<Rightarrow> string list \<Rightarrow> pyfloat option" where
  "judged w q rows outputs =
     (let n = (if op_faith q < 0 then length rows else nat (op_faith q))
      in if n > 0 then faithfulness (ew_vars w) (ew_judge w) (take n rows) (take n outputs) else None)"

definition one_side :: "world \<Rightarrow> opts \<Rightarrow> eval_row list \<Rightarrow> pyfloat \<times> pyfloat \<Rightarrow> string list \<Rightarrow> string list \<Rightarrow> side" where
  "one_side w q rows clock golden refusal =
     \<lparr>sd_golden = golden, sd_refusal = refusal, sd_faith = judged w q rows golden, sd_faith_cases = [],
      sd_latencies = batch_latencies (fst clock) (snd clock) (length golden)\<rparr>"

definition side_file :: "json \<Rightarrow> scores \<Rightarrow> side \<Rightarrow> json" where
  "side_file model sc sd =
     JObj [(''model'', model), (''scores'', JObj (map (\<lambda>(k, x). (k, JFloat x)) sc)),
           (''golden'', JList (map JStr (sd_golden sd))), (''refusal'', JList (map JStr (sd_refusal sd)))]"

text \<open>The upload of the results, if asked for; \<open>None\<close> is the missing token.\<close>

definition uploads :: "world \<Rightarrow> opts \<Rightarrow> string list option" where
  "uploads w q =
     (case op_upload q of
        Some (c # cs) \<Rightarrow> (case dict_get (ew_vars w) ''HF_TOKEN'' of None \<Rightarrow> None | Some _ \<Rightarrow> Some [c # cs])
      | _ \<Rightarrow> Some [])"

text \<open>
  From the outputs to the files: scores, the cost of the window, the comparison and the upload. The JSON
  files are listed; the Markdown written beside \<open>comparison.json\<close> is in \<open>Report_Markdown\<close>, where every
  comparison of an episode is shown to have one.
\<close>

definition evidence_stage ::
  "world \<Rightarrow> opts \<Rightarrow> run_config \<Rightarrow> pyfloat \<Rightarrow> string \<Rightarrow> string \<Rightarrow> eval_row list \<Rightarrow> side \<Rightarrow> side
     \<Rightarrow> (string \<times> json) list \<times> string list \<times> (driver_error, cost_record) result" where
  "evidence_stage w q c rate currency name rows base ft =
     (case (side_scores rows (ew_refusals w) base, side_scores rows (ew_refusals w) ft) of
        (Inr bs, Inr fs) \<Rightarrow>
          (case ew_window w of
             ((start, started), (stop, stopped)) \<Rightarrow>
               (case meter_record rate currency True stop stopped
                       (meter_exit stop stopped (meter_enter start started new_meter)) of
                  Inl e \<Rightarrow> ([], [], Inl (MeterBroken e))
                | Inr cost \<Rightarrow>
                    (let files = [(''base.json'', side_file (cfg_base_model c) bs base),
                           (''ft.json'', side_file (JStr name) fs ft), (''cost.json'', JObj (record_json cost))]
                     in case evidence (ew_stats w) (ew_sha w) (ew_now w)
                            \<lparr>ep_rows = rows, ep_cases = ew_refusals w, ep_base = base, ep_ft = ft, ep_rate = rate,
                             ep_gpu = (case dict_get (ew_vars w) ''ATLAS_GPU_LABEL'' of Some l \<Rightarrow> l | None \<Rightarrow> ''L4''),
                             ep_base_model = show_id (tc_fmt (ew_teaching w)) (cfg_base_model c), ep_ft_model = name, ep_cost = cost\<rparr> of
                          Inl e \<Rightarrow> (files, [], Inl (EvidenceFailed e))
                        | Inr cmp \<Rightarrow>
                            (files @ [(''comparison.json'', JObj (to_json cmp))],
                             case uploads w q of None \<Rightarrow> ([], Inl NoUploadToken) | Some ups \<Rightarrow> (ups, Inr cost)))))
      | (Inl e, _) \<Rightarrow> ([], [], Inl (EvidenceFailed e))
      | (_, Inl e) \<Rightarrow> ([], [], Inl (EvidenceFailed e)))"

definition ended :: "data_files \<Rightarrow> call list \<Rightarrow> job option \<Rightarrow> gen_request list \<Rightarrow> driver_error \<Rightarrow> outcome" where
  "ended fs calls j made e =
     \<lparr>oc_files = fs, oc_calls = calls, oc_job = j, oc_requests = made, oc_results = [], oc_uploads = [], oc_end = Inl e\<rparr>"

definition seed_of :: "run_config \<Rightarrow> int" where
  "seed_of c = (case config_seed c of JInt i \<Rightarrow> i | _ \<Rightarrow> 0)"

definition episode_main :: "world \<Rightarrow> opts \<Rightarrow> data_files \<Rightarrow> outcome" where
  "episode_main w q fs =
     (case ew_config w of
        Inl e \<Rightarrow> ended fs [] None [] (ConfigBroken e)
      | Inr c \<Rightarrow>
          (case prepare_data (ew_teaching w) (train_system (op_bake q)) (seed_of c) (op_generate q) (op_build q) fs of
             (fs1, Inl e) \<Rightarrow> ended fs1 [] None [] (DataBroken e)
           | (fs1, Inr _) \<Rightarrow>
               (case gpu_rate_from_env (ew_parse w) (ew_vars w) of
                  Inl e \<Rightarrow> ended fs1 [] None [] (RateBroken e)
                | Inr (rate, currency) \<Rightarrow>
                    (case adapter_stage w q c fs1 of
                       (calls, j, Inl e) \<Rightarrow> ended fs1 calls j [] e
                     | (calls, j, Inr (adapter, name)) \<Rightarrow>
                         (case res_bind (tc_corpus (ew_teaching w))
                                 (\<lambda>corp. golden_prompts (tc_fmt (ew_teaching w)) corp (ew_golden w)) of
                            Inl e \<Rightarrow> ended fs1 calls j [] (GoldenBroken e)
                          | Inr rows \<Rightarrow>
                              (case run_requests (ew_lm w)
                                      (the_requests (tc_fmt (ew_teaching w)) c (train_system (op_bake q)) adapter rows (ew_refusals w)) of
                                 (made, Some [bg, br, fg, fr]) \<Rightarrow>
                                   (case evidence_stage w q c rate currency name rows
                                           (one_side w q rows (ew_base_time w) bg br)
                                           (one_side w q rows (ew_ft_time w) fg fr) of
                                      (results, ups, r) \<Rightarrow>
                                        \<lparr>oc_files = fs1, oc_calls = calls, oc_job = j, oc_requests = made,
                                         oc_results = results, oc_uploads = ups, oc_end = r\<rparr>)
                               | (made, _) \<Rightarrow> ended fs1 calls j made GenerationFailed))))))"

text \<open>Box mode looks for the name of its repository only once the model is trained: without it, nothing is pushed.\<close>

lemma box_mode_checks_late:
  assumes "ef_benchmark_only (op_flags q) = None" "ef_hf_only (op_flags q)"
    and "dict_get (ew_vars w) ''ATLAS_HF_ADAPTER_REPO'' = None"
    and "train_job (ew_parse w) (tc_loads (ew_teaching w)) (ew_trainer w) None c fs (ef_out (op_flags q)) = (calls, Inr (j, res))"
  shows "adapter_stage w q c fs = (calls, Some j, Inl (ModelBroken (MissingVariable ''ATLAS_HF_ADAPTER_REPO'')))"
  using assms by (simp add: adapter_stage_def use_tracker_def episode_model_def)

section \<open>Training and evaluation see the same conversation\<close>

lemma requests_made: "run_requests lm gs = (made, r) \<Longrightarrow> set made \<subseteq> set gs"
  by (induction gs arbitrary: made r) (fastforce split: option.splits prod.splits)+

text \<open>A trained episode went through its stages.\<close>

lemma episode_stages:
  assumes "oc_job (episode_main w q fs) = Some j"
  shows "\<exists>c fs1 rate currency calls r. ew_config w = Inr c
    \<and> prepare_data (ew_teaching w) (train_system (op_bake q)) (seed_of c) (op_generate q) (op_build q) fs = (fs1, Inr ())
    \<and> gpu_rate_from_env (ew_parse w) (ew_vars w) = Inr (rate, currency)
    \<and> adapter_stage w q c fs1 = (calls, Some j, r)
    \<and> oc_files (episode_main w q fs) = fs1 \<and> oc_calls (episode_main w q fs) = calls
    \<and> (\<forall>g\<in>set (oc_requests (episode_main w q fs)).
         \<exists>adapter name rows. r = Inr (adapter, name)
           \<and> g \<in> set (the_requests (tc_fmt (ew_teaching w)) c (train_system (op_bake q)) adapter rows (ew_refusals w)))"
proof -
  obtain c where c: "ew_config w = Inr c"
    using assms by (auto simp: episode_main_def ended_def split: sum.splits)
  obtain fs1 d where d: "prepare_data (ew_teaching w) (train_system (op_bake q)) (seed_of c) (op_generate q) (op_build q) fs
      = (fs1, d)" by (metis surj_pair)
  then have dr: "d = Inr ()"
    using assms c by (cases d) (simp_all add: episode_main_def ended_def)
  obtain rate currency where g: "gpu_rate_from_env (ew_parse w) (ew_vars w) = Inr (rate, currency)"
    using assms c d dr by (auto simp: episode_main_def ended_def split: sum.splits)
  obtain calls j' r where a: "adapter_stage w q c fs1 = (calls, j', r)" by (metis prod_cases3)
  note run = c d dr g a
  show ?thesis
  proof (cases r)
    case (Inl e)
    then show ?thesis using assms run by (auto simp: episode_main_def ended_def)
  next
    case (Inr p)
    obtain adapter name where p: "p = (adapter, name)" by (cases p)
    note run = run Inr p
    show ?thesis
    proof (cases "res_bind (tc_corpus (ew_teaching w)) (\<lambda>corp. golden_prompts (tc_fmt (ew_teaching w)) corp (ew_golden w))")
      case (Inl e)
      then show ?thesis using assms run by (auto simp: episode_main_def ended_def)
    next
      case (Inr rows)
      let ?gs = "the_requests (tc_fmt (ew_teaching w)) c (train_system (op_bake q)) adapter rows (ew_refusals w)"
      obtain made out where m: "run_requests (ew_lm w) ?gs = (made, out)" by (metis surj_pair)
      have "oc_files (episode_main w q fs) = fs1" "oc_calls (episode_main w q fs) = calls"
        "oc_job (episode_main w q fs) = j'" "oc_requests (episode_main w q fs) = made"
        using run Inr m by (auto simp: episode_main_def ended_def split: option.split list.split prod.split)
      then show ?thesis using assms run requests_made [OF m] by auto
    qed
  qed
qed

lemma training_job_model: "training_job loads c fs out = Inr j \<Longrightarrow> jb_model j = cfg_base_model c"
  by (auto simp: training_job_def split: option.splits prod.splits)

lemma train_job_Inr:
  "train_job parse loads trainer tracking c fs out = (calls, Inr (j, res)) \<Longrightarrow>
    training_job loads c fs out = Inr j \<and> tn_path res = out"
  by (cases "training_job loads c fs out")
    (auto simp: train_job_def Let_def split: option.splits prod.splits if_splits)

lemma trained_model:
  assumes "episode_model sv env adapter run_id register_as push create = (calls, Inr (a, name))"
    and "ef_benchmark_only sv = None"
  shows "a = adapter"
  using assms by (auto simp: episode_model_def split: if_splits sum.splits prod.splits option.splits)

lemma adapter_stage_job:
  assumes "adapter_stage w q c fs = (calls, Some j, r)"
  shows "ef_benchmark_only (op_flags q) = None
    \<and> training_job (tc_loads (ew_teaching w)) c fs (ef_out (op_flags q)) = Inr j
    \<and> (\<forall>adapter name. r = Inr (adapter, name) \<longrightarrow> adapter = ef_out (op_flags q))"
proof -
  have b: "ef_benchmark_only (op_flags q) = None"
    using assms by (cases "ef_benchmark_only (op_flags q)") (auto simp: adapter_stage_def Let_def split: prod.splits)
  let ?tracking = "if use_tracker (op_flags q) then Some (ew_run_id w) else None"
  obtain calls1 t where t: "train_job (ew_parse w) (tc_loads (ew_teaching w)) (ew_trainer w) ?tracking c fs
      (ef_out (op_flags q)) = (calls1, t)" by (metis surj_pair)
  obtain i res where i: "t = Inr (i, res)"
    using assms b t by (cases t) (auto simp: adapter_stage_def Let_def split: if_splits sum.splits prod.splits)
  note job = train_job_Inr [OF t [unfolded i]]
  obtain calls2 m where m: "episode_model (op_flags q) (dict_get (ew_vars w)) (tn_path res) (ew_run_id w)
      (show_id (tc_fmt (ew_teaching w)) (ml_register_as (cfg_mlflow c))) (ew_push w) (ew_create w) = (calls2, m)"
    by (metis surj_pair)
  have out: "i = j" "r = (case m of Inl e \<Rightarrow> Inl (ModelBroken e) | Inr x \<Rightarrow> Inr x)"
    using assms b t i m by (auto simp: adapter_stage_def Let_def split: if_splits sum.splits)
  have "adapter = ef_out (op_flags q)" if "r = Inr (adapter, name)" for adapter name
    using trained_model [OF _ b] m that out(2) job by (auto split: sum.splits)
  then show ?thesis using b job out(1) by blast
qed

lemma generated_files:
  assumes "generate_data w system sd n fs = (fs', Inr ())"
    and perm: "\<And>xs. mset (tc_shuffle w xs) = mset xs"
    and "tc_corpus w = Inr c" "ollama_from_env (tc_env w) = Inr t" "generated_pairs w c (gn_model t) n = Some ps"
  shows "\<exists>train val. mset train + mset val = image_mset (example_of system) (mset ps)
    \<and> fl_train fs' = Some (write_examples train) \<and> fl_val fs' = Some (write_examples val)"
proof -
  obtain train val where "split_dataset (tc_shuffle w) system ps = Inr (train, val)"
    "fl_train fs' = Some (write_examples train)" "fl_val fs' = Some (write_examples val)"
    using assms(1,3-5)
    by (cases "split_dataset (tc_shuffle w) system ps")
      (auto simp: generate_data_def build_and_write_def Let_def split: sum.splits prod.splits)
  then show ?thesis using split_dataset_ok [OF _ perm] by blast
qed

lemma example_conversation:
  "system \<noteq> [] \<Longrightarrow> ex_messages (example_of system p) =
     chat_messages system (sy_question p @ NL @ NL @ sy_context p) @ [(''assistant'', sy_answer p)]"
  by (simp add: example_of_def chat_messages_def)

lemma train_system_set: "train_system b \<noteq> []"
  by (simp add: train_system_def MINIMAL_SYSTEM_def SYSTEM_PROMPT_def)


section \<open>A small episode\<close>

definition demo_pairs :: "synthetic_pair list" where
  "demo_pairs = templated_refusals (\<lambda>_. []) (\<lambda>k. k) sample_corpus 1"

definition demo_lines :: "string \<Rightarrow> json option" where
  "demo_lines l =
     map_option example_to_dict (find (\<lambda>e. example_line e = l) (map (example_of SYSTEM_PROMPT) demo_pairs))"

definition demo_teaching :: teaching where
  "demo_teaching = \<lparr>tc_env = [(''ATLAS_SYNTH_GENERATOR_MODEL'', ''t''), (''ATLAS_SYNTH_BASE_URL'', ''u'')],
     tc_corpus = Inr sample_corpus, tc_ask = (\<lambda>_. Some ''no array''), tc_rng = (\<lambda>k. k), tc_shuffle = (\<lambda>xs. xs),
     tc_fmt = (\<lambda>_. []), tc_loads = demo_lines, tc_dumps = (\<lambda>_. ''m''), tc_now = ''now'', tc_git = None, tc_sha = ''sha''\<rparr>"

definition no_files :: data_files where
  "no_files = \<lparr>fl_pairs = None, fl_manifest = None, fl_train = None, fl_val = None\<rparr>"

lemma demo_corpus: "load_corpus sample_loads sample_yaml sample_dir = Inr sample_corpus" "string_ids sample_corpus"
  "tc_corpus demo_teaching = Inr sample_corpus"
proof -
  show "load_corpus sample_loads sample_yaml sample_dir = Inr sample_corpus"
    unfolding sample_corpus_def by (rule sample_corpus_loads)
qed (simp_all add: string_ids_def sample_corpus_def is_str_def demo_teaching_def)

lemma demo_teacher: "\<exists>g. ollama_from_env (tc_env demo_teaching) = Inr g"
  by (simp add: ollama_from_env_def first_set_def demo_teaching_def)

lemma demo_generated: "generated_pairs demo_teaching sample_corpus model n = Some demo_pairs"
proof -
  have "json_array_span ''no array'' = None" by code_simp
  then show ?thesis
    by (simp add: generated_pairs_def demo_teaching_def build_generated_dataset_def generate_doc_pairs_def
        parse_qa_array_def demo_pairs_def sample_corpus_def)
qed

theorem generation_all_or_nothing_witness:
  "\<exists>fs'. generate_data demo_teaching SYSTEM_PROMPT 42 6 no_files = (fs', Inr ())
    \<and> files_agree demo_teaching sample_corpus SYSTEM_PROMPT demo_pairs fs'"
proof -
  obtain fs' r where run: "generate_data demo_teaching SYSTEM_PROMPT 42 6 no_files = (fs', r)" by (metis surj_pair)
  have perm: "mset (tc_shuffle demo_teaching xs) = mset xs" for xs by (simp add: demo_teaching_def)
  have "r \<noteq> Inl TeacherFailed"
    using run demo_teacher demo_generated by (auto simp: generate_data_def demo_corpus(3) Let_def split: sum.splits prod.splits)
  then show ?thesis
    using generation_all_or_nothing [OF demo_corpus perm run] demo_teacher demo_generated run by auto
qed

lemma find_key: "distinct (map f xs) \<Longrightarrow> e \<in> set xs \<Longrightarrow> find (\<lambda>x. f x = f e) xs = Some e"
  by (induction xs) auto

lemma line_end: "\<exists>xs. example_line e = xs @ json_str (example_ref_text e) @ ''}''"
  by (simp add: example_line_def braced_def)

lemma demo_lines_invert:
  "\<forall>p\<in>set demo_pairs. let e = example_of SYSTEM_PROMPT p
     in example_nel_free e \<and> demo_lines (example_line e) = Some (example_to_dict e)"
proof -
  let ?es = "map (example_of SYSTEM_PROMPT) demo_pairs"
  have free: "list_all example_nel_free ?es" by code_simp
  have refs: "map (json_str \<circ> example_ref_text) ?es = [json_str ''f1'', json_str ''l2-b'']" by code_simp
  then obtain e1 e2 where es: "?es = [e1, e2]" "json_str (example_ref_text e1) = json_str ''f1''"
    "json_str (example_ref_text e2) = json_str ''l2-b''" by (auto simp: map_eq_Cons_conv) metis
  have "rev (json_str ''f1'') ! 1 \<noteq> rev (json_str ''l2-b'') ! 1" by code_simp
  moreover have "rev (example_line e) ! 2 = rev (json_str (example_ref_text e)) ! 1" for e
    using line_end [of e] by (auto simp: nth_append json_str_def)
  ultimately have "example_line e1 \<noteq> example_line e2" using es(2,3) by metis
  then have dist: "distinct (map example_line ?es)" unfolding es(1) by simp
  have "find (\<lambda>x. example_line x = example_line e) ?es = Some e" if "e \<in> set ?es" for e
    using find_key [OF dist that] .
  then show ?thesis using free by (auto simp: demo_lines_def list_all_iff Let_def)
qed

definition demo_opts :: opts where
  "demo_opts = \<lparr>op_flags = \<lparr>ef_benchmark_only = None, ef_no_register = True, ef_hf_only = False, ef_out = ''out''\<rparr>,
     op_generate = 6, op_build = False, op_bake = False, op_upload = None, op_faith = 0\<rparr>"

definition demo_world :: world where
  "demo_world = \<lparr>ew_config = Inr (config_of QLORA_QWEN7B), ew_vars = [(''ATLAS_GPU_COST_PER_HOUR'', ''41'')],
     ew_parse = (\<lambda>_. Some (Fin 41)), ew_teaching = demo_teaching,
     ew_trainer = (\<lambda>_. \<lparr>ft_logs = [], ft_end = Some ([], 1)\<rparr>), ew_run_id = ''r'', ew_push = Inr ''v'', ew_create = Inr ''1'',
     ew_golden = [], ew_refusals = [demo_refusal], ew_lm = (\<lambda>_ _ _ _. Some ''no''), ew_judge = (\<lambda>_ _ _ _. None),
     ew_base_time = (Fin 0, Fin 1), ew_ft_time = (Fin 1, Fin 2), ew_window = ((Fin 0, ''s''), (Fin 3, ''e'')),
     ew_stats = demo_stats, ew_sha = ''sha'', ew_now = ''now''\<rparr>"

text \<open>It trains on both pairs, and asks both models.\<close>

lemma demo_trains:
  "\<exists>j. oc_job (episode_main demo_world demo_opts no_files) = Some j
    \<and> oc_requests (episode_main demo_world demo_opts no_files) =
        the_requests (\<lambda>_. []) (config_of QLORA_QWEN7B) SYSTEM_PROMPT ''out'' [] [demo_refusal]"
proof -
  have perm: "mset (tc_shuffle demo_teaching xs) = mset xs" for xs by (simp add: demo_teaching_def)
  obtain t where t: "ollama_from_env (tc_env demo_teaching) = Inr t" using demo_teacher by blast
  let ?c = "config_of QLORA_QWEN7B"
  obtain fs1 where gen: "generate_data demo_teaching SYSTEM_PROMPT (seed_of ?c) 6 no_files = (fs1, Inr ())"
    using generated_files_agree [OF demo_corpus perm t demo_generated] by blast
  obtain train val where tv: "mset train + mset val = image_mset (example_of SYSTEM_PROMPT) (mset demo_pairs)"
    "fl_train fs1 = Some (write_examples train)" "fl_val fs1 = Some (write_examples val)"
    using generated_files [OF gen perm demo_corpus(3) t demo_generated] by blast
  have "set train \<union> set val = example_of SYSTEM_PROMPT ` set demo_pairs"
    using tv(1) by (metis set_image_mset set_mset_mset set_mset_union)
  then have "\<forall>e\<in>set train \<union> set val. example_nel_free e \<and> demo_lines (example_line e) = Some (example_to_dict e)"
    using demo_lines_invert by (auto simp: Let_def)
  then have rows: "load_chat_rows demo_lines (write_examples train) = Some (map chat_row train)"
    "load_chat_rows demo_lines (write_examples val) = Some (map chat_row val)"
    by (simp_all add: written_rows)
  have dtype: "q_compute_dtype (cfg_quant ?c) = JStr ''bfloat16''" by code_simp
  obtain j where j: "training_job demo_lines ?c fs1 ''out'' = Inr j"
    using tv rows dtype by (simp add: training_job_def resolve_dtype_def chat_file_def)
  have stage: "adapter_stage demo_world demo_opts ?c fs1 = ([], Some j, Inr (''out'', ''out''))"
    using j by (simp add: adapter_stage_def demo_world_def demo_opts_def use_tracker_def train_job_def demo_teaching_def
        episode_model_def)
  have rate: "gpu_rate_from_env (ew_parse demo_world) (ew_vars demo_world) = Inr (Fin 41, ''INR'')"
  proof -
    have "str_strip ''41'' \<noteq> []" by code_simp
    then show ?thesis by (simp add: gpu_rate_from_env_def demo_world_def env_or_def)
  qed
  have prep: "prepare_data (ew_teaching demo_world) (train_system (op_bake demo_opts)) (seed_of ?c) (op_generate demo_opts)
      (op_build demo_opts) no_files = (fs1, Inr ())"
    using gen by (simp add: prepare_data_def demo_world_def demo_opts_def train_system_def)
  have rows: "res_bind (tc_corpus (ew_teaching demo_world))
      (\<lambda>corp. golden_prompts (tc_fmt (ew_teaching demo_world)) corp (ew_golden demo_world)) = Inr []"
    by (simp add: demo_world_def demo_corpus(3) golden_prompts_def)
  let ?gs = "the_requests (tc_fmt (ew_teaching demo_world)) ?c (train_system (op_bake demo_opts)) ''out'' [] (ew_refusals demo_world)"
  have req: "run_requests (ew_lm demo_world) ?gs = (?gs, Some [[], [''no''], [], [''no'']])"
  proof -
    have "str_strip ''no'' = ''no''" by code_simp
    then show ?thesis by (simp add: the_requests_def generate_def demo_world_def)
  qed
  have conf: "ew_config demo_world = Inr ?c" by (simp add: demo_world_def)
  obtain results ups e where ev: "evidence_stage demo_world demo_opts ?c (Fin 41) ''INR'' ''out'' []
      (one_side demo_world demo_opts [] (ew_base_time demo_world) [] [''no''])
      (one_side demo_world demo_opts [] (ew_ft_time demo_world) [] [''no'']) = (results, ups, e)" by (metis prod_cases3)
  have "oc_job (episode_main demo_world demo_opts no_files) = Some j"
    "oc_requests (episode_main demo_world demo_opts no_files) = ?gs"
    by (simp_all add: episode_main_def conf prep rate stage rows req ev)
  moreover have "?gs = the_requests (\<lambda>_. []) ?c SYSTEM_PROMPT ''out'' [] [demo_refusal]"
    by (simp add: demo_world_def demo_opts_def demo_teaching_def train_system_def)
  ultimately show ?thesis by simp
qed


end
