(* ===== verification/Corpus_Fetch.thy ===== *)
theory Corpus_Fetch
  imports Train_Synth "HOL-Library.Monad_Syntax"
begin

text \<open>
  The script that refreshes the public layer of the corpus
  (\<open>rag-engine/src/main/resources/corpus/scripts/fetch_layer1.py\<close>): paging through the remote data set for
  each document of the manifest, checking or rewriting its file. The remote pages are a parameter, one
  answer per document and offset; an exception ends the script with the files written so far.
\<close>

section \<open>Finding a row\<close>

text \<open>The first row of a page with the identifier; \<open>None\<close> is a missing key.\<close>

fun find_row :: "json \<Rightarrow> json list \<Rightarrow> json option option" where
  "find_row fid [] = Some None"
| "find_row fid (r # rs) =
     do {
       row \<leftarrow> item r ''row'';
       i \<leftarrow> item row ''financebench_id'';
       if py_eq i fid then Some (Some row) else find_row fid rs
     }"

fun scan_pages :: "(int \<Rightarrow> json option) \<Rightarrow> json \<Rightarrow> int list \<Rightarrow> json option option" where
  "scan_pages page fid [] = Some None"
| "scan_pages page fid (offset # rest) =
     do {
       payload \<leftarrow> page offset;
       v \<leftarrow> item payload ''rows'';
       found \<leftarrow> (case v of JList rs \<Rightarrow> find_row fid rs | _ \<Rightarrow> None);
       (case found of Some row \<Rightarrow> Some (Some row) | None \<Rightarrow> scan_pages page fid rest)
     }"

definition OFFSETS :: "int list" where
  "OFFSETS = [0, 50, 100]"

definition fetch_row :: "(int \<Rightarrow> json option) \<Rightarrow> json \<Rightarrow> json option option" where
  "fetch_row page fid = scan_pages page fid OFFSETS"

section \<open>The script\<close>

definition text_item :: "json \<Rightarrow> string \<Rightarrow> string option" where
  "text_item v k = Option.bind (item v k) (\<lambda>x. case x of JStr s \<Rightarrow> Some s | _ \<Rightarrow> None)"

definition evidence_of :: "json \<Rightarrow> string option" where
  "evidence_of row =
     Option.bind (item row ''evidence'') (\<lambda>v.
       case v of JList (e # _) \<Rightarrow> map_option str_strip (text_item e ''evidence_text'') | _ \<Rightarrow> None)"

text \<open>One document: \<open>None\<close> is an exception, \<open>Some False\<close> a document that is missing.\<close>

definition refresh_doc ::
  "bool \<Rightarrow> (int \<Rightarrow> json option) \<Rightarrow> json \<Rightarrow> (string, string) dict \<Rightarrow> (string, string) dict \<times> bool option" where
  "refresh_doc write page doc files =
     (case Option.bind (item doc ''financebench_id'') (fetch_row page) of
        None \<Rightarrow> (files, None)
      | Some None \<Rightarrow> (files, Some False)
      | Some (Some row) \<Rightarrow>
          (if write then
             (case (evidence_of row, text_item doc ''file'') of
                (Some s, Some f) \<Rightarrow> (dict_set f (s @ NL) files, Some True)
              | _ \<Rightarrow> (files, None))
           else (files, if item doc ''doc_name'' = None then None else Some True)))"

text \<open>The \<open>k\<close>-th document asks \<open>web k\<close>. The result counts the missing documents.\<close>

fun refresh ::
  "bool \<Rightarrow> (nat \<Rightarrow> int \<Rightarrow> json option) \<Rightarrow> nat \<Rightarrow> json list \<Rightarrow> (string, string) dict \<Rightarrow> (string, string) dict \<times> nat option" where
  "refresh write web k [] files = (files, Some 0)"
| "refresh write web k (doc # docs) files =
     (case refresh_doc write (web k) doc files of
        (files1, None) \<Rightarrow> (files1, None)
      | (files1, Some ok) \<Rightarrow>
          (case refresh write web (Suc k) docs files1 of
             (files2, n) \<Rightarrow> (files2, map_option (\<lambda>n. if ok then n else Suc n) n)))"

definition fetch_main ::
  "bool \<Rightarrow> bool \<Rightarrow> (nat \<Rightarrow> int \<Rightarrow> json option) \<Rightarrow> json option \<Rightarrow> (string, string) dict \<Rightarrow> (string, string) dict \<times> int" where
  "fetch_main check write web manifest files =
     (if \<not> (check \<or> write) then (files, 2)
      else case Option.bind manifest (\<lambda>m. Option.bind (item m ''documents'') (\<lambda>v. case v of JList ds \<Rightarrow> Some ds | _ \<Rightarrow> None)) of
             None \<Rightarrow> (files, 1)
           | Some docs \<Rightarrow>
               (case refresh write web 0 docs files of
                  (files', Some 0) \<Rightarrow> (files', 0)
                | (files', _) \<Rightarrow> (files', 1)))"

section \<open>What a refresh does\<close>

text \<open>A row that is found carries the identifier asked for.\<close>

lemma find_row_id: "find_row fid rs = Some (Some row) \<Longrightarrow> \<exists>i. item row ''financebench_id'' = Some i \<and> py_eq i fid"
  by (induction rs) (auto split: bind_splits if_splits)

lemma scan_pages_id: "scan_pages page fid os = Some (Some row) \<Longrightarrow> \<exists>i. item row ''financebench_id'' = Some i \<and> py_eq i fid"
  by (induction os) (auto dest: find_row_id split: bind_splits option.splits json.splits)

lemmas fetch_row_id = scan_pages_id [of _ _ OFFSETS, folded fetch_row_def]

text \<open>Checking changes no file.\<close>

lemma refresh_check: "fst (refresh False web k docs files) = files"
  by (induction docs arbitrary: k)
    (auto simp: refresh_doc_def split: option.splits prod.splits, (metis prod.sel(1))+)

text \<open>What stands in the file of a document after a refresh that completed.\<close>

definition refreshed :: "(nat \<Rightarrow> int \<Rightarrow> json option) \<Rightarrow> nat \<Rightarrow> json \<Rightarrow> (string, string) dict \<Rightarrow> bool" where
  "refreshed web k doc files \<longleftrightarrow>
     (\<exists>fid row s f i. item doc ''financebench_id'' = Some fid \<and> fetch_row (web k) fid = Some (Some row)
        \<and> item row ''financebench_id'' = Some i \<and> py_eq i fid
        \<and> evidence_of row = Some s \<and> text_item doc ''file'' = Some f \<and> dict_get files f = Some (s @ NL))"

lemma refresh_others:
  "(\<forall>doc\<in>set docs. text_item doc ''file'' \<noteq> Some f) \<Longrightarrow>
    dict_get (fst (refresh write web k docs files)) f = dict_get files f"
proof (induction docs arbitrary: k files)
  case (Cons doc docs)
  obtain files1 r where r: "refresh_doc write (web k) doc files = (files1, r)" by (metis surj_pair)
  have "dict_get files1 f = dict_get files f"
    using r Cons.prems by (auto simp: refresh_doc_def split: option.splits if_splits)
  then show ?case
    using Cons.IH [of "Suc k" files1] Cons.prems by (auto simp: r split: option.split prod.split)
qed simp

lemma refresh_complete:
  assumes "refresh True web k docs files = (files', Some 0)" "distinct (map (\<lambda>d. text_item d ''file'') docs)"
  shows "\<forall>j<length docs. refreshed web (k + j) (docs ! j) files'"
  using assms
proof (induction docs arbitrary: k files)
  case (Cons doc docs)
  obtain files1 r where r: "refresh_doc True (web k) doc files = (files1, r)" by (metis surj_pair)
  obtain files2 n where rest: "refresh True web (Suc k) docs files1 = (files2, n)" by (metis surj_pair)
  have out: "r = Some True" "n = Some 0" "files' = files2"
    using Cons.prems(1) by (auto simp: r rest split: option.splits if_splits)
  obtain fid row s f where d: "item doc ''financebench_id'' = Some fid" "fetch_row (web k) fid = Some (Some row)"
    "evidence_of row = Some s" "text_item doc ''file'' = Some f" "files1 = dict_set f (s @ NL) files"
    using r out(1) by (auto simp: refresh_doc_def split: option.splits bind_splits)
  have "\<forall>d\<in>set docs. text_item d ''file'' \<noteq> Some f" using Cons.prems(2) d(4) by force
  then have "dict_get files2 f = Some (s @ NL)" using refresh_others [of docs f True web "Suc k" files1] rest d(5) by simp
  then have "refreshed web k doc files'"
    unfolding refreshed_def using d fetch_row_id [OF d(2)] out(3) by blast
  moreover have "\<forall>j<length docs. refreshed web (Suc k + j) (docs ! j) files'"
    using Cons.IH [of "Suc k" files1] rest out Cons.prems(2) by simp
  ultimately show ?case by (auto simp: nth_Cons split: nat.split)
qed simp

text \<open>
  A refresh that exits with 0 left, in the file of every document, the evidence of a row with the
  identifier of that document; a check changes nothing.
\<close>

lemma fetch_main_ok:
  assumes "fetch_main check True web (Some m) files = (files', 0)" "item m ''documents'' = Some (JList docs)"
    and "distinct (map (\<lambda>d. text_item d ''file'') docs)"
  shows "\<forall>j<length docs. refreshed web j (docs ! j) files'"
  using assms refresh_complete [OF _ assms(3), of web 0 files]
  by (auto simp: fetch_main_def split: prod.splits option.splits nat.splits)

lemma fetch_main_check: "fst (fetch_main check False web m files) = files"
  using refresh_check [of web 0 _ files]
  by (auto simp: fetch_main_def split: prod.splits option.splits nat.splits) (metis fst_conv)+

end
