(* ===== verification/Spec2Isabelle.thy ===== *)
theory Spec2Isabelle
  imports Agent_Services Gpu_Cli Gpu_Sdk Eval_Record Eval_Drift Report_Markdown Bench_Sweep
    Train_Wilcoxon Train_Boot Train_Driver Corpus_Fetch
begin

text \<open>
  A verification development of the Atlas compliance copilot: the Python of the repository.

  \<^bold>\<open>The program.\<close>  An agent (\<open>agents/app\<close>) answers a compliance question: a LangGraph graph plans, asks
  the gateway's RAG service, decides from the amounts in the retrieved text whether a suspicious
  activity report is due, stops for a human decision and, if approved, opens a draft through an MCP
  server. Around it: the lifecycle of the rented GPU (\<open>infra/gpu\<close>), the evaluation and merge gates
  (\<open>evals/atlas_evals\<close>), the fine-tuning pipeline with its corpus, data set, registry and promotion
  gate (\<open>training\<close>), and the serving benchmark (\<open>infra/bench\<close>). The parts meet in files: cassettes,
  baselines, manifests, JSON lines, comparisons.

  \<^bold>\<open>Python\<close> (shared by all).
  \<^item> \<open>Atlas_Prelude\<close>: result types, dictionaries as association lists, list lemmas.
  \<^item> \<open>Py_Float\<close>, \<open>Py_Num\<close>, \<open>Py_Sort\<close>: binary64 with rounding (\<open>fl\<close>), division, \<open>round\<close>, parsing, ordering,
    sorting and the compensated \<open>sum\<close> of Python 3.12.
  \<^item> \<open>Py_Text\<close>, \<open>Py_Int\<close>, \<open>Py_Json\<close>: string methods, a regular expression matcher, \<open>str(int)\<close>, \<open>int(str)\<close>, JSON
    values and Python equality.

  \<^bold>\<open>Agent\<close> (\<open>agents/app\<close>).
  \<^item> \<open>Agent_Text\<close>: \<open>amounts.py\<close>, \<open>logging_config.py\<close>, \<open>jwt_utils.py\<close>.  \<open>Agent_Mcp\<close>: \<open>mcp_client.py\<close>,
    \<open>gateway_client.py\<close>.
  \<^item> \<open>Agent_Graph\<close>: \<open>state.py\<close>, \<open>nodes/\<close>, \<open>graph.py\<close>.  \<open>Agent_Run\<close>: \<open>runner.py\<close> over a world of checkpoints,
    sent messages and counters. A world is explicit state; every request on the wire is recorded in it.
  \<^item> \<open>Agent_Safety\<close>, \<open>Agent_Behaviour\<close>, \<open>Agent_Metrics\<close>: invariants by rule induction over the reachable
    worlds (no write without approval, one write per run, single use of an approval, the counters), and
    what one start or resume does on every branch.
  \<^item> \<open>Agent_Api\<close>: \<open>api.py\<close>.  \<open>Agent_Services\<close>: \<open>config.py\<close>, \<open>checkpointer.py\<close>, \<open>gateway_client.py\<close>, \<open>tracing.py\<close>
    and log records; the wiring of the production runner and the order of requests on the wire.
    \<open>Agent_Eval\<close>: \<open>eval/\<close>, the committed scenarios on the modelled graph.

  \<^bold>\<open>GPU\<close> (\<open>infra/gpu/atlas_gpu\<close>).
  \<^item> \<open>Gpu_Provision\<close>: \<open>provision.py\<close>, \<open>bootstrap.py\<close>.  \<open>Gpu_Lifecycle\<close>: \<open>lifecycle.py\<close> over an interface of
    providers (locales).  \<open>Gpu_Jarvis\<close>: \<open>providers.py\<close>, whose history of calls tells which instances may
    bill.  \<open>Gpu_Sdk\<close>: \<open>sdk.py\<close>.  \<open>Gpu_Cli\<close>: \<open>__main__.py\<close> and the HTTP probe.

  \<^bold>\<open>Evaluation\<close> (\<open>evals/atlas_evals\<close>).
  \<^item> \<open>Eval_Datasets\<close>, \<open>Eval_Cassettes\<close>, \<open>Eval_Metrics\<close>, \<open>Eval_Gate\<close>, \<open>Eval_Run\<close>: data sets, recorded answers,
    metrics, the decision, and the gate command composed from them.
  \<^item> \<open>Eval_Recalibrate\<close>, \<open>Eval_Record\<close>: \<open>baseline.py\<close>, \<open>record.py\<close>, \<open>ab.py\<close>, \<open>fingerprint.py\<close>, \<open>langfuse_sync.py\<close> and the
    recording half of \<open>metrics/ragas_scorer.py\<close>: what is recorded is what the gate replays.
  \<^item> \<open>Eval_Summary\<close>, \<open>Eval_Drift\<close>: the report object, the published summary, exposition texts and alerts.
  \<^item> \<open>Eval_Promotion\<close>, \<open>Eval_Release\<close>: \<open>promotion_floors.py\<close>, \<open>promotion_gate.py\<close>, \<open>cost_gate.py\<close>, \<open>cost_report.py\<close>,
    with the policy they implement.  \<open>Report_Markdown\<close>: the Markdown of both gates and of an episode.

  \<^bold>\<open>Training\<close> (\<open>training/atlas_training\<close>, \<open>training/scripts\<close>).
  \<^item> \<open>Train_Config\<close>, \<open>Train_Registry\<close>, \<open>Train_Corpus\<close>, \<open>Train_Manifest\<close>, \<open>Train_Synth\<close>, \<open>Train_Files\<close>: configuration,
    model registry, trusted corpus, provenance manifest, synthetic pairs, their files.
  \<^item> \<open>Train_Stats\<close>, \<open>Train_Wilcoxon\<close>: \<open>stats.py\<close>.  \<open>Train_Report\<close>, \<open>Train_Cost\<close>: \<open>report.py\<close>, \<open>cost.py\<close>.
  \<^item> \<open>Train_Episode\<close>: \<open>infer.py\<close> and the evidence of \<open>run_episodic.py\<close>.  \<open>Train_Window\<close>: \<open>launch_gpu_run.py\<close>,
    \<open>p7_episodic_run.py\<close>.  \<open>Train_Boot\<close>: the boot template and its replacements.
  \<^item> \<open>Train_Wiring\<close>: \<open>train.py\<close> and the registry scripts.  \<open>Train_Mlflow\<close>: the registry and hub clients of
    \<open>tracking.py\<close> with their failures.  \<open>Train_Examples\<close>: example files and teachers.
  \<^item> \<open>Train_Driver\<close>: \<open>run_episodic.py\<close> as a whole, composed from the theories above.
  \<^item> \<open>Corpus_Fetch\<close>: \<open>fetch_layer1.py\<close>, the script that refreshes the public layer of the corpus.

  \<^bold>\<open>Benchmark\<close> (\<open>infra/bench/atlas_bench\<close>).
  \<^item> \<open>Bench_Load\<close>: \<open>runner.py\<close> as a step relation over its workers.  \<open>Bench_Metrics\<close>, \<open>Bench_Report\<close>,
    \<open>Bench_Client\<close>: \<open>metrics.py\<close>, \<open>report.py\<close>, \<open>client.py\<close>.  \<open>Bench_Sweep\<close>: the command \<open>run\<close> of \<open>__main__.py\<close>.

  \<^bold>\<open>Conventions.\<close>  A raised exception is \<open>Inl\<close> of an error, or \<open>None\<close> where the source has one way to fail. A
  float is an exact rational, an infinity or NaN, and every operation rounds to nearest even; a literal
  such as \<open>0.05\<close> is \<open>fl (5/100)\<close>. A dictionary is an association list without duplicate keys. Strings are
  lists of bytes: characters outside ASCII that the source contains are written as the bytes of their
  UTF-8 encoding. Code outside the repository (graph runtime, HTTP, SDKs, MLflow, the model hub,
  JSON and YAML decoding, hashes, clocks, random numbers, the trainer) is a parameter, and what is relied
  on is a hypothesis.

  \<^bold>\<open>Bounds and fuel.\<close>  The graph runtime stops a run after \<open>recursion_limit\<close> steps; 8 are enough for every
  path (\<open>no_internal_failure\<close>). Loops that wait for a clock are \<open>partial_function (option)\<close> and are shown to
  return once the clock reaches the deadline. Counts below \<open>2^53\<close> (\<open>2^25\<close> where they are squared) are exact as
  floats. All other recursion terminates by a measure.

  \<^bold>\<open>Not modelled.\<close>  The Java services and the TypeScript user interface; argument parsers, console output and
  logging handlers (every parsed option is an argument of the model); the formatting of floats as text;
  what the libraries behind the parameters do: the database, the trainer, GPU generation, the judge, the
  model hub, the registry and the GPU provider. Running the boot script on the instance is outside the
  program; its text is modelled.
\<close>

end
